(* ===== verification/Prelude.thy ===== *)
theory Prelude
  imports
    Main
    "HOL-Library.AList"
    "HOL-Library.Char_ord"
    "HOL-Library.List_Lexorder"
    "HOL-Library.Multiset"
    "HOL-Library.Signed_Division"
begin

text \<open>
  Shared vocabulary of the development.

  \<^item> Results: a function of the source that may throw returns \<open>'e + 'a\<close>, with \<open>Inl\<close> for the
    thrown error. \<open>require\<close> is the source's guard helper (\<open>requireLedger\<close>, \<open>requireRisk\<close>,
    \<open>requireReservation\<close>, \<open>requireMargin\<close>, \<open>requireMetric\<close>): it throws its code when the
    condition fails and continues otherwise.
  \<^item> BigInt: mathematical integers. JavaScript's \<open>/\<close> and \<open>%\<close> truncate towards zero, which is
    \<open>sdiv\<close> and \<open>smod\<close> of the library.
  \<^item> Map: an association list in insertion order. \<open>Map.set\<close> is \<open>AList.update\<close> (it overwrites in
    place and appends a new key), \<open>Map.get\<close> and \<open>Map.has\<close> are \<open>map_of\<close>.
  \<^item> Array.sort with a key comparator is \<open>sort_key\<close>, which is stable as JavaScript's is.

  The locales state the interfaces that several components share: a rounding up and a rounding
  down of an integer quotient, a reducer whose state is tied to the accepted history, and a
  total state machine with an invariant.
\<close>

named_theorems bigint \<open>truncating BigInt division related to div and mod\<close>
named_theorems res_simps \<open>results and guards\<close>

type_synonym time = int
type_synonym ident = string

section \<open>Results and guards\<close>

definition require :: "bool \<Rightarrow> 'e \<Rightarrow> 'e + 'a \<Rightarrow> 'e + 'a" where
  "require ok code k = (if ok then k else Inl code)"

definition bind_res :: "'e + 'a \<Rightarrow> ('a \<Rightarrow> 'e + 'b) \<Rightarrow> 'e + 'b" where
  "bind_res m f = (case m of Inl e \<Rightarrow> Inl e | Inr x \<Rightarrow> f x)"

lemma require_Inr [simp, res_simps]: "require ok c k = Inr x \<longleftrightarrow> ok \<and> k = Inr x"
  by (simp add: require_def)

lemma require_Inl [res_simps]: "require ok c k = Inl e \<longleftrightarrow> (if ok then k = Inl e else e = c)"
  by (auto simp: require_def)

lemma require_True [simp]: "require True c k = k"
  by (simp add: require_def)

lemma require_False [simp]: "require False c k = Inl c"
  by (simp add: require_def)

lemma bind_res_simps [simp]: "bind_res (Inl e) f = Inl e" "bind_res (Inr x) f = f x"
  by (simp_all add: bind_res_def)

lemma bind_res_Inr [simp, res_simps]:
  "bind_res m f = Inr y \<longleftrightarrow> (\<exists>x. m = Inr x \<and> f x = Inr y)"
  by (cases m) simp_all

lemma bind_res_assoc: "bind_res (bind_res m f) g = bind_res m (\<lambda>x. bind_res (f x) g)"
  by (cases m) simp_all

text \<open>An error of a callee, rethrown by its caller under the caller's error type.\<close>

definition with_error :: "('d \<Rightarrow> 'e) \<Rightarrow> 'd + 'a \<Rightarrow> 'e + 'a" where
  "with_error f r = (case r of Inl e \<Rightarrow> Inl (f e) | Inr x \<Rightarrow> Inr x)"

lemma with_error_simps [simp]: "with_error f (Inl e) = Inl (f e)" "with_error f (Inr x) = Inr x"
  by (simp_all add: with_error_def)

lemma with_error_Inr [simp, res_simps]: "with_error f r = Inr x \<longleftrightarrow> r = Inr x"
  by (cases r) simp_all

text \<open>A loop \<open>for (const x of xs) step(x)\<close> that stops at the first throw.\<close>

fun fold_res :: "('s \<Rightarrow> 'a \<Rightarrow> 'e + 's) \<Rightarrow> 's \<Rightarrow> 'a list \<Rightarrow> 'e + 's" where
  "fold_res f s [] = Inr s"
| "fold_res f s (x # xs) = bind_res (f s x) (\<lambda>s'. fold_res f s' xs)"

lemma fold_res_append: "fold_res f s (xs @ ys) = bind_res (fold_res f s xs) (\<lambda>s'. fold_res f s' ys)"
  by (induction xs arbitrary: s) (simp_all add: bind_res_assoc)

lemma fold_res_preserves:
  assumes "\<And>s x s'. P s \<Longrightarrow> f s x = Inr s' \<Longrightarrow> P s'" and "P s" and "fold_res f s xs = Inr s'"
  shows "P s'"
  using assms(2,3)
proof (induction xs arbitrary: s)
  case (Cons x xs)
  then obtain t where "f s x = Inr t" "fold_res f t xs = Inr s'" by auto
  with Cons.IH assms(1) Cons.prems(1) show ?case by blast
qed simp

text \<open>
  A reducer accepts inputs one at a time, or refuses one and stops. Its contract is an invariant
  between the accepted history and the state. Reading the inputs page by page is the same
  reduction.
\<close>

locale history_reducer =
  fixes step :: "'s \<Rightarrow> 'a \<Rightarrow> 'e + 's"
    and init :: 's
    and inv :: "'a list \<Rightarrow> 's \<Rightarrow> bool"
  assumes inv_init: "inv [] init"
    and inv_step: "inv h s \<Longrightarrow> step s x = Inr s' \<Longrightarrow> inv (h @ [x]) s'"
begin

lemma fold_inv: "inv h s \<Longrightarrow> fold_res step s xs = Inr s' \<Longrightarrow> inv (h @ xs) s'"
proof (induction xs arbitrary: h s)
  case Nil
  then show ?case by simp
next
  case (Cons x xs)
  then obtain t where "step s x = Inr t" and t: "fold_res step t xs = Inr s'" by auto
  with Cons.prems have "inv (h @ [x]) t" by (blast intro: inv_step)
  from Cons.IH [OF this t] show ?case by simp
qed

lemma run_inv: "fold_res step init xs = Inr s \<Longrightarrow> inv xs s"
  using fold_inv [OF inv_init] by simp

lemma paged: "fold_res step s (concat pages) = fold_res (fold_res step) s pages"
proof (induction pages arbitrary: s)
  case Nil
  then show ?case by simp
next
  case (Cons p pages)
  then show ?case by (cases "fold_res step s p") (simp_all add: fold_res_append)
qed

end

text \<open>A reducer that never refuses is one whose results are all \<open>Inr\<close>.\<close>

locale total_reducer =
  fixes step :: "'s \<Rightarrow> 'a \<Rightarrow> 's"
    and init :: 's
    and inv :: "'a list \<Rightarrow> 's \<Rightarrow> bool"
  assumes total_init: "inv [] init"
    and total_step: "inv h s \<Longrightarrow> inv (h @ [x]) (step s x)"

sublocale total_reducer \<subseteq> as_result: history_reducer "\<lambda>s x. (Inr (step s x) :: unit + 's)" init inv
  by unfold_locales (auto intro: total_init total_step)

lemma fold_res_total: "fold_res (\<lambda>s x. Inr (f s x)) s xs = Inr (foldl f s xs)"
  by (induction xs arbitrary: s) simp_all

context total_reducer
begin

lemma foldl_inv: "inv xs (foldl step init xs)"
  using as_result.run_inv [of xs] by (simp add: fold_res_total)

end

section \<open>Maps and sorting\<close>

lemmas map_update = update_conv' dom_update distinct_update

lemma keys_map_of: "fst ` set m = dom (map_of m)"
  by (simp add: dom_map_of_conv_image_fst)

lemma sort_distinct_keys:
  "distinct (map f xs) \<Longrightarrow> sorted_wrt (<) (map f (sort_key f xs))"
proof -
  assume "distinct (map f xs)"
  moreover have "mset (map f (sort_key f xs)) = mset (map f xs)" by simp
  ultimately have "distinct (map f (sort_key f xs))" using mset_eq_imp_distinct_iff by blast
  then show ?thesis by (simp add: strict_sorted_iff)
qed

lemma map_of_sort_key: "distinct (map fst m) \<Longrightarrow> map_of (sort_key fst m) = map_of m"
proof -
  assume m: "distinct (map fst m)"
  moreover have "mset (map fst (sort_key fst m)) = mset (map fst m)" by simp
  ultimately have "distinct (map fst (sort_key fst m))" using mset_eq_imp_distinct_iff by blast
  with m show ?thesis by (simp add: map_of_inject_set)
qed

lemma sum_list_mset: "mset xs = mset ys \<Longrightarrow> sum_list (map f xs) = sum_list (map f ys)"
  for f :: "'a \<Rightarrow> int"
  by (metis mset_map sum_mset_sum_list)

section \<open>Truncating division\<close>

lemma sdiv_nonneg [bigint]: "0 \<le> n \<Longrightarrow> 0 \<le> d \<Longrightarrow> n sdiv d = n div d" for n d :: int
  by (cases "n = 0"; cases "d = 0") (simp_all add: signed_divide_int_def sgn_if)

lemma smod_nonneg [bigint]: "0 \<le> n \<Longrightarrow> 0 \<le> d \<Longrightarrow> n smod d = n mod d" for n d :: int
  by (rule smod_mod_positive)

lemma smod_eq_0_iff [bigint]: "n smod d = 0 \<longleftrightarrow> d dvd n" for n d :: int
proof -
  have "n smod d = 0 \<longleftrightarrow> n = 0 \<or> \<bar>n\<bar> mod \<bar>d\<bar> = 0"
    by (simp add: smod_int_alt_def sgn_0_0)
  also have "\<dots> \<longleftrightarrow> d dvd n"
    by (auto simp: mod_eq_0_iff_dvd)
  finally show ?thesis .
qed

text \<open>The source's signed floor: the truncated quotient, less one on an inexact negative.\<close>

lemma trunc_floor [bigint]:
  "0 < d \<Longrightarrow> n sdiv d - (if n < 0 \<and> n smod d \<noteq> 0 then 1 else 0) = n div d" for n d :: int
  by (auto simp: signed_divide_int_eq_divide_int smod_eq_0_iff sgn_if)

lemma trunc_floor_Not [bigint]:
  "0 < d \<Longrightarrow> n sdiv d - (if n < 0 \<and> \<not> d dvd n then 1 else 0) = n div d" for n d :: int
  using trunc_floor [of d n] by (simp add: smod_eq_0_iff)

section \<open>Rounding interfaces\<close>

text \<open>
  A client that charges, holds or reports \<open>n / d\<close> relies on one of two contracts: rounding up
  never takes less than the exact quotient and at most one unit more; rounding down is the
  mirror image. The source repeats the same helper per module, so each module interprets the
  contract on its own copy.
\<close>

lemma mult_less_succ: "0 < d \<Longrightarrow> d * a < d * b + d \<Longrightarrow> a \<le> b" for a b d :: int
proof -
  assume "0 < d" and "d * a < d * b + d"
  then have "d * a < d * (b + 1)" by (simp add: distrib_left)
  with \<open>0 < d\<close> have "a < b + 1" by (simp only: mult_less_cancel_left_pos)
  then show "a \<le> b" by simp
qed

locale rounds_up =
  fixes up :: "int \<Rightarrow> int \<Rightarrow> int"
  assumes up_ge: "0 \<le> n \<Longrightarrow> 0 < d \<Longrightarrow> n \<le> d * up n d"
    and up_lt: "0 \<le> n \<Longrightarrow> 0 < d \<Longrightarrow> d * up n d < n + d"
begin

lemma up_le_iff: "0 \<le> n \<Longrightarrow> 0 < d \<Longrightarrow> up n d \<le> k \<longleftrightarrow> n \<le> d * k"
proof
  assume n: "0 \<le> n" and d: "0 < d" and "up n d \<le> k"
  then have "d * up n d \<le> d * k" by simp
  with up_ge [OF n d] show "n \<le> d * k" by linarith
next
  assume n: "0 \<le> n" and d: "0 < d" and "n \<le> d * k"
  with up_lt [OF n d] have "d * up n d < d * k + d" by linarith
  with d show "up n d \<le> k" by (rule mult_less_succ)
qed

lemma up_unique: "0 \<le> n \<Longrightarrow> 0 < d \<Longrightarrow> n \<le> d * k \<Longrightarrow> d * k < n + d \<Longrightarrow> up n d = k"
proof (rule antisym)
  assume n: "0 \<le> n" and d: "0 < d" and "n \<le> d * k" and k: "d * k < n + d"
  then show "up n d \<le> k" by (simp add: up_le_iff)
  from k up_ge [OF n d] have "d * k < d * up n d + d" by linarith
  with d show "k \<le> up n d" by (rule mult_less_succ)
qed

lemma up_nonneg: "0 \<le> n \<Longrightarrow> 0 < d \<Longrightarrow> 0 \<le> up n d"
proof -
  assume n: "0 \<le> n" and d: "0 < d"
  have "d * 0 < d * up n d + d" using up_ge [OF n d] n d by simp
  with d show "0 \<le> up n d" by (rule mult_less_succ)
qed

lemma up_0 [simp]: "0 < d \<Longrightarrow> up 0 d = 0"
  by (rule up_unique) auto

lemma up_exact: "0 \<le> k \<Longrightarrow> 0 < d \<Longrightarrow> up (d * k) d = k"
  by (rule up_unique) auto

lemma up_mono: "0 \<le> m \<Longrightarrow> m \<le> n \<Longrightarrow> 0 < d \<Longrightarrow> up m d \<le> up n d"
  using up_ge [of n d] by (simp add: up_le_iff)

lemma up_subadditive: "0 \<le> m \<Longrightarrow> 0 \<le> n \<Longrightarrow> 0 < d \<Longrightarrow> up (m + n) d \<le> up m d + up n d"
  using up_ge [of m d] up_ge [of n d] by (simp add: up_le_iff distrib_left)

lemma up_add_lower: "0 \<le> m \<Longrightarrow> 0 \<le> n \<Longrightarrow> 0 < d \<Longrightarrow> up m d + up n d \<le> up (m + n) d + 1"
proof -
  assume m: "0 \<le> m" and n: "0 \<le> n" and d: "0 < d"
  have "d * (up m d + up n d) < d * (up (m + n) d + 1) + d"
    using up_ge [of "m + n" d] up_lt [OF m d] up_lt [OF n d] m n d by (simp add: distrib_left)
  with d show ?thesis by (rule mult_less_succ)
qed

end

locale rounds_down =
  fixes down :: "int \<Rightarrow> int \<Rightarrow> int"
  assumes down_le: "0 < d \<Longrightarrow> d * down n d \<le> n"
    and down_gt: "0 < d \<Longrightarrow> n < d * down n d + d"
begin

lemma down_ge_iff: "0 < d \<Longrightarrow> k \<le> down n d \<longleftrightarrow> d * k \<le> n"
proof
  assume d: "0 < d" and "k \<le> down n d"
  then have "d * k \<le> d * down n d" by simp
  with down_le [OF d, of n] show "d * k \<le> n" by linarith
next
  assume d: "0 < d" and "d * k \<le> n"
  with down_gt [OF d, of n] have "d * k < d * down n d + d" by linarith
  with d show "k \<le> down n d" by (rule mult_less_succ)
qed

lemma down_unique: "0 < d \<Longrightarrow> d * k \<le> n \<Longrightarrow> n < d * k + d \<Longrightarrow> down n d = k"
proof (rule antisym)
  assume d: "0 < d" and "d * k \<le> n" and k: "n < d * k + d"
  then show "k \<le> down n d" by (simp add: down_ge_iff)
  from k down_le [OF d, of n] have "d * down n d < d * k + d" by linarith
  with d show "down n d \<le> k" by (rule mult_less_succ)
qed

lemma down_div: "0 < d \<Longrightarrow> down n d = n div d"
proof (rule down_unique)
  assume d: "0 < d"
  then show "0 < d" .
  show "d * (n div d) \<le> n" and "n < d * (n div d) + d"
    using pos_mod_sign [OF d, of n] pos_mod_bound [OF d, of n] mult_div_mod_eq [of d n] by linarith+
qed

lemma down_mono: "m \<le> n \<Longrightarrow> 0 < d \<Longrightarrow> down m d \<le> down n d"
  by (simp add: down_div zdiv_mono1)

lemma down_superadditive: "0 < d \<Longrightarrow> down m d + down n d \<le> down (m + n) d"
  using down_le [of d m] down_le [of d n] by (simp add: down_ge_iff distrib_left)

lemma down_add_upper: "0 < d \<Longrightarrow> down (m + n) d \<le> down m d + down n d + 1"
proof -
  assume d: "0 < d"
  have "d * down (m + n) d < d * (down m d + down n d + 1) + d"
    using down_gt [OF d, of m] down_gt [OF d, of n] down_le [OF d, of "m + n"]
    by (simp add: distrib_left)
  with d show ?thesis by (rule mult_less_succ)
qed

end

lemma div_bounds:
  fixes n d :: int
  assumes "0 < d"
  shows "d * (n div d) \<le> n" and "n < d * (n div d) + d"
  using pos_mod_sign [OF assms, of n] pos_mod_bound [OF assms, of n] mult_div_mod_eq [of d n]
  by linarith+

lemma ceil_ge: "0 \<le> n \<Longrightarrow> 0 < d \<Longrightarrow> n \<le> d * ((n + d - 1) sdiv d)" for n d :: int
  using div_bounds(2) [of d "n + d - 1"] by (simp add: sdiv_nonneg)

lemma ceil_lt: "0 \<le> n \<Longrightarrow> 0 < d \<Longrightarrow> d * ((n + d - 1) sdiv d) < n + d" for n d :: int
  using div_bounds(1) [of d "n + d - 1"] by (simp add: sdiv_nonneg)

lemma floor_le: "0 < d \<Longrightarrow> d * (n sdiv d - (if n < 0 \<and> n smod d \<noteq> 0 then 1 else 0)) \<le> n" for n d :: int
  by (simp only: trunc_floor div_bounds)

lemma floor_gt: "0 < d \<Longrightarrow> n < d * (n sdiv d - (if n < 0 \<and> n smod d \<noteq> 0 then 1 else 0)) + d" for n d :: int
  by (simp only: trunc_floor div_bounds)

end
