(* ===== verification/Ledger.thy ===== *)
theory Ledger
  imports Prelude
begin

text \<open>
  The cash and position ledger of \<open>apps/api/src/trading/ledger.ts\<close>: the event type, the
  incremental reducer \<open>createLedgerReducer\<close> (\<open>ledger_append\<close> and \<open>ledger_snapshot\<close> over the
  record \<open>ledger_state\<close> of its closure variables) and \<open>replayLedger\<close>. Amounts are the integers
  their canonical strings denote; timestamps are the instants their RFC 3339 strings denote.
  \<open>ledger_inv\<close> ties the state to the accepted history; the theorems read the projection off
  the history: cash is the sum of the cash deltas, a position is the signed sum of its fills.
\<close>

datatype trading_mode = Paper
datatype side = Buy | Sell
datatype cash_reason = Initial_Allocation | Transfer

fun side_sign :: "side \<Rightarrow> int" where
  "side_sign Buy = 1"
| "side_sign Sell = -1"

record ledger_scope =
  mode :: trading_mode
  account_id :: ident
  experiment_id :: ident
  instrument_id :: ident
  instrument_version :: ident

record ledger_account =
  acc_mode :: trading_mode
  acc_account_id :: ident
  acc_experiment_id :: ident

record ledger_experiment =
  exp_experiment_id :: ident
  started_at :: time

record ledger_instrument =
  ins_instrument_id :: ident
  ins_instrument_version :: ident
  quantity_step :: int
  tick_size :: int

record ledger_identity =
  li_account :: ledger_account
  li_experiment :: ledger_experiment
  li_instrument :: ledger_instrument

text \<open>Event payloads; \<open>Other\<close> stands for every event type the reducer does not support.\<close>

datatype ledger_payload =
    Cash (cash_reason: cash_reason) (cash_delta: int)
  | Fill (fill_execution: ident) (fill_position: ident) (fill_side: side) (fill_quantity: int) (fill_price: int)
  | Fee (fee_execution: ident) (fee_delta: int)
  | Funding (funding_position: ident) (period_start: time) (period_end: time) (funding_delta: int)
  | Liquidation (liq_execution: ident) (liq_position: ident)
  | Other string

record ledger_event = ledger_scope +
  event_id :: ident
  sequence :: int
  transaction_id :: ident
  cause_id :: ident
  occurred_at :: time
  payload :: ledger_payload

record ledger_projection =
  lp_scope :: ledger_scope
  last_sequence :: int
  cash_usd :: int
  ledger_positions :: "(ident \<times> int) list"

datatype ledger_error = OWNERSHIP | SEQUENCE | IDEMPOTENCY_COLLISION | BEFORE_GENESIS
  | TRANSACTION_ORDER | GENESIS | GENESIS_EXISTS | ZERO_CAPITAL | EXECUTION_EXISTS | INEXACT_FILL
  | FEE_EXECUTION | FUNDING_POSITION_OR_PERIOD | LIQUIDATION_EXECUTION | UNSUPPORTED_EVENT
  | GENESIS_REQUIRED

definition ledgerScope :: "ledger_identity \<Rightarrow> ledger_scope" where
  "ledgerScope idn =
     \<lparr>mode = acc_mode (li_account idn), account_id = acc_account_id (li_account idn),
      experiment_id = acc_experiment_id (li_account idn),
      instrument_id = ins_instrument_id (li_instrument idn),
      instrument_version = ins_instrument_version (li_instrument idn)\<rparr>"

section \<open>The reducer\<close>

record ledger_state =
  ls_cash :: int
  ls_sequence :: int
  ls_positions :: "(ident \<times> int) list"
  ls_executions :: "(ident \<times> ledger_event \<times> bool) list"
  ls_ids :: "ident set"
  ls_fees :: "ident set"
  ls_liquidations :: "ident set"
  ls_funding :: "(ident \<times> time \<times> time) set"
  ls_transactions :: "ident set"
  ls_current :: ident

definition ledger_init :: ledger_state where
  "ledger_init = \<lparr>ls_cash = 0, ls_sequence = 0, ls_positions = [], ls_executions = [], ls_ids = {},
     ls_fees = {}, ls_liquidations = {}, ls_funding = {}, ls_transactions = {}, ls_current = ''''\<rparr>"

definition position_of :: "(ident \<times> int) list \<Rightarrow> ident \<Rightarrow> int" where
  "position_of positions pid = (case map_of positions pid of None \<Rightarrow> 0 | Some q \<Rightarrow> q)"

text \<open>\<open>position_of\<close> is \<open>positions.get(id) ?? 0n\<close>. \<open>ledger_apply\<close> is the \<open>switch\<close> on the payload.\<close>

definition ledger_apply :: "ledger_identity \<Rightarrow> ledger_state \<Rightarrow> ledger_event \<Rightarrow> ledger_error + ledger_state" where
  "ledger_apply idn s event = (case payload event of
     Cash reason delta \<Rightarrow>
       require (reason \<noteq> Initial_Allocation \<or> ls_sequence s = 0) GENESIS_EXISTS
       (require (delta \<noteq> 0) ZERO_CAPITAL
         (Inr (s\<lparr>ls_cash := ls_cash s + delta\<rparr>)))
   | Fill execution pid sd quantity price \<Rightarrow>
       require (map_of (ls_executions s) execution = None) EXECUTION_EXISTS
       (require (quantity > 0 \<and> price > 0 \<and> quantity_step (li_instrument idn) > 0
           \<and> tick_size (li_instrument idn) > 0
           \<and> quantity smod quantity_step (li_instrument idn) = 0
           \<and> price smod tick_size (li_instrument idn) = 0) INEXACT_FILL
         (let before_q = position_of (ls_positions s) pid;
              after_q = before_q + side_sign sd * quantity
          in Inr (s\<lparr>ls_positions := AList.update pid after_q (ls_positions s),
                    ls_executions := AList.update execution (event, before_q \<noteq> 0 \<and> after_q = 0)
                      (ls_executions s)\<rparr>)))
   | Fee execution delta \<Rightarrow>
       require (case map_of (ls_executions s) execution of
           None \<Rightarrow> False
         | Some (fill, closed) \<Rightarrow> occurred_at fill \<le> occurred_at event \<and> execution \<notin> ls_fees s)
         FEE_EXECUTION
         (Inr (s\<lparr>ls_fees := insert execution (ls_fees s), ls_cash := ls_cash s + delta\<rparr>))
   | Funding pid p_start p_end delta \<Rightarrow>
       let key = (pid, p_start, p_end) in
       require (map_of (ls_positions s) pid \<noteq> None \<and> key \<notin> ls_funding s) FUNDING_POSITION_OR_PERIOD
         (Inr (s\<lparr>ls_funding := insert key (ls_funding s), ls_cash := ls_cash s + delta\<rparr>))
   | Liquidation execution pid \<Rightarrow>
       require (case map_of (ls_executions s) execution of
           None \<Rightarrow> False
         | Some (fill, closed) \<Rightarrow> closed
             \<and> (case payload fill of Fill _ fill_pid _ _ _ \<Rightarrow> fill_pid = pid | _ \<Rightarrow> False)
             \<and> transaction_id fill = transaction_id event
             \<and> occurred_at fill = occurred_at event
             \<and> map_of (ls_positions s) pid = Some 0
             \<and> execution \<notin> ls_liquidations s)
         LIQUIDATION_EXECUTION
         (Inr (s\<lparr>ls_liquidations := insert execution (ls_liquidations s)\<rparr>))
   | Other _ \<Rightarrow> Inl UNSUPPORTED_EVENT)"

definition genesis_event :: "ledger_identity \<Rightarrow> int \<Rightarrow> ledger_event \<Rightarrow> bool" where
  "genesis_event idn initialAllocation event =
     (payload event = Cash Initial_Allocation initialAllocation
      \<and> event_id event = ''genesis'' \<and> transaction_id event = ''genesis''
      \<and> cause_id event = exp_experiment_id (li_experiment idn)
      \<and> occurred_at event = started_at (li_experiment idn))"

definition scope_matches :: "ledger_scope \<Rightarrow> ledger_event \<Rightarrow> bool" where
  "scope_matches scope event =
     (mode event = mode scope \<and> account_id event = account_id scope
      \<and> experiment_id event = experiment_id scope \<and> instrument_id event = instrument_id scope
      \<and> instrument_version event = instrument_version scope)"

definition enter_transaction :: "ledger_state \<Rightarrow> ledger_event \<Rightarrow> ledger_error + ledger_state" where
  "enter_transaction s event =
     (if ls_current s \<noteq> transaction_id event
      then require (transaction_id event \<notin> ls_transactions s) TRANSACTION_ORDER
        (Inr (s\<lparr>ls_transactions := insert (transaction_id event) (ls_transactions s),
                ls_current := transaction_id event\<rparr>))
      else Inr s)"

definition ledger_append ::
  "ledger_identity \<Rightarrow> int \<Rightarrow> ledger_state \<Rightarrow> ledger_event \<Rightarrow> ledger_error + ledger_state" where
  "ledger_append idn initialAllocation s event =
     require (scope_matches (ledgerScope idn) event) OWNERSHIP
     (require (sequence event = ls_sequence s + 1) SEQUENCE
     (require (event_id event \<notin> ls_ids s) IDEMPOTENCY_COLLISION
     (require (occurred_at event \<ge> started_at (li_experiment idn)) BEFORE_GENESIS
     (bind_res (enter_transaction s event) (\<lambda>s1.
      require (ls_sequence s1 \<noteq> 0 \<or> genesis_event idn initialAllocation event) GENESIS
     (bind_res (ledger_apply idn s1 event) (\<lambda>s2.
        Inr (s2\<lparr>ls_sequence := ls_sequence s2 + 1, ls_ids := insert (event_id event) (ls_ids s2)\<rparr>))))))))"

definition ledger_snapshot :: "ledger_identity \<Rightarrow> ledger_state \<Rightarrow> ledger_error + ledger_projection" where
  "ledger_snapshot idn s =
     require (ls_sequence s > 0) GENESIS_REQUIRED
       (Inr \<lparr>lp_scope = ledgerScope idn, last_sequence = ls_sequence s, cash_usd = ls_cash s,
             ledger_positions = sort_key fst (ls_positions s)\<rparr>)"

definition default_allocation :: int where
  "default_allocation = 1000000000"

definition replayLedger :: "ledger_identity \<Rightarrow> ledger_event list \<Rightarrow> ledger_error + ledger_projection" where
  "replayLedger idn input =
     bind_res (fold_res (ledger_append idn default_allocation) ledger_init (sort_key sequence input))
       (ledger_snapshot idn)"

section \<open>What the accepted history says\<close>

fun payload_cash :: "ledger_payload \<Rightarrow> int" where
  "payload_cash (Cash _ delta) = delta"
| "payload_cash (Fee _ delta) = delta"
| "payload_cash (Funding _ _ _ delta) = delta"
| "payload_cash _ = 0"

fun payload_quantity :: "ident \<Rightarrow> ledger_payload \<Rightarrow> int" where
  "payload_quantity pid (Fill _ p sd q _) = (if p = pid then side_sign sd * q else 0)"
| "payload_quantity pid _ = 0"

definition history_cash :: "ledger_event list \<Rightarrow> int" where
  "history_cash h = sum_list (map (payload_cash \<circ> payload) h)"

definition history_quantity :: "ledger_event list \<Rightarrow> ident \<Rightarrow> int" where
  "history_quantity h pid = sum_list (map (payload_quantity pid \<circ> payload) h)"

definition fill_positions :: "ledger_event list \<Rightarrow> ident set" where
  "fill_positions h = {p. \<exists>e \<in> set h. \<exists>x sd q pr. payload e = Fill x p sd q pr}"

definition fill_events :: "ledger_event list \<Rightarrow> ident \<Rightarrow> ledger_event set" where
  "fill_events h x = {e \<in> set h. \<exists>p sd q pr. payload e = Fill x p sd q pr}"

fun fee_ids :: "ledger_payload \<Rightarrow> ident list" where
  "fee_ids (Fee x _) = [x]"
| "fee_ids _ = []"

fun funding_keys :: "ledger_payload \<Rightarrow> (ident \<times> time \<times> time) list" where
  "funding_keys (Funding p a b _) = [(p, a, b)]"
| "funding_keys _ = []"

definition ledger_inv :: "ledger_event list \<Rightarrow> ledger_state \<Rightarrow> bool" where
  "ledger_inv h s \<longleftrightarrow>
     ls_sequence s = int (length h)
   \<and> map sequence h = map (\<lambda>i. int i + 1) [0..<length h]
   \<and> ls_cash s = history_cash h
   \<and> map_of (ls_positions s) = (\<lambda>p. if p \<in> fill_positions h then Some (history_quantity h p) else None)
   \<and> distinct (map fst (ls_positions s))
   \<and> ls_ids s = event_id ` set h \<and> distinct (map event_id h)
   \<and> (\<forall>x. fill_events h x = (case map_of (ls_executions s) x of None \<Rightarrow> {} | Some (e, c) \<Rightarrow> {e}))
   \<and> ls_fees s = set (concat (map (fee_ids \<circ> payload) h))
   \<and> distinct (concat (map (fee_ids \<circ> payload) h))
   \<and> ls_funding s = set (concat (map (funding_keys \<circ> payload) h))
   \<and> distinct (concat (map (funding_keys \<circ> payload) h))"


lemma history_Nil [simp]:
  "history_cash [] = 0" "history_quantity [] p = 0" "fill_positions [] = {}" "fill_events [] x = {}"
  by (simp_all add: history_cash_def history_quantity_def fill_positions_def fill_events_def)

lemma history_snoc [simp]:
  "history_cash (h @ [e]) = history_cash h + payload_cash (payload e)"
  "history_quantity (h @ [e]) p = history_quantity h p + payload_quantity p (payload e)"
  by (simp_all add: history_cash_def history_quantity_def)

lemma fill_positions_snoc [simp]:
  "fill_positions (h @ [e]) =
     fill_positions h \<union> (case payload e of Fill _ p _ _ _ \<Rightarrow> {p} | _ \<Rightarrow> {})"
  by (auto simp: fill_positions_def split: ledger_payload.splits)

lemma fill_events_snoc [simp]:
  "fill_events (h @ [e]) x =
     fill_events h x \<union> (case payload e of Fill y _ _ _ _ \<Rightarrow> if y = x then {e} else {} | _ \<Rightarrow> {})"
  by (auto simp: fill_events_def split: ledger_payload.splits)

lemma history_quantity_unfilled: "p \<notin> fill_positions h \<Longrightarrow> history_quantity h p = 0"
proof (induction h rule: rev_induct)
  case Nil
  then show ?case by simp
next
  case (snoc e h)
  then show ?case by (cases "payload e") auto
qed

lemma enter_transaction_fields:
  "enter_transaction s e = Inr s1 \<Longrightarrow> \<exists>ts c. s1 = s\<lparr>ls_transactions := ts, ls_current := c\<rparr>"
  by (rule exI [of _ "ls_transactions s1"], rule exI [of _ "ls_current s1"])
    (auto simp: enter_transaction_def split: if_splits)

lemma ledger_inv_frame [simp]:
  "ledger_inv h (s\<lparr>ls_transactions := ts\<rparr>) = ledger_inv h s"
  "ledger_inv h (s\<lparr>ls_current := c\<rparr>) = ledger_inv h s"
  by (simp_all add: ledger_inv_def)

text \<open>The switch on the payload accounts for one more event, all but its sequence and id.\<close>

definition payload_inv :: "ledger_event list \<Rightarrow> ledger_state \<Rightarrow> bool" where
  "payload_inv h s \<longleftrightarrow>
     ls_cash s = history_cash h
   \<and> map_of (ls_positions s) = (\<lambda>p. if p \<in> fill_positions h then Some (history_quantity h p) else None)
   \<and> distinct (map fst (ls_positions s))
   \<and> (\<forall>x. fill_events h x = (case map_of (ls_executions s) x of None \<Rightarrow> {} | Some (e, c) \<Rightarrow> {e}))
   \<and> ls_fees s = set (concat (map (fee_ids \<circ> payload) h))
   \<and> distinct (concat (map (fee_ids \<circ> payload) h))
   \<and> ls_funding s = set (concat (map (funding_keys \<circ> payload) h))
   \<and> distinct (concat (map (funding_keys \<circ> payload) h))"

lemma ledger_inv_split:
  "ledger_inv h s \<longleftrightarrow>
     ls_sequence s = int (length h) \<and> map sequence h = map (\<lambda>i. int i + 1) [0..<length h]
   \<and> ls_ids s = event_id ` set h \<and> distinct (map event_id h) \<and> payload_inv h s"
  by (auto simp: ledger_inv_def payload_inv_def)

lemma ledger_apply_frame:
  "ledger_apply idn s e = Inr s' \<Longrightarrow> ls_sequence s' = ls_sequence s \<and> ls_ids s' = ls_ids s"
  by (cases "payload e") (auto simp: ledger_apply_def Let_def)

lemma position_of_inv:
  "payload_inv h s \<Longrightarrow> position_of (ls_positions s) p = history_quantity h p"
  by (simp add: payload_inv_def position_of_def history_quantity_unfilled)

lemma payload_inv_fill:
  assumes inv: "payload_inv h s" and e: "payload e = Fill x p sd q pr"
    and new: "map_of (ls_executions s) x = None"
  shows "payload_inv (h @ [e])
    (s\<lparr>ls_positions := AList.update p (history_quantity h p + side_sign sd * q) (ls_positions s),
       ls_executions := AList.update x (e, c) (ls_executions s)\<rparr>)"
proof -
  have "fill_events h x = {}" using inv new by (auto simp: payload_inv_def dest: spec [of _ x])
  then show ?thesis
    using inv e by (auto simp: payload_inv_def map_update fun_eq_iff)
qed

lemma ledger_apply_inv:
  assumes inv: "payload_inv h s" and step: "ledger_apply idn s e = Inr s'"
  shows "payload_inv (h @ [e]) s'"
proof (cases "payload e")
  case (Fill x p sd q pr)
  with inv step show ?thesis
    by (auto simp: ledger_apply_def Let_def position_of_inv intro: payload_inv_fill)
next
  case (Cash r d)
  with inv step show ?thesis by (auto simp: ledger_apply_def payload_inv_def)
next
  case (Fee x d)
  with inv step show ?thesis by (auto simp: ledger_apply_def payload_inv_def split: option.splits)
next
  case (Funding p a b d)
  with inv step show ?thesis by (auto simp: ledger_apply_def payload_inv_def Let_def)
next
  case (Liquidation x p)
  with inv step show ?thesis by (auto simp: ledger_apply_def payload_inv_def)
next
  case (Other k)
  with step show ?thesis by (simp add: ledger_apply_def)
qed

lemma ledger_append_cases:
  assumes "ledger_append idn a s e = Inr s'"
  obtains ts c s2 where "ledger_apply idn (s\<lparr>ls_transactions := ts, ls_current := c\<rparr>) e = Inr s2"
    and "s' = s2\<lparr>ls_sequence := ls_sequence s2 + 1, ls_ids := insert (event_id e) (ls_ids s2)\<rparr>"
    and "sequence e = ls_sequence s + 1" and "event_id e \<notin> ls_ids s"
    and "scope_matches (ledgerScope idn) e" and "started_at (li_experiment idn) \<le> occurred_at e"
    and "ls_sequence s = 0 \<Longrightarrow> genesis_event idn a e"
proof -
  from assms obtain s1 s2 where s1: "enter_transaction s e = Inr s1"
    and s2: "ledger_apply idn s1 e = Inr s2"
    and rest: "s' = s2\<lparr>ls_sequence := ls_sequence s2 + 1, ls_ids := insert (event_id e) (ls_ids s2)\<rparr>"
      "sequence e = ls_sequence s + 1" "event_id e \<notin> ls_ids s" "scope_matches (ledgerScope idn) e"
      "started_at (li_experiment idn) \<le> occurred_at e" "ls_sequence s1 = 0 \<Longrightarrow> genesis_event idn a e"
    by (auto simp: ledger_append_def)
  from enter_transaction_fields [OF s1] obtain ts c where
    "s1 = s\<lparr>ls_transactions := ts, ls_current := c\<rparr>" by blast
  with s2 rest show ?thesis by (intro that [where ts = ts and c = c]) simp_all
qed

lemma payload_inv_frame [simp]:
  "payload_inv h (s\<lparr>ls_transactions := ts\<rparr>) = payload_inv h s"
  "payload_inv h (s\<lparr>ls_current := c\<rparr>) = payload_inv h s"
  "payload_inv h (s\<lparr>ls_sequence := n\<rparr>) = payload_inv h s"
  "payload_inv h (s\<lparr>ls_ids := i\<rparr>) = payload_inv h s"
  by (simp_all add: payload_inv_def)

lemma ledger_inv_init: "ledger_inv [] ledger_init"
  by (simp add: ledger_inv_def ledger_init_def fun_eq_iff)

lemma ledger_inv_step:
  assumes inv: "ledger_inv h s" and step: "ledger_append idn a s e = Inr s'"
  shows "ledger_inv (h @ [e]) s'"
  using step
proof (rule ledger_append_cases)
  fix ts c s2
  assume app: "ledger_apply idn (s\<lparr>ls_transactions := ts, ls_current := c\<rparr>) e = Inr s2"
    and s': "s' = s2\<lparr>ls_sequence := ls_sequence s2 + 1, ls_ids := insert (event_id e) (ls_ids s2)\<rparr>"
    and seq: "sequence e = ls_sequence s + 1" and new: "event_id e \<notin> ls_ids s"
  from inv have "payload_inv h (s\<lparr>ls_transactions := ts, ls_current := c\<rparr>)"
    by (simp add: ledger_inv_split)
  from ledger_apply_inv [OF this app] have "payload_inv (h @ [e]) s'" by (simp add: s')
  moreover from ledger_apply_frame [OF app] have "ls_sequence s2 = ls_sequence s" "ls_ids s2 = ls_ids s"
    by simp_all
  ultimately show ?thesis
    using inv seq new s' by (auto simp: ledger_inv_split)
qed

interpretation led: history_reducer "ledger_append idn a" ledger_init ledger_inv for idn a
  by unfold_locales (auto intro: ledger_inv_init ledger_inv_step)

text \<open>An execution is marked closed only if its fill brought its position from open to flat.\<close>

definition closes_at :: "ledger_event list \<Rightarrow> ledger_event \<Rightarrow> ident \<Rightarrow> bool" where
  "closes_at h f p \<longleftrightarrow> (\<exists>h1 h2. h = h1 @ f # h2 \<and> history_quantity h1 p \<noteq> 0 \<and> history_quantity (h1 @ [f]) p = 0)"

definition closing_inv :: "ledger_event list \<Rightarrow> ledger_state \<Rightarrow> bool" where
  "closing_inv h s \<longleftrightarrow> ledger_inv h s
     \<and> (\<forall>x f. map_of (ls_executions s) x = Some (f, True) \<longrightarrow> (\<forall>p sd q pr. payload f = Fill x p sd q pr \<longrightarrow> closes_at h f p))"

lemma closes_at_snoc: "closes_at h f p \<Longrightarrow> closes_at (h @ [e]) f p"
  unfolding closes_at_def by (metis append.assoc append_Cons)

lemma closes_at_last: "history_quantity h p \<noteq> 0 \<Longrightarrow> history_quantity (h @ [e]) p = 0 \<Longrightarrow> closes_at (h @ [e]) e p"
  unfolding closes_at_def by blast

lemma executions_apply:
  assumes "ledger_apply idn s e = Inr s'" "payload_inv h s" "map_of (ls_executions s') x = Some (f, c)"
    and old: "\<not> map_of (ls_executions s) x = Some (f, c)"
  shows "f = e \<and> (\<exists>p sd q pr. payload e = Fill x p sd q pr
    \<and> c = (history_quantity h p \<noteq> 0 \<and> history_quantity h p + side_sign sd * q = 0))"
  using assms by (cases "payload e") (auto simp: ledger_apply_def Let_def update_conv' position_of_inv split: if_splits)

lemma closing_inv_step:
  assumes inv: "closing_inv h s" and step: "ledger_append idn a s e = Inr s'"
  shows "closing_inv (h @ [e]) s'"
proof -
  have led': "ledger_inv (h @ [e]) s'" using inv step by (auto simp: closing_inv_def intro: ledger_inv_step)
  from step obtain ts c s2 where app: "ledger_apply idn (s\<lparr>ls_transactions := ts, ls_current := c\<rparr>) e = Inr s2"
    and s': "s' = s2\<lparr>ls_sequence := ls_sequence s2 + 1, ls_ids := insert (event_id e) (ls_ids s2)\<rparr>"
    by (rule ledger_append_cases)
  have pay: "payload_inv h (s\<lparr>ls_transactions := ts, ls_current := c\<rparr>)"
    using inv by (simp add: closing_inv_def ledger_inv_split)
  have "closes_at (h @ [e]) f p"
    if x: "map_of (ls_executions s') x = Some (f, True)" "payload f = Fill x p sd q pr" for x f p sd q pr
  proof (cases "map_of (ls_executions s) x = Some (f, True)")
    case True
    then show ?thesis using inv x(2) by (intro closes_at_snoc) (auto simp: closing_inv_def)
  next
    case False
    from executions_apply [OF app pay, of x f True] False x
    show ?thesis by (auto simp: s' intro!: closes_at_last)
  qed
  with led' show ?thesis by (auto simp: closing_inv_def)
qed

interpretation closings: history_reducer "ledger_append idn a" ledger_init closing_inv for idn a
  by unfold_locales (simp add: closing_inv_def ledger_inv_init, simp add: ledger_init_def, rule closing_inv_step)

section \<open>A worked ledger\<close>

text \<open>An account that opens, pays a fee and a funding, and is closed by a liquidation.\<close>

definition sample_identity :: ledger_identity where
  "sample_identity =
     \<lparr>li_account = \<lparr>acc_mode = Paper, acc_account_id = ''acc'', acc_experiment_id = ''exp''\<rparr>,
      li_experiment = \<lparr>exp_experiment_id = ''exp'', started_at = 1000\<rparr>,
      li_instrument = \<lparr>ins_instrument_id = ''BTC'', ins_instrument_version = ''v1'',
        quantity_step = 1000, tick_size = 1000000\<rparr>\<rparr>"

definition sample_event :: "ident \<Rightarrow> int \<Rightarrow> ident \<Rightarrow> time \<Rightarrow> ledger_payload \<Rightarrow> ledger_event" where
  "sample_event i n tx at p =
     \<lparr>mode = Paper, account_id = ''acc'', experiment_id = ''exp'', instrument_id = ''BTC'',
      instrument_version = ''v1'', event_id = i, sequence = n, transaction_id = tx,
      cause_id = ''exp'', occurred_at = at, payload = p\<rparr>"

definition sample_ledger :: "ledger_event list" where
  "sample_ledger =
     [sample_event ''genesis'' 1 ''genesis'' 1000 (Cash Initial_Allocation 1000000000),
      sample_event ''e2'' 2 ''t2'' 2000 (Fill ''x1'' ''p1'' Buy 200000 60000000000),
      sample_event ''e3'' 3 ''t2'' 2000 (Fee ''x1'' (-54000)),
      sample_event ''e4'' 4 ''t4'' 3000 (Funding ''p1'' 0 2500 (-1200)),
      sample_event ''e5'' 5 ''t5'' 4000 (Fill ''x2'' ''p1'' Sell 200000 59000000000),
      sample_event ''e6'' 6 ''t5'' 4000 (Liquidation ''x2'' ''p1'')]"

lemma sample_replay:
  "replayLedger sample_identity sample_ledger =
     Inr \<lparr>lp_scope = ledgerScope sample_identity, last_sequence = 6, cash_usd = 999944800,
          ledger_positions = [(''p1'', 0)]\<rparr>"
  by code_simp

lemma sample_accepted:
  "\<exists>s. fold_res (ledger_append sample_identity default_allocation) ledger_init sample_ledger = Inr s"
proof -
  have "sort_key sequence sample_ledger = sample_ledger" by code_simp
  with sample_replay show ?thesis by (auto simp: replayLedger_def)
qed

lemma sample_split:
  "sample_ledger = [] @ sample_ledger ! 0 # drop 1 sample_ledger"
  "sample_ledger = take 2 sample_ledger @ sample_ledger ! 2 # drop 3 sample_ledger"
  "sample_ledger = take 5 sample_ledger @ sample_ledger ! 5 # drop 6 sample_ledger"
  by (simp_all add: sample_ledger_def)

section \<open>Properties of the ledger\<close>

lemma history_mset:
  assumes "mset xs = mset ys"
  shows "history_cash xs = history_cash ys" "history_quantity xs p = history_quantity ys p"
    "fill_positions xs = fill_positions ys"
proof -
  from assms have "set xs = set ys" by (rule mset_eq_setD)
  then show "fill_positions xs = fill_positions ys" by (simp add: fill_positions_def)
qed (use assms in \<open>auto simp: history_cash_def history_quantity_def intro: sum_list_mset\<close>)

lemma replay_inv:
  assumes "replayLedger idn input = Inr p"
  obtains s where "fold_res (ledger_append idn default_allocation) ledger_init (sort_key sequence input) = Inr s"
    and "ledger_inv (sort_key sequence input) s" and "ledger_snapshot idn s = Inr p"
  using assms led.run_inv by (fastforce simp: replayLedger_def)

text \<open>C2: the projection of an accepted ledger is the closed form of its events: cash is the sum of
  the cash, fee and funding deltas, each position is the signed sum of its fills, listed once in
  id order, and the last sequence is the number of events.\<close>

theorem replayLedger_refines:
  assumes "replayLedger idn input = Inr p"
  shows "lp_scope p = ledgerScope idn \<and> last_sequence p = int (length input)
    \<and> cash_usd p = history_cash input
    \<and> sorted_wrt (<) (map fst (ledger_positions p))
    \<and> (\<forall>q. map_of (ledger_positions p) q =
          (if q \<in> fill_positions input then Some (history_quantity input q) else None))"
proof -
  from assms obtain s where inv: "ledger_inv (sort_key sequence input) s"
    and p: "ledger_snapshot idn s = Inr p" by (rule replay_inv)
  have "mset (sort_key sequence input) = mset input" by simp
  from history_mset [OF this] inv p show ?thesis
    by (auto simp: ledger_snapshot_def ledger_inv_def map_of_sort_key sort_distinct_keys)
qed

theorem replayLedger_refines_witness:
  "999944800 = history_cash sample_ledger \<and> (0::int) = history_quantity sample_ledger ''p1''"
proof -
  note refines = replayLedger_refines [OF sample_replay]
  then have "map_of [(''p1'', 0)] ''p1'' = (if ''p1'' \<in> fill_positions sample_ledger
      then Some (history_quantity sample_ledger ''p1'') else None)"
    by (simp del: map_of.simps)
  then have "history_quantity sample_ledger ''p1'' = 0" by (simp split: if_splits)
  with refines show ?thesis by simp
qed

text \<open>C3: the projection depends on the committed sequence only, never on the order in which the
  rows arrive.\<close>

theorem replayLedger_arrival_order:
  assumes "replayLedger idn input = Inr p" and "mset arrival = mset input"
  shows "replayLedger idn arrival = Inr p"
proof -
  let ?xs = "sort_key sequence input"
  from assms(1) obtain s where "ledger_inv ?xs s" by (rule replay_inv)
  then have seqs: "map sequence ?xs = map (\<lambda>i. int i + 1) [0..<length ?xs]"
    by (simp add: ledger_inv_def)
  have "distinct (map sequence ?xs)" by (simp only: seqs) (simp add: distinct_map inj_on_def)
  then have "inj_on sequence (set input)" by (simp add: distinct_map)
  moreover have "mset ?xs = mset input" by simp
  ultimately have "sort_key sequence arrival = ?xs"
    using assms(2) mset_eq_setD [OF assms(2)] by (intro sort_key_inj_key_eq) simp_all
  with assms(1) show ?thesis by (simp add: replayLedger_def)
qed

theorem replayLedger_arrival_order_witness:
  "replayLedger sample_identity (rev sample_ledger) =
     Inr \<lparr>lp_scope = ledgerScope sample_identity, last_sequence = 6, cash_usd = 999944800,
          ledger_positions = [(''p1'', 0)]\<rparr>"
  by (rule replayLedger_arrival_order [OF sample_replay]) simp

lemma accepted_prefix:
  assumes "fold_res (ledger_append idn a) ledger_init (h @ e # rest) = Inr s"
  obtains t t' where "ledger_inv h t" and "ledger_append idn a t e = Inr t'"
  using assms led.run_inv [of idn a h] by (auto simp: fold_res_append)

text \<open>C7: what an accepted history cannot contain: two events with one id, two fees for one
  execution or a fee without an earlier fill of it, two fundings of one position and period.\<close>

theorem ledger_no_double_charge:
  assumes "fold_res (ledger_append idn a) ledger_init (h @ e # rest) = Inr s"
  shows "event_id e \<notin> event_id ` set h
    \<and> (\<forall>x d. payload e = Fee x d \<longrightarrow>
          (\<exists>f \<in> fill_events h x. occurred_at f \<le> occurred_at e) \<and> (\<forall>g \<in> set h. fee_ids (payload g) \<noteq> [x]))
    \<and> (\<forall>p b c d. payload e = Funding p b c d \<longrightarrow>
          p \<in> fill_positions h \<and> (\<forall>g \<in> set h. funding_keys (payload g) \<noteq> [(p, b, c)]))"
proof -
  from assms obtain t t' where inv: "ledger_inv h t" and step: "ledger_append idn a t e = Inr t'"
    by (rule accepted_prefix)
  from step obtain ts c s2 where new: "event_id e \<notin> ls_ids t"
    and app: "ledger_apply idn (t\<lparr>ls_transactions := ts, ls_current := c\<rparr>) e = Inr s2"
    by (rule ledger_append_cases)
  have fee: "(\<exists>f \<in> fill_events h x. occurred_at f \<le> occurred_at e) \<and> (\<forall>g \<in> set h. fee_ids (payload g) \<noteq> [x])"
    if "payload e = Fee x d" for x d
  proof -
    from app that obtain f cl where "map_of (ls_executions t) x = Some (f, cl)"
      "occurred_at f \<le> occurred_at e" "x \<notin> ls_fees t"
      by (auto simp: ledger_apply_def split: option.splits)
    with inv show ?thesis by (fastforce simp: ledger_inv_def)
  qed
  have fund: "p \<in> fill_positions h \<and> (\<forall>g \<in> set h. funding_keys (payload g) \<noteq> [(p, b, c)])"
    if "payload e = Funding p b c d" for p b c d
  proof -
    from app that have "map_of (ls_positions t) p \<noteq> None" "(p, b, c) \<notin> ls_funding t"
      by (auto simp: ledger_apply_def Let_def)
    with inv show ?thesis by (fastforce simp: ledger_inv_def split: if_splits)
  qed
  from inv new have "event_id e \<notin> event_id ` set h" by (simp add: ledger_inv_def)
  with fee fund show ?thesis by blast
qed

theorem ledger_no_double_charge_witness:
  "event_id (sample_ledger ! 2) \<notin> event_id ` set (take 2 sample_ledger)
   \<and> (\<exists>f \<in> fill_events (take 2 sample_ledger) ''x1''. occurred_at f \<le> 2000)"
proof -
  from sample_accepted sample_split(2) obtain s where
    "fold_res (ledger_append sample_identity default_allocation) ledger_init
      (take 2 sample_ledger @ sample_ledger ! 2 # drop 3 sample_ledger) = Inr s" by metis
  from ledger_no_double_charge [OF this] show ?thesis
    by (simp add: sample_ledger_def sample_event_def)
qed

text \<open>C10: a liquidation is a marker only. Accepting it takes the ledger from a state to one with the same cash, the same
  positions, the same executions, fees and fundings, and records the execution as liquidated, for the first time. It is
  accepted just when a fill of the same execution, transaction and instant closed the position, which the ledger then
  holds at zero and whose fills sum to zero.\<close>

theorem ledger_liquidation_marker:
  assumes "fold_res (ledger_append idn a) ledger_init (h @ e # rest) = Inr s"
    and "payload e = Liquidation x p"
  shows "\<exists>t t'. fold_res (ledger_append idn a) ledger_init h = Inr t \<and> fold_res (ledger_append idn a) ledger_init (h @ [e]) = Inr t'
    \<and> ls_cash t' = ls_cash t \<and> ls_positions t' = ls_positions t \<and> ls_executions t' = ls_executions t
    \<and> ls_fees t' = ls_fees t \<and> ls_funding t' = ls_funding t
    \<and> x \<notin> ls_liquidations t \<and> ls_liquidations t' = insert x (ls_liquidations t)
    \<and> map_of (ls_positions t) p = Some 0 \<and> history_quantity h p = 0
    \<and> (\<exists>f \<in> set h. \<exists>sd q pr. payload f = Fill x p sd q pr
          \<and> closes_at h f p \<and> transaction_id f = transaction_id e \<and> occurred_at f = occurred_at e)"
proof -
  from assms(1) obtain t t' where prefix: "fold_res (ledger_append idn a) ledger_init h = Inr t" and closing: "closing_inv h t"
    and step: "ledger_append idn a t e = Inr t'"
    using closings.run_inv [of idn a h] by (auto simp: fold_res_append)
  then have inv: "ledger_inv h t" by (simp add: closing_inv_def)
  from step obtain ts c s2 where applied: "ledger_apply idn (t\<lparr>ls_transactions := ts, ls_current := c\<rparr>) e = Inr s2"
    and t': "t' = s2\<lparr>ls_sequence := ls_sequence s2 + 1, ls_ids := insert (event_id e) (ls_ids s2)\<rparr>"
    by (rule ledger_append_cases)
  from applied assms(2) obtain f where f: "map_of (ls_executions t) x = Some (f, True)"
    "case payload f of Fill _ fp _ _ _ \<Rightarrow> fp = p | _ \<Rightarrow> False"
    "transaction_id f = transaction_id e" "occurred_at f = occurred_at e"
    and flat: "map_of (ls_positions t) p = Some 0" and new: "x \<notin> ls_liquidations t"
    and s2: "s2 = t\<lparr>ls_transactions := ts, ls_current := c, ls_liquidations := insert x (ls_liquidations t)\<rparr>"
    by (auto simp: ledger_apply_def split: option.splits)
  from inv f(1) have "f \<in> fill_events h x" by (auto simp: ledger_inv_def)
  then obtain sd q pr where fh: "f \<in> set h" and pf: "payload f = Fill x p sd q pr"
    using f(2) by (fastforce simp: fill_events_def)
  have "closes_at h f p" using closing f(1) pf by (auto simp: closing_inv_def)
  then have fill: "\<exists>f \<in> set h. \<exists>sd q pr. payload f = Fill x p sd q pr
      \<and> closes_at h f p \<and> transaction_id f = transaction_id e \<and> occurred_at f = occurred_at e"
    using fh pf f(3,4) by blast
  have "fold_res (ledger_append idn a) ledger_init (h @ [e]) = Inr t'" using prefix step by (simp add: fold_res_append)
  moreover from inv flat have "history_quantity h p = 0" by (auto simp: ledger_inv_def split: if_splits)
  ultimately show ?thesis
    using prefix fill flat new by (intro exI [of _ t] exI [of _ t']) (simp add: t' s2)
qed

theorem ledger_liquidation_marker_witness:
  "\<exists>t t'. fold_res (ledger_append sample_identity default_allocation) ledger_init (take 5 sample_ledger) = Inr t
     \<and> fold_res (ledger_append sample_identity default_allocation) ledger_init (take 5 sample_ledger @ [sample_ledger ! 5]) = Inr t'
     \<and> ls_cash t' = ls_cash t \<and> ls_positions t' = ls_positions t \<and> map_of (ls_positions t) ''p1'' = Some 0"
proof -
  from sample_accepted sample_split(3) obtain s where
    s: "fold_res (ledger_append sample_identity default_allocation) ledger_init
      (take 5 sample_ledger @ sample_ledger ! 5 # drop 6 sample_ledger) = Inr s" by metis
  have "payload (sample_ledger ! 5) = Liquidation ''x2'' ''p1''" by (simp add: sample_ledger_def sample_event_def)
  from ledger_liquidation_marker [OF s this] show ?thesis by blast
qed

lemma genesis_only_first:
  "ledger_inv h t \<Longrightarrow> h \<noteq> [] \<Longrightarrow> ledger_append idn a t e = Inr t' \<Longrightarrow> payload e \<noteq> Cash Initial_Allocation d"
  by (erule ledger_append_cases) (auto simp: ledger_apply_def ledger_inv_def)

text \<open>C15: capital is allocated exactly once: an accepted history starts with the genesis event of
  this experiment for the agreed amount, and no later event allocates again.\<close>

theorem ledger_genesis_once:
  assumes "fold_res (ledger_append idn a) ledger_init (h @ e # rest) = Inr s"
  shows "if h = [] then genesis_event idn a e else payload e \<noteq> Cash Initial_Allocation d"
proof -
  from assms obtain t t' where inv: "ledger_inv h t" and step: "ledger_append idn a t e = Inr t'"
    by (rule accepted_prefix)
  show ?thesis
  proof (cases "h = []")
    case True
    with inv have "ls_sequence t = 0" by (simp add: ledger_inv_def)
    with step True show ?thesis by (auto elim!: ledger_append_cases)
  next
    case False
    with genesis_only_first [OF inv False step] show ?thesis by simp
  qed
qed

theorem ledger_genesis_once_witness:
  "genesis_event sample_identity default_allocation (sample_ledger ! 0)"
proof -
  from sample_accepted sample_split(1) obtain s where
    "fold_res (ledger_append sample_identity default_allocation) ledger_init
      ([] @ sample_ledger ! 0 # drop 1 sample_ledger) = Inr s" by metis
  from ledger_genesis_once [OF this] show ?thesis by simp
qed

end
