(* ===== verification/Broker.thy ===== *)
theory Broker
  imports Ledger
begin

text \<open>
  Simulated execution: the immediate-or-cancel book walk of \<open>apps/api/src/trading/broker.ts\<close> and
  the passive queue of \<open>apps/api/src/trading/passive.ts\<close>. A book level is its price and quantity.
  Both charge fees cumulatively: what each fill pays is the growth of one rounded-up total, which
  is the interface \<open>cumulative_fee\<close>. A zero quantity step is the source's division by zero.
\<close>

section \<open>Cumulative fees\<close>

locale cumulative_fee = rounds_up up for up :: "int \<Rightarrow> int \<Rightarrow> int" +
  fixes unit :: int
  assumes unit_pos: "0 < unit"
begin

lemma charge_nonneg: "0 \<le> c \<Longrightarrow> 0 \<le> n \<Longrightarrow> 0 \<le> up (c + n) unit - up c unit"
  using up_mono [of c "c + n" unit] unit_pos by simp

lemma charge_le: "0 \<le> c \<Longrightarrow> 0 \<le> n \<Longrightarrow> up (c + n) unit - up c unit \<le> up n unit"
  using up_subadditive [of c n unit] unit_pos by simp

lemma charge_zero: "up 0 unit = 0"
  using unit_pos by simp

end

datatype broker_error = RANGE_ERROR | PASSIVE_BOOK_EMPTY | PASSIVE_POST_ONLY_CROSS | PASSIVE_OUTSIDE_DEPTH

definition fee_unit :: int where
  "fee_unit = 100000000000000000"

definition fee_ceil :: "int \<Rightarrow> int \<Rightarrow> int" where
  "fee_ceil n d = (n + d - 1) sdiv d"

interpretation fee: cumulative_fee fee_ceil fee_unit
  by unfold_locales (simp_all only: fee_ceil_def ceil_ge ceil_lt, simp add: fee_unit_def)

text \<open>\<open>(x / step) * step\<close>, which raises on a zero step.\<close>

definition whole_steps :: "int \<Rightarrow> int \<Rightarrow> broker_error + int" where
  "whole_steps x step = require (step \<noteq> 0) RANGE_ERROR (Inr (x sdiv step * step))"

lemma whole_steps_pos:
  assumes "whole_steps x step = Inr q" and "0 < step" and "0 \<le> x"
  shows "0 \<le> q" "q \<le> x" "x < q + step" "step dvd q"
proof -
  have q: "q = x div step * step" using assms by (simp add: whole_steps_def sdiv_nonneg)
  then show "0 \<le> q" "q \<le> x" "x < q + step" "step dvd q"
    using div_bounds [OF assms(2), of x] assms by (simp_all add: mult.commute pos_imp_zdiv_nonneg_iff)
qed

section \<open>Immediate or cancel\<close>

record ioc_fill =
  if_price :: int
  if_quantity :: int
  if_fee :: int

record ioc_input =
  io_side :: side
  io_quantity :: int
  io_limit :: int
  io_price_cap :: int
  io_step :: int
  io_fee_rate :: int
  io_levels :: "(int \<times> int) list"
  io_consumed :: "(int \<times> int) list"

definition used_at :: "(int \<times> int) list \<Rightarrow> int \<Rightarrow> int" where
  "used_at consumed price =
     (case map_of (foldl (\<lambda>m (p, q). AList.update p ((case map_of m p of None \<Rightarrow> 0 | Some u \<Rightarrow> u) + q) m) [] consumed) price of
        None \<Rightarrow> 0 | Some u \<Rightarrow> u)"

definition outside_limit :: "ioc_input \<Rightarrow> int \<Rightarrow> bool" where
  "outside_limit inp price = (if io_side inp = Buy then price > io_limit inp else price < io_limit inp)"

fun walk_levels :: "ioc_input \<Rightarrow> int \<Rightarrow> int \<Rightarrow> int \<Rightarrow> (int \<times> int) list \<Rightarrow> broker_error + ioc_fill list" where
  "walk_levels inp remaining cumulative charged [] = Inr []"
| "walk_levels inp remaining cumulative charged ((price, depth) # levels) =
     (if outside_limit inp price then Inr []
      else if price > io_price_cap inp then walk_levels inp remaining cumulative charged levels
      else
        let available = depth - used_at (io_consumed inp) price in
        if available \<le> 0 then walk_levels inp remaining cumulative charged levels
        else
          bind_res (whole_steps (if available < remaining then available else remaining) (io_step inp)) (\<lambda>quantity.
          if quantity = 0 then walk_levels inp remaining cumulative charged levels
          else
            let cumulative' = cumulative + quantity * price * io_fee_rate inp;
                fee = fee_ceil cumulative' fee_unit;
                fill = \<lparr>if_price = price, if_quantity = quantity, if_fee = fee - charged\<rparr>;
                remaining' = remaining - quantity
            in if remaining' = 0 then Inr [fill]
               else bind_res (walk_levels inp remaining' cumulative' fee levels) (\<lambda>fills. Inr (fill # fills))))"

definition walkIoc :: "ioc_input \<Rightarrow> broker_error + ioc_fill list" where
  "walkIoc inp = walk_levels inp (io_quantity inp) 0 0 (io_levels inp)"

lemma used_at_sum: "used_at consumed price = sum_list (map snd (filter (\<lambda>l. fst l = price) consumed))"
proof -
  let ?f = "\<lambda>m (p, q). AList.update p ((case map_of m p of None \<Rightarrow> 0 | Some u \<Rightarrow> u) + q) m"
  have "(case map_of (foldl ?f m consumed) price of None \<Rightarrow> 0 | Some u \<Rightarrow> u)
      = (case map_of m price of None \<Rightarrow> 0 | Some u \<Rightarrow> u) + sum_list (map snd (filter (\<lambda>l. fst l = price) consumed))" for m
    by (induction consumed arbitrary: m) (auto simp: map_update split: option.splits)
  from this [of "[]"] show ?thesis by (simp add: used_at_def)
qed

definition filled_at :: "ioc_fill list \<Rightarrow> int \<Rightarrow> int" where
  "filled_at fills price = sum_list (map if_quantity (filter (\<lambda>f. if_price f = price) fills))"

definition depth_at :: "(int \<times> int) list \<Rightarrow> int \<Rightarrow> int" where
  "depth_at levels price = sum_list (map snd (filter (\<lambda>l. fst l = price) levels))"

definition notional_fee :: "ioc_input \<Rightarrow> ioc_fill list \<Rightarrow> int" where
  "notional_fee inp fills = sum_list (map (\<lambda>f. if_quantity f * if_price f * io_fee_rate inp) fills)"

definition sound_ioc :: "ioc_input \<Rightarrow> bool" where
  "sound_ioc inp \<longleftrightarrow> 0 < io_step inp \<and> 0 \<le> io_quantity inp \<and> 0 \<le> io_fee_rate inp
     \<and> (\<forall>(p, q) \<in> set (io_levels inp). 0 < p \<and> 0 \<le> q) \<and> (\<forall>(p, q) \<in> set (io_consumed inp). 0 \<le> q)"

definition ioc_ok :: "ioc_input \<Rightarrow> int \<Rightarrow> int \<Rightarrow> (int \<times> int) list \<Rightarrow> ioc_fill list \<Rightarrow> bool" where
  "ioc_ok inp remaining cumulative levels fills \<longleftrightarrow>
     list_all (\<lambda>f. \<not> outside_limit inp (if_price f) \<and> if_price f \<le> io_price_cap inp \<and> 0 < if_price f
       \<and> 0 < if_quantity f \<and> io_step inp dvd if_quantity f \<and> 0 \<le> if_fee f) fills
     \<and> sum_list (map if_quantity fills) \<le> remaining
     \<and> (\<forall>p. filled_at fills p = 0 \<or> filled_at fills p + used_at (io_consumed inp) p \<le> depth_at levels p)
     \<and> sum_list (map if_fee fills) = fee_ceil (cumulative + notional_fee inp fills) fee_unit - fee_ceil cumulative fee_unit
     \<and> (io_step inp \<le> remaining - sum_list (map if_quantity fills) \<longrightarrow>
          (\<forall>(p, q) \<in> set (takeWhile (\<lambda>l. \<not> outside_limit inp (fst l)) levels). p \<le> io_price_cap inp \<longrightarrow>
             q - used_at (io_consumed inp) p < filled_at fills p + io_step inp))"

lemma filled_at_simps [simp]:
  "filled_at [] p = 0"
  "filled_at (f # fs) p = (if if_price f = p then if_quantity f else 0) + filled_at fs p"
  by (simp_all add: filled_at_def)

lemma depth_at_simps [simp]:
  "depth_at [] p = 0" "depth_at ((a, b) # ls) p = (if a = p then b else 0) + depth_at ls p"
  by (simp_all add: depth_at_def)

lemma notional_fee_simps [simp]:
  "notional_fee inp [] = 0"
  "notional_fee inp (f # fs) = if_quantity f * if_price f * io_fee_rate inp + notional_fee inp fs"
  by (simp_all add: notional_fee_def)

lemma filled_at_nonneg: "list_all (\<lambda>f. 0 < if_quantity f) fs \<Longrightarrow> 0 \<le> filled_at fs p"
  by (induction fs) auto

lemma used_at_nonneg: "(\<forall>(p, q) \<in> set consumed. 0 \<le> q) \<Longrightarrow> 0 \<le> used_at consumed price"
  by (fastforce simp: used_at_sum intro!: sum_list_nonneg)

lemma depth_at_nonneg: "(\<forall>(p, q) \<in> set levels. 0 \<le> q) \<Longrightarrow> 0 \<le> depth_at levels price"
  by (fastforce simp: depth_at_def intro!: sum_list_nonneg)

lemma fill_total_nonneg: "list_all (\<lambda>f. 0 < if_quantity f) fills \<Longrightarrow> 0 \<le> sum_list (map if_quantity fills)"
  by (induction fills) auto

text \<open>Skipping a level, and taking from one.\<close>

lemma ioc_ok_skip:
  assumes "ioc_ok inp r c levels fills" and "\<not> outside_limit inp p" and "0 \<le> d" and "0 < io_step inp"
    and "p > io_price_cap inp \<or> (r - sum_list (map if_quantity fills) < io_step inp
      \<or> d - used_at (io_consumed inp) p < io_step inp)"
    and "list_all (\<lambda>f. 0 < if_quantity f) fills"
  shows "ioc_ok inp r c ((p, d) # levels) fills"
proof -
  have "filled_at fills x = 0 \<or> filled_at fills x + used_at (io_consumed inp) x \<le> depth_at ((p, d) # levels) x" for x
    using assms(1,3) by (auto simp: ioc_ok_def)
  moreover have "q - used_at (io_consumed inp) x < filled_at fills x + io_step inp"
    if "io_step inp \<le> r - sum_list (map if_quantity fills)" "x \<le> io_price_cap inp"
      "(x, q) \<in> set (takeWhile (\<lambda>l. \<not> outside_limit inp (fst l)) ((p, d) # levels))" for x q
  proof (cases "(x, q) = (p, d)")
    case True
    then show ?thesis using that assms(5) filled_at_nonneg [OF assms(6), of p] by auto
  next
    case False
    then show ?thesis using that assms(1,2) by (auto simp: ioc_ok_def)
  qed
  ultimately show ?thesis using assms(1) unfolding ioc_ok_def by blast
qed

lemma ioc_ok_take:
  assumes ok: "ioc_ok inp (r - q) (c + q * p * io_fee_rate inp) levels fills"
    and lim: "\<not> outside_limit inp p" "p \<le> io_price_cap inp" "0 < p"
    and q: "0 < q" "q \<le> r" "q \<le> d - used_at (io_consumed inp) p" "io_step inp dvd q"
    and rest: "r - q < io_step inp \<or> d - used_at (io_consumed inp) p < q + io_step inp"
    and c: "0 \<le> c" "0 \<le> io_fee_rate inp" and d: "0 \<le> used_at (io_consumed inp) p"
    and pos: "list_all (\<lambda>f. 0 < if_quantity f) fills" and lev: "\<forall>(p, q) \<in> set levels. 0 \<le> q"
    and f: "f = \<lparr>if_price = p, if_quantity = q, if_fee = fee_ceil (c + q * p * io_fee_rate inp) fee_unit - fee_ceil c fee_unit\<rparr>"
  shows "ioc_ok inp r c ((p, d) # levels) (f # fills)"
proof -
  have nn: "0 \<le> q * p * io_fee_rate inp" using q lim c by simp
  have fee: "0 \<le> if_fee f" using fee.charge_nonneg [OF c(1) nn] by (simp add: f)
  have depth: "filled_at (f # fills) x = 0 \<or> filled_at (f # fills) x + used_at (io_consumed inp) x \<le> depth_at ((p, d) # levels) x" for x
  proof -
    have "filled_at fills x = 0 \<or> filled_at fills x + used_at (io_consumed inp) x \<le> depth_at levels x"
      using ok by (simp add: ioc_ok_def)
    moreover have "0 \<le> depth_at levels p" using lev by (rule depth_at_nonneg)
    ultimately show ?thesis using q d by (auto simp: f)
  qed
  have left: "e - used_at (io_consumed inp) x < filled_at (f # fills) x + io_step inp"
    if r: "io_step inp \<le> r - sum_list (map if_quantity (f # fills))" and x: "x \<le> io_price_cap inp"
      and m: "(x, e) \<in> set (takeWhile (\<lambda>l. \<not> outside_limit inp (fst l)) ((p, d) # levels))" for x e
  proof (cases "(x, e) = (p, d)")
    case True
    have "0 \<le> sum_list (map if_quantity fills)" by (rule fill_total_nonneg [OF pos])
    with True show ?thesis using r rest q filled_at_nonneg [OF pos, of p] by (auto simp: f)
  next
    case False
    then have "e - used_at (io_consumed inp) x < filled_at fills x + io_step inp"
      using ok lim m r x by (auto simp: ioc_ok_def f)
    then show ?thesis using q by (simp add: f)
  qed
  have sums: "sum_list (map if_quantity (f # fills)) \<le> r"
    "sum_list (map if_fee (f # fills)) = fee_ceil (c + notional_fee inp (f # fills)) fee_unit - fee_ceil c fee_unit"
    using ok by (simp_all add: ioc_ok_def f add.assoc)
  have all: "list_all (\<lambda>f. \<not> outside_limit inp (if_price f) \<and> if_price f \<le> io_price_cap inp \<and> 0 < if_price f
       \<and> 0 < if_quantity f \<and> io_step inp dvd if_quantity f \<and> 0 \<le> if_fee f) (f # fills)"
    using ok fee lim q by (simp add: ioc_ok_def f)
  show ?thesis
    unfolding ioc_ok_def using all sums depth left by blast
qed

lemma ioc_ok_nil:
  "0 \<le> r \<Longrightarrow> (levels = [] \<or> outside_limit inp (fst (hd levels)) \<or> r < io_step inp) \<Longrightarrow> ioc_ok inp r c levels []"
  by (cases levels) (auto simp: ioc_ok_def)

lemma ioc_ok_pos: "ioc_ok inp r c levels fills \<Longrightarrow> list_all (\<lambda>f. 0 < if_quantity f) fills"
  by (auto simp: ioc_ok_def list_all_iff)

definition walk_pre :: "ioc_input \<Rightarrow> int \<Rightarrow> int \<Rightarrow> (int \<times> int) list \<Rightarrow> bool" where
  "walk_pre inp r c levels \<longleftrightarrow> 0 < io_step inp \<and> 0 \<le> io_fee_rate inp
     \<and> (\<forall>p. 0 \<le> used_at (io_consumed inp) p)
     \<and> (\<forall>(p, q) \<in> set levels. 0 < p \<and> 0 \<le> q) \<and> 0 \<le> r \<and> 0 \<le> c"

lemma walk_levels_ok:
  "walk_levels inp r c ch levels = Inr fills \<Longrightarrow> walk_pre inp r c levels \<Longrightarrow> ch = fee_ceil c fee_unit
    \<Longrightarrow> ioc_ok inp r c levels fills"
proof (induction inp r c ch levels arbitrary: fills rule: walk_levels.induct)
  case (1 inp r c ch)
  then show ?case by (auto simp: walk_pre_def intro: ioc_ok_nil)
next
  case (2 inp r c ch p d levels)
  let ?avail = "d - used_at (io_consumed inp) p"
  note walk = 2(5) and pre = 2(6) and ch = 2(7)
  have pre': "walk_pre inp r c levels" using pre by (simp add: walk_pre_def)
  have step: "0 < io_step inp" and d: "0 \<le> d" "0 < p" and r: "0 \<le> r" and used: "0 \<le> used_at (io_consumed inp) p"
    using pre by (auto simp: walk_pre_def)
  have skip: "ioc_ok inp r c ((p, d) # levels) fills"
    if "ioc_ok inp r c levels fills" "\<not> outside_limit inp p"
      "p > io_price_cap inp \<or> r < io_step inp \<or> ?avail < io_step inp"
    using ioc_ok_skip [OF that(1,2) d(1) step] ioc_ok_pos [OF that(1)] fill_total_nonneg that(3) by fastforce
  consider (out) "outside_limit inp p" | (cap) "\<not> outside_limit inp p" "p > io_price_cap inp"
    | (none) "\<not> outside_limit inp p" "\<not> p > io_price_cap inp" "?avail \<le> 0"
    | (some) "\<not> outside_limit inp p" "\<not> p > io_price_cap inp" "\<not> ?avail \<le> 0"
    by blast
  then show ?case
  proof cases
    case out
    then show ?thesis using walk r by (auto intro: ioc_ok_nil)
  next
    case cap
    then have "ioc_ok inp r c levels fills" using 2(1) pre' walk ch by simp
    then show ?thesis using cap by (intro skip) auto
  next
    case none
    then have "ioc_ok inp r c levels fills" using 2(2) pre' walk ch by simp
    then show ?thesis using none step by (intro skip) auto
  next
    case some
    from walk some obtain q where ws: "whole_steps (if ?avail < r then ?avail else r) (io_step inp) = Inr q"
      by (auto simp: Let_def)
    have q: "0 \<le> q" "q \<le> (if ?avail < r then ?avail else r)" "(if ?avail < r then ?avail else r) < q + io_step inp"
      "io_step inp dvd q"
      using whole_steps_pos [OF ws step] some r by auto
    show ?thesis
    proof (cases "q = 0")
      case True
      then have "walk_levels inp r c ch levels = Inr fills" using walk some ws by (simp add: Let_def)
      from 2(3) [OF some(1,2) refl some(3) _ this pre' ch] ws True
      have "ioc_ok inp r c levels fills" by blast
      then show ?thesis using some True q by (intro skip) (auto split: if_splits)
    next
      case False
      let ?c = "c + q * p * io_fee_rate inp"
      let ?f = "\<lparr>if_price = p, if_quantity = q, if_fee = fee_ceil ?c fee_unit - ch\<rparr>"
      obtain rest where rest: "fills = ?f # rest"
        and w: "r - q = 0 \<and> rest = [] \<or> r - q \<noteq> 0 \<and> walk_levels inp (r - q) ?c (fee_ceil ?c fee_unit) levels = Inr rest"
        using walk some ws False by (auto simp: Let_def split: if_splits)
      have pre'': "walk_pre inp (r - q) ?c levels"
        using pre q d by (auto simp: walk_pre_def split: if_splits)
      have "ioc_ok inp (r - q) ?c levels rest"
        using w
      proof
        assume "r - q = 0 \<and> rest = []"
        then show ?thesis using step by (auto intro: ioc_ok_nil)
      next
        assume "r - q \<noteq> 0 \<and> walk_levels inp (r - q) ?c (fee_ceil ?c fee_unit) levels = Inr rest"
        then show ?thesis using 2(4) [OF some(1,2) refl some(3) False refl refl refl refl] pre'' by blast
      qed
      then show ?thesis
        unfolding rest using some q False d used pre ch
        by (intro ioc_ok_take) (auto simp: walk_pre_def ioc_ok_pos split: if_splits)
    qed
  qed
qed

lemma walk_levels_total: "io_step inp \<noteq> 0 \<Longrightarrow> \<exists>fills. walk_levels inp r c ch levels = Inr fills"
proof (induction levels arbitrary: r c ch)
  case Nil
  then show ?case by simp
next
  case (Cons l levels)
  obtain p d where l: "l = (p, d)" by (cases l)
  have ih: "\<exists>fills. walk_levels inp a b e levels = Inr fills" for a b e using Cons by blast
  have ih2: "\<exists>fills. bind_res (walk_levels inp a b e levels) (\<lambda>fs. Inr (f # fs)) = Inr fills" for a b e f
    using ih [of a b e] by auto
  show ?case using ih ih2 Cons.prems by (auto simp: l Let_def whole_steps_def simp del: bind_res_Inr)
qed

text \<open>C32: the IOC walk is total on a positive step and executes only what it may. Every fill is
  within the limit and the collateral cap, in whole steps, with a nonnegative fee; together the
  fills stay within the order and, at every price, within the observed depth net of what the account already
  consumed there; the fees add up to one ceiling of the exact fee of the whole order. If a step
  or more is left unfilled, no level inside limit and cap had a step more to give.\<close>

theorem walkIoc_sound:
  assumes "sound_ioc inp"
  shows "\<exists>fills. walkIoc inp = Inr fills
    \<and> list_all (\<lambda>f. \<not> outside_limit inp (if_price f) \<and> if_price f \<le> io_price_cap inp
        \<and> 0 < if_quantity f \<and> io_step inp dvd if_quantity f \<and> 0 \<le> if_fee f) fills
    \<and> sum_list (map if_quantity fills) \<le> io_quantity inp
    \<and> (\<forall>p. filled_at fills p = 0 \<or> filled_at fills p + used_at (io_consumed inp) p \<le> depth_at (io_levels inp) p)
    \<and> sum_list (map if_fee fills) = fee_ceil (notional_fee inp fills) fee_unit
    \<and> (io_step inp \<le> io_quantity inp - sum_list (map if_quantity fills) \<longrightarrow>
        (\<forall>(p, q) \<in> set (takeWhile (\<lambda>l. \<not> outside_limit inp (fst l)) (io_levels inp)). p \<le> io_price_cap inp \<longrightarrow>
           q - used_at (io_consumed inp) p < filled_at fills p + io_step inp))"
proof -
  have "io_step inp \<noteq> 0" using assms by (simp add: sound_ioc_def)
  then obtain fills where w: "walk_levels inp (io_quantity inp) 0 0 (io_levels inp) = Inr fills"
    using walk_levels_total by blast
  have pre: "walk_pre inp (io_quantity inp) 0 (io_levels inp)"
    using assms by (auto simp: walk_pre_def sound_ioc_def used_at_nonneg)
  have "ioc_ok inp (io_quantity inp) 0 (io_levels inp) fills"
    by (rule walk_levels_ok [OF w pre]) (simp add: fee.charge_zero)
  then show ?thesis
    using w unfolding walkIoc_def ioc_ok_def
    by (intro exI [of _ fills] conjI) (auto simp: fee.charge_zero list_all_iff)
qed

definition sample_ioc :: ioc_input where
  "sample_ioc = \<lparr>io_side = Buy, io_quantity = 250000, io_limit = 60100000000, io_price_cap = 60100000000,
     io_step = 1000, io_fee_rate = 450000,
     io_levels = [(60000000000, 100500), (60050000000, 80000), (60200000000, 900000)],
     io_consumed = [(60050000000, 20000)]\<rparr>"

theorem walkIoc_sound_witness:
  "\<exists>fills. walkIoc sample_ioc = Inr fills \<and> sum_list (map if_fee fills) = fee_ceil (notional_fee sample_ioc fills) fee_unit"
proof -
  have "sound_ioc sample_ioc" by code_simp
  from walkIoc_sound [OF this] show ?thesis by blast
qed

section \<open>Passive orders\<close>

record passive_queue =
  pq_ahead :: int
  pq_fee_numerator :: int
  pq_charged :: int

definition passiveQueue ::
  "side \<Rightarrow> int \<Rightarrow> (int \<times> int) list \<Rightarrow> (int \<times> int) list \<Rightarrow> broker_error + passive_queue" where
  "passiveQueue sd limit bids asks =
     (let own = (if sd = Buy then bids else asks); opposite = (if sd = Buy then asks else bids) in
      if length own = 0 \<or> length opposite = 0 then Inl PASSIVE_BOOK_EMPTY
      else if (if sd = Buy then limit \<ge> fst (opposite ! 0) else limit \<le> fst (opposite ! 0))
        then Inl PASSIVE_POST_ONLY_CROSS
      else if (if sd = Buy then limit < fst (last own) else limit > fst (last own))
        then Inl PASSIVE_OUTSIDE_DEPTH
      else Inr \<lparr>pq_ahead = (case find (\<lambda>l. fst l = limit) own of None \<Rightarrow> 0 | Some l \<Rightarrow> snd l),
             pq_fee_numerator = 0, pq_charged = 0\<rparr>)"

record passive_trade =
  pt_side :: side
  pt_price :: int
  pt_available :: int

record passive_result =
  pr_queue :: passive_queue
  pr_quantity :: int
  pr_fee :: int
  pr_available :: int

definition consumePassiveTrade ::
  "passive_queue \<Rightarrow> side \<Rightarrow> int \<Rightarrow> int \<Rightarrow> int \<Rightarrow> int \<Rightarrow> passive_trade \<Rightarrow> broker_error + passive_result" where
  "consumePassiveTrade queue sd limit remaining step feeRate trade =
     (if pt_side trade = sd \<or> pt_price trade \<noteq> limit
      then Inr \<lparr>pr_queue = queue, pr_quantity = 0, pr_fee = 0, pr_available = pt_available trade\<rparr>
      else
        let burn = min (pt_available trade) (pq_ahead queue);
            available = pt_available trade - burn
        in bind_res (whole_steps (min available remaining) step) (\<lambda>quantity.
           let numerator = pq_fee_numerator queue + quantity * limit * feeRate;
               charged = fee_ceil numerator fee_unit
           in Inr \<lparr>pr_queue = \<lparr>pq_ahead = pq_ahead queue - burn, pq_fee_numerator = numerator, pq_charged = charged\<rparr>,
                pr_quantity = quantity, pr_fee = charged - pq_charged queue, pr_available = available - quantity\<rparr>))"

text \<open>A resting order over the trades of its market, as the stores run it: the queue and the
  remaining quantity are threaded from trade to trade.\<close>

record passive_order =
  po_queue :: passive_queue
  po_remaining :: int
  po_filled :: int
  po_fees :: int
  po_printed :: int

definition passive_step :: "side \<Rightarrow> int \<Rightarrow> int \<Rightarrow> int \<Rightarrow> passive_order \<Rightarrow> passive_trade \<Rightarrow> broker_error + passive_order" where
  "passive_step sd limit step feeRate s trade =
     bind_res (consumePassiveTrade (po_queue s) sd limit (po_remaining s) step feeRate trade) (\<lambda>r.
       Inr \<lparr>po_queue = pr_queue r, po_remaining = po_remaining s - pr_quantity r,
         po_filled = po_filled s + pr_quantity r, po_fees = po_fees s + pr_fee r,
         po_printed = po_printed s + (if pt_side trade = sd \<or> pt_price trade \<noteq> limit then 0 else pt_available trade)\<rparr>)"

definition passive_start :: "passive_queue \<Rightarrow> int \<Rightarrow> passive_order" where
  "passive_start queue quantity = \<lparr>po_queue = queue, po_remaining = quantity, po_filled = 0, po_fees = 0, po_printed = 0\<rparr>"

definition opposing :: "side \<Rightarrow> int \<Rightarrow> passive_trade list \<Rightarrow> int" where
  "opposing sd limit h = sum_list (map pt_available (filter (\<lambda>t. pt_side t \<noteq> sd \<and> pt_price t = limit) h))"

definition passive_inv :: "int \<Rightarrow> int \<Rightarrow> int \<Rightarrow> side \<Rightarrow> int \<Rightarrow> int \<Rightarrow> passive_trade list \<Rightarrow> passive_order \<Rightarrow> bool" where
  "passive_inv ahead quantity step sd limit feeRate h s \<longleftrightarrow>
     (0 < step \<and> 0 \<le> quantity \<and> 0 \<le> ahead \<and> (\<forall>t \<in> set h. 0 \<le> pt_available t) \<longrightarrow>
       po_filled s + po_remaining s = quantity \<and> 0 \<le> po_filled s \<and> 0 \<le> po_remaining s \<and> step dvd po_filled s
       \<and> 0 \<le> pq_ahead (po_queue s) \<and> po_printed s = opposing sd limit h
       \<and> po_filled s + (ahead - pq_ahead (po_queue s)) \<le> po_printed s
       \<and> (0 < po_filled s \<longrightarrow> pq_ahead (po_queue s) = 0)
       \<and> pq_fee_numerator (po_queue s) = po_filled s * limit * feeRate
       \<and> pq_charged (po_queue s) = po_fees s
       \<and> po_fees s = fee_ceil (po_filled s * limit * feeRate) fee_unit)"

lemma consumePassiveTrade_cases:
  assumes "consumePassiveTrade queue sd limit remaining step feeRate t = Inr r"
    and "0 < step" and "0 \<le> pt_available t" and "0 \<le> pq_ahead queue" and "0 \<le> remaining"
    and "pt_side t \<noteq> sd" and "pt_price t = limit"
  shows "0 \<le> pr_quantity r" and "pr_quantity r \<le> remaining" and "step dvd pr_quantity r"
    and "pr_available r = pt_available t - (pq_ahead queue - pq_ahead (pr_queue r)) - pr_quantity r"
    and "0 \<le> pr_available r" and "0 \<le> pq_ahead (pr_queue r)" and "pq_ahead (pr_queue r) \<le> pq_ahead queue"
    and "0 < pr_quantity r \<Longrightarrow> pq_ahead (pr_queue r) = 0"
    and "pq_fee_numerator (pr_queue r) = pq_fee_numerator queue + pr_quantity r * limit * feeRate"
    and "pq_charged (pr_queue r) = fee_ceil (pq_fee_numerator (pr_queue r)) fee_unit"
    and "pr_fee r = pq_charged (pr_queue r) - pq_charged queue"
proof -
  define burn where "burn = min (pt_available t) (pq_ahead queue)"
  obtain q where q: "whole_steps (min (pt_available t - burn) remaining) step = Inr q"
    and r: "r = \<lparr>pr_queue = \<lparr>pq_ahead = pq_ahead queue - burn, pq_fee_numerator = pq_fee_numerator queue + q * limit * feeRate,
        pq_charged = fee_ceil (pq_fee_numerator queue + q * limit * feeRate) fee_unit\<rparr>, pr_quantity = q,
        pr_fee = fee_ceil (pq_fee_numerator queue + q * limit * feeRate) fee_unit - pq_charged queue,
        pr_available = pt_available t - burn - q\<rparr>"
    using assms(1,6,7) by (auto simp: consumePassiveTrade_def Let_def burn_def)
  have "0 \<le> min (pt_available t - burn) remaining" using assms by (simp add: burn_def)
  note qq = whole_steps_pos [OF q assms(2) this]
  show "0 \<le> pr_quantity r" "pr_quantity r \<le> remaining" "step dvd pr_quantity r" using qq by (auto simp: r)
  show "pr_available r = pt_available t - (pq_ahead queue - pq_ahead (pr_queue r)) - pr_quantity r" by (simp add: r)
  show "0 \<le> pr_available r" using qq by (simp add: r)
  show "0 \<le> pq_ahead (pr_queue r)" "pq_ahead (pr_queue r) \<le> pq_ahead queue" using assms by (simp_all add: r burn_def)
  show "pq_ahead (pr_queue r) = 0" if "0 < pr_quantity r" using that qq by (auto simp: r burn_def min_def split: if_splits)
qed (use assms in \<open>auto simp: consumePassiveTrade_def Let_def\<close>)

definition fresh_queue :: "int \<Rightarrow> passive_queue" where
  "fresh_queue ahead = \<lparr>pq_ahead = ahead, pq_fee_numerator = 0, pq_charged = 0\<rparr>"

lemma opposing_snoc:
  "opposing sd limit (h @ [t]) = opposing sd limit h + (if pt_side t \<noteq> sd \<and> pt_price t = limit then pt_available t else 0)"
  by (simp add: opposing_def)

lemma passive_inv_step:
  assumes inv: "passive_inv ahead quantity step sd limit feeRate h s"
    and st: "passive_step sd limit step feeRate s t = Inr s'"
  shows "passive_inv ahead quantity step sd limit feeRate (h @ [t]) s'"
  unfolding passive_inv_def
proof
  assume pre: "0 < step \<and> 0 \<le> quantity \<and> 0 \<le> ahead \<and> (\<forall>t \<in> set (h @ [t]). 0 \<le> pt_available t)"
  then have i: "po_filled s + po_remaining s = quantity" "0 \<le> po_filled s" "0 \<le> po_remaining s" "step dvd po_filled s"
    "0 \<le> pq_ahead (po_queue s)" "po_printed s = opposing sd limit h"
    "po_filled s + (ahead - pq_ahead (po_queue s)) \<le> po_printed s"
    "0 < po_filled s \<Longrightarrow> pq_ahead (po_queue s) = 0"
    "pq_fee_numerator (po_queue s) = po_filled s * limit * feeRate"
    "pq_charged (po_queue s) = po_fees s" "po_fees s = fee_ceil (po_filled s * limit * feeRate) fee_unit"
    using inv by (auto simp: passive_inv_def)
  obtain r where r: "consumePassiveTrade (po_queue s) sd limit (po_remaining s) step feeRate t = Inr r"
    and s': "s' = \<lparr>po_queue = pr_queue r, po_remaining = po_remaining s - pr_quantity r,
      po_filled = po_filled s + pr_quantity r, po_fees = po_fees s + pr_fee r,
      po_printed = po_printed s + (if pt_side t = sd \<or> pt_price t \<noteq> limit then 0 else pt_available t)\<rparr>"
    using st by (auto simp: passive_step_def)
  show "po_filled s' + po_remaining s' = quantity \<and> 0 \<le> po_filled s' \<and> 0 \<le> po_remaining s' \<and> step dvd po_filled s'
     \<and> 0 \<le> pq_ahead (po_queue s') \<and> po_printed s' = opposing sd limit (h @ [t])
     \<and> po_filled s' + (ahead - pq_ahead (po_queue s')) \<le> po_printed s'
     \<and> (0 < po_filled s' \<longrightarrow> pq_ahead (po_queue s') = 0)
     \<and> pq_fee_numerator (po_queue s') = po_filled s' * limit * feeRate
     \<and> pq_charged (po_queue s') = po_fees s'
     \<and> po_fees s' = fee_ceil (po_filled s' * limit * feeRate) fee_unit"
  proof (cases "pt_side t = sd \<or> pt_price t \<noteq> limit")
    case True
    then have "r = \<lparr>pr_queue = po_queue s, pr_quantity = 0, pr_fee = 0, pr_available = pt_available t\<rparr>"
      using r by (simp add: consumePassiveTrade_def)
    then show ?thesis using i True by (auto simp: s' opposing_snoc)
  next
    case False
    then have o: "pt_side t \<noteq> sd" "pt_price t = limit" by auto
    have p: "0 < step" "0 \<le> pt_available t" using pre by auto
    note c = consumePassiveTrade_cases [OF r p i(5,3) o]
    have num: "pq_fee_numerator (pr_queue r) = (po_filled s + pr_quantity r) * limit * feeRate"
      using c(9) i(9) by (simp add: algebra_simps)
    moreover have "pq_ahead (pr_queue r) = 0" if "0 < po_filled s + pr_quantity r"
      using that c(1,6,7,8) i(2,8) by fastforce
    ultimately show ?thesis
      using c i o by (auto simp: s' opposing_snoc)
  qed
qed

interpretation resting: history_reducer "passive_step sd limit step feeRate" "passive_start (fresh_queue ahead) quantity"
    "passive_inv ahead quantity step sd limit feeRate" for sd limit step feeRate ahead quantity
  by unfold_locales
    (simp add: passive_inv_def passive_start_def fresh_queue_def opposing_def fee.charge_zero, rule passive_inv_step)

lemma passiveQueue_fresh:
  assumes "passiveQueue sd limit bids asks = Inr queue"
  shows "queue = fresh_queue (case find (\<lambda>l. fst l = limit) (if sd = Buy then bids else asks) of None \<Rightarrow> 0 | Some l \<Rightarrow> snd l)"
    and "if sd = Buy then limit < fst (asks ! 0) else fst (bids ! 0) < limit"
  using assms by (auto simp: passiveQueue_def fresh_queue_def Let_def split: if_splits)

text \<open>C34: a resting order fills only from volume that traded past its queue. Accepted behind a
  book it does not cross, and run over any trades, it fills in whole steps and never beyond its
  quantity; once anything is filled, the opposing volume printed at its price is at least the
  quantity displayed ahead of it plus everything filled; and its fees add up to one ceiling of
  the exact fee, however many trades filled it.\<close>

theorem passive_fills_behind_queue:
  assumes "passiveQueue sd limit bids asks = Inr queue"
    and "fold_res (passive_step sd limit step feeRate) (passive_start queue quantity) trades = Inr s"
    and "0 < step" and "0 \<le> quantity"
    and "\<forall>(p, q) \<in> set bids \<union> set asks. 0 \<le> q" and "\<forall>t \<in> set trades. 0 \<le> pt_available t"
  shows "po_filled s + po_remaining s = quantity \<and> 0 \<le> po_filled s \<and> 0 \<le> po_remaining s \<and> step dvd po_filled s
    \<and> (0 < po_filled s \<longrightarrow> pq_ahead queue + po_filled s \<le> opposing sd limit trades)
    \<and> po_fees s = fee_ceil (po_filled s * limit * feeRate) fee_unit
    \<and> (if sd = Buy then limit < fst (asks ! 0) else fst (bids ! 0) < limit)"
proof -
  note fresh = passiveQueue_fresh [OF assms(1)]
  define ahead where "ahead = pq_ahead queue"
  have q: "queue = fresh_queue ahead" using fresh(1) by (simp add: ahead_def fresh_queue_def)
  let ?own = "if sd = Buy then bids else asks"
  have "0 \<le> ahead"
  proof (cases "find (\<lambda>l. fst l = limit) ?own")
    case (Some l)
    then have "l \<in> set ?own" by (auto simp: find_Some_iff)
    then have "l \<in> set bids \<union> set asks" by (auto split: if_splits)
    with assms(5) have "0 \<le> snd l" by (metis (mono_tags, lifting) case_prod_beta)
    then show ?thesis using fresh(1) Some by (simp add: ahead_def fresh_queue_def)
  qed (use fresh(1) in \<open>simp add: ahead_def fresh_queue_def\<close>)
  moreover have "passive_inv ahead quantity step sd limit feeRate trades s"
    using assms(2) unfolding q by (rule resting.run_inv)
  ultimately show ?thesis
    using assms(3,4,6) fresh(2) by (auto simp: passive_inv_def ahead_def)
qed

theorem passive_fills_behind_queue_witness:
  "\<exists>s. fold_res (passive_step Buy 100 10 5) (passive_start (fresh_queue 40) 50)
      [\<lparr>pt_side = Sell, pt_price = 100, pt_available = 30\<rparr>, \<lparr>pt_side = Sell, pt_price = 100, pt_available = 45\<rparr>] = Inr s
    \<and> po_filled s = 30 \<and> 40 + po_filled s \<le> 30 + 45"
proof -
  have q: "passiveQueue Buy 100 [(100, 40)] [(101, 7)] = Inr (fresh_queue 40)" by code_simp
  have run: "fold_res (passive_step Buy 100 10 5) (passive_start (fresh_queue 40) 50)
      [\<lparr>pt_side = Sell, pt_price = 100, pt_available = 30\<rparr>, \<lparr>pt_side = Sell, pt_price = 100, pt_available = 45\<rparr>]
    = Inr \<lparr>po_queue = \<lparr>pq_ahead = 0, pq_fee_numerator = 15000, pq_charged = 1\<rparr>, po_remaining = 20, po_filled = 30,
        po_fees = 1, po_printed = 75\<rparr>"
    by code_simp
  from passive_fills_behind_queue [OF q run] have "40 + 30 \<le> (30 + 45 :: int)"
    by (simp add: opposing_def fresh_queue_def)
  with run show ?thesis by (intro exI conjI) (assumption, simp_all)
qed

end
