(* ===== verification/Financial.thy ===== *)
theory Financial
  imports Ledger
begin

text \<open>
  Weighted-average cost and realized PnL: \<open>createFinancialReducer\<close>, \<open>projectFinancials\<close> and
  \<open>dailyFinancialCosts\<close> of \<open>apps/api/src/trading/valuation.ts\<close>. Quantities are BTC with 8
  decimals, prices USD with 6, cost and realized PnL USD with 14; only the snapshot rounds to
  6 decimals. The invariant \<open>financial_inv\<close> shows that the allocation of cost on partial closes
  loses nothing: realized PnL is the cash flow of the fills plus the signed cost still open.
\<close>

record position =
  position_id :: ident
  quantity_btc :: int
  cost_usd14 :: int
  realized_usd14 :: int

record financial_projection =
  fp_ledger :: ledger_projection
  fp_positions :: "position list"
  realized_pnl_usd :: int
  balance_usd :: int
  fees_usd :: int
  funding_usd :: int

record financial_state =
  fs_positions :: "(ident \<times> position) list"
  fs_fees :: int
  fs_funding :: int

definition BTC_SCALE :: int where
  "BTC_SCALE = 100000000"

definition sign :: "int \<Rightarrow> int" where
  "sign n = (if n < 0 then -1 else 1)"

definition usd :: "int \<Rightarrow> int" where
  "usd n = n sdiv BTC_SCALE - (if n < 0 \<and> n smod BTC_SCALE \<noteq> 0 then 1 else 0)"

definition financial_init :: financial_state where
  "financial_init = \<lparr>fs_positions = [], fs_fees = 0, fs_funding = 0\<rparr>"

text \<open>The body of the fill branch: the position after a fill, from the one before (or none).\<close>

definition fill_position_state :: "ident \<Rightarrow> position option \<Rightarrow> side \<Rightarrow> int \<Rightarrow> int \<Rightarrow> position" where
  "fill_position_state pid prev sd quantity price =
     (let before_q = (case prev of None \<Rightarrow> 0 | Some p \<Rightarrow> quantity_btc p);
          delta = (if sd = Buy then quantity else - quantity);
          cost = (case prev of None \<Rightarrow> 0 | Some p \<Rightarrow> cost_usd14 p);
          realized = (case prev of None \<Rightarrow> 0 | Some p \<Rightarrow> realized_usd14 p)
      in if before_q = 0 \<or> sign before_q = sign delta
         then \<lparr>position_id = pid, quantity_btc = before_q + delta, cost_usd14 = cost + quantity * price,
               realized_usd14 = realized\<rparr>
         else let closed = min \<bar>before_q\<bar> quantity;
                  allocated = (cost * closed) sdiv \<bar>before_q\<bar>
              in \<lparr>position_id = pid, quantity_btc = before_q + delta,
                  cost_usd14 = (if quantity > closed then (quantity - closed) * price else cost - allocated),
                  realized_usd14 = realized + sign before_q * (closed * price - allocated)\<rparr>)"

definition financial_append :: "financial_state \<Rightarrow> ledger_event \<Rightarrow> financial_state" where
  "financial_append s event = (case payload event of
     Fee _ delta \<Rightarrow> s\<lparr>fs_fees := fs_fees s + delta\<rparr>
   | Funding _ _ _ delta \<Rightarrow> s\<lparr>fs_funding := fs_funding s + delta\<rparr>
   | Fill _ pid sd quantity price \<Rightarrow>
       s\<lparr>fs_positions := AList.update pid
           (fill_position_state pid (map_of (fs_positions s) pid) sd quantity price) (fs_positions s)\<rparr>
   | _ \<Rightarrow> s)"

definition financial_snapshot :: "ledger_projection \<Rightarrow> financial_state \<Rightarrow> financial_projection" where
  "financial_snapshot ledger s =
     (let ordered = sort_key position_id (map snd (fs_positions s));
          realized = usd (sum_list (map realized_usd14 ordered))
      in \<lparr>fp_ledger = ledger, fp_positions = ordered, realized_pnl_usd = realized,
          balance_usd = cash_usd ledger + realized, fees_usd = fs_fees s, funding_usd = fs_funding s\<rparr>)"

definition projectFinancials :: "ledger_projection \<Rightarrow> ledger_event list \<Rightarrow> financial_projection" where
  "projectFinancials ledger events =
     financial_snapshot ledger (foldl financial_append financial_init (sort_key sequence events))"

interpretation usd14: rounds_down "\<lambda>n d. n sdiv d - (if n < 0 \<and> n smod d \<noteq> 0 then 1 else 0)"
  by unfold_locales (simp_all only: floor_le floor_gt)

lemma usd_div: "usd n = n div BTC_SCALE"
  using usd14.down_div [of BTC_SCALE n] by (simp add: usd_def BTC_SCALE_def)

section \<open>What the fills say\<close>

text \<open>USD14 cash flow of a fill: a buy pays \<open>quantity * price\<close>, a sell receives it.\<close>

fun payload_flow :: "ident \<Rightarrow> ledger_payload \<Rightarrow> int" where
  "payload_flow pid (Fill _ p sd q pr) = (if p = pid then - (side_sign sd * q * pr) else 0)"
| "payload_flow pid _ = 0"

definition history_flow :: "ledger_event list \<Rightarrow> ident \<Rightarrow> int" where
  "history_flow h pid = sum_list (map (payload_flow pid \<circ> payload) h)"

fun payload_fees :: "ledger_payload \<Rightarrow> int" where
  "payload_fees (Fee _ d) = d"
| "payload_fees _ = 0"

fun payload_funding :: "ledger_payload \<Rightarrow> int" where
  "payload_funding (Funding _ _ _ d) = d"
| "payload_funding _ = 0"

definition history_fees :: "ledger_event list \<Rightarrow> int" where
  "history_fees h = sum_list (map (payload_fees \<circ> payload) h)"

definition history_funding :: "ledger_event list \<Rightarrow> int" where
  "history_funding h = sum_list (map (payload_funding \<circ> payload) h)"

fun positive_fill :: "ledger_payload \<Rightarrow> bool" where
  "positive_fill (Fill _ _ _ q pr) = (0 < q \<and> 0 < pr)"
| "positive_fill _ = True"

definition positive_fills :: "ledger_event list \<Rightarrow> bool" where
  "positive_fills h = list_all (positive_fill \<circ> payload) h"

text \<open>One position against its quantity and cash flow.\<close>

definition position_inv :: "int \<Rightarrow> int \<Rightarrow> position \<Rightarrow> bool" where
  "position_inv q flow p \<longleftrightarrow> quantity_btc p = q \<and> 0 \<le> cost_usd14 p \<and> (q = 0 \<longleftrightarrow> cost_usd14 p = 0)
     \<and> realized_usd14 p = flow + sign q * cost_usd14 p"

definition financial_inv :: "ledger_event list \<Rightarrow> financial_state \<Rightarrow> bool" where
  "financial_inv h s \<longleftrightarrow> fs_fees s = history_fees h \<and> fs_funding s = history_funding h
     \<and> distinct (map fst (fs_positions s)) \<and> fst ` set (fs_positions s) = fill_positions h
     \<and> (\<forall>(pid, p) \<in> set (fs_positions s). position_id p = pid \<and> quantity_btc p = history_quantity h pid)
     \<and> (positive_fills h \<longrightarrow>
          (\<forall>(pid, p) \<in> set (fs_positions s). position_inv (history_quantity h pid) (history_flow h pid) p))"

lemma flow_Nil [simp]: "history_flow [] p = 0" "history_fees [] = 0" "history_funding [] = 0" "positive_fills []"
  by (simp_all add: history_flow_def history_fees_def history_funding_def positive_fills_def)

lemma flow_snoc [simp]:
  "history_flow (h @ [e]) p = history_flow h p + payload_flow p (payload e)"
  "history_fees (h @ [e]) = history_fees h + payload_fees (payload e)"
  "history_funding (h @ [e]) = history_funding h + payload_funding (payload e)"
  "positive_fills (h @ [e]) \<longleftrightarrow> positive_fills h \<and> positive_fill (payload e)"
  by (simp_all add: history_flow_def history_fees_def history_funding_def positive_fills_def)

lemma history_flow_unfilled: "p \<notin> fill_positions h \<Longrightarrow> history_flow h p = 0"
proof (induction h rule: rev_induct)
  case Nil
  then show ?case by simp
next
  case (snoc e h)
  then show ?case by (cases "payload e") auto
qed

text \<open>Closing \<open>closed\<close> of \<open>b\<close> units allocates at most the cost, all of it exactly on a full close.\<close>

lemma allocated_bounds:
  fixes cost b closed :: int
  assumes "0 \<le> cost" and "0 < b" and "0 \<le> closed" and "closed \<le> b"
  shows "0 \<le> (cost * closed) sdiv b" and "(cost * closed) sdiv b \<le> cost"
    and "closed = b \<Longrightarrow> (cost * closed) sdiv b = cost"
    and "closed < b \<Longrightarrow> 0 < cost \<Longrightarrow> (cost * closed) sdiv b < cost"
proof -
  have eq: "(cost * closed) sdiv b = cost * closed div b"
    using assms by (simp add: sdiv_nonneg)
  show "0 \<le> (cost * closed) sdiv b" using assms by (simp add: eq pos_imp_zdiv_nonneg_iff)
  have "cost * closed div b \<le> cost * b div b"
    using assms by (intro zdiv_mono1 mult_left_mono) auto
  then show "(cost * closed) sdiv b \<le> cost" using assms by (simp add: eq)
  show "closed = b \<Longrightarrow> (cost * closed) sdiv b = cost" using assms eq by auto
  show "(cost * closed) sdiv b < cost" if "closed < b" "0 < cost"
  proof -
    have "b * (cost * closed div b) \<le> cost * closed" using div_bounds(1) [of b "cost * closed"] assms by simp
    also have "\<dots> < b * cost" using that by (simp add: mult.commute)
    finally show ?thesis using assms by (simp add: eq)
  qed
qed

lemma position_inv_fill:
  assumes prev: "case prev of None \<Rightarrow> q = 0 \<and> flow = 0 | Some p \<Rightarrow> position_inv q flow p"
    and "0 < quantity" and "0 < price"
  shows "position_inv (q + side_sign sd * quantity) (flow - side_sign sd * quantity * price)
    (fill_position_state pid prev sd quantity price)"
proof -
  define cost where "cost = (case prev of None \<Rightarrow> 0 | Some p \<Rightarrow> cost_usd14 p)"
  define realized where "realized = (case prev of None \<Rightarrow> 0 | Some p \<Rightarrow> realized_usd14 p)"
  have q: "(case prev of None \<Rightarrow> 0 | Some p \<Rightarrow> quantity_btc p) = q"
    and cost: "0 \<le> cost" "q = 0 \<longleftrightarrow> cost = 0" "realized = flow + sign q * cost"
    using prev by (auto simp: cost_def realized_def position_inv_def split: option.splits)
  note st = fill_position_state_def Let_def q cost_def [symmetric] realized_def [symmetric]
  have dlt: "(if sd = Buy then quantity else - quantity) = side_sign sd * quantity" by (cases sd) auto
  have qp: "0 < quantity * price" using assms by simp
  show ?thesis
  proof (cases "q = 0 \<or> sign q = sign (side_sign sd * quantity)")
    case True
    then have "fill_position_state pid prev sd quantity price =
        \<lparr>position_id = pid, quantity_btc = q + side_sign sd * quantity,
         cost_usd14 = cost + quantity * price, realized_usd14 = realized\<rparr>"
      by (simp add: st dlt)
    moreover have "sign (q + side_sign sd * quantity) = side_sign sd" "q + side_sign sd * quantity \<noteq> 0"
      using True \<open>0 < quantity\<close> by (cases sd; auto simp: sign_def split: if_splits)+
    moreover have "sign q * cost = side_sign sd * cost"
      using True \<open>0 < quantity\<close> cost(2) by (cases sd) (auto simp: sign_def split: if_splits)
    ultimately show ?thesis using cost qp by (auto simp: position_inv_def algebra_simps)
  next
    case False
    define closed where "closed = min \<bar>q\<bar> quantity"
    define allocated where "allocated = (cost * closed) sdiv \<bar>q\<bar>"
    from False have "q \<noteq> 0" and opp: "sign q = - side_sign sd"
      using \<open>0 < quantity\<close> by (auto simp: sign_def split: if_splits) (cases sd; simp)+
    then have "0 < cost" using cost by simp
    have cl: "0 \<le> closed" "closed \<le> \<bar>q\<bar>" "0 < \<bar>q\<bar>" using \<open>q \<noteq> 0\<close> \<open>0 < quantity\<close> by (auto simp: closed_def)
    note alloc = allocated_bounds [OF cost(1) cl(3) cl(1) cl(2), folded allocated_def]
    have state: "fill_position_state pid prev sd quantity price =
        \<lparr>position_id = pid, quantity_btc = q + side_sign sd * quantity,
         cost_usd14 = (if quantity > closed then (quantity - closed) * price else cost - allocated),
         realized_usd14 = realized + sign q * (closed * price - allocated)\<rparr>"
      using False by (simp add: st dlt closed_def [symmetric] allocated_def [symmetric])
    have absq: "\<bar>q\<bar> = - side_sign sd * q"
      using opp \<open>q \<noteq> 0\<close> by (cases sd) (auto simp: sign_def split: if_splits)
    consider "quantity < \<bar>q\<bar>" | "quantity = \<bar>q\<bar>" | "\<bar>q\<bar> < quantity" by linarith
    then show ?thesis
    proof cases
      case 1
      then have "closed = quantity" by (simp add: closed_def)
      moreover have "sign (q + side_sign sd * quantity) = sign q" "q + side_sign sd * quantity \<noteq> 0"
        using 1 opp absq by (cases sd; auto simp: sign_def split: if_splits)+
      ultimately show ?thesis
        using alloc(4) 1 \<open>0 < cost\<close> cost(3) opp by (auto simp: state position_inv_def algebra_simps)
    next
      case 2
      then have "closed = quantity" "q + side_sign sd * quantity = 0" "allocated = cost"
        using absq alloc(3) by (cases sd; simp add: closed_def)+
      then show ?thesis using cost(3) opp by (simp add: state position_inv_def algebra_simps)
    next
      case 3
      then have "closed = \<bar>q\<bar>" "allocated = cost" using alloc(3) by (simp_all add: closed_def)
      moreover have "sign (q + side_sign sd * quantity) = side_sign sd" "q + side_sign sd * quantity \<noteq> 0"
        using 3 by (cases sd; auto simp: sign_def)+
      moreover have "0 < (quantity - \<bar>q\<bar>) * price" using 3 \<open>0 < price\<close> by simp
      ultimately show ?thesis
        using 3 cost(3) opp absq by (auto simp: state position_inv_def algebra_simps)
    qed
  qed
qed

lemma fill_position_state_simps [simp]:
  "position_id (fill_position_state pid prev sd q pr) = pid"
  "quantity_btc (fill_position_state pid prev sd q pr) =
     (case prev of None \<Rightarrow> 0 | Some p \<Rightarrow> quantity_btc p) + side_sign sd * q"
  by (cases sd; simp add: fill_position_state_def Let_def)+

lemma alist_update_ball:
  "distinct (map fst m) \<Longrightarrow>
     (\<forall>(k', v') \<in> set (AList.update k v m). P k' v') \<longleftrightarrow> P k v \<and> (\<forall>(k', v') \<in> set m. k' \<noteq> k \<longrightarrow> P k' v')"
  by (induction m) (auto simp: image_iff, force+)

lemma position_lookup:
  assumes "financial_inv h s"
  shows "case map_of (fs_positions s) pid of None \<Rightarrow> history_quantity h pid = 0 \<and> history_flow h pid = 0
    | Some p \<Rightarrow> quantity_btc p = history_quantity h pid
        \<and> (positive_fills h \<longrightarrow> position_inv (history_quantity h pid) (history_flow h pid) p)"
proof (cases "map_of (fs_positions s) pid")
  case None
  then have "pid \<notin> fill_positions h"
    using assms by (auto simp: financial_inv_def map_of_eq_None_iff)
  with None show ?thesis by (simp add: history_quantity_unfilled history_flow_unfilled)
next
  case (Some p)
  then have "(pid, p) \<in> set (fs_positions s)" by (rule map_of_SomeD)
  with assms Some show ?thesis by (auto simp: financial_inv_def)
qed

lemma financial_inv_fill:
  assumes inv: "financial_inv h s" and e: "payload e = Fill x pid sd q pr"
  shows "financial_inv (h @ [e]) (financial_append s e)"
proof -
  let ?prev = "map_of (fs_positions s) pid"
  let ?new = "fill_position_state pid ?prev sd q pr"
  note look = position_lookup [OF inv, of pid]
  have q: "quantity_btc ?new = history_quantity h pid + side_sign sd * q"
    using look by (simp split: option.splits)
  have p: "position_inv (history_quantity h pid + side_sign sd * q)
      (history_flow h pid - side_sign sd * q * pr) ?new"
    if "positive_fills h" "0 < q" "0 < pr"
    using look that by (intro position_inv_fill) (auto split: option.splits)
  have d: "distinct (map fst (fs_positions s))" using inv by (simp add: financial_inv_def)
  show ?thesis
    using inv e q p
    by (auto simp: financial_inv_def financial_append_def alist_update_ball [OF d] map_update
        cong del: image_cong_simp)
qed

lemma financial_inv_step: "financial_inv h s \<Longrightarrow> financial_inv (h @ [e]) (financial_append s e)"
proof (cases "payload e")
  case (Fill x pid sd q pr)
  then show "financial_inv h s \<Longrightarrow> ?thesis" by (intro financial_inv_fill)
qed (auto simp: financial_inv_def financial_append_def)

lemma financial_inv_init: "financial_inv [] financial_init"
  by (simp add: financial_inv_def financial_init_def)

interpretation fin: total_reducer financial_append financial_init financial_inv
  by unfold_locales (auto intro: financial_inv_init financial_inv_step)

section \<open>The projection of an event list\<close>

lemma flow_mset:
  assumes "mset xs = mset ys"
  shows "history_flow xs p = history_flow ys p" "history_fees xs = history_fees ys"
    "history_funding xs = history_funding ys" "positive_fills xs \<longleftrightarrow> positive_fills ys"
  using assms mset_eq_setD [OF assms]
  by (auto simp: history_flow_def history_fees_def history_funding_def positive_fills_def
      list_all_iff intro: sum_list_mset)

lemma projected_position:
  assumes "p \<in> set (fp_positions (projectFinancials ledger events))"
  shows "quantity_btc p = history_quantity events (position_id p)"
    and "position_id p \<in> fill_positions events"
    and "positive_fills events \<Longrightarrow>
      position_inv (history_quantity events (position_id p)) (history_flow events (position_id p)) p"
proof -
  let ?xs = "sort_key sequence events"
  let ?s = "foldl financial_append financial_init ?xs"
  have inv: "financial_inv ?xs ?s" by (rule fin.foldl_inv)
  have ms: "mset ?xs = mset events" by simp
  from assms have "p \<in> snd ` set (fs_positions ?s)"
    by (simp add: projectFinancials_def financial_snapshot_def Let_def)
  then obtain pid where mem: "(pid, p) \<in> set (fs_positions ?s)" by auto
  with inv have id: "position_id p = pid" by (auto simp: financial_inv_def)
  from inv mem id show "quantity_btc p = history_quantity events (position_id p)"
    using history_mset(2) [OF ms] by (auto simp: financial_inv_def)
  from mem have "pid \<in> fst ` set (fs_positions ?s)" by force
  with inv id show "position_id p \<in> fill_positions events"
    using history_mset(3) [OF ms] by (simp add: financial_inv_def)
  show "position_inv (history_quantity events (position_id p)) (history_flow events (position_id p)) p"
    if "positive_fills events"
    using inv mem id that flow_mset [OF ms] history_mset(2) [OF ms] by (auto simp: financial_inv_def)
qed

lemma projected_ids:
  "sorted_wrt (<) (map position_id (fp_positions (projectFinancials ledger events)))"
  "set (map position_id (fp_positions (projectFinancials ledger events))) = fill_positions events"
proof -
  let ?xs = "sort_key sequence events"
  let ?m = "fs_positions (foldl financial_append financial_init ?xs)"
  have inv: "financial_inv ?xs (foldl financial_append financial_init ?xs)" by (rule fin.foldl_inv)
  then have ids: "map (position_id \<circ> snd) ?m = map fst ?m"
    by (auto simp: financial_inv_def)
  have "distinct (map position_id (map snd ?m))"
    using inv by (simp only: map_map ids financial_inv_def)
  then show "sorted_wrt (<) (map position_id (fp_positions (projectFinancials ledger events)))"
    by (simp add: projectFinancials_def financial_snapshot_def Let_def sort_distinct_keys)
  have "position_id ` snd ` set ?m = set (map (position_id \<circ> snd) ?m)" by (simp add: image_comp)
  also have "\<dots> = fill_positions ?xs" using inv by (simp only: ids set_map financial_inv_def)
  also have "\<dots> = fill_positions events" by (rule history_mset) simp
  finally show "set (map position_id (fp_positions (projectFinancials ledger events))) = fill_positions events"
    by (simp add: projectFinancials_def financial_snapshot_def Let_def)
qed

lemma projected_totals:
  "fees_usd (projectFinancials ledger events) = history_fees events"
  "funding_usd (projectFinancials ledger events) = history_funding events"
proof -
  let ?xs = "sort_key sequence events"
  have inv: "financial_inv ?xs (foldl financial_append financial_init ?xs)" by (rule fin.foldl_inv)
  have ms: "mset ?xs = mset events" by simp
  from inv show "fees_usd (projectFinancials ledger events) = history_fees events"
    using flow_mset(2) [OF ms] by (simp add: projectFinancials_def financial_snapshot_def Let_def financial_inv_def)
  from inv show "funding_usd (projectFinancials ledger events) = history_funding events"
    using flow_mset(3) [OF ms] by (simp add: projectFinancials_def financial_snapshot_def Let_def financial_inv_def)
qed

lemma projected_balance:
  fixes events ledger
  defines "f \<equiv> projectFinancials ledger events"
  shows "balance_usd f = cash_usd ledger + (sum_list (map realized_usd14 (fp_positions f))) div BTC_SCALE"
    and "realized_pnl_usd f = (sum_list (map realized_usd14 (fp_positions f))) div BTC_SCALE"
    and "fp_ledger f = ledger"
  by (simp_all add: f_def projectFinancials_def financial_snapshot_def Let_def usd_div)

lemma projectFinancials_position:
  assumes "positive_fills events" and "p \<in> set (fp_positions (projectFinancials ledger events))"
  shows "quantity_btc p = history_quantity events (position_id p)" and "0 \<le> cost_usd14 p"
    and "quantity_btc p = 0 \<longleftrightarrow> cost_usd14 p = 0"
    and "realized_usd14 p = history_flow events (position_id p) + sign (quantity_btc p) * cost_usd14 p"
  using projected_position(1,3) [OF assms(2)] assms(1) by (simp_all add: position_inv_def)

text \<open>The premise on fills is what the ledger's acceptance guarantees.\<close>

lemma accepted_fills_positive: "fold_res (ledger_append idn a) s h = Inr s' \<Longrightarrow> positive_fills h"
proof (induction h arbitrary: s)
  case (Cons e h)
  then obtain s1 where s1: "ledger_append idn a s e = Inr s1" "fold_res (ledger_append idn a) s1 h = Inr s'" by auto
  from s1(1) obtain ts c s2 where "ledger_apply idn (s\<lparr>ls_transactions := ts, ls_current := c\<rparr>) e = Inr s2"
    by (rule ledger_append_cases)
  then have "positive_fill (payload e)" by (cases "payload e") (auto simp: ledger_apply_def)
  then show ?case using Cons.IH [OF s1(2)] by (simp add: positive_fills_def)
qed simp

text \<open>C20: For any events whose fills have positive quantity and price (every history the ledger accepts has), each projected
  position holds the signed sum of its fills; its cost is nonnegative, and zero exactly when the position is flat; and
  its realized PnL is the net cash flow of its fills (sales minus purchases) plus the signed cost of what is still open.
  However many partial closes and reversals there were, no rounding has leaked out.\<close>

theorem projectFinancials_conserves:
  assumes "positive_fills events" and "p \<in> set (fp_positions (projectFinancials ledger events))"
  shows "quantity_btc p = history_quantity events (position_id p)
    \<and> 0 \<le> cost_usd14 p \<and> (quantity_btc p = 0 \<longleftrightarrow> cost_usd14 p = 0)
    \<and> realized_usd14 p = history_flow events (position_id p) + sign (quantity_btc p) * cost_usd14 p"
  using projectFinancials_position [OF assms] by blast

definition sample_fills :: "ledger_event list" where
  "sample_fills =
     [sample_event ''e2'' 2 ''t2'' 2000 (Fill ''x2'' ''p'' Buy 3000 60000000000),
      sample_event ''e4'' 4 ''t4'' 4000 (Fill ''x4'' ''p'' Sell 5000 59000000000),
      sample_event ''e3'' 3 ''t3'' 3000 (Fill ''x3'' ''p'' Sell 1000 61000000000)]"

definition sample_projection :: ledger_projection where
  "sample_projection = \<lparr>lp_scope = ledgerScope sample_identity, last_sequence = 4, cash_usd = 1000000000,
     ledger_positions = [(''p'', -3000)]\<rparr>"

lemma sample_financials:
  "fp_positions (projectFinancials sample_projection sample_fills) =
     [\<lparr>position_id = ''p'', quantity_btc = -3000, cost_usd14 = 177000000000000, realized_usd14 = -1000000000000\<rparr>]"
  by code_simp

theorem projectFinancials_conserves_witness:
  "positive_fills sample_fills
   \<and> (-1000000000000 :: int) = history_flow sample_fills ''p'' + sign (-3000) * 177000000000000"
proof -
  have pos: "positive_fills sample_fills" by code_simp
  from projectFinancials_conserves [OF pos, where p = "\<lparr>position_id = ''p'', quantity_btc = -3000,
      cost_usd14 = 177000000000000, realized_usd14 = -1000000000000\<rparr>" and ledger = sample_projection] pos
  show ?thesis by (simp add: sample_financials)
qed

definition total_flow :: "ledger_event list \<Rightarrow> int" where
  "total_flow h = sum_list (map (\<lambda>e. case payload e of Fill _ _ sd q pr \<Rightarrow> - (side_sign sd * q * pr) | _ \<Rightarrow> 0) h)"

lemma finite_fill_positions [simp]: "finite (fill_positions h)"
  by (induction h rule: rev_induct) (auto split: ledger_payload.splits)

lemma total_flow_sum: "(\<Sum>p \<in> fill_positions h. history_flow h p) = total_flow h"
proof (induction h rule: rev_induct)
  case Nil
  then show ?case by (simp add: total_flow_def)
next
  case (snoc e h)
  show ?case
  proof (cases "payload e")
    case (Fill x q sd n pr)
    have "(\<Sum>p \<in> insert q (fill_positions h). history_flow h p) = (\<Sum>p \<in> fill_positions h. history_flow h p)"
      by (cases "q \<in> fill_positions h") (simp_all add: insert_absorb history_flow_unfilled)
    then show ?thesis
      using Fill snoc by (simp add: total_flow_def sum.distrib)
  qed (use snoc in \<open>simp_all add: total_flow_def\<close>)
qed

lemma projected_flow:
  "(\<Sum>p \<leftarrow> fp_positions (projectFinancials ledger events). history_flow events (position_id p)) = total_flow events"
proof -
  let ?ids = "map position_id (fp_positions (projectFinancials ledger events))"
  have "sum_list (map (history_flow events) ?ids) = (\<Sum>p \<in> set ?ids. history_flow events p)"
    using projected_ids(1) by (intro sum_list_distinct_conv_sum_set) (simp only: strict_sorted_iff)
  also have "\<dots> = total_flow events" by (simp only: projected_ids(2) total_flow_sum)
  finally show ?thesis by (simp add: comp_def)
qed

text \<open>when the book is flat, the balance is the ledger's cash plus the net cash flow of all
  fills, rounded down once for the account.\<close>

theorem flat_balance:
  assumes "positive_fills events"
    and "\<forall>p \<in> set (fp_positions (projectFinancials ledger events)). quantity_btc p = 0"
  shows "balance_usd (projectFinancials ledger events) = cash_usd ledger + total_flow events div BTC_SCALE"
proof -
  let ?ps = "fp_positions (projectFinancials ledger events)"
  have "realized_usd14 p = history_flow events (position_id p)" if p: "p \<in> set ?ps" for p
  proof -
    from assms(2) p have "quantity_btc p = 0" by blast
    with projectFinancials_position [OF assms(1) p] show ?thesis by simp
  qed
  then have "map realized_usd14 ?ps = map (history_flow events) (map position_id ?ps)" by simp
  then have "sum_list (map realized_usd14 ?ps) = sum_list (map (history_flow events) (map position_id ?ps))"
    by (rule arg_cong [where f = sum_list])
  also have "\<dots> = total_flow events" using projected_flow by (simp add: comp_def)
  finally show ?thesis by (simp add: projected_balance(1))
qed

theorem flat_balance_witness:
  "balance_usd (projectFinancials sample_projection sample_ledger) = 1000000000 + (- 200000000000000) div BTC_SCALE"
proof -
  have pos: "positive_fills sample_ledger" by code_simp
  have flat: "\<forall>p \<in> set (fp_positions (projectFinancials sample_projection sample_ledger)). quantity_btc p = 0"
    by code_simp
  have "total_flow sample_ledger = - 200000000000000" by code_simp
  with flat_balance [OF pos flat] show ?thesis by (simp add: sample_projection_def)
qed

section \<open>Daily costs\<close>

definition day_start :: "time \<Rightarrow> time" where
  "day_start asOf = asOf div 86400000 * 86400000"

record daily_costs =
  dc_day_start :: time
  dc_realized_pnl_usd :: int
  dc_fees_usd :: int
  dc_funding_usd :: int
  dc_net_realized_costs_usd :: int

definition dailyFinancialCosts :: "ledger_projection \<Rightarrow> ledger_event list \<Rightarrow> time \<Rightarrow> daily_costs" where
  "dailyFinancialCosts ledger events asOf =
     (let day = day_start asOf;
          current = projectFinancials ledger (filter (\<lambda>e. occurred_at e \<le> asOf) events);
          previous = projectFinancials ledger (filter (\<lambda>e. occurred_at e < day) events);
          realized = realized_pnl_usd current - realized_pnl_usd previous;
          fees = fees_usd current - fees_usd previous;
          funding = funding_usd current - funding_usd previous
      in \<lparr>dc_day_start = day, dc_realized_pnl_usd = realized, dc_fees_usd = fees,
          dc_funding_usd = funding, dc_net_realized_costs_usd = realized + fees + funding\<rparr>)"

lemma sum_list_filter_split:
  fixes f :: "'a \<Rightarrow> int"
  assumes "\<And>x. x \<in> set xs \<Longrightarrow> Q x \<Longrightarrow> P x"
  shows "sum_list (map f (filter P xs)) - sum_list (map f (filter Q xs))
    = sum_list (map f (filter (\<lambda>x. P x \<and> \<not> Q x) xs))"
  using assms by (induction xs) auto

text \<open>the day's fees and funding are exactly those of the events that happened since midnight
  UTC up to the instant asked for, and the net figure adds the day's realized PnL to them.\<close>

theorem dailyFinancialCosts_window:
  fixes ledger events asOf
  defines "c \<equiv> dailyFinancialCosts ledger events asOf"
    and "today \<equiv> filter (\<lambda>e. day_start asOf \<le> occurred_at e \<and> occurred_at e \<le> asOf) events"
  shows "dc_fees_usd c = history_fees today \<and> dc_funding_usd c = history_funding today
    \<and> dc_net_realized_costs_usd c = dc_realized_pnl_usd c + dc_fees_usd c + dc_funding_usd c
    \<and> dc_day_start c \<le> asOf \<and> asOf < dc_day_start c + 86400000"
proof -
  have day: "day_start asOf \<le> asOf" "asOf < day_start asOf + 86400000"
    using div_bounds [of 86400000 asOf] by (simp_all add: day_start_def mult.commute)
  have today: "filter (\<lambda>e. occurred_at e \<le> asOf \<and> \<not> occurred_at e < day_start asOf) events = today"
    by (auto simp: today_def intro: filter_cong)
  have "history_fees (filter (\<lambda>e. occurred_at e \<le> asOf) events)
      - history_fees (filter (\<lambda>e. occurred_at e < day_start asOf) events) = history_fees today"
    using sum_list_filter_split [of events "\<lambda>e. occurred_at e < day_start asOf" "\<lambda>e. occurred_at e \<le> asOf"
        "payload_fees \<circ> payload"] day
    by (simp add: history_fees_def today)
  moreover have "history_funding (filter (\<lambda>e. occurred_at e \<le> asOf) events)
      - history_funding (filter (\<lambda>e. occurred_at e < day_start asOf) events) = history_funding today"
    using sum_list_filter_split [of events "\<lambda>e. occurred_at e < day_start asOf" "\<lambda>e. occurred_at e \<le> asOf"
        "payload_funding \<circ> payload"] day
    by (simp add: history_funding_def today)
  ultimately show ?thesis
    using day by (simp add: c_def dailyFinancialCosts_def Let_def projected_totals)
qed

end
