(* ===== verification/Decimals.thy ===== *)
theory Decimals
  imports Prelude
begin

text \<open>
  Decimal strings: what the source uses of \<open>BigInt(string)\<close> and \<open>bigint.toString()\<close>.
  \<open>show_nat\<close> and \<open>show_int\<close> print, \<open>read_nat\<close> and \<open>read_int\<close> read a digit string,
  \<open>strip_zeros\<close> is \<open>replace(/0+$/, "")\<close>. The lemmas give the round trips in both
  directions, the number of digits of a value, and the number of digits that are left when
  the trailing zeros are gone.
\<close>

definition digit_char :: "nat \<Rightarrow> char" where
  "digit_char d = char_of (48 + d)"

definition is_digit :: "char \<Rightarrow> bool" where
  "is_digit c \<longleftrightarrow> (48::nat) \<le> of_char c \<and> of_char c \<le> (57::nat)"

definition digit_val :: "char \<Rightarrow> nat" where
  "digit_val c = of_char c - 48"

fun show_nat :: "nat \<Rightarrow> string" where
  "show_nat n = (if n < 10 then [digit_char n] else show_nat (n div 10) @ [digit_char (n mod 10)])"

definition read_nat :: "string \<Rightarrow> nat" where
  "read_nat s = foldl (\<lambda>n c. 10 * n + digit_val c) 0 s"

definition show_int :: "int \<Rightarrow> string" where
  "show_int n = (if n < 0 then CHR ''-'' # show_nat (nat (- n)) else show_nat (nat n))"

fun read_int :: "string \<Rightarrow> int" where
  "read_int [] = 0"
| "read_int (c # s) = (if c = CHR ''-'' then - int (read_nat s) else int (read_nat (c # s)))"

definition strip_zeros :: "string \<Rightarrow> string" where
  "strip_zeros s = rev (dropWhile (\<lambda>c. c = CHR ''0'') (rev s))"

declare show_nat.simps [simp del]

lemma of_char_digit [simp]: "d < 10 \<Longrightarrow> of_char (digit_char d) = 48 + d"
  by (simp add: digit_char_def)

lemma is_digit_char [simp]: "d < 10 \<Longrightarrow> is_digit (digit_char d)"
  by (simp add: is_digit_def)

lemma digit_val_char [simp]: "d < 10 \<Longrightarrow> digit_val (digit_char d) = d"
  by (simp add: digit_val_def)

lemma digit_val_less [simp]: "is_digit c \<Longrightarrow> digit_val c < 10"
  unfolding is_digit_def digit_val_def by arith

lemma digit_char_val [simp]: "is_digit c \<Longrightarrow> digit_char (digit_val c) = c"
  by (simp add: is_digit_def digit_val_def digit_char_def)

lemma digit_char_0: "digit_char 0 = CHR ''0''"
  by code_simp

lemma digit_char_inj: "a < 10 \<Longrightarrow> b < 10 \<Longrightarrow> digit_char a = digit_char b \<longleftrightarrow> a = b"
  using digit_val_char by metis

lemma minus_not_digit [simp]: "\<not> is_digit CHR ''-''" "is_digit CHR ''0''"
  by (simp_all add: is_digit_def)

section \<open>Natural numbers\<close>

lemma read_nat_Nil [simp]: "read_nat [] = 0"
  by (simp add: read_nat_def)

lemma read_nat_snoc [simp]: "read_nat (s @ [c]) = 10 * read_nat s + digit_val c"
  by (simp add: read_nat_def)

lemma read_nat_append: "read_nat (a @ b) = read_nat a * 10 ^ length b + read_nat b"
proof (induction b rule: rev_induct)
  case (snoc c b)
  have "read_nat (a @ b @ [c]) = 10 * read_nat (a @ b) + digit_val c"
    using read_nat_snoc [of "a @ b" c] by simp
  with snoc show ?case by (simp add: distrib_left)
qed simp

lemma read_nat_single [simp]: "read_nat [c] = digit_val c"
  by (simp add: read_nat_def)

lemma read_show_nat [simp]: "read_nat (show_nat n) = n"
proof (induction n rule: show_nat.induct)
  case (1 n)
  then show ?case by (subst show_nat.simps) simp
qed

lemma show_nat_digits: "list_all is_digit (show_nat n)"
proof (induction n rule: show_nat.induct)
  case (1 n)
  then show ?case by (subst show_nat.simps) simp
qed

lemma show_nat_nonempty [simp]: "show_nat n \<noteq> []"
  by (subst show_nat.simps) simp

lemma show_nat_hd: "0 < n \<Longrightarrow> hd (show_nat n) \<noteq> CHR ''0''"
proof (induction n rule: show_nat.induct)
  case (1 n)
  then show ?case
    using digit_char_inj [of n 0] by (subst show_nat.simps) (auto simp: digit_char_0 div_greater_zero_iff)
qed

lemma show_read_nat:
  "s \<noteq> [] \<Longrightarrow> list_all is_digit s \<Longrightarrow> hd s \<noteq> CHR ''0'' \<Longrightarrow> show_nat (read_nat s) = s \<and> 0 < read_nat s"
proof (induction s rule: rev_induct)
  case Nil
  then show ?case by simp
next
  case (snoc c s)
  show ?case
  proof (cases "s = []")
    case True
    with snoc.prems have "is_digit c" "digit_char (digit_val c) \<noteq> digit_char 0"
      by (simp_all add: digit_char_0)
    then have "digit_val c \<noteq> 0" by metis
    with True snoc.prems show ?thesis
      by (subst show_nat.simps) simp
  next
    case False
    with snoc have IH: "show_nat (read_nat s) = s" "0 < read_nat s" by simp_all
    with snoc.prems show ?thesis
      by (subst show_nat.simps) simp
  qed
qed

lemma show_nat_inj [simp]: "show_nat m = show_nat n \<longleftrightarrow> m = n"
  using read_show_nat by metis

lemma length_show_nat: "0 < k \<Longrightarrow> length (show_nat n) \<le> k \<longleftrightarrow> n < 10 ^ k"
proof (induction k arbitrary: n)
  case 0
  then show ?case by simp
next
  case (Suc k)
  show ?case
  proof (cases "n < 10")
    case True
    then have "n < 10 ^ Suc k" using one_le_power [of "10::nat" k] unfolding power_Suc by linarith
    with True show ?thesis by (subst show_nat.simps) simp
  next
    case False
    then have "length (show_nat n) \<le> Suc k \<longleftrightarrow> length (show_nat (n div 10)) \<le> k"
      by (subst show_nat.simps) simp
    also have "\<dots> \<longleftrightarrow> n div 10 < 10 ^ k"
      using Suc.IH [of "n div 10"] False by (cases k) auto
    also have "\<dots> \<longleftrightarrow> n < 10 ^ Suc k"
      by (simp add: div_less_iff_less_mult mult.commute)
    finally show ?thesis .
  qed
qed

section \<open>Integers\<close>

lemma show_nat_not_minus: "show_nat n \<noteq> CHR ''-'' # s"
proof
  assume "show_nat n = CHR ''-'' # s"
  with show_nat_digits [of n] show False by simp
qed

lemma read_int_digits: "s \<noteq> [] \<Longrightarrow> list_all is_digit s \<Longrightarrow> read_int s = int (read_nat s)"
  by (cases s) auto

lemma read_show_int [simp]: "read_int (show_int n) = n"
  using show_nat_digits [of "nat n"] by (auto simp: show_int_def read_int_digits)

lemma show_int_inj [simp]: "show_int m = show_int n \<longleftrightarrow> m = n"
  using read_show_int by metis

lemma show_int_nonempty [simp]: "show_int n \<noteq> []"
  by (simp add: show_int_def)

section \<open>Trailing zeros and significant digits\<close>

lemma strip_zeros_snoc [simp]:
  "strip_zeros (s @ [c]) = (if c = CHR ''0'' then strip_zeros s else s @ [c])"
  by (simp add: strip_zeros_def)

lemma strip_zeros_Nil [simp]: "strip_zeros [] = []"
  by (simp add: strip_zeros_def)

definition sig_digits :: "nat \<Rightarrow> nat" where
  "sig_digits n = length (strip_zeros (show_nat n))"

lemma sig_digits_ten: "0 < n \<Longrightarrow> sig_digits (10 * n) = sig_digits n"
  using show_nat.simps [of "10 * n"] by (simp add: sig_digits_def digit_char_0)

lemma sig_digits_not_ten: "n mod 10 \<noteq> 0 \<Longrightarrow> sig_digits n = length (show_nat n)"
proof -
  assume n: "n mod 10 \<noteq> 0"
  then have "digit_char (n mod 10) \<noteq> CHR ''0''"
    using digit_char_inj [of "n mod 10" 0] by (simp add: digit_char_0)
  with n show ?thesis
    by (cases "n < 10") (simp_all add: sig_digits_def show_nat.simps [of n] strip_zeros_def)
qed

lemma sig_digits_le_length: "sig_digits n \<le> length (show_nat n)"
  unfolding sig_digits_def strip_zeros_def using length_dropWhile_le [of _ "rev (show_nat n)"] by simp

lemma sig_digits_pos: "0 < n \<Longrightarrow> 0 < sig_digits n"
proof -
  assume "0 < n"
  then have "hd (show_nat n) \<noteq> CHR ''0''" by (rule show_nat_hd)
  then have "\<exists>c \<in> set (rev (show_nat n)). c \<noteq> CHR ''0''" by (cases "show_nat n") auto
  then show ?thesis by (auto simp: sig_digits_def strip_zeros_def dropWhile_eq_Nil_conv)
qed

text \<open>\<open>n\<close> has at most \<open>k\<close> significant digits when it is a value of at most \<open>k\<close> digits with
  zeros appended.\<close>

lemma sig_digits_mult_le: "0 < m \<Longrightarrow> sig_digits (m * 10 ^ z) \<le> length (show_nat m)"
proof (induction z)
  case 0
  then show ?case by (simp add: sig_digits_le_length)
next
  case (Suc z)
  then show ?case using sig_digits_ten [of "m * 10 ^ z"] by (simp add: mult.assoc mult.left_commute)
qed

lemma sig_digits_decomp: "0 < n \<Longrightarrow> \<exists>m z. n = m * 10 ^ z \<and> sig_digits n = length (show_nat m)"
proof (induction n rule: less_induct)
  case (less n)
  show ?case
  proof (cases "n mod 10 = 0")
    case True
    then obtain q where q: "n = 10 * q" by auto
    with less.prems have "0 < q" "q < n" by auto
    with less.IH obtain m z where "q = m * 10 ^ z" "sig_digits q = length (show_nat m)" by blast
    then have "n = m * 10 ^ Suc z" "sig_digits n = length (show_nat m)"
      using q \<open>0 < q\<close> by (simp_all add: sig_digits_ten)
    then show ?thesis by blast
  next
    case False
    then have "n = n * 10 ^ 0" "sig_digits n = length (show_nat n)" by (simp_all add: sig_digits_not_ten)
    then show ?thesis by blast
  qed
qed

lemma sig_digits_le_iff:
  assumes "0 < n" and "0 < k"
  shows "sig_digits n \<le> k \<longleftrightarrow> (\<exists>m z. n = m * 10 ^ z \<and> m < 10 ^ k)"
proof
  assume "sig_digits n \<le> k"
  with sig_digits_decomp [OF assms(1)] show "\<exists>m z. n = m * 10 ^ z \<and> m < 10 ^ k"
    using length_show_nat [OF assms(2)] by metis
next
  assume "\<exists>m z. n = m * 10 ^ z \<and> m < 10 ^ k"
  then obtain m z where n: "n = m * 10 ^ z" and m: "m < 10 ^ k" by blast
  with assms have "0 < m" by (cases m) auto
  from sig_digits_mult_le [OF this, of z] length_show_nat [OF assms(2), of m] n m
  show "sig_digits n \<le> k" by simp
qed

end
