(* ===== verification/Valuation.thy ===== *)
theory Valuation
  imports Financial Decimals
begin

text \<open>
  Mark and closing estimates of \<open>apps/api/src/trading/valuation.ts\<close>: \<open>contextSnapshotTime\<close>, the
  \<open>quality\<close> of an observation, \<open>validBook\<close> and \<open>valueFinancials\<close>.

  Timestamps that the contracts have validated are instants. Where the code itself inspects a
  date string (the HTTP snapshot), a \<open>stamp\<close> is what it can observe: \<open>Exact n\<close> is the canonical
  rendering of the safe integer \<open>n\<close>, \<open>Inexact n\<close> another string that parses to \<open>n\<close>, \<open>Unparsed\<close>
  one that does not. Market amounts keep their raw string, which \<open>validAmount\<close> inspects.
\<close>

datatype stamp = Exact time | Inexact time | Unparsed

record context_snapshot =
  cs_basis :: string
  cs_requested_at :: stamp
  cs_received_at :: stamp
  cs_server_date :: stamp
  cs_cache_status :: string
  cs_age :: "string option"
  cs_raw_context :: bool

text \<open>\<open>cs_raw_context\<close> is whether the context is truthy. The result is the instant whose ISO
  rendering the code returns.\<close>

definition contextSnapshotTime :: "context_snapshot option \<Rightarrow> time \<Rightarrow> time option" where
  "contextSnapshotTime snapshot receivedAt = (case snapshot of
     None \<Rightarrow> None
   | Some s \<Rightarrow>
       (case (cs_requested_at s, cs_server_date s) of
          (Exact requested, Exact date) \<Rightarrow>
            (if cs_basis s \<noteq> ''http_response_date''
                \<or> cs_received_at s \<noteq> Exact receivedAt
                \<or> cs_cache_status s \<noteq> ''Miss from cloudfront''
                \<or> (cs_age s \<noteq> None \<and> cs_age s \<noteq> Some ''0'')
                \<or> receivedAt < requested
                \<or> receivedAt - requested > 1500
                \<or> date > receivedAt
                \<or> date < requested - 1000
                \<or> receivedAt - date > 2500
                \<or> \<not> cs_raw_context s
             then None else Some date)
        | _ \<Rightarrow> None))"

record amount =
  am_raw :: string
  am_unit :: string
  am_decimals :: int

record book_level =
  bl_price :: amount
  bl_quantity :: amount

datatype market_payload =
    Book (semantics: string) (bids: "book_level list") (asks: "book_level list")
  | Mark_Funding (mark_price: amount) (oracle_price: amount) (snapshot: "context_snapshot option")
  | Trade

record market_data =
  md_schema_version :: string
  md_instrument_id :: ident
  md_instrument_version :: ident
  md_source_id :: string
  md_parser_version :: string
  md_channel :: string
  md_source_timestamp :: "time option"
  md_received_at :: time
  md_quality :: string
  md_gap_epoch :: int
  md_payload :: market_payload

record market_evidence =
  me_object_id :: ident
  me_payload :: market_data

datatype feed_kind = Book_Feed | Context_Feed

record channel_health =
  ch_status :: string
  ch_needs_revalidation :: bool
  ch_gap_epoch :: int

record valuation_capture =
  vc_at :: time
  vc_connected :: bool
  vc_alive :: bool
  vc_channels :: "feed_kind \<Rightarrow> channel_health option"

record valuation_market =
  vm_as_of :: time
  vm_context :: "market_evidence option"
  vm_book :: "market_evidence option"
  vm_capture :: "valuation_capture option"

definition sourceAgeMs :: int where "sourceAgeMs = 10000"
definition bookAgeMs :: int where "bookAgeMs = 2000"
definition markAgeMs :: int where "markAgeMs = 5000"
definition futureToleranceMs :: int where "futureToleranceMs = 1000"

datatype valuation_quality = Fresh | Missing | Incompatible | Future | Stale
  | Feed_Unavailable | Source_Time_Unproven | Invalid

datatype valuation_error = INVALID_TIME

definition validTime :: "time \<Rightarrow> valuation_error + time" where
  "validTime n = require (\<bar>n\<bar> \<le> 9007199254740991 \<and> \<not> n < 0) INVALID_TIME (Inr n)"

definition validAmount :: "amount \<Rightarrow> string \<Rightarrow> int \<Rightarrow> bool" where
  "validAmount value un decimals =
     (am_unit value = un \<and> am_decimals value = decimals
      \<and> (case am_raw value of [] \<Rightarrow> False
         | c # s \<Rightarrow> is_digit c \<and> c \<noteq> CHR ''0'' \<and> list_all is_digit s \<and> length s \<le> 77))"

fun kind_channel :: "feed_kind \<Rightarrow> string" where
  "kind_channel Book_Feed = ''book''"
| "kind_channel Context_Feed = ''context''"

definition market_row :: "valuation_market \<Rightarrow> feed_kind \<Rightarrow> market_evidence option" where
  "market_row market kind = (case kind of Book_Feed \<Rightarrow> vm_book market | Context_Feed \<Rightarrow> vm_context market)"

definition snapshot_time :: "market_data \<Rightarrow> time option" where
  "snapshot_time event = (case md_payload event of
     Mark_Funding _ _ snap \<Rightarrow>
       (if md_source_id event = ''hyperliquid:mainnet:info''
           \<and> md_parser_version event = ''hyperliquid.context-snapshot.v1''
           \<and> md_source_timestamp event = None
        then contextSnapshotTime snap (md_received_at event) else None)
   | _ \<Rightarrow> None)"

definition opt_time :: "time option \<Rightarrow> valuation_error + time option" where
  "opt_time t = (case t of None \<Rightarrow> Inr None | Some n \<Rightarrow> bind_res (validTime n) (\<lambda>m. Inr (Some m)))"

definition compatible :: "ledger_scope \<Rightarrow> feed_kind \<Rightarrow> market_data \<Rightarrow> bool" where
  "compatible scope kind event =
     (\<not> (md_instrument_id event \<noteq> instrument_id scope
       \<or> md_instrument_version event \<noteq> instrument_version scope
       \<or> md_channel event \<noteq> kind_channel kind
       \<or> \<not> ((md_source_id event = ''hyperliquid:mainnet:ws''
               \<and> md_parser_version event = ''hyperliquid.feed.v1'')
            \<or> (kind = Book_Feed \<and> md_source_id event = ''hyperliquid:mainnet:info''
               \<and> md_parser_version event = ''hyperliquid.book-snapshot.v1'')
            \<or> (kind = Context_Feed \<and> snapshot_time event \<noteq> None))
       \<or> md_schema_version event \<noteq> ''trading.market-data.v1''))"

definition feed_live :: "valuation_capture option \<Rightarrow> feed_kind \<Rightarrow> int \<Rightarrow> time \<Rightarrow> time \<Rightarrow> int \<Rightarrow> bool" where
  "feed_live capture kind maxAge now received epoch = (case capture of
     None \<Rightarrow> False
   | Some c \<Rightarrow>
       \<not> (vc_at c > now \<or> vc_at c < received \<or> now - vc_at c > maxAge
          \<or> \<not> vc_connected c \<or> \<not> vc_alive c
          \<or> (case vc_channels c kind of None \<Rightarrow> True
             | Some ch \<Rightarrow> ch_status ch \<noteq> ''healthy'' \<or> ch_needs_revalidation ch
                 \<or> ch_gap_epoch ch \<noteq> epoch)))"

definition quality :: "ledger_scope \<Rightarrow> valuation_market \<Rightarrow> feed_kind \<Rightarrow> valuation_error + valuation_quality" where
  "quality scope market kind =
     bind_res (validTime (vm_as_of market)) (\<lambda>now.
     case market_row market kind of
       None \<Rightarrow> Inr Missing
     | Some row \<Rightarrow>
         let event = me_payload row; snapshotTime = snapshot_time event in
         if \<not> compatible scope kind event then Inr Incompatible
         else
           bind_res (validTime (md_received_at event)) (\<lambda>received.
           bind_res (opt_time (case snapshotTime of Some t \<Rightarrow> Some t | None \<Rightarrow> md_source_timestamp event)) (\<lambda>source.
           let maxAge = (case kind of Book_Feed \<Rightarrow> bookAgeMs | Context_Feed \<Rightarrow> markAgeMs) in
           if received > now
              \<or> (case source of None \<Rightarrow> False
                 | Some s \<Rightarrow> s > now \<or> s > received + futureToleranceMs) then Inr Future
           else if now - received > maxAge
              \<or> (case source of None \<Rightarrow> False | Some s \<Rightarrow> now - s > maxAge)
              \<or> md_quality event = ''stale'' then Inr Stale
           else if \<not> feed_live (vm_capture market) kind maxAge now received (md_gap_epoch event)
             then Inr Feed_Unavailable
           else if source = None \<or> (snapshotTime = None \<and> md_quality event \<noteq> ''fresh'')
             then Inr Source_Time_Unproven
           else Inr Fresh)))"

lemma quality_fresh_row: "quality scope market kind = Inr Fresh \<Longrightarrow> market_row market kind \<noteq> None"
  by (cases "market_row market kind") (auto simp: quality_def)

text \<open>an observation is called fresh only when it is: it exists and belongs to the account's
  instrument, its receipt and its proven source time are at most the age limit old and not in the
  future, and a live capture no older than the limit and not before the receipt shows the channel
  healthy, revalidated and in the gap epoch of the observation.\<close>

theorem quality_fresh_sound:
  assumes "quality scope market kind = Inr Fresh"
  shows "\<exists>row source c ch. market_row market kind = Some row
    \<and> md_instrument_id (me_payload row) = instrument_id scope
    \<and> md_instrument_version (me_payload row) = instrument_version scope
    \<and> vm_capture market = Some c \<and> vc_channels c kind = Some ch
    \<and> (snapshot_time (me_payload row) = Some source
        \<or> snapshot_time (me_payload row) = None \<and> md_source_timestamp (me_payload row) = Some source
          \<and> md_quality (me_payload row) = ''fresh'')
    \<and> (let now = vm_as_of market; received = md_received_at (me_payload row);
           limit = (case kind of Book_Feed \<Rightarrow> bookAgeMs | Context_Feed \<Rightarrow> markAgeMs)
       in received \<le> now \<and> now - received \<le> limit \<and> source \<le> now \<and> now - source \<le> limit
        \<and> source \<le> received + futureToleranceMs
        \<and> received \<le> vc_at c \<and> vc_at c \<le> now \<and> now - vc_at c \<le> limit
        \<and> vc_connected c \<and> vc_alive c
        \<and> ch_status ch = ''healthy'' \<and> \<not> ch_needs_revalidation ch
        \<and> ch_gap_epoch ch = md_gap_epoch (me_payload row))"
proof -
  from assms obtain row source where row: "market_row market kind = Some row"
    and comp: "compatible scope kind (me_payload row)"
    and src: "(case snapshot_time (me_payload row) of Some t \<Rightarrow> Some t
        | None \<Rightarrow> md_source_timestamp (me_payload row)) = Some source"
    and fresh: "snapshot_time (me_payload row) \<noteq> None \<or> md_quality (me_payload row) = ''fresh''"
    and now: "\<not> md_received_at (me_payload row) > vm_as_of market" "\<not> source > vm_as_of market"
      "\<not> source > md_received_at (me_payload row) + futureToleranceMs"
    and age: "\<not> vm_as_of market - md_received_at (me_payload row) > (case kind of Book_Feed \<Rightarrow> bookAgeMs | Context_Feed \<Rightarrow> markAgeMs)"
      "\<not> vm_as_of market - source > (case kind of Book_Feed \<Rightarrow> bookAgeMs | Context_Feed \<Rightarrow> markAgeMs)"
    and live: "feed_live (vm_capture market) kind (case kind of Book_Feed \<Rightarrow> bookAgeMs | Context_Feed \<Rightarrow> markAgeMs)
       (vm_as_of market) (md_received_at (me_payload row)) (md_gap_epoch (me_payload row))"
    by (auto simp: quality_def Let_def validTime_def opt_time_def split: option.splits if_splits)
  from live obtain c ch where "vm_capture market = Some c" "vc_channels c kind = Some ch"
    by (auto simp: feed_live_def split: option.splits)
  with row comp src fresh now age live show ?thesis
    by (intro exI [of _ row] exI [of _ source] exI [of _ c] exI [of _ ch])
      (auto simp: Let_def feed_live_def compatible_def split: option.splits)
qed

section \<open>Books and depth\<close>

definition level_price :: "book_level \<Rightarrow> int" where
  "level_price l = read_int (am_raw (bl_price l))"

definition level_quantity :: "book_level \<Rightarrow> int" where
  "level_quantity l = read_int (am_raw (bl_quantity l))"

definition validBook :: "book_level list \<Rightarrow> bool \<Rightarrow> bool" where
  "validBook levels is_bids =
     (\<not> length levels > 20
      \<and> list_all (\<lambda>i.
            validAmount (bl_price (levels ! i)) ''USD_PER_BTC'' 6
          \<and> validAmount (bl_quantity (levels ! i)) ''BTC'' 8
          \<and> (i = 0 \<or> (if is_bids then level_price (levels ! (i - 1)) > level_price (levels ! i)
                       else level_price (levels ! (i - 1)) < level_price (levels ! i))))
        [0..<length levels])"

text \<open>The book branch of the payload, when it is a well-formed and uncrossed snapshot.\<close>

definition usable_book :: "market_payload \<Rightarrow> (book_level list \<times> book_level list) option" where
  "usable_book content = (case content of
     Book sem bs as \<Rightarrow>
       (if sem \<noteq> ''full_snapshot_top_20'' \<or> \<not> validBook bs True \<or> \<not> validBook as False
           \<or> (length bs > 0 \<and> length as > 0 \<and> level_price (bs ! 0) \<ge> level_price (as ! 0))
        then None else Some (bs, as))
   | _ \<Rightarrow> None)"

text \<open>A level is its price and what is left of its quantity. Walking the levels takes the best
  prices first and leaves the rest of the depth to the next position on the same side.\<close>

type_synonym levels = "(int \<times> int) list"

fun take_levels :: "int \<Rightarrow> levels \<Rightarrow> int \<times> int \<times> levels" where
  "take_levels remaining [] = (remaining, 0, [])"
| "take_levels remaining ((price, avail) # rest) =
     (let take = min remaining avail; left = remaining - take in
      if left = 0 then (left, take * price, (price, avail - take) # rest)
      else let (r, notional, rest') = take_levels left rest
           in (r, take * price + notional, (price, avail - take) # rest'))"

record exit_estimate =
  ex_position_id :: ident
  ex_side :: side
  requested_btc :: int
  executable_btc :: int
  unfilled_btc :: int
  executable_notional_usd :: "int option"
  pnl_usd :: "int option"

definition estimate_exit :: "position \<Rightarrow> levels \<Rightarrow> (exit_estimate \<times> int option) \<times> levels" where
  "estimate_exit p depth =
     (let q = quantity_btc p;
          sd = (if q > 0 then Sell else Buy);
          (remaining, notional, depth') = take_levels \<bar>q\<bar> depth;
          filled = \<bar>q\<bar> - remaining;
          pnl = (if filled > 0 then Some (sign q * (notional - (cost_usd14 p * filled) sdiv \<bar>q\<bar>)) else None)
      in ((\<lparr>ex_position_id = position_id p, ex_side = sd, requested_btc = \<bar>q\<bar>, executable_btc = filled,
           unfilled_btc = remaining,
           executable_notional_usd = (if filled > 0 then Some (usd notional) else None),
           pnl_usd = map_option usd pnl\<rparr>, pnl), depth'))"

fun estimate_exits :: "position list \<Rightarrow> levels \<Rightarrow> levels \<Rightarrow> (exit_estimate \<times> int option) list" where
  "estimate_exits [] sells buys = []"
| "estimate_exits (p # ps) sells buys =
     (if quantity_btc p > 0
      then let (e, sells') = estimate_exit p sells in e # estimate_exits ps sells' buys
      else let (e, buys') = estimate_exit p buys in e # estimate_exits ps sells buys')"

section \<open>The estimate\<close>

record maintenance_estimate =
  mt_quality :: valuation_quality
  mt_status :: string
  mt_mark_price :: "amount option"
  mt_oracle_price :: "amount option"
  mt_evidence :: "ident option"
  mt_source_timestamp :: "time option"
  mt_freshness_timestamp :: "time option"
  mt_timestamp_basis :: string
  mt_received_at :: "time option"
  mt_unrealized_pnl_usd :: "int option"
  mt_equity_usd :: "int option"
  mt_usable_for_risk :: bool

record closing_estimate =
  cl_quality :: valuation_quality
  cl_status :: string
  cl_evidence :: "ident option"
  cl_source_timestamp :: "time option"
  cl_received_at :: "time option"
  cl_positions :: "exit_estimate list"
  cl_gross_pnl_usd :: "int option"
  cl_gross_equity_usd :: "int option"

record valuation =
  va_projection :: financial_projection
  va_as_of :: time
  va_maintenance :: maintenance_estimate
  va_closing :: closing_estimate

definition mark_pnl :: "position list \<Rightarrow> int \<Rightarrow> int" where
  "mark_pnl open mark =
     sum_list (map (\<lambda>p. sign (quantity_btc p) * (\<bar>quantity_btc p\<bar> * mark - cost_usd14 p)) open)"

definition open_positions :: "financial_projection \<Rightarrow> position list" where
  "open_positions projection = filter (\<lambda>p. quantity_btc p \<noteq> 0) (fp_positions projection)"

definition mark_prices :: "market_evidence option \<Rightarrow> (amount \<times> amount) option" where
  "mark_prices context = (case context of
     Some row \<Rightarrow> (case md_payload (me_payload row) of Mark_Funding m orc _ \<Rightarrow> Some (m, orc) | _ \<Rightarrow> None)
   | None \<Rightarrow> None)"

definition mark_quality :: "market_evidence option \<Rightarrow> valuation_quality \<Rightarrow> valuation_quality" where
  "mark_quality context q =
     (if context \<noteq> None
         \<and> (case mark_prices context of None \<Rightarrow> True
            | Some (m, orc) \<Rightarrow> \<not> validAmount m ''USD_PER_BTC'' 6 \<or> \<not> validAmount orc ''USD_PER_BTC'' 6)
      then Invalid else q)"

definition estimate_maintenance ::
  "financial_projection \<Rightarrow> market_evidence option \<Rightarrow> valuation_quality \<Rightarrow> maintenance_estimate" where
  "estimate_maintenance projection context markQuality =
     (let open = open_positions projection;
          prices = mark_prices context;
          canMark = (markQuality = Fresh);
          snapshotTime = (case context of
              Some row \<Rightarrow> (case md_payload (me_payload row) of
                 Mark_Funding _ _ snap \<Rightarrow>
                   (if md_source_id (me_payload row) = ''hyperliquid:mainnet:info''
                    then contextSnapshotTime snap (md_received_at (me_payload row)) else None)
               | _ \<Rightarrow> None)
            | None \<Rightarrow> None);
          source = (case context of Some row \<Rightarrow> md_source_timestamp (me_payload row) | None \<Rightarrow> None);
          unrealized = (if length open = 0 then Some 0
            else (case (canMark, prices) of
                (True, Some (m, _)) \<Rightarrow> Some (usd (mark_pnl open (read_int (am_raw m))))
              | _ \<Rightarrow> None))
      in \<lparr>mt_quality = markQuality,
          mt_status = (if canMark then ''available''
             else if markQuality = Source_Time_Unproven then ''degraded'' else ''unavailable''),
          mt_mark_price = map_option fst prices,
          mt_oracle_price = map_option snd prices,
          mt_evidence = map_option me_object_id context,
          mt_source_timestamp = source,
          mt_freshness_timestamp = (case snapshotTime of Some t \<Rightarrow> Some t | None \<Rightarrow> source),
          mt_timestamp_basis = (if snapshotTime \<noteq> None then ''http_response_date''
             else if source \<noteq> None then ''venue_event'' else ''unknown''),
          mt_received_at = map_option (\<lambda>row. md_received_at (me_payload row)) context,
          mt_unrealized_pnl_usd = unrealized,
          mt_equity_usd = map_option (\<lambda>u. balance_usd projection + u) unrealized,
          mt_usable_for_risk = canMark\<rparr>)"

definition estimate_closing ::
  "financial_projection \<Rightarrow> market_evidence option \<Rightarrow> valuation_quality \<Rightarrow> closing_estimate" where
  "estimate_closing projection row q =
     (let open = open_positions projection;
          book = (case row of None \<Rightarrow> None | Some r \<Rightarrow> usable_book (md_payload (me_payload r)));
          bookQuality = (if row \<noteq> None \<and> book = None then Invalid else q);
          depth = (case book of
              Some (bs, as) \<Rightarrow>
                (if bookQuality = Fresh
                 then (map (\<lambda>l. (level_price l, level_quantity l)) bs,
                       map (\<lambda>l. (level_price l, level_quantity l)) as)
                 else ([], []))
            | None \<Rightarrow> ([], []));
          exits = estimate_exits open (fst depth) (snd depth);
          closePnl = sum_list (map (\<lambda>(_, pnl). case pnl of None \<Rightarrow> 0 | Some n \<Rightarrow> n) exits);
          complete = list_all (\<lambda>(e, _). unfilled_btc e = 0) exits
      in \<lparr>cl_quality = bookQuality,
          cl_status = (if length open = 0 then ''flat''
             else if bookQuality \<noteq> Fresh then ''unavailable''
             else if complete then ''complete'' else ''partial''),
          cl_evidence = map_option me_object_id row,
          cl_source_timestamp = (case row of None \<Rightarrow> None | Some r \<Rightarrow> md_source_timestamp (me_payload r)),
          cl_received_at = map_option (\<lambda>r. md_received_at (me_payload r)) row,
          cl_positions = map fst exits,
          cl_gross_pnl_usd = (if length open = 0 \<or> list_ex (\<lambda>(e, _). pnl_usd e \<noteq> None) exits
             then Some (usd closePnl) else None),
          cl_gross_equity_usd = (if complete then Some (balance_usd projection + usd closePnl) else None)\<rparr>)"

definition valueFinancials :: "financial_projection \<Rightarrow> valuation_market \<Rightarrow> valuation_error + valuation" where
  "valueFinancials projection market =
     bind_res (validTime (vm_as_of market)) (\<lambda>_.
     bind_res (quality (lp_scope (fp_ledger projection)) market Context_Feed) (\<lambda>cq.
     bind_res (quality (lp_scope (fp_ledger projection)) market Book_Feed) (\<lambda>bq.
       Inr \<lparr>va_projection = projection, va_as_of = vm_as_of market,
            va_maintenance = estimate_maintenance projection (vm_context market)
              (mark_quality (vm_context market) cq),
            va_closing = estimate_closing projection (vm_book market) bq\<rparr>)))"

section \<open>Depth is shared and never exceeded\<close>

definition depth_total :: "levels \<Rightarrow> int" where
  "depth_total d = sum_list (map snd d)"

definition depth_ok :: "levels \<Rightarrow> bool" where
  "depth_ok d \<longleftrightarrow> list_all (\<lambda>l. 0 \<le> snd l) d"

lemma depth_simps [simp]:
  "depth_total [] = 0" "depth_total (l # d) = snd l + depth_total d"
  "depth_ok []" "depth_ok (l # d) \<longleftrightarrow> 0 \<le> snd l \<and> depth_ok d"
  by (simp_all add: depth_total_def depth_ok_def)

lemma depth_total_nonneg: "depth_ok d \<Longrightarrow> 0 \<le> depth_total d"
  by (induction d) auto

text \<open>A walk leaves unfilled exactly what the depth cannot give, and takes from it the rest.\<close>

lemma take_levels_depth:
  "take_levels remaining d = (r, n, d') \<Longrightarrow> 0 \<le> remaining \<Longrightarrow> depth_ok d \<Longrightarrow>
     r = max 0 (remaining - depth_total d) \<and> depth_ok d' \<and> depth_total d' = depth_total d - (remaining - r)"
proof (induction remaining d arbitrary: r n d' rule: take_levels.induct)
  case (1 remaining)
  then show ?case by auto
next
  case (2 remaining price avail rest)
  show ?case
  proof (cases "remaining \<le> avail")
    case True
    with 2 depth_total_nonneg [of rest] show ?thesis by (auto simp: Let_def)
  next
    case False
    obtain r1 n1 d1 where rest: "take_levels (remaining - avail) rest = (r1, n1, d1)"
      by (cases "take_levels (remaining - avail) rest") auto
    with "2.prems" False have "r = r1" "d' = (price, 0) # d1" by (auto simp: Let_def)
    with "2.IH" [of avail "remaining - avail" r1 n1 d1] rest "2.prems" False show ?thesis by simp
  qed
qed

lemma estimate_exit_depth:
  assumes "estimate_exit p d = ((e, pnl), d')" and "depth_ok d"
  shows "requested_btc e = \<bar>quantity_btc p\<bar>" and "executable_btc e + unfilled_btc e = requested_btc e"
    and "executable_btc e = min \<bar>quantity_btc p\<bar> (depth_total d)"
    and "ex_side e = (if quantity_btc p > 0 then Sell else Buy)"
    and "depth_ok d'" and "depth_total d' = depth_total d - executable_btc e"
proof -
  obtain r n dd where t: "take_levels \<bar>quantity_btc p\<bar> d = (r, n, dd)"
    by (cases "take_levels \<bar>quantity_btc p\<bar> d") auto
  note td = take_levels_depth [OF t _ assms(2)]
  show "requested_btc e = \<bar>quantity_btc p\<bar>" "executable_btc e + unfilled_btc e = requested_btc e"
    "ex_side e = (if quantity_btc p > 0 then Sell else Buy)"
    "depth_ok d'" "depth_total d' = depth_total d - executable_btc e"
    using assms(1) t td by (auto simp: estimate_exit_def Let_def)
  show "executable_btc e = min \<bar>quantity_btc p\<bar> (depth_total d)"
  proof -
    have "executable_btc e = \<bar>quantity_btc p\<bar> - r" using assms t by (auto simp: estimate_exit_def Let_def)
    with td depth_total_nonneg [OF assms(2)] show ?thesis by linarith
  qed
qed

definition executed :: "side \<Rightarrow> exit_estimate list \<Rightarrow> int" where
  "executed sd es = sum_list (map executable_btc (filter (\<lambda>e. ex_side e = sd) es))"

lemma executed_simps [simp]:
  "executed sd [] = 0"
  "executed sd (e # es) = (if ex_side e = sd then executable_btc e else 0) + executed sd es"
  by (simp_all add: executed_def)

definition exit_sound :: "exit_estimate \<Rightarrow> bool" where
  "exit_sound e \<longleftrightarrow> 0 \<le> executable_btc e \<and> 0 \<le> unfilled_btc e
     \<and> executable_btc e + unfilled_btc e = requested_btc e"

lemma estimate_exits_depth:
  "depth_ok sells \<Longrightarrow> depth_ok buys \<Longrightarrow>
     executed Sell (map fst (estimate_exits ps sells buys)) \<le> depth_total sells
   \<and> executed Buy (map fst (estimate_exits ps sells buys)) \<le> depth_total buys
   \<and> list_all exit_sound (map fst (estimate_exits ps sells buys))
   \<and> map requested_btc (map fst (estimate_exits ps sells buys)) = map (\<lambda>p. \<bar>quantity_btc p\<bar>) ps"
proof (induction ps arbitrary: sells buys)
  case Nil
  then show ?case by (simp add: depth_total_nonneg)
next
  case (Cons p ps)
  define d where "d = (if quantity_btc p > 0 then sells else buys)"
  obtain e pnl d' where ex: "estimate_exit p d = ((e, pnl), d')"
    by (metis surj_pair)
  have "depth_ok d" using Cons.prems by (simp add: d_def)
  note step = estimate_exit_depth [OF ex this]
  have sound: "exit_sound e"
    using step depth_total_nonneg [OF \<open>depth_ok d\<close>] by (auto simp: exit_sound_def)
  show ?case
  proof (cases "quantity_btc p > 0")
    case True
    then have "estimate_exits (p # ps) sells buys = (e, pnl) # estimate_exits ps d' buys"
      using ex by (simp add: d_def)
    with Cons.IH [of d' buys] Cons.prems step sound True show ?thesis by (simp add: d_def)
  next
    case False
    then have "estimate_exits (p # ps) sells buys = (e, pnl) # estimate_exits ps sells d'"
      using ex by (simp add: d_def)
    with Cons.IH [of sells d'] Cons.prems step sound False show ?thesis by (simp add: d_def)
  qed
qed

lemma read_int_positive: "is_digit c \<Longrightarrow> list_all is_digit s \<Longrightarrow> 0 \<le> read_int (c # s)"
  by (subst read_int_digits) auto

lemma validAmount_nonneg: "validAmount a u d \<Longrightarrow> 0 \<le> read_int (am_raw a)"
  using read_int_positive by (fastforce simp: validAmount_def split: list.splits)

lemma validBook_depth: "validBook ls b \<Longrightarrow> depth_ok (map (\<lambda>l. (level_price l, level_quantity l)) ls)"
  by (auto simp: validBook_def depth_ok_def list_all_iff level_quantity_def in_set_conv_nth
      intro!: validAmount_nonneg [where u = "''BTC''" and d = 8])

text \<open>The depth a market row shows on the side that a close of the given side would use.\<close>

definition observed_depth :: "market_evidence option \<Rightarrow> side \<Rightarrow> int" where
  "observed_depth row sd = (case row of None \<Rightarrow> 0 | Some r \<Rightarrow> (case md_payload (me_payload r) of
     Book _ bs as \<Rightarrow> sum_list (map level_quantity (if sd = Sell then bs else as)) | _ \<Rightarrow> 0))"

text \<open>C24: the closing estimate never promises depth twice. Each open position's request is split
  into an executable and an unfilled part; on either side the executable parts of all positions
  together stay within the observed depth of the book; without a fresh valid book nothing is
  executable.\<close>

theorem closing_depth_shared:
  assumes "valueFinancials projection market = Inr v"
  defines "es \<equiv> cl_positions (va_closing v)"
  shows "list_all exit_sound es
    \<and> map requested_btc es = map (\<lambda>p. \<bar>quantity_btc p\<bar>) (open_positions projection)
    \<and> executed sd es \<le> (if cl_quality (va_closing v) = Fresh then observed_depth (vm_book market) sd else 0)"
proof -
  from assms(1) obtain bq where cl: "va_closing v = estimate_closing projection (vm_book market) bq"
    by (auto simp: valueFinancials_def)
  define lv where "lv = map (\<lambda>l. (level_price l, level_quantity l))"
  define book where "book = (case vm_book market of None \<Rightarrow> None
    | Some r \<Rightarrow> usable_book (md_payload (me_payload r)))"
  define fresh where "fresh = (cl_quality (va_closing v) = Fresh)"
  define depth where "depth = (case book of Some (bs, as) \<Rightarrow> if fresh then (lv bs, lv as) else ([], [])
    | None \<Rightarrow> ([], []))"
  have es: "es = map fst (estimate_exits (open_positions projection) (fst depth) (snd depth))"
    by (simp add: es_def cl estimate_closing_def Let_def depth_def fresh_def book_def lv_def
        split: option.splits prod.splits)
  have ok: "depth_ok (fst depth)" "depth_ok (snd depth)"
    by (auto simp: depth_def book_def usable_book_def lv_def validBook_depth
        split: option.splits market_payload.splits if_splits)
  have "depth_total (if sd = Sell then fst depth else snd depth) \<le>
      (if fresh then observed_depth (vm_book market) sd else 0)"
  proof (cases "book")
    case None
    have "fresh \<Longrightarrow> vm_book market = None"
      using None by (auto simp: fresh_def cl estimate_closing_def Let_def book_def [symmetric] split: if_splits)
    with None show ?thesis by (auto simp: depth_def observed_depth_def)
  next
    case (Some b)
    then show ?thesis
      by (auto simp: depth_def book_def usable_book_def observed_depth_def lv_def depth_total_def comp_def
          split: option.splits market_payload.splits if_splits)
  qed
  moreover note estimate_exits_depth [OF ok, of "open_positions projection"]
  ultimately show ?thesis
    unfolding es fresh_def [symmetric] by (cases sd) auto
qed

section \<open>Equity at the mark\<close>

lemma open_sum:
  assumes "\<And>p. p \<in> set ps \<Longrightarrow> quantity_btc p = 0 \<Longrightarrow> f p = (0::int)"
  shows "sum_list (map f (filter (\<lambda>p. quantity_btc p \<noteq> 0) ps)) = sum_list (map f ps)"
  using assms by (induction ps) auto

text \<open>Marked PnL and realized PnL together are the fills' cash flow plus the inventory at the mark.\<close>

lemma marked_value:
  fixes ledger
  assumes "positive_fills events"
  defines "ps \<equiv> fp_positions (projectFinancials ledger events)"
  shows "sum_list (map realized_usd14 ps) + mark_pnl (filter (\<lambda>p. quantity_btc p \<noteq> 0) ps) m
    = total_flow events + (\<Sum>p \<leftarrow> ps. quantity_btc p * m)"
proof -
  have p: "realized_usd14 p + sign (quantity_btc p) * (\<bar>quantity_btc p\<bar> * m - cost_usd14 p)
      = history_flow events (position_id p) + quantity_btc p * m" if "p \<in> set ps" for p
    using projectFinancials_position [OF assms(1) that [unfolded ps_def]]
    by (auto simp: sign_def algebra_simps)
  have flat: "cost_usd14 p = 0" if "p \<in> set ps" "quantity_btc p = 0" for p
    using projectFinancials_position(3) [OF assms(1) that(1) [unfolded ps_def]] that(2) by simp
  have "sum_list (map realized_usd14 ps) + mark_pnl (filter (\<lambda>p. quantity_btc p \<noteq> 0) ps) m
      = (\<Sum>p \<leftarrow> ps. realized_usd14 p + sign (quantity_btc p) * (\<bar>quantity_btc p\<bar> * m - cost_usd14 p))"
    unfolding mark_pnl_def sum_list_addf
    by (subst open_sum) (simp_all add: flat)
  also have "\<dots> = (\<Sum>p \<leftarrow> ps. history_flow events (position_id p) + quantity_btc p * m)"
    using p by (intro arg_cong [where f = sum_list] map_cong) auto
  also have "\<dots> = (\<Sum>p \<leftarrow> ps. history_flow events (position_id p)) + (\<Sum>p \<leftarrow> ps. quantity_btc p * m)"
    by (rule sum_list_addf)
  also have "(\<Sum>p \<leftarrow> ps. history_flow events (position_id p)) = total_flow events"
    unfolding ps_def by (rule projected_flow)
  finally show ?thesis .
qed

text \<open>The mark an account may be valued at: the context observation is fresh and both its prices are well formed.\<close>

definition fresh_mark :: "ledger_scope \<Rightarrow> valuation_market \<Rightarrow> amount \<Rightarrow> bool" where
  "fresh_mark scope market m = (quality scope market Context_Feed = Inr Fresh
     \<and> (\<exists>row orc snap. vm_context market = Some row \<and> md_payload (me_payload row) = Mark_Funding m orc snap
          \<and> validAmount m ''USD_PER_BTC'' 6 \<and> validAmount orc ''USD_PER_BTC'' 6))"

definition flat_book :: "financial_projection \<Rightarrow> bool" where
  "flat_book f = (\<forall>p \<in> set (fp_positions f). quantity_btc p = 0)"

lemma flat_open: "flat_book f \<longleftrightarrow> open_positions f = []"
  by (simp add: flat_book_def open_positions_def filter_empty_conv)

lemma mark_quality_Fresh:
  assumes "quality scope market Context_Feed = Inr cq"
  shows "mark_quality (vm_context market) cq = Fresh \<longleftrightarrow> (\<exists>m. fresh_mark scope market m)"
proof -
  have row: "cq = Fresh \<Longrightarrow> vm_context market \<noteq> None"
    using quality_fresh_row [of scope market Context_Feed] assms by (simp add: market_row_def)
  then show ?thesis using assms
    by (cases "vm_context market")
      (auto simp: mark_quality_def fresh_mark_def mark_prices_def split: market_payload.splits)
qed

lemma fresh_mark_prices: "fresh_mark scope market m \<Longrightarrow> \<exists>orc. mark_prices (vm_context market) = Some (m, orc)"
  by (auto simp: fresh_mark_def mark_prices_def)

lemma fresh_mark_age:
  assumes "fresh_mark scope market m"
  obtains row where "vm_context market = Some row" and "md_received_at (me_payload row) \<le> vm_as_of market"
    and "vm_as_of market - md_received_at (me_payload row) \<le> markAgeMs"
proof -
  from assms obtain row where row: "vm_context market = Some row" and q: "quality scope market Context_Feed = Inr Fresh"
    by (auto simp: fresh_mark_def)
  have "md_received_at (me_payload row) \<le> vm_as_of market \<and> vm_as_of market - md_received_at (me_payload row) \<le> markAgeMs"
    using q by (auto simp: quality_def market_row_def row validTime_def Let_def split: if_splits option.splits)
  then show thesis using row that by blast
qed

lemma maintenance_of:
  assumes "valueFinancials f market = Inr v"
  obtains cq where "quality (lp_scope (fp_ledger f)) market Context_Feed = Inr cq"
    and "va_maintenance v = estimate_maintenance f (vm_context market) (mark_quality (vm_context market) cq)"
  using assms by (auto simp: valueFinancials_def)

lemma maintenance_equity:
  assumes "valueFinancials f market = Inr v"
  shows "flat_book f \<Longrightarrow> mt_equity_usd (va_maintenance v) = Some (balance_usd f)"
    and "fresh_mark (lp_scope (fp_ledger f)) market m \<Longrightarrow> mt_mark_price (va_maintenance v) = Some m
      \<and> mt_equity_usd (va_maintenance v) = Some (balance_usd f + mark_pnl (open_positions f) (read_int (am_raw m)) div BTC_SCALE)"
    and "mt_equity_usd (va_maintenance v) \<noteq> None \<Longrightarrow> flat_book f \<or> (\<exists>m. fresh_mark (lp_scope (fp_ledger f)) market m)"
    and "mt_usable_for_risk (va_maintenance v) \<longleftrightarrow> (\<exists>m. fresh_mark (lp_scope (fp_ledger f)) market m)"
proof -
  obtain cq where cq: "quality (lp_scope (fp_ledger f)) market Context_Feed = Inr cq"
    and mt: "va_maintenance v = estimate_maintenance f (vm_context market) (mark_quality (vm_context market) cq)"
    using maintenance_of [OF assms] .
  note fresh = mark_quality_Fresh [OF cq]
  show "mt_equity_usd (va_maintenance v) = Some (balance_usd f)" if "flat_book f"
    using that by (simp add: mt estimate_maintenance_def flat_open Let_def)
  show "mt_mark_price (va_maintenance v) = Some m
      \<and> mt_equity_usd (va_maintenance v) = Some (balance_usd f + mark_pnl (open_positions f) (read_int (am_raw m)) div BTC_SCALE)"
    if m: "fresh_mark (lp_scope (fp_ledger f)) market m"
  proof -
    have "mark_quality (vm_context market) cq = Fresh" using fresh m by blast
    with fresh_mark_prices [OF m] show ?thesis
      by (auto simp: mt estimate_maintenance_def usd_div mark_pnl_def Let_def)
  qed
  show "flat_book f \<or> (\<exists>m. fresh_mark (lp_scope (fp_ledger f)) market m)" if "mt_equity_usd (va_maintenance v) \<noteq> None"
    using that fresh by (auto simp: mt estimate_maintenance_def flat_open Let_def split: if_splits option.splits)
  show "mt_usable_for_risk (va_maintenance v) \<longleftrightarrow> (\<exists>m. fresh_mark (lp_scope (fp_ledger f)) market m)"
    using fresh by (simp add: mt estimate_maintenance_def Let_def)
qed

text \<open>The exact value of the account at a mark, in units of \<open>1 / BTC_SCALE\<close> micro-dollars: cash, the net cash flow of
  all fills and the inventory at the mark.\<close>

definition exact_value :: "ledger_projection \<Rightarrow> ledger_event list \<Rightarrow> int \<Rightarrow> int" where
  "exact_value ledger events mark = cash_usd ledger * BTC_SCALE + total_flow events
     + (\<Sum>p \<leftarrow> fp_positions (projectFinancials ledger events). quantity_btc p * mark)"

text \<open>C26: Equity exists just when the book is flat or there is a fresh mark. For a flat book it is the balance. At a fresh
  mark, which is at most the age limit old and is the price reported, it is the balance plus the mark PnL of the open
  positions rounded down to a micro-dollar, and for fills of positive size and price that is never above the exact value of
  the account at the mark and short of it by less than two micro-dollars (realized and unrealized PnL are each rounded once).
  It is usable for risk just when there is a fresh mark.\<close>

theorem equity_is_mark_value:
  assumes "valueFinancials (projectFinancials ledger events) market = Inr v"
  shows "let f = projectFinancials ledger events; M = va_maintenance v; fresh = fresh_mark (lp_scope ledger) market in
      (mt_equity_usd M \<noteq> None \<longleftrightarrow> flat_book f \<or> (\<exists>m. fresh m))
    \<and> (mt_usable_for_risk M \<longleftrightarrow> (\<exists>m. fresh m))
    \<and> (flat_book f \<longrightarrow> mt_equity_usd M = Some (balance_usd f))
    \<and> (\<forall>m. fresh m \<longrightarrow> mt_mark_price M = Some m
        \<and> (\<exists>row. vm_context market = Some row \<and> md_received_at (me_payload row) \<le> vm_as_of market
             \<and> vm_as_of market - md_received_at (me_payload row) \<le> markAgeMs)
        \<and> mt_equity_usd M = Some (balance_usd f + mark_pnl (open_positions f) (read_int (am_raw m)) div BTC_SCALE)
        \<and> (positive_fills events \<longrightarrow> (let equity = the (mt_equity_usd M); exact = exact_value ledger events (read_int (am_raw m))
             in equity * BTC_SCALE \<le> exact \<and> exact < equity * BTC_SCALE + 2 * BTC_SCALE)))"
proof -
  let ?f = "projectFinancials ledger events" and ?M = "va_maintenance v"
  have ledger: "fp_ledger ?f = ledger" by (rule projected_balance)
  note eq = maintenance_equity [OF assms, unfolded ledger]
  have exact: "equity * BTC_SCALE \<le> exact_value ledger events mark \<and> exact_value ledger events mark < equity * BTC_SCALE + 2 * BTC_SCALE"
    if "positive_fills events" and "equity = balance_usd ?f + mark_pnl (open_positions ?f) mark div BTC_SCALE" for equity mark
  proof -
    let ?u = "mark_pnl (open_positions ?f) mark" and ?r = "sum_list (map realized_usd14 (fp_positions ?f))"
    have "equity = cash_usd ledger + ?r div BTC_SCALE + ?u div BTC_SCALE" using that(2) by (simp add: projected_balance)
    moreover have "?r + ?u = total_flow events + (\<Sum>p \<leftarrow> fp_positions ?f. quantity_btc p * mark)"
      using marked_value [OF that(1)] by (simp add: open_positions_def)
    moreover have "0 < BTC_SCALE" by (simp add: BTC_SCALE_def)
    note div_bounds [OF this, of ?r] div_bounds [OF this, of ?u]
    ultimately show ?thesis by (simp add: exact_value_def algebra_simps)
  qed
  have "mt_equity_usd ?M \<noteq> None" if "flat_book ?f \<or> (\<exists>m. fresh_mark (lp_scope ledger) market m)" using that eq(1,2) by auto
  then have "mt_equity_usd ?M \<noteq> None \<longleftrightarrow> flat_book ?f \<or> (\<exists>m. fresh_mark (lp_scope ledger) market m)" using eq(3) by blast
  moreover have "\<exists>row. vm_context market = Some row \<and> md_received_at (me_payload row) \<le> vm_as_of market
      \<and> vm_as_of market - md_received_at (me_payload row) \<le> markAgeMs" if "fresh_mark (lp_scope ledger) market m" for m
    by (rule fresh_mark_age [OF that]) blast
  ultimately show ?thesis using eq(1,2,4) exact unfolding Let_def by auto
qed

section \<open>A worked market\<close>

definition sample_amount :: "string \<Rightarrow> int \<Rightarrow> string \<Rightarrow> amount" where
  "sample_amount u d r = \<lparr>am_raw = r, am_unit = u, am_decimals = d\<rparr>"

definition sample_level :: "string \<Rightarrow> string \<Rightarrow> book_level" where
  "sample_level p q = \<lparr>bl_price = sample_amount ''USD_PER_BTC'' 6 p, bl_quantity = sample_amount ''BTC'' 8 q\<rparr>"

definition sample_row :: "string \<Rightarrow> market_payload \<Rightarrow> market_evidence" where
  "sample_row channel content = \<lparr>me_object_id = ''o1'', me_payload =
     \<lparr>md_schema_version = ''trading.market-data.v1'', md_instrument_id = ''BTC'',
      md_instrument_version = ''v1'', md_source_id = ''hyperliquid:mainnet:ws'',
      md_parser_version = ''hyperliquid.feed.v1'', md_channel = channel,
      md_source_timestamp = Some 9000, md_received_at = 9100, md_quality = ''fresh'',
      md_gap_epoch = 1, md_payload = content\<rparr>\<rparr>"

definition sample_market :: valuation_market where
  "sample_market =
     \<lparr>vm_as_of = 10000,
      vm_context = Some (sample_row ''context'' (Mark_Funding (sample_amount ''USD_PER_BTC'' 6 ''58000000000'')
        (sample_amount ''USD_PER_BTC'' 6 ''58000000000'') None)),
      vm_book = Some (sample_row ''book'' (Book ''full_snapshot_top_20''
        [sample_level ''57000000000'' ''1000''] [sample_level ''58000000000'' ''1000'', sample_level ''58500000000'' ''1500''])),
      vm_capture = Some \<lparr>vc_at = 9500, vc_connected = True, vc_alive = True,
        vc_channels = (\<lambda>_. Some \<lparr>ch_status = ''healthy'', ch_needs_revalidation = False, ch_gap_epoch = 1\<rparr>)\<rparr>\<rparr>"

lemmas sample_market_defs = sample_market_def sample_row_def sample_level_def sample_amount_def
  ledgerScope_def sample_identity_def bookAgeMs_def markAgeMs_def futureToleranceMs_def

lemmas quality_defs = quality_def market_row_def compatible_def snapshot_time_def validTime_def
  opt_time_def feed_live_def

lemma sample_fresh: "quality (ledgerScope sample_identity) sample_market kind = Inr Fresh"
  by (cases kind) (simp_all add: quality_defs sample_market_defs)

theorem quality_fresh_sound_witness: "\<exists>row. market_row sample_market Book_Feed = Some row
    \<and> md_instrument_id (me_payload row) = instrument_id (ledgerScope sample_identity)"
  using quality_fresh_sound [OF sample_fresh [of Book_Feed]] by blast

lemma sample_prices: "mark_prices (vm_context sample_market) =
    Some (sample_amount ''USD_PER_BTC'' 6 ''58000000000'', sample_amount ''USD_PER_BTC'' 6 ''58000000000'')"
  by (simp add: mark_prices_def sample_market_defs)

lemma sample_valid_price: "validAmount (sample_amount ''USD_PER_BTC'' 6 ''58000000000'') ''USD_PER_BTC'' 6"
  by (simp add: validAmount_def sample_amount_def is_digit_def)

lemma sample_usable:
  "\<exists>r b. vm_book sample_market = Some r \<and> usable_book (md_payload (me_payload r)) = Some b"
  by (simp add: usable_book_def validBook_def validAmount_def is_digit_def level_price_def read_nat_def
      digit_val_def sample_market_defs upt_rec)

definition sample_valuation :: valuation where
  "sample_valuation =
     \<lparr>va_projection = projectFinancials sample_projection sample_fills, va_as_of = 10000,
      va_maintenance = estimate_maintenance (projectFinancials sample_projection sample_fills)
        (vm_context sample_market) Fresh,
      va_closing = estimate_closing (projectFinancials sample_projection sample_fills)
        (vm_book sample_market) Fresh\<rparr>"

lemma sample_scope: "lp_scope (fp_ledger (projectFinancials sample_projection sample_fills)) = ledgerScope sample_identity"
  by (simp add: projected_balance sample_projection_def)

lemma sample_valued:
  "valueFinancials (projectFinancials sample_projection sample_fills) sample_market = Inr sample_valuation"
proof -
  have "mark_quality (vm_context sample_market) Fresh = Fresh"
    by (simp add: mark_quality_def sample_prices sample_valid_price)
  moreover have "vm_as_of sample_market = 10000" by (simp add: sample_market_def)
  ultimately show ?thesis
    by (simp add: valueFinancials_def sample_scope sample_fresh sample_valuation_def validTime_def)
qed

theorem closing_depth_shared_witness:
  "cl_quality (va_closing sample_valuation) = Fresh
   \<and> executed Buy (cl_positions (va_closing sample_valuation)) \<le> observed_depth (vm_book sample_market) Buy"
proof -
  have "cl_quality (va_closing sample_valuation) = Fresh"
    using sample_usable by (auto simp: sample_valuation_def estimate_closing_def Let_def)
  with closing_depth_shared [OF sample_valued, of Buy] show ?thesis by simp
qed

theorem equity_is_mark_value_witness:
  "mt_usable_for_risk (va_maintenance sample_valuation) \<and> positive_fills sample_fills
   \<and> (\<exists>m equity. mt_mark_price (va_maintenance sample_valuation) = Some m \<and> mt_equity_usd (va_maintenance sample_valuation) = Some equity
        \<and> equity * BTC_SCALE \<le> exact_value sample_projection sample_fills (read_int (am_raw m)))"
proof -
  have usable: "mt_usable_for_risk (va_maintenance sample_valuation)" "positive_fills sample_fills"
    by (simp add: sample_valuation_def estimate_maintenance_def Let_def) code_simp
  note e = equity_is_mark_value [OF sample_valued, unfolded Let_def]
  then obtain m where m: "fresh_mark (lp_scope sample_projection) sample_market m" using usable(1) by blast
  with e usable(2) have "mt_mark_price (va_maintenance sample_valuation) = Some m"
    "\<exists>equity. mt_equity_usd (va_maintenance sample_valuation) = Some equity"
    "the (mt_equity_usd (va_maintenance sample_valuation)) * BTC_SCALE \<le> exact_value sample_projection sample_fills (read_int (am_raw m))"
    by blast+
  with usable show ?thesis by auto
qed

end
