(* ===== verification/Margin.thy ===== *)
theory Margin
  imports Valuation Complex_Main
begin

text \<open>
  Isolated 1x margin of \<open>apps/api/src/trading/margin.ts\<close>: the metadata check, the exact tiered
  maintenance margin, the replay-owned budgets (\<open>projectMarginBasis\<close>, a reducer over the record
  \<open>margin_state\<close> of its local variables) and their valuation. \<open>maintenance_sum\<close> is shown to be
  one ceiling of the exact rational integral of the tier rates, which equals the venue's
  \<open>rate * notional - cumulative deduction\<close>; the valuation is shown to account for every
  micro-dollar of the balance up to a residual of at most two.
\<close>

record margin_tier =
  tier_lower :: amount
  tier_max_leverage :: int
  tier_numerator :: string
  tier_denominator :: string

record margin_metadata =
  mm_schema_version :: string
  mm_instrument_id :: ident
  mm_instrument_version :: ident
  mm_received_at :: "time option"
  mm_parser_version :: string
  mm_maintenance_rule :: string
  mm_mode_constraint :: string
  mm_selected_leverage :: "int option"
  mm_max_leverage :: int
  mm_tiers :: "margin_tier list"
  mm_fees_basis :: string
  mm_taker :: amount

definition leverage :: int where
  "leverage = 1"

definition metadataObservationMaxAgeMs :: int where
  "metadataObservationMaxAgeMs = 86400000"

definition SCALE :: int where
  "SCALE = 100000000"

definition positive :: "int \<Rightarrow> int" where
  "positive n = (if n > 0 then n else 0)"

definition floor_usd :: "int \<Rightarrow> int" where
  "floor_usd n = n sdiv SCALE - (if n < 0 \<and> n smod SCALE \<noteq> 0 then 1 else 0)"

definition margin_ceil :: "int \<Rightarrow> int \<Rightarrow> int" where
  "margin_ceil n d = (n + d - 1) sdiv d"

interpretation margin_up: rounds_up margin_ceil
  by unfold_locales (simp_all only: margin_ceil_def ceil_ge ceil_lt)

section \<open>Metadata\<close>

text \<open>The bounded decimal patterns \<open>(0|[1-9][0-9]{0,n})\<close> of the source.\<close>

definition decimal_upto :: "nat \<Rightarrow> string \<Rightarrow> bool" where
  "decimal_upto n s = (s = ''0'' \<or> (case s of [] \<Rightarrow> False
     | c # r \<Rightarrow> is_digit c \<and> c \<noteq> CHR ''0'' \<and> list_all is_digit r \<and> length r \<le> n))"

definition tier_bound :: "margin_tier \<Rightarrow> int" where
  "tier_bound t = read_int (am_raw (tier_lower t))"

fun valid_tiers :: "int \<Rightarrow> bool \<Rightarrow> int \<Rightarrow> int \<Rightarrow> margin_tier list \<Rightarrow> bool" where
  "valid_tiers maxlev first bound lev [] = True"
| "valid_tiers maxlev first bound lev (t # ts) =
     (am_unit (tier_lower t) = ''USD'' \<and> am_decimals (tier_lower t) = 6
      \<and> decimal_upto 37 (am_raw (tier_lower t))
      \<and> tier_bound t > bound
      \<and> (\<not> first \<or> (tier_bound t = 0 \<and> tier_max_leverage t = maxlev))
      \<and> \<bar>tier_max_leverage t\<bar> \<le> 9007199254740991
      \<and> tier_max_leverage t \<ge> 1
      \<and> tier_max_leverage t < lev
      \<and> tier_numerator t = ''1''
      \<and> tier_denominator t = show_int (2 * tier_max_leverage t)
      \<and> valid_tiers maxlev False (tier_bound t) (tier_max_leverage t) ts)"

definition validMarginMetadata :: "margin_metadata option \<Rightarrow> ledger_scope \<Rightarrow> time option \<Rightarrow> bool" where
  "validMarginMetadata meta scope asOf = (case meta of None \<Rightarrow> False | Some m \<Rightarrow>
     mm_schema_version m = ''trading.instrument-metadata.v1''
     \<and> mm_instrument_id m = instrument_id scope
     \<and> mm_instrument_version m = instrument_version scope
     \<and> mm_parser_version m = ''hyperliquid.meta.v1''
     \<and> (case (asOf, mm_received_at m) of
          (Some a, Some r) \<Rightarrow> a - r \<ge> 0 \<and> a - r \<le> metadataObservationMaxAgeMs
        | _ \<Rightarrow> False)
     \<and> mm_maintenance_rule m = ''tier_rate_times_notional_minus_cumulative_deduction''
     \<and> mm_mode_constraint m \<in> set [''cross_or_isolated'', ''strict_isolated'', ''isolated_only'']
     \<and> mm_selected_leverage m = None
     \<and> length (mm_tiers m) > 0 \<and> length (mm_tiers m) \<le> 64
     \<and> valid_tiers (mm_max_leverage m) True (-1) 9007199254740991 (mm_tiers m)
     \<and> mm_fees_basis m = ''public_base_tier_no_discounts''
     \<and> am_unit (mm_taker m) = ''RATE'' \<and> am_decimals (mm_taker m) = 9
     \<and> decimal_upto 8 (am_raw (mm_taker m)))"

section \<open>Maintenance margin\<close>

fun maintenance_sum :: "int \<Rightarrow> int \<times> int \<Rightarrow> margin_tier list \<Rightarrow> int \<times> int" where
  "maintenance_sum notional14 acc [] = acc"
| "maintenance_sum notional14 (numerator, denominator) (t # ts) =
     (let lower = tier_bound t * SCALE in
      if notional14 \<le> lower then (numerator, denominator)
      else
        let upper = (case ts of [] \<Rightarrow> notional14 | nxt # _ \<Rightarrow> tier_bound nxt * SCALE);
            width = (if notional14 < upper then notional14 else upper) - lower;
            d = read_int (tier_denominator t)
        in maintenance_sum notional14 (numerator * d + width * denominator, denominator * d) ts)"

definition maintenanceMargin :: "int \<Rightarrow> margin_tier list \<Rightarrow> int" where
  "maintenanceMargin notional14 tiers =
     (case maintenance_sum notional14 (0, 1) tiers of
        (numerator, denominator) \<Rightarrow> margin_ceil numerator (denominator * SCALE))"

section \<open>One ceiling of the exact tier integral\<close>

text \<open>The exact margin in USD14: each tier rate applied to the part of the notional above its bound
  and below the next, as a rational. \<open>venue_margin\<close> is the venue's own formula, the rate of the
  tier of the whole notional less the deduction accumulated over the tiers below.\<close>

fun tier_integral :: "int \<Rightarrow> (int \<times> int) list \<Rightarrow> rat" where
  "tier_integral n [] = 0"
| "tier_integral n ((l, d) # ts) =
     (if n \<le> l then 0
      else of_int ((case ts of [] \<Rightarrow> n | (u, _) # _ \<Rightarrow> min n u) - l) / of_int d + tier_integral n ts)"

fun venue_margin :: "int \<Rightarrow> rat \<Rightarrow> (int \<times> int) list \<Rightarrow> rat" where
  "venue_margin n deduction [] = 0"
| "venue_margin n deduction [(l, d)] = of_int n / of_int d - deduction"
| "venue_margin n deduction ((l, d) # (u, e) # ts) =
     (if n \<le> u then of_int n / of_int d - deduction
      else venue_margin n (deduction + of_int u * (1 / of_int e - 1 / of_int d)) ((u, e) # ts))"

definition tier_pairs :: "margin_tier list \<Rightarrow> (int \<times> int) list" where
  "tier_pairs ts = map (\<lambda>t. (tier_bound t * SCALE, 2 * tier_max_leverage t)) ts"

fun proper_tiers :: "int \<Rightarrow> (int \<times> int) list \<Rightarrow> bool" where
  "proper_tiers bound [] = True"
| "proper_tiers bound ((l, d) # ts) = (bound < l \<and> 2 \<le> d \<and> proper_tiers l ts)"

lemma proper_tiers_mono: "proper_tiers b ts \<Longrightarrow> c \<le> b \<Longrightarrow> proper_tiers c ts"
  by (cases ts) auto

lemma valid_tiers_proper: "valid_tiers m first bound lev ts \<Longrightarrow> proper_tiers (bound * SCALE) (tier_pairs ts)"
  by (induction m first bound lev ts rule: valid_tiers.induct) (auto simp: tier_pairs_def SCALE_def)

lemma valid_tiers_denominator:
  "valid_tiers m first bound lev ts \<Longrightarrow> t \<in> set ts \<Longrightarrow> read_int (tier_denominator t) = 2 * tier_max_leverage t"
  by (induction m first bound lev ts rule: valid_tiers.induct) auto

lemma maintenance_sum_integral:
  assumes "\<And>t. t \<in> set ts \<Longrightarrow> read_int (tier_denominator t) = 2 * tier_max_leverage t"
    and "proper_tiers b (tier_pairs ts)" and "0 < den"
    and "maintenance_sum n (num, den) ts = (num', den')"
  shows "0 < den' \<and> (of_int num' :: rat) / of_int den' = of_int num / of_int den + tier_integral n (tier_pairs ts)"
  using assms
proof (induction ts arbitrary: num den b)
  case Nil
  then show ?case by (simp add: tier_pairs_def)
next
  case (Cons t ts)
  let ?l = "tier_bound t * SCALE" and ?d = "2 * tier_max_leverage t"
  have den: "read_int (tier_denominator t) = ?d" using Cons.prems(1) by simp
  show ?case
  proof (cases "n \<le> ?l")
    case True
    with Cons.prems show ?thesis by (simp add: tier_pairs_def)
  next
    case False
    define up where "up = (case ts of [] \<Rightarrow> n | nxt # _ \<Rightarrow> tier_bound nxt * SCALE)"
    define w where "w = (if n < up then n else up) - ?l"
    have d: "0 < ?d" and rest: "proper_tiers ?l (tier_pairs ts)"
      using Cons.prems(2) by (auto simp: tier_pairs_def)
    have step: "maintenance_sum n (num * ?d + w * den, den * ?d) ts = (num', den')"
      using Cons.prems(4) False by (simp only: maintenance_sum.simps(2) Let_def den if_False up_def w_def)
    have "0 < den * ?d" using Cons.prems(3) d by simp
    from Cons.IH [OF _ rest this step] Cons.prems(1)
    have ih: "0 < den'" "(of_int num' :: rat) / of_int den'
        = of_int (num * ?d + w * den) / of_int (den * ?d) + tier_integral n (tier_pairs ts)"
      by auto
    have "(of_int (num * ?d + w * den) :: rat) / of_int (den * ?d) = of_int num / of_int den + of_int w / of_int ?d"
      using d Cons.prems(3) by (simp add: add_divide_distrib)
    moreover have "tier_integral n (tier_pairs (t # ts)) = of_int w / of_int ?d + tier_integral n (tier_pairs ts)"
      using False by (cases ts) (auto simp: tier_pairs_def w_def up_def min_def)
    ultimately show ?thesis using ih by simp
  qed
qed

lemma tier_integral_below: "proper_tiers b ts \<Longrightarrow> n \<le> b \<Longrightarrow> tier_integral n ts = 0"
  by (cases ts) auto

lemma tier_integral_nonneg: "proper_tiers b ts \<Longrightarrow> 0 \<le> tier_integral n ts"
proof (induction n ts arbitrary: b rule: tier_integral.induct)
  case (2 n l d ts)
  then show ?case by (cases ts) (auto intro!: add_nonneg_nonneg divide_nonneg_nonneg)
qed simp

lemma tier_integral_mono: "proper_tiers b ts \<Longrightarrow> m \<le> n \<Longrightarrow> tier_integral m ts \<le> tier_integral n ts"
proof (induction m ts arbitrary: b rule: tier_integral.induct)
  case (2 m l d ts)
  show ?case
  proof (cases "m \<le> l")
    case True
    then show ?thesis using tier_integral_nonneg [OF 2(2)] by simp
  next
    case False
    with 2 have ih: "tier_integral m ts \<le> tier_integral n ts" by auto
    have "(case ts of [] \<Rightarrow> m | (u, _) # _ \<Rightarrow> min m u) \<le> (case ts of [] \<Rightarrow> n | (u, _) # _ \<Rightarrow> min n u)"
      using \<open>m \<le> n\<close> by (cases ts) auto
    with 2(2) have "(of_int ((case ts of [] \<Rightarrow> m | (u, _) # _ \<Rightarrow> min m u) - l) :: rat) / of_int d
        \<le> of_int ((case ts of [] \<Rightarrow> n | (u, _) # _ \<Rightarrow> min n u) - l) / of_int d"
      by (intro divide_right_mono) (simp_all only: of_int_le_iff of_int_0_le_iff, auto)
    with ih False \<open>m \<le> n\<close> show ?thesis by simp
  qed
qed simp

lemma tier_integral_half: "proper_tiers b ts \<Longrightarrow> ts \<noteq> [] \<Longrightarrow> fst (hd ts) \<le> n
   \<Longrightarrow> tier_integral n ts \<le> of_int (n - fst (hd ts)) / 2"
proof (induction n ts arbitrary: b rule: tier_integral.induct)
  case (2 n l d ts)
  have d: "2 \<le> d" and rest: "proper_tiers l ts" using 2(2) by auto
  have half: "(of_int w :: rat) / of_int d \<le> of_int w / 2" if "0 \<le> w" for w
    using d that by (intro divide_left_mono) auto
  show ?case
  proof (cases "n \<le> l")
    case True
    with 2 show ?thesis by simp
  next
    case False
    show ?thesis
    proof (cases ts)
      case Nil
      then show ?thesis using half [of "n - l"] False by simp
    next
      case (Cons p r)
      obtain u e where p: "p = (u, e)" by (cases p)
      show ?thesis
      proof (cases "n \<le> u")
        case True
        then have "tier_integral n ts = 0" by (simp add: Cons p)
        with True show ?thesis using half [of "n - l"] False by (simp add: Cons p)
      next
        case gt: False
        from 2(1) [OF False rest] gt have "tier_integral n ts \<le> of_int (n - u) / 2"
          by (simp add: Cons p)
        moreover have "l < u" using rest by (simp add: Cons p)
        ultimately show ?thesis
          using half [of "u - l"] False gt by (simp add: Cons p field_simps)
      qed
    qed
  qed
qed simp

lemma venue_shift: "venue_margin n (a + b) (p # ts) = venue_margin n a (p # ts) - b"
proof (induction ts arbitrary: a p)
  case Nil
  then show ?case by (cases p) simp
next
  case (Cons r ts)
  obtain l d u e where pr: "p = (l, d)" "r = (u, e)" by (cases p; cases r)
  show ?case
  proof (cases "n \<le> u")
    case False
    let ?c = "of_int u * (1 / of_int e - 1 / of_int d)"
    have "venue_margin n (a + b) (p # r # ts) = venue_margin n ((a + ?c) + b) (r # ts)"
      using False by (simp add: pr ac_simps)
    also have "\<dots> = venue_margin n (a + ?c) (r # ts) - b" by (rule Cons.IH)
    finally show ?thesis using False by (simp add: pr)
  qed (simp add: pr)
qed

lemma tier_integral_venue:
  "proper_tiers b ((l, d) # ts) \<Longrightarrow> l \<le> n
   \<Longrightarrow> tier_integral n ((l, d) # ts) = venue_margin n (of_int l / of_int d) ((l, d) # ts)"
proof (induction ts arbitrary: b l d)
  case Nil
  then show ?case by (auto simp: diff_divide_distrib)
next
  case (Cons r ts)
  obtain u e where r: "r = (u, e)" by (cases r)
  have rest: "proper_tiers l ((u, e) # ts)" using Cons.prems(1) by (simp add: r)
  show ?case
  proof (cases "n \<le> u")
    case True
    with Cons.prems show ?thesis by (auto simp: r diff_divide_distrib)
  next
    case False
    then have "tier_integral n ((u, e) # ts) = venue_margin n (of_int u / of_int e) ((u, e) # ts)"
      using Cons.IH [OF rest] by simp
    also have "\<dots> = venue_margin n (of_int l / of_int d + of_int u * (1 / of_int e - 1 / of_int d)
        + (of_int u / of_int d - of_int l / of_int d)) ((u, e) # ts)"
      by (simp add: algebra_simps)
    also have "\<dots> = venue_margin n (of_int l / of_int d + of_int u * (1 / of_int e - 1 / of_int d)) ((u, e) # ts)
        - (of_int u / of_int d - of_int l / of_int d)"
      by (rule venue_shift)
    finally have ih: "tier_integral n ((u, e) # ts) = \<dots>" .
    have "l < u" using rest by simp
    then show ?thesis using False ih
      by (simp add: r diff_divide_distrib del: tier_integral.simps(2) add: tier_integral.simps(2) [of n l])
  qed
qed

lemma margin_ceil_ceiling:
  assumes "0 \<le> n" and "0 < d"
  shows "margin_ceil n d = \<lceil>(of_int n :: rat) / of_int d\<rceil>"
proof (rule ceiling_unique [symmetric])
  have "(of_int n :: rat) \<le> of_int (d * margin_ceil n d)"
    using margin_up.up_ge [OF assms] by (simp only: of_int_le_iff)
  with assms(2) show "(of_int n :: rat) / of_int d \<le> of_int (margin_ceil n d)"
    by (simp add: divide_le_eq mult.commute)
  have "(of_int (d * margin_ceil n d) :: rat) < of_int (n + d)"
    using margin_up.up_lt [OF assms] by (simp only: of_int_less_iff)
  with assms(2) show "of_int (margin_ceil n d) - 1 < (of_int n :: rat) / of_int d"
    by (simp add: less_divide_eq algebra_simps)
qed

lemma maintenanceMargin_integral:
  assumes "valid_tiers m first bound lev ts"
  shows "maintenanceMargin n ts = \<lceil>tier_integral n (tier_pairs ts) / of_int SCALE\<rceil>"
proof -
  obtain num den where s: "maintenance_sum n (0, 1) ts = (num, den)" by fastforce
  note proper = valid_tiers_proper [OF assms]
  have r: "0 < den" "(of_int num :: rat) / of_int den = tier_integral n (tier_pairs ts)"
    using maintenance_sum_integral [OF valid_tiers_denominator [OF assms] proper _ s] by auto
  then have "0 \<le> (of_int num :: rat) / of_int den" using tier_integral_nonneg [OF proper] by simp
  with r(1) have "0 \<le> num" by (simp add: zero_le_divide_iff)
  with r(1) have "margin_ceil num (den * SCALE) = \<lceil>(of_int num :: rat) / of_int (den * SCALE)\<rceil>"
    by (intro margin_ceil_ceiling) (simp_all add: SCALE_def)
  also have "(of_int num :: rat) / of_int (den * SCALE) = (of_int num / of_int den) / of_int SCALE" by simp
  finally show ?thesis by (simp add: maintenanceMargin_def s r(2))
qed

lemma valid_metadata_tiers:
  assumes "validMarginMetadata (Some meta) scope asOf"
  shows "valid_tiers (mm_max_leverage meta) True (-1) 9007199254740991 (mm_tiers meta)" and "mm_tiers meta \<noteq> []"
  using assms by (auto simp: validMarginMetadata_def)

text \<open>C39: with metadata that passes the check, the maintenance margin of any notional is the
  venue's formula, the rate of the notional's tier times the notional less the cumulative
  deduction, over exact rationals and rounded up to a micro-dollar once. It grows with the
  notional, and at the maximum rate of one half never exceeds half the notional rounded up.\<close>

theorem maintenanceMargin_exact:
  assumes "validMarginMetadata (Some meta) scope asOf" and "0 \<le> n"
  shows "maintenanceMargin n (mm_tiers meta) = \<lceil>venue_margin n 0 (tier_pairs (mm_tiers meta)) / of_int SCALE\<rceil>
    \<and> 2 * SCALE * maintenanceMargin n (mm_tiers meta) < n + 2 * SCALE
    \<and> (\<forall>k\<le>n. maintenanceMargin k (mm_tiers meta) \<le> maintenanceMargin n (mm_tiers meta))"
proof -
  let ?ts = "mm_tiers meta" and ?ps = "tier_pairs (mm_tiers meta)"
  note valid = valid_metadata_tiers [OF assms(1)]
  note integral = maintenanceMargin_integral [OF valid(1)] and proper = valid_tiers_proper [OF valid(1)]
  obtain t ts where ts: "?ts = t # ts" using valid(2) by (cases ?ts) auto
  have zero: "tier_bound t = 0" using valid(1) by (simp add: ts)
  then have ps: "?ps = (0, 2 * tier_max_leverage t) # tier_pairs ts" by (simp add: ts tier_pairs_def)
  have "tier_integral n ?ps = venue_margin n 0 ?ps"
    using tier_integral_venue [of "-1 * SCALE" 0 "2 * tier_max_leverage t" "tier_pairs ts" n] proper assms(2)
    by (simp add: ps del: tier_integral.simps proper_tiers.simps venue_margin.simps)
  moreover have "2 * SCALE * maintenanceMargin n ?ts < n + 2 * SCALE"
  proof -
    let ?c = "maintenanceMargin n ?ts"
    have "of_int ?c < tier_integral n ?ps / of_int SCALE + 1" unfolding integral by linarith
    moreover have "tier_integral n ?ps \<le> of_int n / 2"
      using tier_integral_half [OF proper] assms(2) by (simp add: ps)
    ultimately have "(of_int (2 * SCALE * ?c) :: rat) < of_int (n + 2 * SCALE)"
      by (simp add: SCALE_def)
    then show ?thesis by (simp only: of_int_less_iff)
  qed
  moreover have "maintenanceMargin k ?ts \<le> maintenanceMargin n ?ts" if "k \<le> n" for k
    unfolding integral using tier_integral_mono [OF proper that]
    by (intro ceiling_mono divide_right_mono) (simp_all add: SCALE_def)
  ultimately show ?thesis by (simp add: integral)
qed

definition sample_tier :: "string \<Rightarrow> int \<Rightarrow> string \<Rightarrow> margin_tier" where
  "sample_tier low lev den = \<lparr>tier_lower = \<lparr>am_raw = low, am_unit = ''USD'', am_decimals = 6\<rparr>,
     tier_max_leverage = lev, tier_numerator = ''1'', tier_denominator = den\<rparr>"

definition sample_metadata :: margin_metadata where
  "sample_metadata = \<lparr>mm_schema_version = ''trading.instrument-metadata.v1'', mm_instrument_id = ''i'',
     mm_instrument_version = ''v'', mm_received_at = Some 1000, mm_parser_version = ''hyperliquid.meta.v1'',
     mm_maintenance_rule = ''tier_rate_times_notional_minus_cumulative_deduction'',
     mm_mode_constraint = ''cross_or_isolated'', mm_selected_leverage = None, mm_max_leverage = 40,
     mm_tiers = [sample_tier ''0'' 40 ''80'', sample_tier ''150'' 20 ''40''],
     mm_fees_basis = ''public_base_tier_no_discounts'',
     mm_taker = \<lparr>am_raw = ''450000'', am_unit = ''RATE'', am_decimals = 9\<rparr>\<rparr>"

definition sample_scope :: ledger_scope where
  "sample_scope = \<lparr>mode = Paper, account_id = ''a'', experiment_id = ''e'', instrument_id = ''i'',
     instrument_version = ''v''\<rparr>"

lemma sample_numerals: "show_nat 80 = ''80''" "show_nat 40 = ''40''"
  using show_read_nat [of "''80''"] show_read_nat [of "''40''"]
  by (simp_all add: is_digit_def read_nat_def digit_val_def)

lemma sample_metadata_valid: "validMarginMetadata (Some sample_metadata) sample_scope (Some 2000)"
  by (simp add: validMarginMetadata_def sample_metadata_def sample_scope_def sample_tier_def tier_bound_def
      decimal_upto_def is_digit_def digit_val_def digit_char_def read_nat_def show_int_def
      metadataObservationMaxAgeMs_def sample_numerals)

theorem maintenanceMargin_exact_witness:
  "maintenanceMargin 20000000001 (mm_tiers sample_metadata)
    = \<lceil>venue_margin 20000000001 0 (tier_pairs (mm_tiers sample_metadata)) / of_int SCALE\<rceil>"
  using maintenanceMargin_exact [OF sample_metadata_valid, of 20000000001] by simp

section \<open>Budgets\<close>

record margin_budget =
  mb_allocated :: int
  mb_charges :: int
  mb_q :: int
  mb_closed :: bool

record margin_state =
  ms_budgets :: "(ident \<times> margin_budget) list"
  ms_executions :: "(ident \<times> ident) list"
  ms_capital :: int
  ms_compatible :: bool

record basis_position =
  bp_position_id :: ident
  bp_allocated_usd14 :: int
  bp_charges_usd14 :: int

record margin_basis =
  capital_usd14 :: int
  basis_compatible :: bool
  basis_positions :: "basis_position list"

definition margin_init :: margin_state where
  "margin_init = \<lparr>ms_budgets = [], ms_executions = [], ms_capital = 0, ms_compatible = True\<rparr>"

definition budget_of :: "margin_state \<Rightarrow> ident \<Rightarrow> margin_budget" where
  "budget_of s pid = (case map_of (ms_budgets s) pid of Some b \<Rightarrow> b
     | None \<Rightarrow> \<lparr>mb_allocated = 0, mb_charges = 0, mb_q = 0, mb_closed = False\<rparr>)"

text \<open>\<open>id ? budgets.get(id) : null\<close>: an absent or empty id finds no budget.\<close>

definition margin_charge :: "margin_state \<Rightarrow> ident option \<Rightarrow> int \<Rightarrow> margin_state" where
  "margin_charge s pid delta =
     (case (case pid of None \<Rightarrow> None | Some i \<Rightarrow>
              if i = '''' then None else map_option (Pair i) (map_of (ms_budgets s) i)) of
        None \<Rightarrow> s\<lparr>ms_compatible := False\<rparr>
      | Some (i, b) \<Rightarrow>
          s\<lparr>ms_budgets := AList.update i (b\<lparr>mb_charges := mb_charges b + delta * SCALE\<rparr>) (ms_budgets s)\<rparr>)"

definition margin_fill :: "margin_state \<Rightarrow> ident \<Rightarrow> ident \<Rightarrow> side \<Rightarrow> int \<Rightarrow> int \<Rightarrow> margin_state" where
  "margin_fill s execution pid sd quantity price =
     (let b = budget_of s pid;
          delta = side_sign sd * quantity;
          opens = (mb_q b = 0 \<or> mb_q b * delta > 0);
          ok = (if opens then \<not> mb_closed b else \<not> \<bar>delta\<bar> > \<bar>mb_q b\<bar>);
          q = mb_q b + delta
      in s\<lparr>ms_budgets := AList.update pid
             \<lparr>mb_allocated = mb_allocated b + (if opens then \<bar>delta\<bar> * price else 0),
              mb_charges = mb_charges b, mb_q = q, mb_closed = (mb_closed b \<or> q = 0)\<rparr> (ms_budgets s),
           ms_executions := AList.update execution pid (ms_executions s),
           ms_compatible := (ms_compatible s \<and> ok)\<rparr>)"

definition margin_step :: "margin_state \<Rightarrow> ledger_event \<Rightarrow> margin_state" where
  "margin_step s event = (case payload event of
     Cash _ delta \<Rightarrow> s\<lparr>ms_capital := ms_capital s + delta * SCALE\<rparr>
   | Fill execution pid sd quantity price \<Rightarrow> margin_fill s execution pid sd quantity price
   | Fee execution delta \<Rightarrow> margin_charge s (map_of (ms_executions s) execution) delta
   | Funding pid _ _ delta \<Rightarrow> margin_charge s (Some pid) delta
   | _ \<Rightarrow> s)"

definition projectMarginBasis :: "ledger_event list \<Rightarrow> margin_basis" where
  "projectMarginBasis events =
     (let s = foldl margin_step margin_init (sort_key sequence events)
      in \<lparr>capital_usd14 = ms_capital s, basis_compatible = ms_compatible s,
          basis_positions = map (\<lambda>(pid, b). \<lparr>bp_position_id = pid, bp_allocated_usd14 = mb_allocated b,
            bp_charges_usd14 = mb_charges b\<rparr>) (ms_budgets s)\<rparr>)"

section \<open>Valuation of the budgets\<close>

record margin_position =
  mp_position_id :: ident
  mp_quantity_btc :: int
  mp_allocated_usd :: int
  mp_collateral_usd :: int
  mp_equity_usd :: "int option"
  mp_maintenance_usd :: "int option"
  mp_liquidatable :: bool
  mp_residual_usd :: int
  mp_deficit_usd :: "int option"

record isolated_margin =
  im_leverage :: int
  im_compatible :: bool
  im_metadata_valid :: bool
  im_positions :: "margin_position list"
  im_free_cash_usd :: int
  im_open_collateral_usd :: int
  im_closed_deficit_usd :: int
  im_balance_usd :: int
  im_rounding_residual_usd :: int

text \<open>A position of the finance without a budget dereferences \<open>undefined\<close>.\<close>

datatype margin_error = NO_BUDGET

definition value_position ::
  "int option \<Rightarrow> margin_tier list option \<Rightarrow> position \<Rightarrow> basis_position \<Rightarrow> margin_position" where
  "value_position mark tiers p b =
     (let q = quantity_btc p;
          cash = bp_allocated_usd14 b + bp_charges_usd14 b + realized_usd14 p;
          unrealized = (case mark of None \<Rightarrow> None
            | Some m \<Rightarrow> Some ((if q < 0 then -1 else 1) * (\<bar>q\<bar> * m - cost_usd14 p)));
          equity = (case unrealized of None \<Rightarrow> None | Some u \<Rightarrow> Some (floor_usd (cash + u)));
          maintenance = (case (mark, tiers) of
            (Some m, Some ts) \<Rightarrow> Some (maintenanceMargin (\<bar>q\<bar> * m) ts) | _ \<Rightarrow> None)
      in \<lparr>mp_position_id = position_id p, mp_quantity_btc = q,
          mp_allocated_usd = floor_usd (bp_allocated_usd14 b),
          mp_collateral_usd = (if q = 0 then 0 else floor_usd cash),
          mp_equity_usd = (if q = 0 then Some 0 else equity),
          mp_maintenance_usd = maintenance,
          mp_liquidatable = (q \<noteq> 0 \<and> (case (equity, maintenance) of (Some e, Some m) \<Rightarrow> e \<le> m | _ \<Rightarrow> False)),
          mp_residual_usd = (if q = 0 then floor_usd (positive cash) else 0),
          mp_deficit_usd = (if q \<noteq> 0 \<and> unrealized = None then None
            else Some (margin_ceil (positive (if q = 0 then - cash
              else - (cash + (case unrealized of None \<Rightarrow> 0 | Some u \<Rightarrow> u)))) SCALE))\<rparr>)"

record margin_totals =
  tot_allocated :: int
  tot_released :: int
  tot_open_cash :: int
  tot_closed_debt :: int

definition value_step ::
  "(ident \<times> basis_position) list \<Rightarrow> int option \<Rightarrow> margin_tier list option \<Rightarrow>
   margin_totals \<times> margin_position list \<Rightarrow> position \<Rightarrow> margin_error + (margin_totals \<times> margin_position list)" where
  "value_step budgets mark tiers st p = (case map_of budgets (position_id p) of
     None \<Rightarrow> Inl NO_BUDGET
   | Some b \<Rightarrow>
       (let tot = fst st; q = quantity_btc p;
            cash = bp_allocated_usd14 b + bp_charges_usd14 b + realized_usd14 p
        in Inr (\<lparr>tot_allocated = tot_allocated tot + bp_allocated_usd14 b,
             tot_released = tot_released tot + (if q = 0 then positive cash else 0),
             tot_open_cash = tot_open_cash tot + (if q = 0 then 0 else cash),
             tot_closed_debt = tot_closed_debt tot + (if q = 0 then positive (- cash) else 0)\<rparr>,
           snd st @ [value_position mark tiers p b])))"

definition valueMarginBasis ::
  "financial_projection \<Rightarrow> margin_basis \<Rightarrow> int option \<Rightarrow> margin_metadata option \<Rightarrow> time option \<Rightarrow>
   margin_error + isolated_margin" where
  "valueMarginBasis finance basis mark meta asOf =
     (let budgets = foldl (\<lambda>m p. AList.update (bp_position_id p) p m) [] (basis_positions basis);
          metadataValid = validMarginMetadata meta (lp_scope (fp_ledger finance)) asOf;
          tiers = (if metadataValid then map_option mm_tiers meta else None)
      in bind_res (fold_res (value_step budgets mark tiers)
           (\<lparr>tot_allocated = 0, tot_released = 0, tot_open_cash = 0, tot_closed_debt = 0\<rparr>, [])
           (fp_positions finance)) (\<lambda>(tot, positions).
         let free = floor_usd (capital_usd14 basis - tot_allocated tot + tot_released tot);
             open = floor_usd (tot_open_cash tot);
             debt = margin_ceil (tot_closed_debt tot) SCALE
         in Inr \<lparr>im_leverage = leverage, im_compatible = basis_compatible basis,
              im_metadata_valid = metadataValid, im_positions = positions,
              im_free_cash_usd = free, im_open_collateral_usd = open, im_closed_deficit_usd = debt,
              im_balance_usd = balance_usd finance,
              im_rounding_residual_usd = balance_usd finance - (free + open - debt)\<rparr>))"

definition projectIsolatedMargin ::
  "financial_projection \<Rightarrow> ledger_event list \<Rightarrow> int option \<Rightarrow> margin_metadata option \<Rightarrow> time option \<Rightarrow>
   margin_error + isolated_margin" where
  "projectIsolatedMargin finance events mark meta asOf =
     valueMarginBasis finance (projectMarginBasis events) mark meta asOf"

section \<open>The budgets account for the whole balance\<close>

lemma sum_update:
  fixes f :: "'v \<Rightarrow> int"
  shows "distinct (map fst m) \<Longrightarrow> sum_list (map (f \<circ> snd) (AList.update k v m))
    = sum_list (map (f \<circ> snd) m) + f v - (case map_of m k of None \<Rightarrow> 0 | Some w \<Rightarrow> f w)"
  by (induction m) (auto simp: image_iff split: option.splits)

lemma sum_lookup:
  fixes f :: "'v \<Rightarrow> int"
  assumes "distinct (map fst m)" and "mset ids = mset (map fst m)"
  shows "sum_list (map (\<lambda>i. f (the (map_of m i))) ids) = sum_list (map (f \<circ> snd) m)"
proof -
  have "sum_list (map (\<lambda>i. f (the (map_of m i))) ids) = sum_list (map (\<lambda>i. f (the (map_of m i))) (map fst m))"
    by (rule sum_list_mset) (rule assms(2))
  also have "\<dots> = sum_list (map (f \<circ> snd) m)"
    using assms(1) by (auto intro!: arg_cong [of _ _ sum_list] simp: map_of_is_SomeI)
  finally show ?thesis .
qed

definition charged :: "margin_state \<Rightarrow> int" where
  "charged s = sum_list (map (mb_charges \<circ> snd) (ms_budgets s))"

definition margin_inv :: "ledger_event list \<Rightarrow> margin_state \<Rightarrow> bool" where
  "margin_inv h s \<longleftrightarrow> distinct (map fst (ms_budgets s)) \<and> fst ` set (ms_budgets s) = fill_positions h
     \<and> ms_capital s + SCALE * (history_fees h + history_funding h) = SCALE * history_cash h
     \<and> (ms_compatible s \<longrightarrow> charged s = SCALE * (history_fees h + history_funding h))"

lemma margin_inv_charge:
  assumes inv: "margin_inv h s" and e: "payload_fees (payload e) + payload_funding (payload e) = delta"
    "payload_cash (payload e) = delta" "\<not> (\<exists>x p sd q pr. payload e = Fill x p sd q pr)"
  shows "margin_inv (h @ [e]) (margin_charge s pid delta)"
proof -
  have fp: "fill_positions (h @ [e]) = fill_positions h"
    using e(3) by (cases "payload e") auto
  have sums: "history_fees (h @ [e]) + history_funding (h @ [e]) = history_fees h + history_funding h + delta"
    "history_cash (h @ [e]) = history_cash h + delta"
    using e by simp_all
  show ?thesis
  proof (cases "\<exists>i b. pid = Some i \<and> i \<noteq> '''' \<and> map_of (ms_budgets s) i = Some b")
    case False
    then have "margin_charge s pid delta = s\<lparr>ms_compatible := False\<rparr>"
      by (auto simp: margin_charge_def split: option.splits)
    then show ?thesis
      using inv fp sums by (simp add: margin_inv_def charged_def algebra_simps)
  next
    case True
    then obtain i b where i: "pid = Some i" "i \<noteq> ''''" and b: "map_of (ms_budgets s) i = Some b" by blast
    have eq: "margin_charge s pid delta =
        s\<lparr>ms_budgets := AList.update i (b\<lparr>mb_charges := mb_charges b + delta * SCALE\<rparr>) (ms_budgets s)\<rparr>"
      using i b by (simp add: margin_charge_def)
    have "i \<in> fst ` set (ms_budgets s)" using b by (metis domI keys_map_of)
    moreover have "charged (margin_charge s pid delta) = charged s + delta * SCALE"
      using inv b by (simp add: eq charged_def sum_update margin_inv_def)
    ultimately show ?thesis
      using inv fp sums by (auto simp: margin_inv_def eq map_update keys_map_of insert_absorb algebra_simps)
  qed
qed

lemma margin_inv_fill:
  assumes inv: "margin_inv h s" and e: "payload e = Fill x pid sd q pr"
  shows "margin_inv (h @ [e]) (margin_fill s x pid sd q pr)"
proof -
  have d: "distinct (map fst (ms_budgets s))" using inv by (simp add: margin_inv_def)
  define s' where "s' = margin_fill s x pid sd q pr"
  obtain b' where b': "ms_budgets s' = AList.update pid b' (ms_budgets s)" "mb_charges b' = mb_charges (budget_of s pid)"
    by (simp add: s'_def margin_fill_def Let_def)
  have frame: "ms_capital s' = ms_capital s" "ms_compatible s' \<Longrightarrow> ms_compatible s"
    by (simp_all add: s'_def margin_fill_def Let_def)
  have "charged s' = charged s"
    by (simp add: b' charged_def sum_update [OF d] budget_of_def split: option.splits)
  moreover have "fst ` set (ms_budgets s') = insert pid (fst ` set (ms_budgets s))" "distinct (map fst (ms_budgets s'))"
    using d by (simp_all add: b' map_update keys_map_of)
  moreover have "history_fees (h @ [e]) = history_fees h" "history_funding (h @ [e]) = history_funding h"
    "history_cash (h @ [e]) = history_cash h" "fill_positions (h @ [e]) = insert pid (fill_positions h)"
    using e by simp_all
  ultimately show ?thesis
    using inv frame unfolding margin_inv_def s'_def [symmetric] by simp
qed

lemma margin_inv_step: "margin_inv h s \<Longrightarrow> margin_inv (h @ [e]) (margin_step s e)"
proof (cases "payload e")
  case (Fill x pid sd q pr)
  assume "margin_inv h s"
  from margin_inv_fill [OF this Fill] show ?thesis by (simp add: margin_step_def Fill)
next
  case (Fee x d)
  assume "margin_inv h s"
  from margin_inv_charge [OF this, of e d] show ?thesis by (simp add: margin_step_def Fee)
next
  case (Funding p a b d)
  assume "margin_inv h s"
  from margin_inv_charge [OF this, of e d] show ?thesis by (simp add: margin_step_def Funding)
qed (auto simp: margin_inv_def margin_step_def charged_def algebra_simps)

lemma margin_inv_init: "margin_inv [] margin_init"
  by (simp add: margin_inv_def margin_init_def charged_def)

interpretation budget: total_reducer margin_step margin_init margin_inv
  by unfold_locales (auto intro: margin_inv_init margin_inv_step)

lemma basis_facts:
  fixes events
  defines "b \<equiv> projectMarginBasis events"
  shows "distinct (map bp_position_id (basis_positions b))"
    and "bp_position_id ` set (basis_positions b) = fill_positions events"
    and "basis_compatible b \<Longrightarrow>
      capital_usd14 b + sum_list (map bp_charges_usd14 (basis_positions b)) = SCALE * history_cash events"
proof -
  let ?xs = "sort_key sequence events"
  let ?s = "foldl margin_step margin_init ?xs"
  have inv: "margin_inv ?xs ?s" by (rule budget.foldl_inv)
  have ms: "mset ?xs = mset events" by simp
  have ids: "map bp_position_id (basis_positions b) = map fst (ms_budgets ?s)"
    by (simp add: b_def projectMarginBasis_def Let_def case_prod_unfold)
  with inv show "distinct (map bp_position_id (basis_positions b))" by (simp add: margin_inv_def)
  from ids have "bp_position_id ` set (basis_positions b) = fst ` set (ms_budgets ?s)" by (metis set_map)
  with inv history_mset(3) [OF ms] show "bp_position_id ` set (basis_positions b) = fill_positions events"
    by (simp add: margin_inv_def)
  have ch: "sum_list (map bp_charges_usd14 (basis_positions b)) = charged ?s"
    by (simp add: b_def projectMarginBasis_def Let_def case_prod_unfold charged_def comp_def)
  show "capital_usd14 b + sum_list (map bp_charges_usd14 (basis_positions b)) = SCALE * history_cash events"
    if "basis_compatible b"
    using that inv ch history_mset(1) [OF ms] by (simp add: b_def projectMarginBasis_def Let_def margin_inv_def)
qed

text \<open>The table of budgets that the valuation builds from the basis.\<close>

lemma budget_table:
  "distinct (map f ps) \<Longrightarrow> (\<And>p. p \<in> set ps \<Longrightarrow> f p \<notin> fst ` set m) \<Longrightarrow>
     foldl (\<lambda>m p. AList.update (f p) p m) m ps = m @ map (\<lambda>p. (f p, p)) ps"
proof (induction ps arbitrary: m)
  case Nil
  then show ?case by simp
next
  case (Cons p ps)
  have "AList.update k v m = m @ [(k, v)]" if "k \<notin> fst ` set m" for k v
    using that by (induction m) auto
  moreover have "f p \<notin> fst ` set m" using Cons.prems(2) by simp
  moreover have "foldl (\<lambda>m p. AList.update (f p) p m) (m @ [(f p, p)]) ps = (m @ [(f p, p)]) @ map (\<lambda>p. (f p, p)) ps"
  proof (rule Cons.IH)
    show "distinct (map f ps)" using Cons.prems(1) by simp
    show "f q \<notin> fst ` set (m @ [(f p, p)])" if "q \<in> set ps" for q
    proof -
      have "f q \<noteq> f p" using Cons.prems(1) that by (metis distinct.simps(2) image_eqI list.simps(9) set_map)
      with Cons.prems(2) that show ?thesis by simp
    qed
  qed
  ultimately show ?case by simp
qed

lemma value_fold:
  assumes "\<And>p. p \<in> set ps \<Longrightarrow> map_of budgets (position_id p) = Some (bud p)"
  shows "\<exists>tot'. fold_res (value_step budgets mark tiers) (tot, acc) ps
      = Inr (tot', acc @ map (\<lambda>p. value_position mark tiers p (bud p)) ps)
    \<and> tot_allocated tot' = tot_allocated tot + sum_list (map (\<lambda>p. bp_allocated_usd14 (bud p)) ps)
    \<and> tot_released tot' + tot_open_cash tot' - tot_closed_debt tot'
      = tot_released tot + tot_open_cash tot - tot_closed_debt tot
        + sum_list (map (\<lambda>p. bp_allocated_usd14 (bud p) + bp_charges_usd14 (bud p) + realized_usd14 p) ps)
    \<and> tot_closed_debt tot \<le> tot_closed_debt tot'"
  using assms
proof (induction ps arbitrary: tot acc)
  case Nil
  then show ?case by simp
next
  case (Cons p ps)
  let ?c = "bp_allocated_usd14 (bud p) + bp_charges_usd14 (bud p) + realized_usd14 p"
  let ?t = "\<lparr>tot_allocated = tot_allocated tot + bp_allocated_usd14 (bud p),
    tot_released = tot_released tot + (if quantity_btc p = 0 then positive ?c else 0),
    tot_open_cash = tot_open_cash tot + (if quantity_btc p = 0 then 0 else ?c),
    tot_closed_debt = tot_closed_debt tot + (if quantity_btc p = 0 then positive (- ?c) else 0)\<rparr>"
  have step: "value_step budgets mark tiers (tot, acc) p = Inr (?t, acc @ [value_position mark tiers p (bud p)])"
    using Cons.prems [of p] by (simp add: value_step_def Let_def)
  have t: "tot_released ?t + tot_open_cash ?t - tot_closed_debt ?t
      = tot_released tot + tot_open_cash tot - tot_closed_debt tot + ?c"
    "tot_closed_debt tot \<le> tot_closed_debt ?t"
    by (auto simp: positive_def)
  obtain tot' where f: "fold_res (value_step budgets mark tiers) (?t, acc @ [value_position mark tiers p (bud p)]) ps
      = Inr (tot', (acc @ [value_position mark tiers p (bud p)]) @ map (\<lambda>p. value_position mark tiers p (bud p)) ps)"
    and r: "tot_allocated tot' = tot_allocated ?t + sum_list (map (\<lambda>p. bp_allocated_usd14 (bud p)) ps)"
      "tot_released tot' + tot_open_cash tot' - tot_closed_debt tot'
      = tot_released ?t + tot_open_cash ?t - tot_closed_debt ?t
        + sum_list (map (\<lambda>p. bp_allocated_usd14 (bud p) + bp_charges_usd14 (bud p) + realized_usd14 p) ps)"
      "tot_closed_debt ?t \<le> tot_closed_debt tot'"
    using Cons.IH [of ?t "acc @ [value_position mark tiers p (bud p)]"] Cons.prems by auto
  show ?case
  proof (intro exI [of _ tot'] conjI)
    show "fold_res (value_step budgets mark tiers) (tot, acc) (p # ps)
        = Inr (tot', acc @ map (\<lambda>p. value_position mark tiers p (bud p)) (p # ps))"
      using f by (simp only: fold_res.simps step bind_res_simps) simp
    show "tot_allocated tot' = tot_allocated tot + sum_list (map (\<lambda>p. bp_allocated_usd14 (bud p)) (p # ps))"
      using r(1) by simp
    show "tot_closed_debt tot \<le> tot_closed_debt tot'" using t(2) r(3) by linarith
    show "tot_released tot' + tot_open_cash tot' - tot_closed_debt tot'
        = tot_released tot + tot_open_cash tot - tot_closed_debt tot
          + sum_list (map (\<lambda>p. bp_allocated_usd14 (bud p) + bp_charges_usd14 (bud p) + realized_usd14 p) (p # ps))"
      using r(2) t(1) by (simp only: list.map sum_list.Cons)
  qed
qed


lemma projected_valuation:
  fixes ledger events mark meta asOf
  defines "f \<equiv> projectFinancials ledger events" and "basis \<equiv> projectMarginBasis events"
    and "valid \<equiv> validMarginMetadata meta (lp_scope ledger) asOf"
  obtains m :: isolated_margin and bud :: "position \<Rightarrow> basis_position" and tot :: margin_totals
    where "projectIsolatedMargin f events mark meta asOf = Inr m"
    and "\<And>p. p \<in> set (fp_positions f) \<Longrightarrow> bud p \<in> set (basis_positions basis) \<and> bp_position_id (bud p) = position_id p"
    and "im_positions m = map (\<lambda>p. value_position mark (if valid then map_option mm_tiers meta else None) p (bud p))
      (fp_positions f)"
    and "im_metadata_valid m = valid"
    and "im_balance_usd m = balance_usd f"
    and "im_free_cash_usd m = floor_usd (capital_usd14 basis - tot_allocated tot + tot_released tot)"
    and "im_open_collateral_usd m = floor_usd (tot_open_cash tot)"
    and "im_closed_deficit_usd m = margin_ceil (tot_closed_debt tot) SCALE"
    and "im_rounding_residual_usd m = balance_usd f
      - (im_free_cash_usd m + im_open_collateral_usd m - im_closed_deficit_usd m)"
    and "tot_released tot + tot_open_cash tot - tot_closed_debt tot = tot_allocated tot
      + sum_list (map bp_charges_usd14 (basis_positions basis)) + sum_list (map realized_usd14 (fp_positions f))"
    and "0 \<le> tot_closed_debt tot"
proof -
  let ?ps = "fp_positions f"
  define table where "table = map (\<lambda>b. (bp_position_id b, b)) (basis_positions basis)"
  note facts = basis_facts [of events, folded basis_def]
  have keys: "map fst table = map bp_position_id (basis_positions basis)" by (simp add: table_def)
  have table: "foldl (\<lambda>m p. AList.update (bp_position_id p) p m) [] (basis_positions basis) = table"
    using budget_table [of bp_position_id "basis_positions basis" "[]"] facts(1) by (simp add: table_def)
  note ids = projected_ids [of ledger events, folded f_def]
  have "distinct (map position_id ?ps)" using ids(1) by (simp add: strict_sorted_iff)
  moreover have "set (map position_id ?ps) = set (map fst table)" using ids(2) facts(2) keys by simp
  ultimately have ms: "mset (map position_id ?ps) = mset (map fst table)"
    using facts(1) keys set_eq_iff_mset_eq_distinct [of "map position_id ?ps" "map fst table"] by metis
  define bud where "bud p = the (map_of table (position_id p))" for p :: position
  have look: "map_of table (position_id p) = Some (bud p)" if "p \<in> set ?ps" for p
  proof -
    have "position_id p \<in> dom (map_of table)"
      using that \<open>set (map position_id ?ps) = set (map fst table)\<close> by (auto simp: dom_map_of_conv_image_fst)
    then show ?thesis by (auto simp: bud_def)
  qed
  have bud: "bud p \<in> set (basis_positions basis) \<and> bp_position_id (bud p) = position_id p" if "p \<in> set ?ps" for p
    using map_of_SomeD [OF look [OF that]] by (auto simp: table_def)
  have sums: "sum_list (map (\<lambda>p. g (bud p)) ?ps) = sum_list (map g (basis_positions basis))" for g :: "basis_position \<Rightarrow> int"
    using sum_lookup [of table "map position_id ?ps" g] ms facts(1) keys by (simp add: bud_def table_def comp_def)
  obtain tot where fold: "fold_res (value_step table mark (if valid then map_option mm_tiers meta else None))
      (\<lparr>tot_allocated = 0, tot_released = 0, tot_open_cash = 0, tot_closed_debt = 0\<rparr>, []) ?ps
      = Inr (tot, map (\<lambda>p. value_position mark (if valid then map_option mm_tiers meta else None) p (bud p)) ?ps)"
    and tot: "tot_allocated tot = sum_list (map (\<lambda>p. bp_allocated_usd14 (bud p)) ?ps)"
      "tot_released tot + tot_open_cash tot - tot_closed_debt tot
        = sum_list (map (\<lambda>p. bp_allocated_usd14 (bud p) + bp_charges_usd14 (bud p) + realized_usd14 p) ?ps)"
      "0 \<le> tot_closed_debt tot"
    using value_fold [OF look, where tot = "\<lparr>tot_allocated = 0, tot_released = 0, tot_open_cash = 0, tot_closed_debt = 0\<rparr>"
      and acc = "[]" and mark = mark and tiers = "if valid then map_option mm_tiers meta else None"]
    by auto
  have sum: "tot_released tot + tot_open_cash tot - tot_closed_debt tot = tot_allocated tot
      + sum_list (map bp_charges_usd14 (basis_positions basis)) + sum_list (map realized_usd14 ?ps)"
    using tot(1,2) by (simp add: sum_list_addf sums)
  have scope: "fp_ledger f = ledger" unfolding f_def by (rule projected_balance)
  define m where "m = \<lparr>im_leverage = leverage, im_compatible = basis_compatible basis,
     im_metadata_valid = valid,
     im_positions = map (\<lambda>p. value_position mark (if valid then map_option mm_tiers meta else None) p (bud p)) ?ps,
     im_free_cash_usd = floor_usd (capital_usd14 basis - tot_allocated tot + tot_released tot),
     im_open_collateral_usd = floor_usd (tot_open_cash tot),
     im_closed_deficit_usd = margin_ceil (tot_closed_debt tot) SCALE, im_balance_usd = balance_usd f,
     im_rounding_residual_usd = balance_usd f - (floor_usd (capital_usd14 basis - tot_allocated tot + tot_released tot)
       + floor_usd (tot_open_cash tot) - margin_ceil (tot_closed_debt tot) SCALE)\<rparr>"
  have "projectIsolatedMargin f events mark meta asOf = Inr m"
    unfolding projectIsolatedMargin_def valueMarginBasis_def basis_def [symmetric] table Let_def scope
      valid_def [symmetric] fold m_def by simp
  then show thesis
    by (rule that [of m bud tot]) (simp_all only: bud sum tot(3), simp_all add: m_def)
qed

lemma floor_usd_div: "floor_usd n = n div SCALE"
  using usd14.down_div [of SCALE n] by (simp add: floor_usd_def SCALE_def)

lemma margin_residual:
  assumes "x + y - z = SCALE * k + r" and "0 \<le> z"
  shows "0 \<le> k + r div SCALE - (x div SCALE + y div SCALE - margin_ceil z SCALE)"
    and "k + r div SCALE - (x div SCALE + y div SCALE - margin_ceil z SCALE) \<le> 2"
proof -
  have S: "0 < SCALE" by (simp add: SCALE_def)
  let ?t = "k + r div SCALE - (x div SCALE + y div SCALE - margin_ceil z SCALE)"
  have t: "SCALE * ?t = SCALE * k + SCALE * (r div SCALE) - SCALE * (x div SCALE) - SCALE * (y div SCALE)
      + SCALE * margin_ceil z SCALE"
    by (simp add: algebra_simps)
  note b = div_bounds [OF S, of r] div_bounds [OF S, of x] div_bounds [OF S, of y]
    margin_up.up_ge [OF assms(2) S] margin_up.up_lt [OF assms(2) S]
  have "SCALE * 0 < SCALE * ?t + SCALE" and "SCALE * ?t < SCALE * 2 + SCALE"
    using b t assms(1) by linarith+
  then show "0 \<le> ?t" and "?t \<le> 2" using mult_less_succ [OF S] by blast+
qed

text \<open>the isolated budgets never lose or invent money. For the financial projection of a ledger
  and its own events, valuation succeeds, and when the history is compatible with isolation the
  free cash, the open collateral and the closed debts explain the balance up to at most two
  micro-dollars, which come from the three separate roundings.\<close>

theorem isolated_margin_accounts:
  assumes "cash_usd ledger = history_cash events" and "basis_compatible (projectMarginBasis events)"
  shows "\<exists>m. projectIsolatedMargin (projectFinancials ledger events) events mark meta asOf = Inr m
    \<and> im_balance_usd m = im_free_cash_usd m + im_open_collateral_usd m - im_closed_deficit_usd m
        + im_rounding_residual_usd m
    \<and> 0 \<le> im_rounding_residual_usd m \<and> im_rounding_residual_usd m \<le> 2"
proof -
  let ?f = "projectFinancials ledger events" and ?b = "projectMarginBasis events"
  obtain m and bud :: "position \<Rightarrow> basis_position" and tot :: margin_totals
    where m: "projectIsolatedMargin ?f events mark meta asOf = Inr m"
    and parts: "im_free_cash_usd m = floor_usd (capital_usd14 ?b - tot_allocated tot + tot_released tot)"
      "im_open_collateral_usd m = floor_usd (tot_open_cash tot)"
      "im_closed_deficit_usd m = margin_ceil (tot_closed_debt tot) SCALE"
    and res: "im_rounding_residual_usd m = balance_usd ?f
      - (im_free_cash_usd m + im_open_collateral_usd m - im_closed_deficit_usd m)"
    and bal: "im_balance_usd m = balance_usd ?f"
    and tot: "tot_released tot + tot_open_cash tot - tot_closed_debt tot = tot_allocated tot
      + sum_list (map bp_charges_usd14 (basis_positions ?b)) + sum_list (map realized_usd14 (fp_positions ?f))"
      "0 \<le> tot_closed_debt tot"
    by (rule projected_valuation)
  let ?r = "sum_list (map realized_usd14 (fp_positions ?f))"
  have "balance_usd ?f = cash_usd ledger + ?r div SCALE"
    using projected_balance(1) by (simp add: SCALE_def BTC_SCALE_def)
  moreover have "capital_usd14 ?b - tot_allocated tot + tot_released tot + tot_open_cash tot - tot_closed_debt tot
      = SCALE * history_cash events + ?r"
    using tot(1) basis_facts(3) [OF assms(2)] by linarith
  note margin_residual [OF this tot(2)]
  ultimately show ?thesis using m res bal parts assms(1) by (simp add: floor_usd_div)
qed

text \<open>The sample history of the financial projection, with its fees and funding in cash.\<close>

lemma sample_margin_compatible: "basis_compatible (projectMarginBasis (take 4 sample_ledger))"
  by code_simp

theorem isolated_margin_accounts_witness:
  "\<exists>m. projectIsolatedMargin (projectFinancials (sample_projection\<lparr>cash_usd := history_cash (take 4 sample_ledger)\<rparr>)
      (take 4 sample_ledger)) (take 4 sample_ledger) None None None = Inr m \<and> im_rounding_residual_usd m \<le> 2"
  using isolated_margin_accounts [OF _ sample_margin_compatible,
      of "sample_projection\<lparr>cash_usd := history_cash (take 4 sample_ledger)\<rparr>" None None None] by auto

definition position_equity14 :: "int \<Rightarrow> position \<Rightarrow> basis_position \<Rightarrow> int" where
  "position_equity14 mark p b = bp_allocated_usd14 b + bp_charges_usd14 b + realized_usd14 p
      + (if quantity_btc p < 0 then -1 else 1) * (\<bar>quantity_btc p\<bar> * mark - cost_usd14 p)"

lemma value_position_open:
  assumes "quantity_btc p \<noteq> 0"
  shows "mp_equity_usd (value_position (Some mark) tiers p b) = Some (position_equity14 mark p b div SCALE)"
    and "mp_deficit_usd (value_position (Some mark) tiers p b)
      = Some (margin_ceil (max 0 (- position_equity14 mark p b)) SCALE)"
    and "mp_liquidatable (value_position (Some mark) tiers p b) \<longleftrightarrow> (\<exists>ts. tiers = Some ts
      \<and> position_equity14 mark p b div SCALE \<le> maintenanceMargin (\<bar>quantity_btc p\<bar> * mark) ts)"
proof -
  have pos: "positive n = max 0 n" for n by (simp add: positive_def max_def)
  note eq = value_position_def Let_def floor_usd_div position_equity14_def
  show "mp_equity_usd (value_position (Some mark) tiers p b) = Some (position_equity14 mark p b div SCALE)"
    using assms by (simp add: eq)
  show "mp_deficit_usd (value_position (Some mark) tiers p b)
      = Some (margin_ceil (max 0 (- position_equity14 mark p b)) SCALE)"
    using assms by (simp add: eq pos)
  show "mp_liquidatable (value_position (Some mark) tiers p b) \<longleftrightarrow> (\<exists>ts. tiers = Some ts
      \<and> position_equity14 mark p b div SCALE \<le> maintenanceMargin (\<bar>quantity_btc p\<bar> * mark) ts)"
    using assms by (cases tiers) (simp_all add: eq)
qed

text \<open>positions are isolated. The equity of an open position is its own budget, charges and
  fill cash flow plus its inventory at the mark, rounded down once, and mentions no other
  position; it is liquidated exactly when valid metadata puts its maintenance margin at or above
  that equity; a deficit is the position's own, rounded up.\<close>

theorem margin_position_isolated:
  assumes "projectIsolatedMargin (projectFinancials ledger events) events (Some mark) meta asOf = Inr m"
    and "positive_fills events" and "x \<in> set (im_positions m)" and "mp_quantity_btc x \<noteq> 0"
  shows "\<exists>b \<in> set (basis_positions (projectMarginBasis events)). bp_position_id b = mp_position_id x
    \<and> mp_quantity_btc x = history_quantity events (mp_position_id x)
    \<and> (let exact = bp_allocated_usd14 b + bp_charges_usd14 b + history_flow events (mp_position_id x)
            + mp_quantity_btc x * mark
       in mp_equity_usd x = Some (exact div SCALE)
        \<and> (mp_liquidatable x \<longleftrightarrow> (\<exists>md. meta = Some md \<and> im_metadata_valid m
              \<and> exact div SCALE \<le> maintenanceMargin (\<bar>mp_quantity_btc x\<bar> * mark) (mm_tiers md)))
        \<and> mp_deficit_usd x = Some (margin_ceil (max 0 (- exact)) SCALE))"
proof -
  let ?f = "projectFinancials ledger events"
  define valid where "valid = validMarginMetadata meta (lp_scope ledger) asOf"
  obtain m' and bud :: "position \<Rightarrow> basis_position"
    where m: "projectIsolatedMargin ?f events (Some mark) meta asOf = Inr m'"
    and bud: "\<And>p. p \<in> set (fp_positions ?f) \<Longrightarrow>
      bud p \<in> set (basis_positions (projectMarginBasis events)) \<and> bp_position_id (bud p) = position_id p"
    and pos: "im_positions m' = map (\<lambda>p. value_position (Some mark) (if valid then map_option mm_tiers meta else None) p (bud p))
      (fp_positions ?f)"
    and v: "im_metadata_valid m' = valid"
    unfolding valid_def
    by (rule projected_valuation [of ledger events "Some mark" meta asOf]) blast
  have "m' = m" using m assms(1) by simp
  then obtain p where p: "p \<in> set (fp_positions ?f)"
    and x: "x = value_position (Some mark) (if valid then map_option mm_tiers meta else None) p (bud p)"
    using assms(3) pos by auto
  have ids: "mp_position_id x = position_id p" "mp_quantity_btc x = quantity_btc p"
    by (simp_all add: x value_position_def Let_def)
  note fin = projectFinancials_position [OF assms(2) p]
  let ?q = "quantity_btc p"
  let ?exact = "bp_allocated_usd14 (bud p) + bp_charges_usd14 (bud p) + history_flow events (position_id p) + ?q * mark"
  have "?q \<noteq> 0" using assms(4) ids by simp
  have exact: "position_equity14 mark p (bud p) = ?exact"
    using fin(4) by (auto simp: position_equity14_def sign_def algebra_simps)
  note open_p = value_position_open [OF \<open>?q \<noteq> 0\<close>, where b = "bud p" and mark = mark
      and tiers = "if valid then map_option mm_tiers meta else None", unfolded exact, folded x]
  have "mp_liquidatable x \<longleftrightarrow> (\<exists>md. meta = Some md \<and> valid
      \<and> ?exact div SCALE \<le> maintenanceMargin (\<bar>?q\<bar> * mark) (mm_tiers md))"
    using open_p(3) by (cases meta; cases valid) simp_all
  then show ?thesis
    using bud [OF p] ids fin(1) v \<open>m' = m\<close> open_p(1,2) by (intro bexI [of _ "bud p"]) (simp_all only: Let_def)
qed

lemma sample_margin:
  "projectIsolatedMargin (projectFinancials sample_projection sample_fills) sample_fills (Some 60000000000) None None
   = Inr \<lparr>im_leverage = 1, im_compatible = False, im_metadata_valid = False,
       im_positions = [\<lparr>mp_position_id = ''p'', mp_quantity_btc = - 3000, mp_allocated_usd = 1800000,
         mp_collateral_usd = 1790000, mp_equity_usd = Some 1760000, mp_maintenance_usd = None,
         mp_liquidatable = False, mp_residual_usd = 0, mp_deficit_usd = Some 0\<rparr>],
       im_free_cash_usd = - 1800000, im_open_collateral_usd = 1790000, im_closed_deficit_usd = 0,
       im_balance_usd = 999990000, im_rounding_residual_usd = 1000000000\<rparr>"
  by code_simp

theorem margin_position_isolated_witness:
  "\<exists>b \<in> set (basis_positions (projectMarginBasis sample_fills)). bp_position_id b = ''p''
    \<and> 1760000 = (bp_allocated_usd14 b + bp_charges_usd14 b + history_flow sample_fills ''p'' + (-3000) * 60000000000) div SCALE"
proof -
  have pos: "positive_fills sample_fills" by code_simp
  show ?thesis
    using margin_position_isolated [OF sample_margin pos, of "\<lparr>mp_position_id = ''p'', mp_quantity_btc = - 3000,
      mp_allocated_usd = 1800000, mp_collateral_usd = 1790000, mp_equity_usd = Some 1760000, mp_maintenance_usd = None,
      mp_liquidatable = False, mp_residual_usd = 0, mp_deficit_usd = Some 0\<rparr>"]
    by (auto simp: Let_def)
qed

end
