(* ===== verification/Funding.thy ===== *)
theory Funding
  imports Financial
begin

text \<open>
  Hourly funding of \<open>apps/api/src/trading/funding.ts\<close>: the signed cash delta, the positions held
  strictly before a cutoff (a reducer over \<open>funding_state\<close>, the map and the set of the source),
  and the coverage of the due hours by receipts. Hours are instants in milliseconds; the
  source's \<open>Math.floor\<close> of a quotient of milliseconds is \<open>div\<close>.
\<close>

definition FUNDING_HOUR_MS :: int where
  "FUNDING_HOUR_MS = 3600000"

definition fundingDelta :: "int \<Rightarrow> int \<Rightarrow> int \<Rightarrow> nat \<Rightarrow> int" where
  "fundingDelta quantity oracle rate decimals =
     (let numerator = - quantity * oracle * rate;
          denominator = 100000000 * 10 ^ decimals
      in numerator sdiv denominator - (if numerator < 0 \<and> numerator smod denominator \<noteq> 0 then 1 else 0))"

section \<open>Positions at the cutoff\<close>

record funding_state =
  fu_quantities :: "(ident \<times> int) list"
  fu_ambiguous :: "ident list"

record funding_positions =
  ambiguous :: "ident list"
  funded :: "(ident \<times> int) list"

definition funding_init :: funding_state where
  "funding_init = \<lparr>fu_quantities = [], fu_ambiguous = []\<rparr>"

definition funding_step :: "time \<Rightarrow> funding_state \<Rightarrow> ledger_event \<Rightarrow> funding_state" where
  "funding_step cutoff s e = (case payload e of
     Fill _ pid sd quantity _ \<Rightarrow>
       (if occurred_at e > cutoff then s
        else if occurred_at e = cutoff
        then s\<lparr>fu_ambiguous := (if pid \<in> set (fu_ambiguous s) then fu_ambiguous s else fu_ambiguous s @ [pid])\<rparr>
        else s\<lparr>fu_quantities := AList.update pid
               ((case map_of (fu_quantities s) pid of None \<Rightarrow> 0 | Some q \<Rightarrow> q) + side_sign sd * quantity)
               (fu_quantities s)\<rparr>)
   | _ \<Rightarrow> s)"

definition fundingPositions :: "ledger_event list \<Rightarrow> time \<Rightarrow> funding_positions" where
  "fundingPositions events cutoff =
     (let s = foldl (funding_step cutoff) funding_init events
      in \<lparr>ambiguous = sort (fu_ambiguous s),
          funded = sort_key fst (filter (\<lambda>(_, q). q \<noteq> 0) (fu_quantities s))\<rparr>)"

section \<open>Coverage\<close>

datatype funding_status = Pending | Settled | Conflict | Duplicate

record funding_receipt =
  fr_model_version :: "string option"
  fr_rate18 :: "int option"
  fr_period_hour :: time
  fr_cutoff :: "time option"
  fr_status :: funding_status
  fr_reason :: string
  fr_basis :: "string option"
  fr_oracle_usd :: "int option"
  fr_positions :: "(ident \<times> int \<times> int) list"
  fr_evidence_id :: ident

record funding_coverage =
  fc_complete :: bool
  fc_pending :: "(time \<times> string) list"
  fc_pending_count :: nat
  fc_overflow :: bool
  fc_usable_for_risk :: bool

definition first_fill :: "ledger_event list \<Rightarrow> time option" where
  "first_fill events =
     (case sort (map occurred_at (filter (\<lambda>e. case payload e of Fill _ _ _ _ _ \<Rightarrow> True | _ \<Rightarrow> False) events)) of
        [] \<Rightarrow> None | t # _ \<Rightarrow> Some t)"

definition due_hours :: "ledger_event list \<Rightarrow> time \<Rightarrow> nat" where
  "due_hours events asOf = (case first_fill events of None \<Rightarrow> 0
     | Some t \<Rightarrow> nat (max 0 (asOf div FUNDING_HOUR_MS - t div FUNDING_HOUR_MS + 1)))"

definition hour_at :: "ledger_event list \<Rightarrow> nat \<Rightarrow> time" where
  "hour_at events i = (case first_fill events of None \<Rightarrow> 0
     | Some t \<Rightarrow> t div FUNDING_HOUR_MS * FUNDING_HOUR_MS) + int i * FUNDING_HOUR_MS"

text \<open>Why an hour is still pending; \<open>None\<close> when it is settled.\<close>

definition hour_reason :: "funding_receipt list \<Rightarrow> string option" where
  "hour_reason rows =
     (if list_ex (\<lambda>r. fr_status r = Conflict) rows then Some ''conflict''
      else if list_ex (\<lambda>r. fr_status r = Settled) rows then None
      else Some (case rows of [] \<Rightarrow> ''missing_final_rate'' | _ \<Rightarrow> fr_reason (last rows)))"

definition coverage_step ::
  "ledger_event list \<Rightarrow> (time \<Rightarrow> funding_receipt list) \<Rightarrow> (time \<times> string) list \<times> nat \<Rightarrow> nat \<Rightarrow> (time \<times> string) list \<times> nat" where
  "coverage_step events byHour st i =
     (let hour = hour_at events i in
      case hour_reason (byHour hour) of
        None \<Rightarrow> st
      | Some reason \<Rightarrow>
          if reason = '''' then st
          else (if length (fst st) < 744 then fst st @ [(hour, reason)] else fst st, snd st + 1))"

definition fundingCoverage :: "ledger_event list \<Rightarrow> funding_receipt list \<Rightarrow> time \<Rightarrow> funding_coverage" where
  "fundingCoverage events receipts asOf =
     (let byHour = (\<lambda>h. filter (\<lambda>r. fr_period_hour r = h) receipts);
          (pending, pendingCount) = foldl (coverage_step events byHour) ([], 0) [0..<due_hours events asOf];
          conflicts = length (filter (\<lambda>r. fr_status r = Conflict) receipts)
      in \<lparr>fc_complete = (\<not> (pendingCount \<noteq> 0 \<or> conflicts \<noteq> 0)), fc_pending = pending,
          fc_pending_count = pendingCount, fc_overflow = (pendingCount > length pending),
          fc_usable_for_risk = (pendingCount = 0 \<and> conflicts = 0)\<rparr>)"

section \<open>Properties\<close>

lemma fundingDelta_div: "fundingDelta q oracle rate d = (- (q * oracle * rate)) div (100000000 * 10 ^ d)"
  using usd14.down_div [of "100000000 * 10 ^ d" "- q * oracle * rate"] by (simp add: fundingDelta_def Let_def)

text \<open>a funding delta is the exact signed payment rounded down, so the account never receives
  more than it is owed nor pays less: a long pays a positive rate and a short receives it; and
  funding two parts of a position separately costs at most one micro-dollar more than funding
  the whole.\<close>

theorem fundingDelta_floor:
  fixes q q' price rate :: int and d :: nat
  defines "unit \<equiv> 100000000 * 10 ^ d"
  shows "unit * fundingDelta q price rate d \<le> - (q * price * rate)
    \<and> - (q * price * rate) < unit * fundingDelta q price rate d + unit
    \<and> fundingDelta q price rate d + fundingDelta q' price rate d \<le> fundingDelta (q + q') price rate d
    \<and> fundingDelta (q + q') price rate d \<le> fundingDelta q price rate d + fundingDelta q' price rate d + 1
    \<and> (q * price * rate = 0 \<or> (fundingDelta q price rate d < 0 \<longleftrightarrow> 0 < q * price * rate))"
proof -
  have u: "0 < unit" by (simp add: unit_def)
  let ?a = "- (q * price * rate)" and ?b = "- (q' * price * rate)"
  have eq: "fundingDelta q price rate d = ?a div unit" "fundingDelta q' price rate d = ?b div unit"
    "fundingDelta (q + q') price rate d = (?a + ?b) div unit"
    by (simp_all add: fundingDelta_div unit_def algebra_simps)
  have "?a div unit + ?b div unit \<le> (?a + ?b) div unit" "(?a + ?b) div unit \<le> ?a div unit + ?b div unit + 1"
    using usd14.down_superadditive [OF u, of ?a ?b] usd14.down_add_upper [OF u, of ?a ?b]
    by (simp_all only: usd14.down_div [OF u])
  moreover have "?a div unit < 0 \<longleftrightarrow> ?a < 0" using u by (simp add: neg_imp_zdiv_neg_iff pos_imp_zdiv_neg_iff)
  ultimately show ?thesis unfolding eq using div_bounds [OF u, of ?a] by auto
qed

definition before_cutoff :: "time \<Rightarrow> ledger_event list \<Rightarrow> ledger_event list" where
  "before_cutoff cutoff events = filter (\<lambda>e. occurred_at e < cutoff) events"

definition at_cutoff :: "time \<Rightarrow> ledger_event list \<Rightarrow> ledger_event list" where
  "at_cutoff cutoff events = filter (\<lambda>e. occurred_at e = cutoff) events"

definition funding_inv :: "time \<Rightarrow> ledger_event list \<Rightarrow> funding_state \<Rightarrow> bool" where
  "funding_inv cutoff h s \<longleftrightarrow> distinct (map fst (fu_quantities s))
     \<and> fst ` set (fu_quantities s) = fill_positions (before_cutoff cutoff h)
     \<and> (\<forall>(pid, q) \<in> set (fu_quantities s). q = history_quantity (before_cutoff cutoff h) pid)
     \<and> distinct (fu_ambiguous s) \<and> set (fu_ambiguous s) = fill_positions (at_cutoff cutoff h)"

lemma cutoff_snoc [simp]:
  "before_cutoff c (h @ [e]) = (if occurred_at e < c then before_cutoff c h @ [e] else before_cutoff c h)"
  "at_cutoff c (h @ [e]) = (if occurred_at e = c then at_cutoff c h @ [e] else at_cutoff c h)"
  by (simp_all add: before_cutoff_def at_cutoff_def)

lemma funding_lookup:
  assumes "funding_inv c h s"
  shows "(case map_of (fu_quantities s) pid of None \<Rightarrow> 0 | Some q \<Rightarrow> q) = history_quantity (before_cutoff c h) pid"
proof (cases "map_of (fu_quantities s) pid")
  case None
  then have "pid \<notin> fill_positions (before_cutoff c h)"
    using assms by (auto simp: funding_inv_def map_of_eq_None_iff)
  with None show ?thesis by (simp add: history_quantity_unfilled)
next
  case (Some q)
  then show ?thesis using assms map_of_SomeD [OF Some] by (auto simp: funding_inv_def)
qed

lemma funding_inv_step: "funding_inv c h s \<Longrightarrow> funding_inv c (h @ [e]) (funding_step c s e)"
proof (cases "payload e")
  case (Fill x pid sd q pr)
  assume inv: "funding_inv c h s"
  then have d: "distinct (map fst (fu_quantities s))" by (simp add: funding_inv_def)
  consider "occurred_at e < c" | "occurred_at e = c" | "c < occurred_at e" by linarith
  then show ?thesis
  proof cases
    case 1
    with inv Fill show ?thesis
      by (auto simp: funding_inv_def funding_step_def funding_lookup [OF inv] map_update keys_map_of
          alist_update_ball [OF d])
  qed (use inv Fill in \<open>auto simp: funding_inv_def funding_step_def\<close>)
qed (auto simp: funding_inv_def funding_step_def)

lemma funding_inv_init: "funding_inv c [] funding_init"
  by (simp add: funding_inv_def funding_init_def before_cutoff_def at_cutoff_def)

interpretation cut: total_reducer "funding_step cutoff" funding_init "funding_inv cutoff" for cutoff
  by unfold_locales (auto intro: funding_inv_init funding_inv_step)

lemma distinct_filter_map: "distinct (map f xs) \<Longrightarrow> distinct (map f (filter P xs))"
  by (induction xs) auto

text \<open>the positions funded at a cutoff are exactly the nonzero signed sums of the fills strictly
  before it, in order of id, however the position changed later and in whatever order the events
  are given; the positions with a fill at the very instant are the ambiguous ones.\<close>

theorem fundingPositions_cutoff:
  fixes events cutoff
  defines "r \<equiv> fundingPositions events cutoff"
  shows "(\<forall>pid q. (pid, q) \<in> set (funded r) \<longleftrightarrow> q = history_quantity (before_cutoff cutoff events) pid \<and> q \<noteq> 0)
    \<and> sorted_wrt (<) (map fst (funded r))
    \<and> set (ambiguous r) = fill_positions (at_cutoff cutoff events) \<and> sorted_wrt (<) (ambiguous r)"
proof -
  let ?s = "foldl (funding_step cutoff) funding_init events"
  have inv: "funding_inv cutoff events ?s" by (rule cut.foldl_inv)
  have "sorted_wrt (<) (map fst (funded r))"
    using inv by (simp add: r_def fundingPositions_def Let_def funding_inv_def sort_distinct_keys distinct_filter_map)
  moreover have "(pid, q) \<in> set (funded r) \<longleftrightarrow> q = history_quantity (before_cutoff cutoff events) pid \<and> q \<noteq> 0" for pid q
  proof -
    have mem: "(pid, q) \<in> set (funded r) \<longleftrightarrow> (pid, q) \<in> set (fu_quantities ?s) \<and> q \<noteq> 0"
      by (auto simp: r_def fundingPositions_def Let_def)
    have "(pid, q) \<in> set (fu_quantities ?s)"
      if q: "q = history_quantity (before_cutoff cutoff events) pid" "q \<noteq> 0"
    proof -
      from q have "pid \<in> fill_positions (before_cutoff cutoff events)"
        using history_quantity_unfilled by blast
      with inv have "pid \<in> fst ` set (fu_quantities ?s)" by (simp add: funding_inv_def)
      then obtain q' where "(pid, q') \<in> set (fu_quantities ?s)" by auto
      moreover from this inv have "q' = q" using q by (auto simp: funding_inv_def)
      ultimately show ?thesis by simp
    qed
    moreover have "q = history_quantity (before_cutoff cutoff events) pid" if "(pid, q) \<in> set (fu_quantities ?s)"
      using inv that by (auto simp: funding_inv_def)
    ultimately show ?thesis using mem by blast
  qed
  ultimately show ?thesis
    using inv by (simp add: r_def fundingPositions_def Let_def funding_inv_def strict_sorted_iff)
qed

text \<open>The hours the coverage walks are all the hours from the first fill to the instant asked for.\<close>

lemma due_hours_cover:
  assumes "first_fill events = Some t" and "t \<le> u" and "u \<le> asOf"
  shows "\<exists>i < due_hours events asOf. hour_at events i \<le> u \<and> u < hour_at events i + FUNDING_HOUR_MS"
proof -
  have H: "0 < FUNDING_HOUR_MS" by (simp add: FUNDING_HOUR_MS_def)
  let ?k = "u div FUNDING_HOUR_MS - t div FUNDING_HOUR_MS"
  have k: "0 \<le> ?k" "?k \<le> asOf div FUNDING_HOUR_MS - t div FUNDING_HOUR_MS"
    using assms H by (simp_all add: zdiv_mono1)
  have h: "hour_at events (nat ?k) = FUNDING_HOUR_MS * (u div FUNDING_HOUR_MS)"
    using k assms(1) by (simp add: hour_at_def algebra_simps)
  show ?thesis
    using k assms(1) div_bounds [OF H, of u] by (intro exI [of _ "nat ?k"]) (simp add: h due_hours_def)
qed

definition unsettled :: "ledger_event list \<Rightarrow> funding_receipt list \<Rightarrow> nat \<Rightarrow> bool" where
  "unsettled events receipts i \<longleftrightarrow>
     hour_reason (filter (\<lambda>r. fr_period_hour r = hour_at events i) receipts) \<noteq> None"

lemma coverage_fold:
  assumes "\<forall>r \<in> set receipts. fr_reason r \<noteq> ''''"
    and "foldl (coverage_step events (\<lambda>h. filter (\<lambda>r. fr_period_hour r = h) receipts)) ([], 0) is = (pending, n)"
  shows "n = length (filter (unsettled events receipts) is) \<and> length pending = min 744 n"
  using assms(2)
proof (induction "is" arbitrary: pending n rule: rev_induct)
  case Nil
  then show ?case by simp
next
  case (snoc i "is")
  obtain p m where pm: "foldl (coverage_step events (\<lambda>h. filter (\<lambda>r. fr_period_hour r = h) receipts)) ([], 0) is = (p, m)"
    by fastforce
  note IH = snoc.IH [OF pm]
  let ?rows = "filter (\<lambda>r. fr_period_hour r = hour_at events i) receipts"
  have step: "(pending, n) = coverage_step events (\<lambda>h. filter (\<lambda>r. fr_period_hour r = h) receipts) (p, m) i"
    using snoc.prems pm by simp
  show ?case
  proof (cases "hour_reason ?rows")
    case None
    then show ?thesis using step IH by (simp add: coverage_step_def unsettled_def)
  next
    case (Some reason)
    have "last ?rows \<in> set receipts" if "?rows \<noteq> []" using last_in_set [OF that] by simp
    then have "reason \<noteq> ''''"
      using Some assms(1) by (auto simp: hour_reason_def split: if_splits list.splits)
    then show ?thesis using step IH Some by (auto simp: coverage_step_def unsettled_def)
  qed
qed

text \<open>funding may be relied on for risk exactly when no receipt is in conflict and every hour
  from the first fill to the instant asked for has a settled receipt. The pending list is
  bounded by 744 entries, its overflow is visible, and the count is exact.\<close>

theorem fundingCoverage_usable:
  fixes events receipts asOf
  assumes "\<forall>r \<in> set receipts. fr_reason r \<noteq> ''''"
  defines "c \<equiv> fundingCoverage events receipts asOf"
  shows "(fc_usable_for_risk c \<longleftrightarrow> (\<forall>r \<in> set receipts. fr_status r \<noteq> Conflict)
        \<and> (\<forall>i < due_hours events asOf. \<exists>r \<in> set receipts. fr_period_hour r = hour_at events i \<and> fr_status r = Settled))
    \<and> fc_complete c = fc_usable_for_risk c
    \<and> fc_pending_count c = length (filter (unsettled events receipts) [0..<due_hours events asOf])
    \<and> length (fc_pending c) = min 744 (fc_pending_count c)
    \<and> (fc_overflow c \<longleftrightarrow> 744 < fc_pending_count c)
    \<and> (\<forall>t u. first_fill events = Some t \<longrightarrow> t \<le> u \<longrightarrow> u \<le> asOf \<longrightarrow>
        (\<exists>i < due_hours events asOf. hour_at events i \<le> u \<and> u < hour_at events i + FUNDING_HOUR_MS))"
proof -
  obtain pending n where pn: "foldl (coverage_step events (\<lambda>h. filter (\<lambda>r. fr_period_hour r = h) receipts)) ([], 0)
      [0..<due_hours events asOf] = (pending, n)"
    by fastforce
  note fold = coverage_fold [OF assms(1) pn]
  have c: "c = \<lparr>fc_complete = (n = 0 \<and> (\<forall>r \<in> set receipts. fr_status r \<noteq> Conflict)), fc_pending = pending,
      fc_pending_count = n, fc_overflow = (n > length pending),
      fc_usable_for_risk = (n = 0 \<and> (\<forall>r \<in> set receipts. fr_status r \<noteq> Conflict))\<rparr>"
    by (auto simp: c_def fundingCoverage_def Let_def pn filter_empty_conv)
  have n0: "n = 0 \<longleftrightarrow> (\<forall>i < due_hours events asOf. \<not> unsettled events receipts i)"
    using fold by (auto simp: filter_empty_conv)
  have un: "unsettled events receipts i \<longleftrightarrow>
      \<not> (\<exists>r \<in> set receipts. fr_period_hour r = hour_at events i \<and> fr_status r = Settled)"
    if "\<forall>r \<in> set receipts. fr_status r \<noteq> Conflict" for i
    using that by (auto simp: unsettled_def hour_reason_def list_ex_iff)
  show ?thesis
    using fold n0 un due_hours_cover by (auto simp: c)
qed

definition sample_receipt :: "time \<Rightarrow> funding_status \<Rightarrow> funding_receipt" where
  "sample_receipt h st = \<lparr>fr_model_version = None, fr_rate18 = None, fr_period_hour = h, fr_cutoff = Some h,
     fr_status = st, fr_reason = ''final'', fr_basis = None, fr_oracle_usd = None, fr_positions = [],
     fr_evidence_id = ''ev''\<rparr>"

theorem fundingCoverage_usable_witness:
  "fc_usable_for_risk (fundingCoverage sample_ledger [sample_receipt 0 Settled] 5000)"
proof -
  have due: "due_hours sample_ledger 5000 = 1" "hour_at sample_ledger 0 = 0" by code_simp+
  then show ?thesis
    using fundingCoverage_usable [of "[sample_receipt 0 Settled]" sample_ledger 5000]
    by (simp add: sample_receipt_def)
qed

end
