(* ===== verification/Metrics.thy ===== *)
theory Metrics
  imports Financial
begin

text \<open>
  Reporting arithmetic of \<open>apps/api/src/trading/metrics.ts\<close>: drawdown, allocated costs and the
  constant-quantity reference. Amounts are integers whose canonical string has at most 78 digits;
  \<open>money\<close> refuses longer ones. Ratios are signed parts per million, rounded down.
\<close>

datatype metric_error = AMOUNT | UTC | DENOMINATOR | COST_SCOPE | COST_LIMIT | BILL_ID_OR_KIND
  | COST_SHARE | COST_CONSERVATION | REFERENCE_SCOPE | REFERENCE_FEES | SPOT_CASH_NO_FUNDING
  | REFERENCE_PRICE_TIME

definition money :: "int \<Rightarrow> metric_error + int" where
  "money value = require (\<bar>value\<bar> < 10 ^ 78) AMOUNT (Inr value)"

definition utc :: "time \<Rightarrow> metric_error + time" where
  "utc n = require (\<bar>n\<bar> \<le> 9007199254740991 \<and> n \<ge> 0) UTC (Inr n)"

definition floor_div :: "int \<Rightarrow> int \<Rightarrow> metric_error + int" where
  "floor_div n d = require (d > 0) DENOMINATOR (Inr (n sdiv d - (if n < 0 \<and> n smod d \<noteq> 0 then 1 else 0)))"

definition ratio :: "int \<Rightarrow> int \<Rightarrow> metric_error + int option" where
  "ratio n d = (if d > 0 then bind_res (floor_div (n * 1000000) d) (\<lambda>r. Inr (Some r)) else Inr None)"

lemma floor_div_Inr [simp]: "floor_div n d = Inr r \<longleftrightarrow> 0 < d \<and> r = n div d"
  using trunc_floor [of d n] by (auto simp: floor_div_def)

lemma floor_div_pos: "0 < d \<Longrightarrow> floor_div n d = Inr (n div d)"
  by simp

section \<open>Drawdown\<close>

datatype drawdown_status = Missing_Equity_History | Available | Nonpositive_Peak

record drawdown_result =
  dr_max_usd :: "int option"
  dr_max_ppm :: "int option"
  dr_status :: drawdown_status

record drawdown_state =
  ds_peak :: int
  ds_max :: int
  ds_ppm :: int
  ds_positive :: bool

definition drawdown_step :: "drawdown_state \<Rightarrow> int \<Rightarrow> metric_error + drawdown_state" where
  "drawdown_step s value =
     bind_res (money value) (\<lambda>equity.
     let peak = (if equity > ds_peak s then equity else ds_peak s);
         loss = peak - equity;
         mx = (if loss > ds_max s then loss else ds_max s)
     in if peak > 0
        then bind_res (floor_div (loss * 1000000) peak) (\<lambda>p.
          Inr \<lparr>ds_peak = peak, ds_max = mx, ds_ppm = (if p > ds_ppm s then p else ds_ppm s), ds_positive = True\<rparr>)
        else Inr (s\<lparr>ds_peak := peak, ds_max := mx\<rparr>))"

definition drawdown :: "int option list \<Rightarrow> metric_error + drawdown_result" where
  "drawdown equities =
     (if length equities = 0 \<or> list_ex (\<lambda>x. x = None) equities
      then Inr \<lparr>dr_max_usd = None, dr_max_ppm = None, dr_status = Missing_Equity_History\<rparr>
      else
        let values = map the equities in
        bind_res (money (values ! 0)) (\<lambda>first.
        bind_res (fold_res drawdown_step \<lparr>ds_peak = first, ds_max = 0, ds_ppm = 0, ds_positive = (first > 0)\<rparr> values) (\<lambda>s.
        Inr \<lparr>dr_max_usd = Some (ds_max s), dr_max_ppm = (if ds_positive s then Some (ds_ppm s) else None),
          dr_status = (if ds_positive s then Available else Nonpositive_Peak)\<rparr>)))"

text \<open>The largest fall from an earlier value to a later one, and each value with the peak so far.\<close>

definition largest_fall :: "int list \<Rightarrow> int \<Rightarrow> bool" where
  "largest_fall es m \<longleftrightarrow> (\<forall>j < length es. \<forall>i \<le> j. es ! i - es ! j \<le> m)
     \<and> (\<exists>j < length es. \<exists>i \<le> j. es ! i - es ! j = m)"

fun with_peak :: "int \<Rightarrow> int list \<Rightarrow> (int \<times> int) list" where
  "with_peak p [] = []"
| "with_peak p (e # es) = (max p e, e) # with_peak (max p e) es"

definition peak_at :: "int list \<Rightarrow> nat \<Rightarrow> int" where
  "peak_at es j = Max (set (take (Suc j) es))"

lemma with_peak_nth: "j < length es \<Longrightarrow> with_peak p es ! j = (fold max (take (Suc j) es) p, es ! j)"
  by (induction es arbitrary: p j) (auto simp: nth_Cons max.commute split: nat.splits)

lemma length_with_peak [simp]: "length (with_peak p es) = length es"
  by (induction es arbitrary: p) simp_all

lemma fold_max_bound: "x \<in> set xs \<Longrightarrow> x \<le> fold max xs (a :: int)" "a \<le> fold max xs a"
  using Max.set_eq_fold [of a xs] Max_ge [of "set (a # xs)"] by (metis finite_set list.set_intros)+

lemma fold_max_mem: "fold max xs (a :: int) = a \<or> fold max xs a \<in> set xs"
  using Max.set_eq_fold [of a xs] Max_in [of "set (a # xs)"] by (metis finite_set list.distinct(1) set_ConsD set_empty)

lemma peak_at_fold: "j < length es \<Longrightarrow> fold max (take (Suc j) es) (hd es) = peak_at es j"
proof -
  assume "j < length es"
  then have "hd es \<in> set (take (Suc j) es)" by (cases es) auto
  then show ?thesis using Max.set_eq_fold [of "hd es" "take (Suc j) es"] by (simp add: peak_at_def insert_absorb)
qed

lemma drawdown_fold:
  assumes "fold_res drawdown_step s es = Inr s'" and "ds_positive s \<longleftrightarrow> 0 < ds_peak s"
  shows "ds_peak s' = fold max es (ds_peak s)
    \<and> ds_max s' = fold max (map (\<lambda>(p, e). p - e) (with_peak (ds_peak s) es)) (ds_max s)
    \<and> ds_ppm s' = fold max (map (\<lambda>(p, e). (p - e) * 1000000 div p)
      (filter (\<lambda>(p, e). 0 < p) (with_peak (ds_peak s) es))) (ds_ppm s)
    \<and> (ds_positive s' \<longleftrightarrow> 0 < ds_peak s')"
  using assms
proof (induction es arbitrary: s)
  case Nil
  then show ?case by simp
next
  case (Cons e es)
  let ?P = "max (ds_peak s) e"
  define t where "t = \<lparr>ds_peak = ?P, ds_max = max (?P - e) (ds_max s),
    ds_ppm = (if 0 < ?P then max ((?P - e) * 1000000 div ?P) (ds_ppm s) else ds_ppm s), ds_positive = (0 < ?P)\<rparr>"
  have u: "u = t" if "drawdown_step s e = Inr u" for u
    using that Cons.prems(2)
    by (auto simp: drawdown_step_def Let_def t_def money_def max_def floor_div_pos split: if_splits)
  from Cons.prems(1) obtain x where "drawdown_step s e = Inr x" "fold_res drawdown_step x es = Inr s'" by auto
  with u have step: "fold_res drawdown_step t es = Inr s'" by simp
  have t: "ds_peak t = ?P" "ds_max t = max (?P - e) (ds_max s)" "ds_positive t \<longleftrightarrow> 0 < ds_peak t"
    "ds_ppm t = (if 0 < ?P then max ((?P - e) * 1000000 div ?P) (ds_ppm s) else ds_ppm s)"
    by (simp_all add: t_def)
  have c: "max e (ds_peak s) = ?P" by (rule max.commute)
  show ?case
    using Cons.IH [OF step t(3)]
    by (cases "0 < ?P") (simp_all only: t with_peak.simps list.map filter.simps fold.simps comp_def prod.case c if_True if_False simp_thms)
qed

text \<open>the reported drawdown is the largest fall from any earlier equity to any later one, never
  clamped; the percentage is the largest fall from a positive running peak in parts per million,
  and exists exactly when some equity was positive.\<close>

theorem drawdown_largest_fall:
  assumes "es \<noteq> []" and "drawdown (map Some es) = Inr r"
  shows "\<exists>m. dr_max_usd r = Some m \<and> largest_fall es m
    \<and> (dr_status r = Available \<longleftrightarrow> (\<exists>e \<in> set es. 0 < e))
    \<and> (\<forall>q j. dr_max_ppm r = Some q \<and> j < length es \<and> 0 < peak_at es j \<longrightarrow>
         (peak_at es j - es ! j) * 1000000 div peak_at es j \<le> q)
    \<and> (dr_max_ppm r = None \<longleftrightarrow> dr_status r = Nonpositive_Peak)"
proof -
  let ?s = "\<lparr>ds_peak = es ! 0, ds_max = 0, ds_ppm = 0, ds_positive = (es ! 0 > 0)\<rparr>"
  have hd: "es ! 0 = hd es" using assms(1) by (simp add: hd_conv_nth)
  obtain s where s: "fold_res drawdown_step ?s es = Inr s"
    and r: "r = \<lparr>dr_max_usd = Some (ds_max s), dr_max_ppm = (if ds_positive s then Some (ds_ppm s) else None),
      dr_status = (if ds_positive s then Available else Nonpositive_Peak)\<rparr>"
    using assms by (auto simp: drawdown_def Let_def list_ex_iff comp_def money_def)
  have f: "ds_peak s = fold max es (es ! 0)" "ds_max s = fold max (map (\<lambda>(p, e). p - e) (with_peak (es ! 0) es)) 0"
    "ds_ppm s = fold max (map (\<lambda>(p, e). (p - e) * 1000000 div p) (filter (\<lambda>(p, e). 0 < p) (with_peak (es ! 0) es))) 0"
    "ds_positive s \<longleftrightarrow> 0 < ds_peak s"
    using drawdown_fold [OF s] by simp_all
  have nth: "with_peak (es ! 0) es ! j = (peak_at es j, es ! j)" if "j < length es" for j
    using with_peak_nth [OF that, of "es ! 0"] peak_at_fold [OF that] by (simp add: hd)
  have mem: "(p, e) \<in> set (with_peak (es ! 0) es) \<longleftrightarrow> (\<exists>j < length es. p = peak_at es j \<and> e = es ! j)" for p e
    using nth by (auto simp: in_set_conv_nth)
  have bound: "peak_at es j - es ! j \<le> ds_max s" if "j < length es" for j
    using fold_max_bound(1) [of "peak_at es j - es ! j"] mem that unfolding f(2) by force
  have pre: "es ! i \<le> peak_at es j" if "i \<le> j" "j < length es" for i j
  proof -
    have "es ! i = take (Suc j) es ! i" "i < length (take (Suc j) es)" using that by simp_all
    then have "es ! i \<in> set (take (Suc j) es)" by (metis nth_mem)
    then show ?thesis by (simp add: peak_at_def)
  qed
  have in_pre: "\<exists>i \<le> j. es ! i = peak_at es j" if "j < length es" for j
  proof -
    have "peak_at es j \<in> set (take (Suc j) es)" using that by (auto simp: peak_at_def intro!: Max_in)
    then show ?thesis by (auto simp: in_set_conv_nth less_Suc_eq_le)
  qed
  have "largest_fall es (ds_max s)"
    unfolding largest_fall_def
  proof (intro conjI allI impI)
    show "es ! i - es ! j \<le> ds_max s" if "j < length es" "i \<le> j" for i j
      using bound [OF that(1)] pre [OF that(2,1)] by linarith
    consider "ds_max s = 0" | j where "j < length es" "ds_max s = peak_at es j - es ! j"
      using fold_max_mem [of "map (\<lambda>(p, e). p - e) (with_peak (es ! 0) es)" 0] mem unfolding f(2) by auto
    then show "\<exists>j < length es. \<exists>i \<le> j. es ! i - es ! j = ds_max s"
    proof cases
      case 1
      then show ?thesis using assms(1) by (intro exI [of _ 0]) auto
    next
      case 2
      then show ?thesis using in_pre [OF 2(1)] by (intro exI [of _ j]) auto
    qed
  qed
  moreover have "ds_positive s \<longleftrightarrow> (\<exists>e \<in> set es. 0 < e)"
  proof -
    have "ds_peak s = fold max es (hd es)" using f(1) by (simp add: hd)
    also have "\<dots> = Max (set es)" using Max.set_eq_fold [of "hd es" es] assms(1) by (simp add: insert_absorb)
    finally show ?thesis using f(4) assms(1) by (simp add: Max_gr_iff)
  qed
  moreover have "(peak_at es j - es ! j) * 1000000 div peak_at es j \<le> ds_ppm s"
    if "j < length es" "0 < peak_at es j" for j
    using fold_max_bound(1) [of "(peak_at es j - es ! j) * 1000000 div peak_at es j"] mem that unfolding f(3) by force
  ultimately show ?thesis by (auto simp: r)
qed

theorem drawdown_largest_fall_witness:
  "largest_fall [100, 80, 120, 90] 30"
proof -
  have "drawdown (map Some [100, 80, 120, 90]) = Inr \<lparr>dr_max_usd = Some 30, dr_max_ppm = Some 250000, dr_status = Available\<rparr>"
    by code_simp
  from drawdown_largest_fall [OF _ this] show ?thesis by simp
qed

section \<open>Allocated costs\<close>

datatype bill_kind = Ai | Infrastructure | Other_Kind string

record cost_share =
  sh_account_id :: ident
  sh_usd :: int

record cost_bill =
  bi_id :: ident
  bi_kind :: bill_kind
  bi_total_usd :: int
  bi_shares :: "cost_share list"

record cost_allocation =
  co_schema_version :: string
  co_window_start :: string
  co_window_end :: string
  co_complete :: bool
  co_basis :: string
  co_bills :: "cost_bill list"

record allocated_costs =
  ac_ai_usd :: "int option"
  ac_infrastructure_usd :: "int option"
  ac_total_usd :: "int option"
  ac_basis :: "string option"

text \<open>The share loop: owners seen, sum of the bill, and what the account owes.\<close>

definition share_step ::
  "ident \<Rightarrow> ident set \<times> int \<times> int \<Rightarrow> cost_share \<Rightarrow> metric_error + ident set \<times> int \<times> int" where
  "share_step account st share = (case st of (owners, sm, mine) \<Rightarrow>
     bind_res (money (sh_usd share)) (\<lambda>amt.
     require (length (sh_account_id share) > 0 \<and> sh_account_id share \<notin> owners \<and> amt \<ge> 0) COST_SHARE
       (Inr (insert (sh_account_id share) owners, sm + amt,
          if sh_account_id share = account then mine + amt else mine))))"

definition bill_step ::
  "ident \<Rightarrow> ident set \<times> int \<times> int \<Rightarrow> cost_bill \<Rightarrow> metric_error + ident set \<times> int \<times> int" where
  "bill_step account st b = (case st of (ids, ai, infra) \<Rightarrow>
     require (length (bi_id b) > 0 \<and> bi_id b \<notin> ids \<and> (bi_kind b = Ai \<or> bi_kind b = Infrastructure)
         \<and> length (bi_shares b) > 0 \<and> length (bi_shares b) \<le> 256) BILL_ID_OR_KIND
     (bind_res (money (bi_total_usd b)) (\<lambda>total.
      bind_res (fold_res (share_step account) ({}, 0, 0) (bi_shares b)) (\<lambda>(owners, sm, mine).
      require (total \<ge> 0 \<and> sm = total) COST_CONSERVATION
        (Inr (insert (bi_id b) ids, if bi_kind b = Ai then ai + mine else ai,
              if bi_kind b = Ai then infra else infra + mine))))))"

definition allocatedCosts :: "cost_allocation option \<Rightarrow> ident \<Rightarrow> string \<Rightarrow> string \<Rightarrow> metric_error + allocated_costs" where
  "allocatedCosts inp account start finish = (case inp of
     None \<Rightarrow> Inr \<lparr>ac_ai_usd = None, ac_infrastructure_usd = None, ac_total_usd = None, ac_basis = None\<rparr>
   | Some c \<Rightarrow>
       require (co_schema_version c = ''btc.cost-allocation.v1'' \<and> co_complete c
           \<and> length (co_basis c) > 0 \<and> length (co_basis c) \<le> 512
           \<and> co_window_start c = start \<and> co_window_end c = finish) COST_SCOPE
       (require (length (co_bills c) \<le> 4096) COST_LIMIT
        (bind_res (fold_res (bill_step account) ({}, 0, 0) (co_bills c)) (\<lambda>(ids, ai, infra).
          Inr \<lparr>ac_ai_usd = Some ai, ac_infrastructure_usd = Some infra, ac_total_usd = Some (ai + infra),
            ac_basis = Some (co_basis c)\<rparr>))))"

definition owed :: "ident \<Rightarrow> cost_bill list \<Rightarrow> int" where
  "owed account bills = sum_list (map (\<lambda>b. sum_list (map (\<lambda>s. if sh_account_id s = account then sh_usd s else 0) (bi_shares b))) bills)"

definition share_inv :: "ident \<Rightarrow> cost_share list \<Rightarrow> ident set \<times> int \<times> int \<Rightarrow> bool" where
  "share_inv account h st \<longleftrightarrow> (case st of (owners, sm, mine) \<Rightarrow> owners = sh_account_id ` set h
     \<and> sm = sum_list (map sh_usd h) \<and> list_all (\<lambda>s. 0 \<le> sh_usd s) h
     \<and> mine = sum_list (map (\<lambda>s. if sh_account_id s = account then sh_usd s else 0) h))"

interpretation shares: history_reducer "share_step account" "({}, 0, 0)" "share_inv account" for account
  by unfold_locales (auto simp: share_inv_def share_step_def money_def)

definition bill_inv :: "ident \<Rightarrow> cost_bill list \<Rightarrow> ident set \<times> int \<times> int \<Rightarrow> bool" where
  "bill_inv account h st \<longleftrightarrow> (case st of (ids, ai, infra) \<Rightarrow> ids = bi_id ` set h \<and> distinct (map bi_id h)
     \<and> ai + infra = owed account h
     \<and> list_all (\<lambda>b. bi_total_usd b = sum_list (map sh_usd (bi_shares b)) \<and> list_all (\<lambda>s. 0 \<le> sh_usd s) (bi_shares b)) h)"

interpretation bills: history_reducer "bill_step account" "({}, 0, 0)" "bill_inv account" for account
proof (unfold_locales)
  show "bill_inv account [] ({}, 0, 0)" by (simp add: bill_inv_def owed_def)
next
  fix h s b s'
  assume inv: "bill_inv account h s" and st: "bill_step account s b = Inr s'"
  obtain ids ai infra where s: "s = (ids, ai, infra)" by (cases s)
  from st obtain owners mine where sh: "fold_res (share_step account) ({}, 0, 0) (bi_shares b) = Inr (owners, bi_total_usd b, mine)"
    and ids: "bi_id b \<notin> ids"
    and s': "s' = (insert (bi_id b) ids, if bi_kind b = Ai then ai + mine else ai, if bi_kind b = Ai then infra else infra + mine)"
    by (auto simp: bill_step_def s money_def)
  from shares.run_inv [OF sh] have "bi_total_usd b = sum_list (map sh_usd (bi_shares b))"
    "mine = sum_list (map (\<lambda>s. if sh_account_id s = account then sh_usd s else 0) (bi_shares b))"
    "list_all (\<lambda>s. 0 \<le> sh_usd s) (bi_shares b)"
    by (simp_all add: share_inv_def)
  then show "bill_inv account (h @ [b]) s'"
    using inv ids by (auto simp: bill_inv_def s s' owed_def)
qed

lemma owed_partition:
  assumes "finite A" and "\<forall>b \<in> set bills. \<forall>s \<in> set (bi_shares b). sh_account_id s \<in> A"
  shows "(\<Sum>a \<in> A. owed a bills) = sum_list (map (\<lambda>b. sum_list (map sh_usd (bi_shares b))) bills)"
proof -
  have shares: "(\<Sum>a \<in> A. sum_list (map (\<lambda>s. if sh_account_id s = a then sh_usd s else 0) ss)) = sum_list (map sh_usd ss)"
    if "\<forall>s \<in> set ss. sh_account_id s \<in> A" for ss
    using that assms(1) by (induction ss) (simp_all add: sum.distrib sum.delta)
  show ?thesis
    using assms(2) by (induction bills) (simp_all add: owed_def sum.distrib shares)
qed

text \<open>cost allocation conserves money. When an allocation is accepted for one account it charges
  that account exactly its shares; bill ids are not repeated; every bill's shares are
  nonnegative; and over any set of accounts that contains all owners, what is charged adds up to
  the bills' totals.\<close>

theorem allocatedCosts_conserve:
  assumes "allocatedCosts (Some c) account start finish = Inr r"
    and "finite A" and "\<forall>b \<in> set (co_bills c). \<forall>s \<in> set (bi_shares b). sh_account_id s \<in> A"
  shows "ac_total_usd r = Some (owed account (co_bills c))
    \<and> distinct (map bi_id (co_bills c))
    \<and> (\<forall>b \<in> set (co_bills c). \<forall>s \<in> set (bi_shares b). 0 \<le> sh_usd s)
    \<and> (\<Sum>a \<in> A. owed a (co_bills c)) = sum_list (map bi_total_usd (co_bills c))"
proof -
  from assms(1) obtain ids ai infra where f: "fold_res (bill_step account) ({}, 0, 0) (co_bills c) = Inr (ids, ai, infra)"
    and r: "ac_total_usd r = Some (ai + infra)"
    by (auto simp: allocatedCosts_def)
  have inv: "bill_inv account (co_bills c) (ids, ai, infra)" by (rule bills.run_inv [OF f])
  then have eq: "map (\<lambda>b. sum_list (map sh_usd (bi_shares b))) (co_bills c) = map bi_total_usd (co_bills c)"
    by (auto simp: bill_inv_def list_all_iff)
  have "(\<Sum>a \<in> A. owed a (co_bills c)) = sum_list (map bi_total_usd (co_bills c))"
    using owed_partition [OF assms(2,3)] by (simp only: eq)
  then show ?thesis using inv r by (simp add: bill_inv_def list_all_iff)
qed

definition sample_allocation :: cost_allocation where
  "sample_allocation = \<lparr>co_schema_version = ''btc.cost-allocation.v1'', co_window_start = ''a'', co_window_end = ''b'',
     co_complete = True, co_basis = ''manual'', co_bills =
       [\<lparr>bi_id = ''x'', bi_kind = Ai, bi_total_usd = 10, bi_shares =
          [\<lparr>sh_account_id = ''p'', sh_usd = 7\<rparr>, \<lparr>sh_account_id = ''q'', sh_usd = 3\<rparr>]\<rparr>]\<rparr>"

theorem allocatedCosts_conserve_witness:
  "(\<Sum>a \<in> {''p'', ''q''}. owed a (co_bills sample_allocation)) = (10 :: int)"
proof -
  have "allocatedCosts (Some sample_allocation) ''p'' ''a'' ''b'' =
      Inr \<lparr>ac_ai_usd = Some 7, ac_infrastructure_usd = Some 0, ac_total_usd = Some 7, ac_basis = Some ''manual''\<rparr>"
    by (simp add: allocatedCosts_def sample_allocation_def bill_step_def share_step_def money_def)
  from allocatedCosts_conserve [OF this, of "{''p'', ''q''}"] show ?thesis by (simp add: sample_allocation_def)
qed

section \<open>The reference\<close>

datatype reference_kind = Cash_Reference | Spot_Reference | Perpetual_Reference

record reference_price =
  rp_at :: time
  rp_usd :: int
  rp_evidence_id :: ident

record reference_input =
  rf_kind :: reference_kind
  rf_exposure_bps :: int
  rf_capital_usd :: int
  rf_start :: time
  rf_end :: time
  rf_prices :: "(reference_price \<times> reference_price) option"
  rf_fees_usd :: "int option"
  rf_funding_usd :: "int option"

record normalized_reference =
  nr_input :: reference_input
  nr_quantity_btc :: "int option"
  nr_gross_pnl_usd :: "int option"
  nr_net_pnl_usd :: "int option"
  nr_net_return_ppm :: "int option"

definition opt_money :: "int option \<Rightarrow> metric_error + int option" where
  "opt_money v = (case v of None \<Rightarrow> Inr None | Some n \<Rightarrow> bind_res (money n) (\<lambda>m. Inr (Some m)))"

definition reference_position ::
  "reference_input \<Rightarrow> int \<Rightarrow> metric_error + (int option \<times> int option)" where
  "reference_position inp capital =
     (if rf_kind inp = Cash_Reference then Inr (Some 0, Some 0)
      else case rf_prices inp of
        None \<Rightarrow> Inr (None, None)
      | Some (ps, pe) \<Rightarrow>
          bind_res (money (rp_usd ps)) (\<lambda>open_price.
          bind_res (money (rp_usd pe)) (\<lambda>close_price.
          require (rp_at ps = rf_start inp \<and> rp_at pe = rf_end inp \<and> open_price > 0 \<and> close_price > 0
              \<and> rp_evidence_id ps \<noteq> '''' \<and> rp_evidence_id pe \<noteq> '''') REFERENCE_PRICE_TIME
          (bind_res (floor_div (capital * rf_exposure_bps inp * 100000000) (10000 * open_price)) (\<lambda>quantity.
           bind_res (floor_div (quantity * (close_price - open_price)) 100000000) (\<lambda>gross.
           Inr (Some quantity, Some gross)))))))"

definition normalizedReference :: "reference_input \<Rightarrow> metric_error + normalized_reference" where
  "normalizedReference inp =
     bind_res (utc (rf_start inp)) (\<lambda>start.
     bind_res (utc (rf_end inp)) (\<lambda>finish.
     bind_res (money (rf_capital_usd inp)) (\<lambda>capital.
     require (finish > start \<and> capital > 0
         \<and> (if rf_kind inp = Cash_Reference then rf_exposure_bps inp = 0
            else rf_exposure_bps inp \<in> set [2500, 10000])) REFERENCE_SCOPE
     (bind_res (opt_money (rf_fees_usd inp)) (\<lambda>fees.
      bind_res (opt_money (rf_funding_usd inp)) (\<lambda>funding.
      require (case fees of None \<Rightarrow> True | Some f \<Rightarrow> f \<le> 0) REFERENCE_FEES
      (require (rf_kind inp = Perpetual_Reference \<or> funding = Some 0) SPOT_CASH_NO_FUNDING
       (bind_res (reference_position inp capital) (\<lambda>(quantity, gross).
        let net = (case (gross, fees, funding) of (Some g, Some f, Some u) \<Rightarrow> Some (g + f + u) | _ \<Rightarrow> None) in
        bind_res (case net of None \<Rightarrow> Inr None | Some n \<Rightarrow> ratio n capital) (\<lambda>ppm.
        Inr \<lparr>nr_input = inp, nr_quantity_btc = quantity, nr_gross_pnl_usd = gross, nr_net_pnl_usd = net,
          nr_net_return_ppm = ppm\<rparr>))))))))))"

text \<open>the reference buys what the capital share can pay and no more. The quantity is the largest
  one whose cost at the opening price is within the exposure, the gross PnL is its price change
  rounded down, and the net adds nonpositive fees and, for perpetuals only, funding.\<close>

theorem normalizedReference_sound:
  assumes "normalizedReference inp = Inr r" and "rf_kind inp \<noteq> Cash_Reference" and "rf_prices inp = Some (ps, pe)"
  shows "\<exists>q g. nr_quantity_btc r = Some q \<and> nr_gross_pnl_usd r = Some g \<and> 0 \<le> q
    \<and> 10000 * (q * rp_usd ps) \<le> rf_capital_usd inp * rf_exposure_bps inp * 100000000
    \<and> rf_capital_usd inp * rf_exposure_bps inp * 100000000 < 10000 * ((q + 1) * rp_usd ps)
    \<and> g = q * (rp_usd pe - rp_usd ps) div 100000000
    \<and> (\<forall>n. nr_net_pnl_usd r = Some n \<longrightarrow> (\<exists>f u. rf_fees_usd inp = Some f \<and> f \<le> 0 \<and> rf_funding_usd inp = Some u
        \<and> (rf_kind inp = Spot_Reference \<longrightarrow> u = 0) \<and> n = g + f + u))"
proof -
  obtain fees funding quantity gross where
    cap: "0 < rf_capital_usd inp" "rf_exposure_bps inp \<in> {2500, 10000}"
    and fees: "opt_money (rf_fees_usd inp) = Inr fees" "case fees of None \<Rightarrow> True | Some f \<Rightarrow> f \<le> 0"
    and funding: "opt_money (rf_funding_usd inp) = Inr funding" "rf_kind inp = Perpetual_Reference \<or> funding = Some 0"
    and pos: "reference_position inp (rf_capital_usd inp) = Inr (quantity, gross)"
    and r: "nr_quantity_btc r = quantity" "nr_gross_pnl_usd r = gross"
      "nr_net_pnl_usd r = (case (gross, fees, funding) of (Some g, Some f, Some u) \<Rightarrow> Some (g + f + u) | _ \<Rightarrow> None)"
    using assms(1,2) by (auto simp: normalizedReference_def utc_def money_def Let_def)
  have opt: "opt_money v = Inr w \<Longrightarrow> w = v" for v w
    by (cases v) (auto simp: opt_money_def money_def)
  let ?open = "rp_usd ps"
  have op: "0 < ?open" and q: "quantity = Some (rf_capital_usd inp * rf_exposure_bps inp * 100000000 div (10000 * ?open))"
    and g: "gross = Some ((rf_capital_usd inp * rf_exposure_bps inp * 100000000 div (10000 * ?open)) * (rp_usd pe - ?open) div 100000000)"
    using pos assms(2,3) by (auto simp: reference_position_def money_def)
  let ?q = "rf_capital_usd inp * rf_exposure_bps inp * 100000000 div (10000 * ?open)"
  have d: "0 < 10000 * ?open" using op by simp
  note b = div_bounds [OF d, of "rf_capital_usd inp * rf_exposure_bps inp * 100000000"]
  have "0 \<le> ?q" using cap op by (auto simp: pos_imp_zdiv_nonneg_iff)
  moreover have "rf_kind inp = Spot_Reference \<Longrightarrow> rf_funding_usd inp = Some 0"
    using funding opt [OF funding(1)] by simp
  ultimately show ?thesis
    using b opt [OF fees(1)] opt [OF funding(1)] fees(2)
    by (intro exI [of _ ?q] exI conjI) (auto simp: r q g algebra_simps split: option.splits)
qed

definition sample_reference :: reference_input where
  "sample_reference = \<lparr>rf_kind = Perpetual_Reference, rf_exposure_bps = 2500, rf_capital_usd = 1000000000,
     rf_start = 1000, rf_end = 2000,
     rf_prices = Some (\<lparr>rp_at = 1000, rp_usd = 60000000000, rp_evidence_id = ''s''\<rparr>,
       \<lparr>rp_at = 2000, rp_usd = 61000000000, rp_evidence_id = ''e''\<rparr>),
     rf_fees_usd = Some (- 1000), rf_funding_usd = Some 50\<rparr>"

theorem normalizedReference_sound_witness:
  "10000 * (416666 * 60000000000) \<le> 1000000000 * 2500 * (100000000 :: int)"
proof -
  have "normalizedReference sample_reference = Inr \<lparr>nr_input = sample_reference, nr_quantity_btc = Some 416666,
      nr_gross_pnl_usd = Some 4166660, nr_net_pnl_usd = Some 4165710, nr_net_return_ppm = Some 4165\<rparr>"
    by (simp add: normalizedReference_def sample_reference_def utc_def money_def opt_money_def
        reference_position_def floor_div_pos ratio_def)
  from normalizedReference_sound [OF this] show ?thesis by (simp add: sample_reference_def)
qed

end
