(* ===== verification/Amounts.thy ===== *)
theory Amounts
  imports Decimals
begin

text \<open>
  The JSON boundary of amounts: \<open>packages/contracts/src/money-amount.ts\<close>,
  \<open>packages/contracts/src/trading/amount.ts\<close>, the unit table of \<open>types.ts\<close> and the venue order
  constraints of \<open>trading/instrument-metadata.ts\<close>.

  A \<open>json\<close> value is what \<open>unknown\<close> can be after \<open>JSON.parse\<close>, plus the numbers a caller can
  build (fractions, NaN and infinities, which the code tells from integers only). Each
  \<open>TypeError\<close> of the source is a constructor of \<open>amount_error\<close>.

  The last section is what the other theories rest on: a canonical integer string and the
  integer it denotes determine each other, so from here on a \<open>raw\<close> field is an \<open>int\<close>.
\<close>

datatype js_number = Integral int | Fractional | Not_Finite

datatype json = JNull | JBool bool | JNumber js_number | JString string
  | JArray "json list" | JObject "(string \<times> json) list"

datatype amount_error = Not_Object | Unexpected_Keys | Bad_Raw | Bad_Decimals | Bad_Asset
  | Invalid_Amount | Unit_Mismatch | Probability_Range | Inexact_Quantum
  | Not_Positive | Invalid_Price_Rules | Decimal_Precision | Significant_Digits | Below_Minimum

section \<open>Canonical integers\<close>

text \<open>\<open>/^(?:0|-?[1-9][0-9]*)$/\<close>\<close>

fun positive_canonical :: "string \<Rightarrow> bool" where
  "positive_canonical [] = False"
| "positive_canonical (c # s) = (is_digit c \<and> c \<noteq> CHR ''0'' \<and> list_all is_digit s)"

definition canonical_integer :: "string \<Rightarrow> bool" where
  "canonical_integer s =
     (s = ''0'' \<or> positive_canonical (case s of c # t \<Rightarrow> (if c = CHR ''-'' then t else s) | [] \<Rightarrow> []))"

lemma positive_canonical_iff: "positive_canonical s \<longleftrightarrow> (\<exists>n>0. s = show_nat n)"
proof
  assume "positive_canonical s"
  then have "s \<noteq> []" "list_all is_digit s" "hd s \<noteq> CHR ''0''" by (cases s; simp)+
  then show "\<exists>n>0. s = show_nat n" using show_read_nat by metis
next
  assume "\<exists>n>0. s = show_nat n"
  then obtain n where n: "0 < n" "s = show_nat n" by blast
  then have "s \<noteq> []" "list_all is_digit s" "hd s \<noteq> CHR ''0''"
    by (simp_all add: show_nat_digits show_nat_hd)
  then show "positive_canonical s" by (cases s) simp_all
qed

lemma show_nat_0: "show_nat 0 = ''0''"
  by (subst show_nat.simps) (simp add: digit_char_0)

lemma canonical_show_int: "canonical_integer (show_int n)"
proof (cases "n = 0")
  case True
  then show ?thesis by (simp add: show_int_def show_nat_0 canonical_integer_def)
next
  case False
  then have "positive_canonical (show_nat (nat \<bar>n\<bar>))" by (auto simp: positive_canonical_iff)
  with False show ?thesis
    using show_nat_not_minus [of "nat n"]
    by (auto simp: canonical_integer_def show_int_def split: list.splits)
qed

lemma canonical_show_read: "canonical_integer s \<Longrightarrow> show_int (read_int s) = s"
proof -
  assume s: "canonical_integer s"
  consider "s = ''0''" | n where "0 < n" "s = show_nat n" | n where "0 < n" "s = CHR ''-'' # show_nat n"
    using s by (auto simp: canonical_integer_def positive_canonical_iff split: list.splits if_splits)
  then show ?thesis
  proof cases
    case 1
    then show ?thesis using read_show_int [of 0] by (simp add: show_int_def show_nat_0)
  next
    case 2
    then have "s = show_int (int n)" by (simp add: show_int_def)
    then show ?thesis by simp
  next
    case 3
    then have "s = show_int (- int n)" by (simp add: show_int_def)
    then show ?thesis by simp
  qed
qed

section \<open>Money amounts\<close>

record money_amount =
  ma_raw :: int
  ma_decimals :: int
  ma_asset_id :: string

definition money_amount_keys :: "string list" where
  "money_amount_keys = [''raw'', ''decimals'', ''asset_id'']"

definition assertExactKeys :: "(string \<times> json) list \<Rightarrow> bool" where
  "assertExactKeys value =
     (length (map fst value) = length money_amount_keys
      \<and> \<not> list_ex (\<lambda>key. key \<notin> set money_amount_keys) (map fst value))"

definition assertDecimals :: "json option \<Rightarrow> amount_error + int" where
  "assertDecimals value = (case value of
     Some (JNumber (Integral d)) \<Rightarrow> require (\<not> (d < 0 \<or> d > 255)) Bad_Decimals (Inr d)
   | _ \<Rightarrow> Inl Bad_Decimals)"

definition assertAssetId :: "json option \<Rightarrow> amount_error + string" where
  "assertAssetId value = (case value of
     Some (JString a) \<Rightarrow> require (length a \<noteq> 0) Bad_Asset (Inr a)
   | _ \<Rightarrow> Inl Bad_Asset)"

definition parseMoneyAmount :: "json \<Rightarrow> amount_error + money_amount" where
  "parseMoneyAmount value = (case value of
     JObject kvs \<Rightarrow>
       require (assertExactKeys kvs) Unexpected_Keys
         (case map_of kvs ''raw'' of
            Some (JString r) \<Rightarrow>
              require (canonical_integer r) Bad_Raw
                (bind_res (assertDecimals (map_of kvs ''decimals'')) (\<lambda>d.
                 bind_res (assertAssetId (map_of kvs ''asset_id'')) (\<lambda>a.
                   Inr \<lparr>ma_raw = read_int r, ma_decimals = d, ma_asset_id = a\<rparr>)))
          | _ \<Rightarrow> Inl Bad_Raw)
   | _ \<Rightarrow> Inl Not_Object)"

definition serializeMoneyAmount :: "money_amount \<Rightarrow> amount_error + json" where
  "serializeMoneyAmount value =
     bind_res (assertDecimals (Some (JNumber (Integral (ma_decimals value))))) (\<lambda>d.
     bind_res (assertAssetId (Some (JString (ma_asset_id value)))) (\<lambda>a.
       Inr (JObject [(''raw'', JString (show_int (ma_raw value))),
                     (''decimals'', JNumber (Integral d)), (''asset_id'', JString a)])))"

text \<open>serializing an amount and parsing the JSON back gives the same amount, whatever the
  size and sign of its raw integer.\<close>

theorem parse_serialize_money:
  "serializeMoneyAmount m = Inr j \<Longrightarrow> parseMoneyAmount j = Inr m"
  by (auto simp: serializeMoneyAmount_def parseMoneyAmount_def assertDecimals_def assertAssetId_def
      assertExactKeys_def money_amount_keys_def canonical_show_int)

theorem parse_serialize_money_witness:
  "parseMoneyAmount (JObject [(''raw'', JString (show_int (-25))), (''decimals'', JNumber (Integral 6)),
     (''asset_id'', JString ''USD'')]) = Inr \<lparr>ma_raw = -25, ma_decimals = 6, ma_asset_id = ''USD''\<rparr>"
  by (rule parse_serialize_money) (simp add: serializeMoneyAmount_def assertDecimals_def assertAssetId_def)

text \<open>parsing fails closed on representation: an accepted object carries exactly the raw
  string that serializing the parsed amount prints, so no two raw strings denote one amount.\<close>

theorem parse_money_canonical:
  assumes "parseMoneyAmount (JObject kvs) = Inr m"
  shows "map_of kvs ''raw'' = Some (JString (show_int (ma_raw m)))
    \<and> map_of kvs ''decimals'' = Some (JNumber (Integral (ma_decimals m)))
    \<and> map_of kvs ''asset_id'' = Some (JString (ma_asset_id m))
    \<and> 0 \<le> ma_decimals m \<and> ma_decimals m \<le> 255 \<and> ma_asset_id m \<noteq> []"
  using assms
  by (auto simp: parseMoneyAmount_def assertDecimals_def assertAssetId_def canonical_show_read
      split: option.splits json.splits js_number.splits)

theorem parse_money_canonical_witness:
  "ma_raw \<lparr>ma_raw = 0, ma_decimals = 8, ma_asset_id = ''BTC''\<rparr> = 0
   \<and> map_of [(''raw'', JString ''0''), (''decimals'', JNumber (Integral 8)), (''asset_id'', JString ''BTC'')]
       ''raw'' = Some (JString (show_int 0))"
  using parse_money_canonical
    [of "[(''raw'', JString ''0''), (''decimals'', JNumber (Integral 8)), (''asset_id'', JString ''BTC'')]"
        "\<lparr>ma_raw = 0, ma_decimals = 8, ma_asset_id = ''BTC''\<rparr>"]
  by (simp add: parseMoneyAmount_def assertDecimals_def assertAssetId_def assertExactKeys_def
      money_amount_keys_def canonical_integer_def digit_val_def)

section \<open>Trading amounts\<close>

datatype trading_unit = BTC | USD | USD_PER_BTC | RATE | PROBABILITY

fun trading_decimals :: "trading_unit \<Rightarrow> int" where
  "trading_decimals BTC = 8"
| "trading_decimals USD = 6"
| "trading_decimals USD_PER_BTC = 6"
| "trading_decimals RATE = 9"
| "trading_decimals PROBABILITY = 6"

fun unit_name :: "trading_unit \<Rightarrow> string" where
  "unit_name BTC = ''BTC''"
| "unit_name USD = ''USD''"
| "unit_name USD_PER_BTC = ''USD_PER_BTC''"
| "unit_name RATE = ''RATE''"
| "unit_name PROBABILITY = ''PROBABILITY''"

record trading_amount =
  ta_unit :: trading_unit
  ta_decimals :: int
  ta_raw :: string

definition parseTradingAmount :: "trading_unit \<Rightarrow> json \<Rightarrow> amount_error + trading_amount" where
  "parseTradingAmount u value = (case value of
     JObject rec \<Rightarrow>
       require (length (map fst rec) = 3
           \<and> list_all (\<lambda>key. map_of rec key \<noteq> None) [''raw'', ''unit'', ''decimals'']
           \<and> map_of rec ''unit'' = Some (JString (unit_name u))
           \<and> map_of rec ''decimals'' = Some (JNumber (Integral (trading_decimals u))))
         Unit_Mismatch
         (bind_res (parseMoneyAmount (JObject
              [(''raw'', the (map_of rec ''raw'')),
               (''decimals'', the (map_of rec ''decimals'')),
               (''asset_id'', JString (unit_name u))])) (\<lambda>parsed.
            require (\<not> (u = PROBABILITY \<and> (ma_raw parsed < 0 \<or> ma_raw parsed > 1000000)))
              Probability_Range
              (case map_of rec ''raw'' of
                 Some (JString r) \<Rightarrow>
                   Inr \<lparr>ta_unit = u, ta_decimals = trading_decimals u, ta_raw = r\<rparr>
               | _ \<Rightarrow> Inl Bad_Raw)))
   | _ \<Rightarrow> Inl Invalid_Amount)"

definition amount_json :: "trading_amount \<Rightarrow> json" where
  "amount_json a = JObject [(''raw'', JString (ta_raw a)), (''unit'', JString (unit_name (ta_unit a))),
     (''decimals'', JNumber (Integral (ta_decimals a)))]"

definition assertTradingQuantum :: "trading_amount \<Rightarrow> trading_amount \<Rightarrow> amount_error + unit" where
  "assertTradingQuantum value step =
     bind_res (parseTradingAmount (ta_unit value) (amount_json value)) (\<lambda>amount.
     bind_res (parseTradingAmount (ta_unit value) (amount_json step)) (\<lambda>quantum.
       require (\<not> (read_int (ta_raw quantum) \<le> 0
                   \<or> read_int (ta_raw amount) smod read_int (ta_raw quantum) \<noteq> 0))
         Inexact_Quantum (Inr ())))"

lemma unit_name_inj [simp]: "unit_name u = unit_name v \<longleftrightarrow> u = v"
  by (cases u; cases v) simp_all

lemma unit_name_nonempty [simp]: "unit_name u \<noteq> []"
  by (cases u) simp_all

lemma trading_decimals_range [simp]:
  "0 \<le> trading_decimals u" "\<not> trading_decimals u < 0" "\<not> 255 < trading_decimals u"
  by (cases u; simp)+

text \<open>The integer amount \<open>n\<close> in unit \<open>u\<close>, as the boundary prints it.\<close>

definition amount_of :: "trading_unit \<Rightarrow> int \<Rightarrow> trading_amount" where
  "amount_of u n = \<lparr>ta_unit = u, ta_decimals = trading_decimals u, ta_raw = show_int n\<rparr>"

definition unit_range :: "trading_unit \<Rightarrow> int \<Rightarrow> bool" where
  "unit_range u n \<longleftrightarrow> (u = PROBABILITY \<longrightarrow> 0 \<le> n \<and> n \<le> 1000000)"

lemma parse_amount_json_iff:
  "parseTradingAmount u (amount_json a) = Inr b \<longleftrightarrow>
     (\<exists>n. a = amount_of u n \<and> b = a \<and> unit_range u n)"
proof
  assume "parseTradingAmount u (amount_json a) = Inr b"
  then have "ta_unit a = u" "ta_decimals a = trading_decimals u" "canonical_integer (ta_raw a)"
    "b = a" "unit_range u (read_int (ta_raw a))"
    by (auto simp: parseTradingAmount_def amount_json_def parseMoneyAmount_def assertExactKeys_def
        assertDecimals_def assertAssetId_def money_amount_keys_def unit_range_def)
  then show "\<exists>n. a = amount_of u n \<and> b = a \<and> unit_range u n"
    by (intro exI [of _ "read_int (ta_raw a)"]) (simp add: amount_of_def canonical_show_read)
next
  assume "\<exists>n. a = amount_of u n \<and> b = a \<and> unit_range u n"
  then show "parseTradingAmount u (amount_json a) = Inr b"
    by (auto simp: parseTradingAmount_def amount_json_def parseMoneyAmount_def assertExactKeys_def
        assertDecimals_def assertAssetId_def money_amount_keys_def unit_range_def amount_of_def
        canonical_show_int)
qed

lemma amount_of_simps [simp]:
  "ta_unit (amount_of u n) = u" "read_int (ta_raw (amount_of u n)) = n"
  "amount_of u n = amount_of v m \<longleftrightarrow> u = v \<and> n = m"
  by (auto simp: amount_of_def)

text \<open>the quantum check accepts exactly the pairs of well-formed amounts of one unit whose
  integers divide: no truncation and no sign surprise of the truncating remainder.\<close>

theorem assertTradingQuantum_iff:
  "assertTradingQuantum value step = Inr () \<longleftrightarrow>
     (\<exists>u n q. value = amount_of u n \<and> step = amount_of u q
        \<and> unit_range u n \<and> unit_range u q \<and> 0 < q \<and> q dvd n)"
proof
  assume "assertTradingQuantum value step = Inr ()"
  then obtain n q where "value = amount_of (ta_unit value) n" "step = amount_of (ta_unit value) q"
    "unit_range (ta_unit value) n" "unit_range (ta_unit value) q"
    and "0 < read_int (ta_raw step)" "read_int (ta_raw step) dvd read_int (ta_raw value)"
    by (auto simp: assertTradingQuantum_def parse_amount_json_iff smod_eq_0_iff)
  moreover from this(1,2) have "read_int (ta_raw value) = n" "read_int (ta_raw step) = q"
    by (metis amount_of_simps(2))+
  ultimately show "\<exists>u n q. value = amount_of u n \<and> step = amount_of u q
        \<and> unit_range u n \<and> unit_range u q \<and> 0 < q \<and> q dvd n"
    by (intro exI [of _ "ta_unit value"] exI [of _ n] exI [of _ q]) simp
next
  assume "\<exists>u n q. value = amount_of u n \<and> step = amount_of u q
        \<and> unit_range u n \<and> unit_range u q \<and> 0 < q \<and> q dvd n"
  then obtain u n q where "value = amount_of u n" "step = amount_of u q"
    "unit_range u n" "unit_range u q" "0 < q" "q dvd n" by blast
  then show "assertTradingQuantum value step = Inr ()"
    by (simp add: assertTradingQuantum_def parse_amount_json_iff smod_eq_0_iff)
qed

section \<open>Venue order constraints\<close>

record price_rules =
  max_decimals :: js_number
  max_significant_digits :: js_number
  integer_prices_exempt :: bool

record instrument_metadata =
  im_tick_size :: trading_amount
  im_quantity_step :: trading_amount
  im_price_rules :: price_rules
  im_minimum_order_notional :: trading_amount

definition rule_digits :: "price_rules \<Rightarrow> (int \<times> int) option" where
  "rule_digits rules = (case (max_decimals rules, max_significant_digits rules) of
     (Integral d, Integral k) \<Rightarrow> (if d < 0 \<or> d > 6 \<or> k < 1 then None else Some (d, k))
   | _ \<Rightarrow> None)"

definition assertInstrumentOrderConstraints ::
  "instrument_metadata \<Rightarrow> trading_amount \<Rightarrow> trading_amount \<Rightarrow> amount_error + unit" where
  "assertInstrumentOrderConstraints metadata price quantity =
     bind_res (parseTradingAmount USD_PER_BTC (amount_json price)) (\<lambda>p.
     bind_res (parseTradingAmount BTC (amount_json quantity)) (\<lambda>q.
     let px = read_int (ta_raw p); qty = read_int (ta_raw q) in
     require (\<not> (px \<le> 0 \<or> qty \<le> 0)) Not_Positive
     (bind_res (assertTradingQuantum price (im_tick_size metadata)) (\<lambda>_.
      bind_res (assertTradingQuantum quantity (im_quantity_step metadata)) (\<lambda>_.
      case rule_digits (im_price_rules metadata) of
        None \<Rightarrow> Inl Invalid_Price_Rules
      | Some (d, k) \<Rightarrow>
          require (px smod (10 ^ nat (6 - d)) = 0) Decimal_Precision
          (let is_integer = (px smod 1000000 = 0);
               significantDigits = int (length (strip_zeros (show_int px))) in
           require (\<not> (\<not> (is_integer \<and> integer_prices_exempt (im_price_rules metadata))
                       \<and> significantDigits > k)) Significant_Digits
           (bind_res (parseTradingAmount USD (amount_json (im_minimum_order_notional metadata))) (\<lambda>m.
              let minimum = read_int (ta_raw m) in
              require (\<not> (minimum \<le> 0 \<or> px * qty < minimum * 100000000)) Below_Minimum
                (Inr ())))))))))"

end
