(* ===== verification/PriceGrid.thy ===== *)
theory PriceGrid
  imports Amounts
begin

text \<open>
  Rounding to the venue's price grid: \<open>venueGridPrice\<close> of \<open>apps/api/src/trading/price-grid.ts\<close> and
  its copy \<open>baselinePrice\<close> in \<open>strategies/baseline.ts\<close>. The code enumerates decimal grids, not
  prices; the theorems compare it with all prices: rounding up finds the least price the rules
  allow, rounding down the greatest one when the tick is a power of ten.
\<close>

datatype direction = Up | Down

section \<open>The code\<close>

function gcd_loop :: "int \<Rightarrow> int \<Rightarrow> int" where
  "gcd_loop a b = (if b = 0 then a else gcd_loop b (a smod b))"
  by pat_completeness auto
termination
proof (relation "measure (\<lambda>(a, b). nat \<bar>b\<bar>)")
  fix a b :: int
  assume "b \<noteq> 0"
  then have "\<bar>a smod b\<bar> < \<bar>b\<bar>" using abs_mod_less [of "\<bar>b\<bar>" "\<bar>a\<bar>"] by (auto simp: smod_int_alt_def abs_mult)
  then show "((b, a smod b), a, b) \<in> measure (\<lambda>(a, b). nat \<bar>b\<bar>)" by simp
qed simp

definition grid_of :: "int \<Rightarrow> nat \<Rightarrow> int" where
  "grid_of tick zeros = (let decimal = 10 ^ zeros in tick sdiv gcd_loop tick decimal * decimal)"

definition grid_candidate :: "int \<Rightarrow> int \<Rightarrow> direction \<Rightarrow> int \<Rightarrow> nat \<Rightarrow> int" where
  "grid_candidate num den dir tick zeros =
     (let grid = grid_of tick zeros; d = den * grid in
      (if dir = Up then (num + d - 1) sdiv d else num sdiv d) * grid)"

definition grid_accepts :: "bool \<Rightarrow> int \<Rightarrow> int \<Rightarrow> bool" where
  "grid_accepts exempt k p =
     (\<not> (p \<le> 0 \<or> length (show_int p) > 38)
      \<and> \<not> (\<not> (exempt \<and> p smod 1000000 = 0) \<and> int (length (strip_zeros (show_int p))) > k))"

definition closer :: "direction \<Rightarrow> int \<Rightarrow> int \<Rightarrow> bool" where
  "closer dir p best = (if dir = Up then p < best else p > best)"

definition grid_step ::
  "int \<Rightarrow> int \<Rightarrow> direction \<Rightarrow> int \<Rightarrow> bool \<Rightarrow> int \<Rightarrow> int option \<Rightarrow> nat \<Rightarrow> int option" where
  "grid_step num den dir tick exempt k best zeros =
     (let p = grid_candidate num den dir tick zeros in
      if \<not> grid_accepts exempt k p then best
      else case best of None \<Rightarrow> Some p | Some b \<Rightarrow> if closer dir p b then Some p else best)"

definition grid_digits :: "price_rules \<Rightarrow> (int \<times> int) option" where
  "grid_digits rules = (case (max_decimals rules, max_significant_digits rules) of
     (Integral d, Integral k) \<Rightarrow> (if d < 0 \<or> d > 6 \<or> k < 1 \<or> k > 38 then None else Some (d, k))
   | _ \<Rightarrow> None)"

definition venueGridPrice :: "int \<Rightarrow> int \<Rightarrow> direction \<Rightarrow> int \<Rightarrow> price_rules \<Rightarrow> int option" where
  "venueGridPrice num den dir tick rules =
     (if num \<le> 0 \<or> den \<le> 0 \<or> tick \<le> 0 then None
      else case grid_digits rules of
        None \<Rightarrow> None
      | Some (d, k) \<Rightarrow>
          foldl (grid_step num den dir tick (integer_prices_exempt rules) k) None [nat (6 - d)..<39])"

text \<open>The strategy module repeats the same loop.\<close>

definition baselinePrice :: "int \<Rightarrow> int \<Rightarrow> direction \<Rightarrow> int \<Rightarrow> price_rules \<Rightarrow> int option" where
  "baselinePrice num den dir tick rules =
     (if num \<le> 0 \<or> den \<le> 0 \<or> tick \<le> 0 then None
      else case grid_digits rules of
        None \<Rightarrow> None
      | Some (d, k) \<Rightarrow>
          foldl (grid_step num den dir tick (integer_prices_exempt rules) k) None [nat (6 - d)..<39])"

section \<open>Selecting the best\<close>

text \<open>A fold that keeps the better of what it has and what it sees ends with a best element, for any
  strict order that compares all.\<close>

locale selection =
  fixes better :: "int \<Rightarrow> int \<Rightarrow> bool"
  assumes better_asym: "better a b \<Longrightarrow> \<not> better b a"
    and better_trans: "\<not> better b a \<Longrightarrow> \<not> better c b \<Longrightarrow> \<not> better c a"
begin

definition keep :: "int option \<Rightarrow> int \<Rightarrow> int option" where
  "keep best p = (case best of None \<Rightarrow> Some p | Some b \<Rightarrow> if better p b then Some p else best)"

lemma keep_best:
  "(case foldl keep None ps of None \<Rightarrow> ps = [] | Some b \<Rightarrow> b \<in> set ps \<and> (\<forall>p \<in> set ps. \<not> better p b))"
proof (induction ps rule: rev_induct)
  case Nil
  then show ?case by simp
next
  case (snoc p ps)
  have irrefl: "\<not> better p p" using better_asym by blast
  have keep: "keep None p = Some p" "better p b \<Longrightarrow> keep (Some b) p = Some p"
    "\<not> better p b \<Longrightarrow> keep (Some b) p = Some b" for b
    by (simp_all add: keep_def)
  show ?case
  proof (cases "foldl keep None ps")
    case None
    moreover from this snoc have "ps = []" by simp
    ultimately show ?thesis using irrefl by (simp add: keep)
  next
    case (Some b)
    with snoc have b: "b \<in> set ps" "\<forall>q \<in> set ps. \<not> better q b" by auto
    show ?thesis
    proof (cases "better p b")
      case True
      then have "\<not> better b p" by (rule better_asym)
      then have "\<not> better q p" if "q \<in> set ps" for q using b(2) that better_trans by blast
      then show ?thesis using Some True irrefl by (simp add: keep)
    qed (use Some b in \<open>simp add: keep\<close>)
  qed
qed

end

interpretation grid: selection "closer dir" for dir
  by unfold_locales (cases dir; simp add: closer_def)+

lemma grid_fold:
  "foldl (grid_step num den dir tick exempt k) None zs
    = foldl (grid.keep dir) None (filter (grid_accepts exempt k) (map (grid_candidate num den dir tick) zs))"
  by (induction zs rule: rev_induct) (simp_all add: grid_step_def grid.keep_def Let_def)

section \<open>Grids and valid prices\<close>

declare gcd_loop.simps [simp del]

lemma gcd_loop_gcd: "0 \<le> a \<Longrightarrow> 0 \<le> b \<Longrightarrow> gcd_loop a b = gcd a b"
proof (induction a b rule: gcd_loop.induct)
  case (1 a b)
  show ?case
  proof (cases "b = 0")
    case True
    with 1 show ?thesis by (subst gcd_loop.simps) simp
  next
    case False
    with 1 have "gcd_loop b (a smod b) = gcd b (a mod b)" by (simp add: smod_nonneg)
    with False show ?thesis by (subst gcd_loop.simps) (simp add: gcd_red_int [of a b])
  qed
qed

lemma grid_of_lcm: "0 < tick \<Longrightarrow> grid_of tick z = lcm tick (10 ^ z)"
proof -
  assume t: "0 < tick"
  have "gcd tick (10 ^ z) dvd tick" by simp
  then have "tick div gcd tick (10 ^ z) * 10 ^ z = lcm tick (10 ^ z)"
    using t by (simp add: lcm_gcd dvd_div_mult) (simp add: pos_imp_zdiv_nonneg_iff)
  with t show ?thesis by (simp add: grid_of_def Let_def gcd_loop_gcd sdiv_nonneg)
qed

text \<open>The prices the rules allow: multiples of the tick with at most \<open>d\<close> decimals, of at most 38
  digits, and of at most \<open>k\<close> significant digits unless whole-dollar prices are exempt.\<close>

definition grid_price :: "int \<Rightarrow> bool \<Rightarrow> int \<Rightarrow> int \<Rightarrow> int \<Rightarrow> bool" where
  "grid_price tick exempt d k p \<longleftrightarrow> 0 < p \<and> p < 10 ^ 38 \<and> tick dvd p \<and> 10 ^ nat (6 - d) dvd p
     \<and> (exempt \<and> 1000000 dvd p \<or> sig_digits (nat p) \<le> nat k)"

lemma grid_accepts_iff:
  "1 \<le> k \<Longrightarrow> grid_accepts exempt k p \<longleftrightarrow> 0 < p \<and> p < 10 ^ 38 \<and> (exempt \<and> 1000000 dvd p \<or> sig_digits (nat p) \<le> nat k)"
proof (cases "0 < p")
  case True
  assume k: "1 \<le> k"
  have "length (show_int p) \<le> 38 \<longleftrightarrow> nat p < 10 ^ 38"
    using True length_show_nat [of 38 "nat p"] by (simp add: show_int_def)
  also have "\<dots> \<longleftrightarrow> p < 10 ^ 38" using True by (simp add: nat_less_iff)
  finally show ?thesis
    using True k by (auto simp: grid_accepts_def smod_eq_0_iff sig_digits_def show_int_def)
qed (simp add: grid_accepts_def)

lemma grid_dvd:
  assumes "0 < tick"
  shows "tick dvd grid_of tick z" and "10 ^ z dvd grid_of tick z" and "0 < grid_of tick z"
    and "tick dvd q \<Longrightarrow> 10 ^ z dvd q \<Longrightarrow> grid_of tick z dvd q"
  using assms by (simp_all add: grid_of_lcm lcm_pos_int)

lemma grid_candidate_up:
  assumes "0 < num" and "0 < den" and "0 < tick"
  shows "0 < grid_candidate num den Up tick z" and "grid_of tick z dvd grid_candidate num den Up tick z"
    and "num \<le> den * grid_candidate num den Up tick z"
    and "grid_of tick z dvd q \<Longrightarrow> num \<le> den * q \<Longrightarrow> grid_candidate num den Up tick z \<le> q"
proof -
  let ?g = "grid_of tick z"
  have g: "0 < ?g" and d: "0 < den * ?g" using grid_dvd(3) [OF assms(3)] assms by simp_all
  define c where "c = (num + den * ?g - 1) sdiv (den * ?g)"
  have cand: "grid_candidate num den Up tick z = c * ?g"
    by (simp add: grid_candidate_def Let_def c_def)
  have ge: "num \<le> den * ?g * c" and lt: "den * ?g * c < num + den * ?g"
    using ceil_ge [of num "den * ?g"] ceil_lt [of num "den * ?g"] assms d by (simp_all add: c_def)
  show "num \<le> den * grid_candidate num den Up tick z" using ge by (simp add: cand mult_ac)
  then have "0 < den * grid_candidate num den Up tick z" using assms(1) by linarith
  then show "0 < grid_candidate num den Up tick z" using assms(2) by (simp only: zero_less_mult_iff) simp
  show "?g dvd grid_candidate num den Up tick z" by (simp add: cand)
  show "grid_candidate num den Up tick z \<le> q" if "?g dvd q" and "num \<le> den * q"
  proof -
    from that(1) obtain m where m: "q = ?g * m" by (rule dvdE)
    have "den * ?g * c < den * ?g * m + den * ?g" using lt that(2) by (simp add: m mult_ac)
    then have "c \<le> m" using d mult_less_succ by blast
    then show ?thesis using g by (simp add: cand m mult.commute)
  qed
qed

lemma grid_candidate_down:
  assumes "0 < num" and "0 < den" and "0 < tick"
  shows "grid_of tick z dvd grid_candidate num den Down tick z"
    and "den * grid_candidate num den Down tick z \<le> num"
    and "grid_of tick z dvd q \<Longrightarrow> den * q \<le> num \<Longrightarrow> q \<le> grid_candidate num den Down tick z"
proof -
  let ?g = "grid_of tick z"
  have g: "0 < ?g" and d: "0 < den * ?g" using grid_dvd(3) [OF assms(3)] assms by simp_all
  have cand: "grid_candidate num den Down tick z = (num div (den * ?g)) * ?g"
    using assms d by (simp add: grid_candidate_def Let_def sdiv_nonneg)
  note b = div_bounds [OF d, of num]
  show "?g dvd grid_candidate num den Down tick z" by (simp add: cand)
  show "den * grid_candidate num den Down tick z \<le> num" using b(1) by (simp add: cand mult_ac)
  show "q \<le> grid_candidate num den Down tick z" if "?g dvd q" and "den * q \<le> num"
  proof -
    from that(1) obtain m where m: "q = ?g * m" by (rule dvdE)
    have "den * ?g * m < den * ?g * (num div (den * ?g)) + den * ?g" using b(2) that(2) by (simp add: m mult_ac)
    then have "m \<le> num div (den * ?g)" using d mult_less_succ by blast
    then show ?thesis using g by (simp add: cand m mult.commute)
  qed
qed

text \<open>The result is the best accepted candidate.\<close>

lemma venueGridPrice_candidates:
  assumes "0 < num" and "0 < den" and "0 < tick" and "grid_digits rules = Some (d, k)"
  shows "case venueGridPrice num den dir tick rules of
      None \<Rightarrow> \<forall>z. nat (6 - d) \<le> z \<and> z < 39 \<longrightarrow> \<not> grid_accepts (integer_prices_exempt rules) k (grid_candidate num den dir tick z)
    | Some p \<Rightarrow> (\<exists>z. nat (6 - d) \<le> z \<and> z < 39 \<and> p = grid_candidate num den dir tick z \<and> grid_accepts (integer_prices_exempt rules) k p)
        \<and> (\<forall>z. nat (6 - d) \<le> z \<and> z < 39 \<and> grid_accepts (integer_prices_exempt rules) k (grid_candidate num den dir tick z)
            \<longrightarrow> \<not> closer dir (grid_candidate num den dir tick z) p)"
proof -
  let ?ps = "filter (grid_accepts (integer_prices_exempt rules) k) (map (grid_candidate num den dir tick) [nat (6 - d)..<39])"
  have v: "venueGridPrice num den dir tick rules = foldl (grid.keep dir) None ?ps"
    using assms by (simp add: venueGridPrice_def grid_fold)
  have set: "p \<in> set ?ps \<longleftrightarrow> (\<exists>z. nat (6 - d) \<le> z \<and> z < 39 \<and> p = grid_candidate num den dir tick z
      \<and> grid_accepts (integer_prices_exempt rules) k p)" for p
    by auto
  show ?thesis
  proof (cases "foldl (grid.keep dir) None ?ps")
    case None
    then have "set ?ps = {}" using grid.keep_best [where dir = dir and ps = ?ps] by simp
    then show ?thesis using None set v by auto
  next
    case (Some p)
    then have "p \<in> set ?ps" "\<forall>q \<in> set ?ps. \<not> closer dir q p" using grid.keep_best [where dir = dir and ps = ?ps] by simp_all
    then show ?thesis using Some set v by auto
  qed
qed

text \<open>Every allowed price lies on one of the enumerated grids.\<close>

lemma grid_digits_range: "grid_digits rules = Some (d, k) \<Longrightarrow> 0 \<le> d \<and> d \<le> 6 \<and> 1 \<le> k \<and> k \<le> 38"
  by (auto simp: grid_digits_def split: js_number.splits if_splits)

lemma nat_decimal_decomp:
  "0 < q \<Longrightarrow> \<exists>m z. q = int m * 10 ^ z \<and> sig_digits (nat q) = length (show_nat m) \<and> 0 < m"
proof -
  assume "0 < q"
  then have "0 < nat q" by simp
  from sig_digits_decomp [OF this] obtain m z where m: "nat q = m * 10 ^ z" "sig_digits (nat q) = length (show_nat m)" by blast
  then have "q = int m * 10 ^ z" using \<open>0 < q\<close> by (metis int_nat_eq less_imp_le of_nat_mult of_nat_power of_nat_numeral)
  moreover have "0 < m" using m(1) \<open>0 < nat q\<close> by (cases m) auto
  ultimately show ?thesis using m(2) by blast
qed

lemma sig_digits_below:
  assumes "0 < p" and "10 ^ z dvd p" and "p < 10 ^ (k + z)" and "1 \<le> k"
  shows "sig_digits (nat p) \<le> k"
proof -
  from assms(2) obtain m where m: "p = 10 ^ z * m" by (rule dvdE)
  then have pos: "0 < m" using assms(1) by (simp add: zero_less_mult_iff)
  then have eq: "nat p = nat m * 10 ^ z" by (simp add: m nat_mult_distrib nat_power_eq)
  have "10 ^ z * m < 10 ^ z * 10 ^ k" using assms(3) by (simp add: m power_add mult.commute)
  then have "nat m < 10 ^ k" using pos by (simp add: nat_less_iff)
  with eq have "\<exists>a b. nat p = a * 10 ^ b \<and> a < 10 ^ k" by blast
  then show ?thesis using assms(1,4) sig_digits_le_iff [of "nat p" k] by simp
qed

lemma sig_digits_bound:
  assumes "0 < q" and "sig_digits (nat q) \<le> k" and "1 \<le> k"
  obtains z where "10 ^ z dvd q" and "q < 10 ^ (k + z)"
proof -
  obtain m z where mz: "q = int m * 10 ^ z" "sig_digits (nat q) = length (show_nat m)"
    using nat_decimal_decomp [OF assms(1)] by blast
  have "m < 10 ^ k" using assms(2,3) mz(2) length_show_nat [of k m] by simp
  then have "int m < 10 ^ k" by (metis of_nat_less_iff of_nat_numeral of_nat_power)
  then have "q < 10 ^ (k + z)" by (simp add: mz(1) power_add)
  with mz(1) that [of z] show thesis by simp
qed

lemma grid_price_accepted:
  "1 \<le> k \<Longrightarrow> 0 < tick \<Longrightarrow> grid_of tick z dvd p \<Longrightarrow> nat (6 - d) \<le> z \<Longrightarrow> grid_accepts exempt k p \<Longrightarrow> grid_price tick exempt d k p"
proof -
  assume a: "1 \<le> k" "0 < tick" "grid_of tick z dvd p" "nat (6 - d) \<le> z" "grid_accepts exempt k p"
  have "(10 :: int) ^ nat (6 - d) dvd 10 ^ z" using a(4) by (rule le_imp_power_dvd)
  then show ?thesis
    using a grid_dvd(1,2) [OF a(2), of z] grid_accepts_iff [OF a(1)] by (meson dvd_trans grid_price_def)
qed

text \<open>The grid of an allowed price, on which every smaller multiple is allowed too.\<close>

lemma grid_price_grid:
  assumes "grid_price tick exempt d k q" and "0 < tick" and "0 \<le> d" and "d \<le> 6" and "1 \<le> k"
  obtains z where "nat (6 - d) \<le> z" and "z < 39" and "grid_of tick z dvd q"
    and "\<And>p. 0 < p \<Longrightarrow> p \<le> q \<Longrightarrow> 10 ^ z dvd p \<Longrightarrow> grid_accepts exempt k p"
proof -
  have q: "0 < q" "q < 10 ^ 38" "tick dvd q" "10 ^ nat (6 - d) dvd q" using assms(1) by (simp_all add: grid_price_def)
  show thesis
  proof (cases "exempt \<and> 1000000 dvd q")
    case True
    then have "(10 :: int) ^ 6 dvd q" by simp
    then have "grid_of tick 6 dvd q" using grid_dvd(4) [OF assms(2) q(3)] by blast
    then show thesis using assms(3,5) True q by (intro that [of 6]) (simp_all add: grid_accepts_iff)
  next
    case False
    then have sig: "sig_digits (nat q) \<le> nat k" using assms(1) unfolding grid_price_def by blast
    have k: "1 \<le> nat k" using assms(5) by simp
    obtain z0 where z0: "10 ^ z0 dvd q" "q < 10 ^ (nat k + z0)" using sig_digits_bound [OF q(1) sig k] by blast
    define z where "z = max z0 (nat (6 - d))"
    have zq: "10 ^ z dvd q" using z0(1) q(4) by (simp add: z_def max_def)
    then have "(10 :: int) ^ z \<le> q" using q(1) by (rule zdvd_imp_le)
    then have "(10 :: int) ^ z < 10 ^ 38" using q(2) by linarith
    then have "z < 38" by (rule power_less_imp_less_exp [rotated]) simp
    then have z39: "z < 39" by simp
    have "(10 :: int) ^ (nat k + z0) \<le> 10 ^ (nat k + z)" by (rule power_increasing) (simp_all add: z_def)
    then have bound: "q < 10 ^ (nat k + z)" using z0(2) by linarith
    show thesis
    proof (rule that [of z])
      show "nat (6 - d) \<le> z" by (simp add: z_def)
      show "z < 39" by (rule z39)
      show "grid_of tick z dvd q" using grid_dvd(4) [OF assms(2) q(3) zq] .
      show "grid_accepts exempt k p" if "0 < p" "p \<le> q" "10 ^ z dvd p" for p
        using sig_digits_below [OF that(1,3) _ k] that bound q(2) by (simp add: grid_accepts_iff [OF assms(5)])
    qed
  qed
qed

lemma grid_up_exact:
  assumes "0 < num" and "0 < den" and "0 < tick" and "grid_digits rules = Some (d, k)"
  shows "case venueGridPrice num den Up tick rules of
      None \<Rightarrow> \<forall>q. grid_price tick (integer_prices_exempt rules) d k q \<longrightarrow> den * q < num
    | Some p \<Rightarrow> grid_price tick (integer_prices_exempt rules) d k p \<and> num \<le> den * p
        \<and> (\<forall>q. grid_price tick (integer_prices_exempt rules) d k q \<longrightarrow> num \<le> den * q \<longrightarrow> p \<le> q)"
proof -
  let ?ex = "integer_prices_exempt rules" and ?c = "grid_candidate num den Up tick"
  note r = grid_digits_range [OF assms(4)] and up = grid_candidate_up [OF assms(1-3)]
  have below: "\<exists>z. nat (6 - d) \<le> z \<and> z < 39 \<and> grid_accepts ?ex k (?c z) \<and> ?c z \<le> q"
    if q: "grid_price tick ?ex d k q" "num \<le> den * q" for q
  proof -
    obtain z where z: "nat (6 - d) \<le> z" "z < 39" "grid_of tick z dvd q"
      "\<And>p. 0 < p \<Longrightarrow> p \<le> q \<Longrightarrow> 10 ^ z dvd p \<Longrightarrow> grid_accepts ?ex k p"
      using grid_price_grid [OF q(1) assms(3)] r by blast
    have "10 ^ z dvd ?c z" using grid_dvd(2) [OF assms(3), of z] up(2) [of z] by (rule dvd_trans)
    with z up(1) up(4) [OF z(3) q(2)] show ?thesis by blast
  qed
  note cand = venueGridPrice_candidates [OF assms, of Up]
  show ?thesis
  proof (cases "venueGridPrice num den Up tick rules")
    case None
    then show ?thesis using cand below by (fastforce simp: not_less)
  next
    case (Some p)
    then obtain z where z: "nat (6 - d) \<le> z" "p = ?c z" "grid_accepts ?ex k p"
      and best: "\<And>w. nat (6 - d) \<le> w \<Longrightarrow> w < 39 \<Longrightarrow> grid_accepts ?ex k (?c w) \<Longrightarrow> p \<le> ?c w"
      using cand by (auto simp: closer_def not_less)
    have "grid_price tick ?ex d k p"
      using r z up(2) by (intro grid_price_accepted [of k tick z]) (simp_all add: assms(3))
    moreover have "num \<le> den * p" using up(3) z(2) by simp
    moreover have "p \<le> q" if "grid_price tick ?ex d k q" "num \<le> den * q" for q
      using below [OF that] best by (meson order_trans)
    ultimately show ?thesis using Some by simp
  qed
qed

text \<open>C35: rounding up is exact. For any target and any tick the result is a price the rules allow,
  not below the target, and the least such price; there is no result only when no allowed price
  reaches the target.\<close>

theorem venueGridPrice_up:
  assumes "0 < num" and "0 < den" and "0 < tick" and "grid_digits rules = Some (d, k)"
  shows "case venueGridPrice num den Up tick rules of
      None \<Rightarrow> \<forall>q. grid_price tick (integer_prices_exempt rules) d k q \<longrightarrow> den * q < num
    | Some p \<Rightarrow> grid_price tick (integer_prices_exempt rules) d k p \<and> num \<le> den * p
        \<and> (\<forall>q. grid_price tick (integer_prices_exempt rules) d k q \<longrightarrow> num \<le> den * q \<longrightarrow> p \<le> q)"
  using assms by (rule grid_up_exact)

definition sample_rules :: price_rules where
  "sample_rules = \<lparr>max_decimals = Integral 1, max_significant_digits = Integral 5, integer_prices_exempt = True\<rparr>"

lemma sample_rule_digits: "grid_digits sample_rules = Some (1, 5)"
  by (simp add: sample_rules_def grid_digits_def)

theorem venueGridPrice_up_witness:
  "case venueGridPrice 60000123456 1 Up 100000 sample_rules of
      None \<Rightarrow> \<forall>q. grid_price 100000 True 1 5 q \<longrightarrow> q < 60000123456
    | Some p \<Rightarrow> grid_price 100000 True 1 5 p \<and> 60000123456 \<le> p"
  using venueGridPrice_up [OF _ _ _ sample_rule_digits, of 60000123456 1 100000]
  by (simp add: sample_rules_def split: option.splits)

lemma grid_down_sound:
  assumes "venueGridPrice num den Down tick rules = Some p" and "grid_digits rules = Some (d, k)"
  shows "grid_price tick (integer_prices_exempt rules) d k p" and "den * p \<le> num"
proof -
  have pos: "0 < num" "0 < den" "0 < tick" using assms(1) by (auto simp: venueGridPrice_def split: if_splits)
  obtain z where z: "nat (6 - d) \<le> z" "p = grid_candidate num den Down tick z"
    "grid_accepts (integer_prices_exempt rules) k p"
    using venueGridPrice_candidates [OF pos assms(2), of Down] assms(1) by auto
  note down = grid_candidate_down [OF pos]
  show "grid_price tick (integer_prices_exempt rules) d k p"
    using grid_digits_range [OF assms(2)] z down(1)
    by (intro grid_price_accepted [of k tick z]) (simp_all add: pos(3))
  show "den * p \<le> num" using down(2) z(2) by simp
qed

lemma venueGridPrice_digits: "venueGridPrice num den dir tick rules = Some p \<Longrightarrow>
    0 < num \<and> 0 < den \<and> 0 < tick \<and> (\<exists>d k. grid_digits rules = Some (d, k))"
  by (auto simp: venueGridPrice_def split: if_splits option.splits)

text \<open>Rounding down to a power-of-ten tick: the candidate of the first grid coarse enough for the
  target's digits is at least every allowed price below the target.\<close>

lemma grid_down_covers:
  assumes t: "tick = 10 ^ j" and q: "grid_price tick exempt d k q" "den * q \<le> num"
    and pos: "0 < num" "0 < den" and max: "num < den * 10 ^ 38" and r: "0 \<le> d" "d \<le> 6" "1 \<le> k"
  shows "\<exists>z. nat (6 - d) \<le> z \<and> z < 39 \<and> grid_accepts exempt k (grid_candidate num den Down tick z)
    \<and> q \<le> grid_candidate num den Down tick z"
proof -
  let ?c = "grid_candidate num den Down tick"
  have tick: "0 < tick" by (simp add: t)
  note down = grid_candidate_down [OF pos tick]
  have c_max: "?c z < 10 ^ 38" for z
  proof -
    have "den * ?c z < den * 10 ^ 38" using down(2) [of z] max by linarith
    then show ?thesis using pos(2) by simp
  qed
  have c_dvd: "10 ^ z dvd ?c z" for z using grid_dvd(2) [OF tick, of z] down(1) [of z] by (rule dvd_trans)
  have q': "0 < q" "tick dvd q" "10 ^ nat (6 - d) dvd q" using q(1) by (simp_all add: grid_price_def)
  show ?thesis
  proof (cases "exempt \<and> 1000000 dvd q")
    case True
    then have "(10 :: int) ^ 6 dvd q" by simp
    then have "grid_of tick 6 dvd q" using grid_dvd(4) [OF tick q'(2)] by blast
    from down(3) [OF this q(2)] have "q \<le> ?c 6" .
    moreover have "grid_accepts exempt k (?c 6)"
      using True q'(1) calculation c_max [of 6] c_dvd [of 6] r(3) by (simp add: grid_accepts_iff)
    ultimately show ?thesis using r(1) by (intro exI [of _ 6]) simp
  next
    case False
    then have sig: "sig_digits (nat q) \<le> nat k" using q(1) unfolding grid_price_def by blast
    have k: "1 \<le> nat k" using r(3) by simp
    let ?T = "num div den" and ?lo = "nat (6 - d)"
    have T: "den * n \<le> num" if "n \<le> ?T" for n
    proof -
      have "den * n \<le> den * ?T" using that pos(2) by simp
      then show ?thesis using div_bounds(1) [OF pos(2), of num] by linarith
    qed
    have "den * q < den * ?T + den" using q(2) div_bounds(2) [OF pos(2), of num] by linarith
    then have qT: "q \<le> ?T" by (rule mult_less_succ [OF pos(2)])
    have "den * ?T < den * 10 ^ 38" using div_bounds(1) [OF pos(2), of num] max by linarith
    then have Tmax: "?T < 10 ^ 38" using pos(2) by simp
    define P where "P z \<longleftrightarrow> ?lo \<le> z \<and> ?T < 10 ^ (nat k + z)" for z
    have "(10 :: int) ^ 38 \<le> 10 ^ (nat k + 38)" by (rule power_increasing) simp_all
    then have "P 38" using Tmax r(1) by (auto simp: P_def)
    define z where "z = (LEAST z. P z)"
    have Pz: "P z" and least: "w < z \<Longrightarrow> \<not> P w" for w
      unfolding z_def using \<open>P 38\<close> by (auto intro: LeastI dest: not_less_Least)
    have z38: "z \<le> 38" unfolding z_def using \<open>P 38\<close> by (rule Least_le)
    have "\<exists>q'. q \<le> q' \<and> q' \<le> ?T \<and> tick dvd q' \<and> 10 ^ z dvd q'"
    proof (cases "10 ^ z dvd q")
      case True
      with q'(2) qT show ?thesis by blast
    next
      case no: False
      then have "z \<noteq> ?lo" using q'(3) by blast
      then have "?lo \<le> z - 1" "z - 1 < z" using Pz by (auto simp: P_def)
      then have big: "10 ^ (nat k + (z - 1)) \<le> ?T" using least [of "z - 1"] by (simp add: P_def)
      obtain z0 where z0: "10 ^ z0 dvd q" "q < 10 ^ (nat k + z0)" using sig_digits_bound [OF q'(1) sig k] by blast
      have "z0 < z"
      proof (rule ccontr)
        assume "\<not> z0 < z"
        then have "(10 :: int) ^ z dvd 10 ^ z0" by (intro le_imp_power_dvd) simp
        with z0(1) no show False using dvd_trans by blast
      qed
      then have "(10 :: int) ^ (nat k + z0) \<le> 10 ^ (nat k + (z - 1))" by (intro power_increasing) simp_all
      then have lt: "q < 10 ^ (nat k + (z - 1))" using z0(2) by linarith
      have "(10 :: int) ^ j \<le> q" using q'(1,2) unfolding t by (intro zdvd_imp_le)
      then have "(10 :: int) ^ j < 10 ^ (nat k + (z - 1))" using lt by linarith
      then have "j < nat k + (z - 1)" by (rule power_less_imp_less_exp [rotated]) simp
      then have "tick dvd 10 ^ (nat k + (z - 1))" unfolding t by (intro le_imp_power_dvd) simp
      moreover have "(10 :: int) ^ z dvd 10 ^ (nat k + (z - 1))" using k by (intro le_imp_power_dvd) simp
      ultimately show ?thesis using big lt by (intro exI [of _ "10 ^ (nat k + (z - 1))"]) simp
    qed
    then obtain q' where q1: "q \<le> q'" "q' \<le> ?T" "tick dvd q'" "10 ^ z dvd q'" by blast
    have qc: "q' \<le> ?c z" using down(3) [OF grid_dvd(4) [OF tick q1(3,4)] T [OF q1(2)]] .
    have "den * ?c z < den * ?T + den" using down(2) [of z] div_bounds(2) [OF pos(2), of num] by linarith
    then have "?c z \<le> ?T" by (rule mult_less_succ [OF pos(2)])
    then have "?c z < 10 ^ (nat k + z)" using Pz unfolding P_def by linarith
    then have "sig_digits (nat (?c z)) \<le> nat k"
      using sig_digits_below [OF _ c_dvd _ k] qc q1(1) q'(1) by simp
    then have "grid_accepts exempt k (?c z)"
      using c_max [of z] qc q1(1) q'(1) by (simp add: grid_accepts_iff [OF r(3)])
    then show ?thesis using Pz z38 qc q1(1) by (intro exI [of _ z]) (simp add: P_def)
  qed
qed

lemma grid_down_exact:
  assumes "0 < num" and "0 < den" and "0 < tick" and "grid_digits rules = Some (d, k)"
    and "num < den * 10 ^ 38"
  shows "case venueGridPrice num den Down tick rules of
      None \<Rightarrow> (\<exists>j. tick = 10 ^ j) \<longrightarrow> (\<forall>q. grid_price tick (integer_prices_exempt rules) d k q \<longrightarrow> num < den * q)
    | Some p \<Rightarrow> grid_price tick (integer_prices_exempt rules) d k p \<and> den * p \<le> num
        \<and> ((\<exists>j. tick = 10 ^ j) \<longrightarrow>
            (\<forall>q. grid_price tick (integer_prices_exempt rules) d k q \<longrightarrow> den * q \<le> num \<longrightarrow> q \<le> p))"
proof -
  let ?ex = "integer_prices_exempt rules" and ?c = "grid_candidate num den Down tick"
  note r = grid_digits_range [OF assms(4)] and down = grid_candidate_down [OF assms(1-3)]
  note cand = venueGridPrice_candidates [OF assms(1-4), of Down]
  have above: "\<exists>z. nat (6 - d) \<le> z \<and> z < 39 \<and> grid_accepts ?ex k (?c z) \<and> q \<le> ?c z"
    if "tick = 10 ^ j" "grid_price tick ?ex d k q" "den * q \<le> num" for q j
    using grid_down_covers [OF that assms(1,2,5)] r by blast
  show ?thesis
  proof (cases "venueGridPrice num den Down tick rules")
    case None
    then show ?thesis using cand above by (fastforce simp: not_le)
  next
    case (Some p)
    then obtain z where z: "nat (6 - d) \<le> z" "p = ?c z" "grid_accepts ?ex k p"
      and best: "\<And>w. nat (6 - d) \<le> w \<Longrightarrow> w < 39 \<Longrightarrow> grid_accepts ?ex k (?c w) \<Longrightarrow> ?c w \<le> p"
      using cand by (auto simp: closer_def not_less)
    have "grid_price tick ?ex d k p"
      using r z down(1) by (intro grid_price_accepted [of k tick z]) (simp_all add: assms(3))
    moreover have "den * p \<le> num" using down(2) z(2) by simp
    moreover have "q \<le> p" if "tick = 10 ^ j" "grid_price tick ?ex d k q" "den * q \<le> num" for q j
      using above [OF that] best by (meson order_trans)
    ultimately show ?thesis using Some by auto
  qed
qed

text \<open>C36: rounding down is sound for every tick and exact for a power-of-ten tick, which is what the
  venue adapter produces: the result is an allowed price not above the target and the greatest
  such price, for targets of at most 38 digits; there is no result only when no allowed price lies
  below the target.\<close>

theorem venueGridPrice_down:
  assumes "0 < num" and "0 < den" and "0 < tick" and "grid_digits rules = Some (d, k)"
    and "num < den * 10 ^ 38"
  shows "case venueGridPrice num den Down tick rules of
      None \<Rightarrow> (\<exists>j. tick = 10 ^ j) \<longrightarrow> (\<forall>q. grid_price tick (integer_prices_exempt rules) d k q \<longrightarrow> num < den * q)
    | Some p \<Rightarrow> grid_price tick (integer_prices_exempt rules) d k p \<and> den * p \<le> num
        \<and> ((\<exists>j. tick = 10 ^ j) \<longrightarrow>
            (\<forall>q. grid_price tick (integer_prices_exempt rules) d k q \<longrightarrow> den * q \<le> num \<longrightarrow> q \<le> p))"
  using assms by (rule grid_down_exact)

theorem venueGridPrice_down_witness:
  "case venueGridPrice 60000123456 1 Down 100000 sample_rules of
      None \<Rightarrow> \<forall>q. grid_price 100000 True 1 5 q \<longrightarrow> 60000123456 < q
    | Some p \<Rightarrow> grid_price 100000 True 1 5 p \<and> p \<le> 60000123456"
proof -
  have "\<exists>j. (100000 :: int) = 10 ^ j" by (rule exI [of _ 5]) simp
  with venueGridPrice_down [OF _ _ _ sample_rule_digits, of 60000123456 1 100000] show ?thesis
    by (cases "venueGridPrice 60000123456 1 Down 100000 sample_rules") (auto simp: sample_rules_def)
qed

text \<open>With another tick the enumeration can miss the nearest lower price: a tick of 3 and one
  significant digit allow 9 below 13, and the code finds none.\<close>

lemma down_misses_price:
  fixes rules
  defines "rules \<equiv> \<lparr>max_decimals = Integral 6, max_significant_digits = Integral 1, integer_prices_exempt = False\<rparr>"
  shows "grid_price 3 False 6 1 9" and "1 * 9 \<le> (13 :: int)" and "venueGridPrice 13 1 Down 3 rules = None"
proof -
  have s9: "sig_digits 9 \<le> 1" using sig_digits_below [of 9 0 1] by simp
  then show "grid_price 3 False 6 1 9" by (simp add: grid_price_def)
  show "1 * 9 \<le> (13 :: int)" by simp
  have none: "\<not> grid_accepts False 1 (grid_candidate 13 1 Down 3 z)" for z
  proof
    let ?c = "grid_candidate 13 1 Down 3 z"
    assume "grid_accepts False 1 ?c"
    then have c: "0 < ?c" "sig_digits (nat ?c) \<le> 1" by (simp_all add: grid_accepts_iff)
    note down = grid_candidate_down [of 13 1 3 z]
    have le: "?c \<le> 13" using down(2) by simp
    have d3: "3 dvd ?c" using grid_dvd(1) [of 3 z] down(1) dvd_trans by simp blast
    have d10: "10 ^ z dvd ?c" using grid_dvd(2) [of 3 z] down(1) dvd_trans by simp blast
    show False
    proof (cases z)
      case 0
      have "grid_of 3 z dvd 12" using grid_dvd(4) [of 3 12 z] by (simp add: 0)
      then have "12 \<le> ?c" using down(3) [of 12] by simp
      then have "?c = 12" using le d3 by presburger
      moreover have "sig_digits 12 = length (show_nat 12)" by (rule sig_digits_not_ten) simp
      moreover have "\<not> length (show_nat 12) \<le> 1" using length_show_nat [of 1 12] by simp
      ultimately show False using c(2) by simp
    next
      case (Suc w)
      then have "10 dvd ?c" using d10 dvd_trans [of 10 "10 ^ z" ?c] by simp
      then show False using d3 c(1) le by presburger
    qed
  qed
  show "venueGridPrice 13 1 Down 3 rules = None"
    using venueGridPrice_candidates [of 13 1 3 rules 6 1 Down] none
    by (auto simp: rules_def grid_digits_def split: option.splits)
qed

end
