(* ===== verification/Bars.thy ===== *)
theory Bars
  imports Amounts Valuation "HOL-Library.Product_Lexorder"
begin

text \<open>
  Closed bars of observed trades, \<open>apps/api/src/trading/bars.ts\<close>. Instants are milliseconds; a
  missing or unparsable source timestamp is \<open>None\<close>. \<open>trade_step\<close> is the body of the filter that
  validates and deduplicates trades, \<open>capture_step\<close> the coverage loop, \<open>ohlc_step\<close> the price loop;
  \<open>buildClosedBar\<close> composes them. The reasons and ids of the source are sets that it prints sorted.
\<close>

definition latenessMs :: int where "latenessMs = 10000"
definition captureSilenceMs :: int where "captureSilenceMs = 10000"
definition tradesLimit :: nat where "tradesLimit = 32768"
definition capturesLimit :: nat where "capturesLimit = 4096"
definition readBars :: int where "readBars = 200"

record market_gap =
  mg_channel :: string
  mg_detected_at :: time
  mg_after_source_at :: "time option"
  mg_resumed_at :: "time option"

record market_health =
  mh_connected :: bool
  mh_trades_status :: string
  mh_gaps :: "market_gap list"

record bar_event =
  be_key :: string
  be_source_id :: string
  be_source_timestamp :: "time option"
  be_received_at :: "time option"
  be_payload_hash :: string
  be_instrument_version :: string
  be_quality :: string
  be_revalidation :: string
  be_trade :: "(amount \<times> amount) option"

record trade_evidence =
  te_id :: ident
  te_event :: bar_event

record capture_evidence =
  ce_id :: ident
  ce_from :: time
  ce_at :: time
  ce_health :: market_health
  ce_restarted :: bool
  ce_history_truncated :: bool

record ohlc =
  oh_open :: int
  oh_high :: int
  oh_low :: int
  oh_close :: int

record closed_bar =
  cb_build_version :: string
  cb_instrument_version :: string
  cb_interval_ms :: int
  cb_start_at :: time
  cb_end_at :: time
  cb_closed_at :: time
  cb_ohlc :: "ohlc option"
  cb_volume :: int
  cb_trade_count :: nat
  cb_complete :: bool
  cb_reasons :: "string list"
  cb_input_ids :: "ident list"

record bar_input =
  bn_start :: time
  bn_interval :: int
  bn_as_of :: time
  bn_instrument_version :: string
  bn_metadata_id :: ident
  bn_trades :: "trade_evidence list"
  bn_captures :: "capture_evidence list"

datatype bar_error = INVALID_TIME | NOT_CLOSED | INPUT_LIMIT | INPUT_OUTSIDE_WINDOW | TRADE_CONFLICT
  | INVALID_AMOUNT | INVALID_WARMUP | RANGE_ERROR

definition bar_build_version :: string where
  "bar_build_version = ''btc-observed-bars.v1''"

definition barStart :: "time \<Rightarrow> int \<Rightarrow> bar_error + time" where
  "barStart at interval =
     require (\<bar>at\<bar> \<le> 9007199254740991 \<and> \<not> at < 0 \<and> interval \<in> set [900000, 3600000]) INVALID_TIME
       (Inr (at div interval * interval))"

definition tradeGapRange :: "market_gap \<Rightarrow> time \<Rightarrow> time \<times> time" where
  "tradeGapRange gap at =
     (min (case mg_after_source_at gap of None \<Rightarrow> mg_detected_at gap | Some t \<Rightarrow> t) (mg_detected_at gap),
      case mg_resumed_at gap of None \<Rightarrow> at | Some t \<Rightarrow> t)"

section \<open>The loops\<close>

record trade_state =
  ts_seen :: "(string \<times> string) list"
  ts_ids :: "ident list"
  ts_reasons :: "string list"
  ts_kept :: "trade_evidence list"

definition event_key :: "bar_event \<Rightarrow> string" where
  "event_key e = be_source_id e @ '':'' @ be_key e"

definition event_reasons :: "bar_input \<Rightarrow> bar_event \<Rightarrow> string list" where
  "event_reasons inp e =
     (if be_quality e \<noteq> ''fresh'' then [''input_not_fresh''] else [])
     @ (if be_revalidation e \<noteq> ''none'' then [''feed_gap''] else [])
     @ (if be_instrument_version e \<noteq> bn_instrument_version inp then [''metadata_changed''] else [])
     @ (if (case be_received_at e of None \<Rightarrow> False | Some at \<Rightarrow> at \<ge> bn_start inp + bn_interval inp + latenessMs)
        then [''late_input''] else [])"

definition trade_step :: "bar_input \<Rightarrow> trade_state \<Rightarrow> trade_evidence \<Rightarrow> bar_error + trade_state" where
  "trade_step inp s t =
     (let e = te_event t; finish = bn_start inp + bn_interval inp in
      case be_source_timestamp e of
        None \<Rightarrow> Inl INPUT_OUTSIDE_WINDOW
      | Some at \<Rightarrow>
          if be_trade e = None \<or> at < bn_start inp \<or> at \<ge> finish then Inl INPUT_OUTSIDE_WINDOW
          else
            let key = event_key e;
                prior = (case map_of (ts_seen s) key of None \<Rightarrow> '''' | Some h \<Rightarrow> h)
            in if prior \<noteq> '''' \<and> prior \<noteq> be_payload_hash e then Inl TRADE_CONFLICT
               else if prior \<noteq> '''' then Inr s
               else Inr \<lparr>ts_seen = AList.update key (be_payload_hash e) (ts_seen s),
                 ts_ids = ts_ids s @ [te_id t],
                 ts_reasons = ts_reasons s @ event_reasons inp e,
                 ts_kept = ts_kept s @ [t]\<rparr>)"

record capture_state =
  cs_covered :: time
  cs_ids :: "ident list"
  cs_reasons :: "string list"

definition gap_reasons :: "bar_input \<Rightarrow> capture_evidence \<Rightarrow> string list" where
  "gap_reasons inp c =
     concat (map (\<lambda>gap. if mg_channel gap \<noteq> ''trades'' then []
       else case tradeGapRange gap (ce_at c) of (from_t, to_t) \<Rightarrow>
         if from_t < bn_start inp + bn_interval inp \<and> to_t \<ge> bn_start inp then [''feed_gap''] else [])
       (mh_gaps (ce_health c)))"

definition capture_step :: "bar_input \<Rightarrow> capture_state \<Rightarrow> capture_evidence \<Rightarrow> capture_state" where
  "capture_step inp s c =
     (let start = bn_start inp; finish = start + bn_interval inp in
      \<lparr>cs_covered = max (cs_covered s) (ce_at c),
       cs_ids = cs_ids s @ [ce_id c],
       cs_reasons = cs_reasons s
         @ (if ce_from c < finish \<and> ce_at c \<ge> start
            then (if ce_restarted c then [''restart''] else [])
              @ (if ce_history_truncated c then [''gap_history_truncated''] else [])
            else [])
         @ (if ce_from c > cs_covered s then [''capture_gap''] else [])
         @ (if ce_at c - ce_from c > captureSilenceMs then [''capture_silence''] else [])
         @ gap_reasons inp c
         @ (if ce_at c < finish \<and> ce_at c \<ge> start
              \<and> (\<not> mh_connected (ce_health c) \<or> mh_trades_status (ce_health c) \<noteq> ''healthy'')
            then [''channel_unhealthy''] else [])\<rparr>)"

definition ohlc_step :: "ohlc option \<times> int \<Rightarrow> trade_evidence \<Rightarrow> bar_error + (ohlc option \<times> int)" where
  "ohlc_step st t = (case be_trade (te_event t) of
     None \<Rightarrow> Inr st
   | Some (price, quantity) \<Rightarrow>
       require (am_unit price = ''USD_PER_BTC'' \<and> am_decimals price = 6 \<and> am_unit quantity = ''BTC''
           \<and> am_decimals quantity = 8 \<and> positive_canonical (am_raw price) \<and> positive_canonical (am_raw quantity))
         INVALID_AMOUNT
         (let px = read_int (am_raw price); volume = snd st + read_int (am_raw quantity) in
          Inr (Some (case fst st of
              None \<Rightarrow> \<lparr>oh_open = px, oh_high = px, oh_low = px, oh_close = px\<rparr>
            | Some o' \<Rightarrow> o'\<lparr>oh_high := (if px > oh_high o' then px else oh_high o'),
                oh_low := (if px < oh_low o' then px else oh_low o'), oh_close := px\<rparr>), volume)))"

definition trade_order :: "trade_evidence \<Rightarrow> int \<times> string" where
  "trade_order t = ((case be_source_timestamp (te_event t) of None \<Rightarrow> 0 | Some at \<Rightarrow> at), be_key (te_event t))"

definition buildClosedBar :: "bar_input \<Rightarrow> bar_error + closed_bar" where
  "buildClosedBar inp =
     (let start = bn_start inp; finish = start + bn_interval inp in
      bind_res (barStart start (bn_interval inp)) (\<lambda>aligned.
      require (\<not> (aligned \<noteq> start \<or> \<not> \<bar>bn_as_of inp\<bar> \<le> 9007199254740991 \<or> bn_as_of inp < finish + latenessMs)) NOT_CLOSED
      (require (\<not> (length (bn_trades inp) > tradesLimit \<or> length (bn_captures inp) > capturesLimit)) INPUT_LIMIT
       (bind_res (fold_res (trade_step inp) \<lparr>ts_seen = [], ts_ids = [], ts_reasons = [], ts_kept = []\<rparr> (bn_trades inp)) (\<lambda>ts.
        let trades = sort_key trade_order (ts_kept ts);
            captures = sort_key ce_at (bn_captures inp);
            cs = foldl (capture_step inp) \<lparr>cs_covered = start, cs_ids = [], cs_reasons = []\<rparr> captures;
            warmup = (length captures = 0 \<or> ce_from (captures ! 0) > start \<or> cs_covered cs < finish + latenessMs);
            reasons = ts_reasons ts @ (if length trades = 0 then [''no_trades''] else []) @ cs_reasons cs
              @ (if warmup then [''warmup_incomplete''] else [])
        in bind_res (fold_res ohlc_step (None, 0) trades) (\<lambda>(oh, volume).
           require (bn_as_of inp \<le> 8640000000000000) RANGE_ERROR (Inr \<lparr>cb_build_version = bar_build_version, cb_instrument_version = bn_instrument_version inp,
             cb_interval_ms = bn_interval inp, cb_start_at = start, cb_end_at = finish, cb_closed_at = bn_as_of inp,
             cb_ohlc = oh, cb_volume = volume, cb_trade_count = length trades,
             cb_complete = (length reasons = 0), cb_reasons = sort (remdups reasons),
             cb_input_ids = sort (remdups (bn_metadata_id inp # ts_ids ts @ cs_ids cs))\<rparr>)))))))"

section \<open>Warm-up\<close>

datatype warmup_reason = Incomplete_Or_Discontinuous | Observed_Window | Insufficient_Bars

fun warmup_walk :: "string option \<Rightarrow> int \<Rightarrow> time \<Rightarrow> closed_bar list \<Rightarrow> bool" where
  "warmup_walk version interval expected [] = True"
| "warmup_walk version interval expected (b # bs) =
     (if cb_interval_ms b \<noteq> interval \<or> cb_end_at b \<noteq> expected \<or> \<not> cb_complete b
         \<or> Some (cb_instrument_version b) \<noteq> version \<or> cb_build_version b \<noteq> bar_build_version
      then False else warmup_walk version interval (expected - interval) bs)"

definition barWarmup :: "closed_bar list \<Rightarrow> js_number \<Rightarrow> time \<Rightarrow> int \<Rightarrow> bar_error + (bool \<times> warmup_reason)" where
  "barWarmup bars required asOf interval = (case required of
     Integral n \<Rightarrow>
       require (\<not> (n < 1 \<or> n > readBars)) INVALID_WARMUP
       (bind_res (barStart (asOf - latenessMs) interval) (\<lambda>expectedEnd.
        let version = (case bars of [] \<Rightarrow> None | b # _ \<Rightarrow> Some (cb_instrument_version b)) in
        if \<not> warmup_walk version interval expectedEnd (take (nat n) bars)
        then Inr (False, Incomplete_Or_Discontinuous)
        else if int (length bars) \<ge> n then Inr (True, Observed_Window) else Inr (False, Insufficient_Bars)))
   | _ \<Rightarrow> Inl INVALID_WARMUP)"

section \<open>Deduplication and order\<close>

abbreviation key_of :: "trade_evidence \<Rightarrow> string" where
  "key_of t \<equiv> event_key (te_event t)"

definition in_window :: "bar_input \<Rightarrow> trade_evidence \<Rightarrow> bool" where
  "in_window inp t \<longleftrightarrow> be_trade (te_event t) \<noteq> None \<and> (\<exists>at. be_source_timestamp (te_event t) = Some at
     \<and> bn_start inp \<le> at \<and> at < bn_start inp + bn_interval inp)"

definition hashed :: "trade_evidence list \<Rightarrow> bool" where
  "hashed ts \<longleftrightarrow> (\<forall>t \<in> set ts. be_payload_hash (te_event t) \<noteq> '''')"

definition trade_inv :: "bar_input \<Rightarrow> trade_evidence list \<Rightarrow> trade_state \<Rightarrow> bool" where
  "trade_inv inp h s \<longleftrightarrow> (hashed h \<longrightarrow>
     (\<forall>t \<in> set h. in_window inp t)
     \<and> (\<forall>t \<in> set h. map_of (ts_seen s) (key_of t) = Some (be_payload_hash (te_event t)))
     \<and> dom (map_of (ts_seen s)) = key_of ` set (ts_kept s)
     \<and> (\<forall>k hash. map_of (ts_seen s) k = Some hash \<longrightarrow> hash \<noteq> '''')
     \<and> set (ts_kept s) \<subseteq> set h \<and> distinct (map key_of (ts_kept s))
     \<and> set (ts_reasons s) = (\<Union>t \<in> set (ts_kept s). set (event_reasons inp (te_event t))))"

lemma trade_inv_step:
  assumes inv: "trade_inv inp h s" and st: "trade_step inp s t = Inr s'"
  shows "trade_inv inp (h @ [t]) s'"
  unfolding trade_inv_def
proof
  assume "hashed (h @ [t])"
  then have hh: "hashed h" and ht: "be_payload_hash (te_event t) \<noteq> ''''" by (auto simp: hashed_def)
  let ?e = "te_event t" and ?k = "key_of t"
  let ?prior = "case map_of (ts_seen s) ?k of None \<Rightarrow> '''' | Some h \<Rightarrow> h"
  have i: "\<forall>t \<in> set h. in_window inp t" "\<forall>t \<in> set h. map_of (ts_seen s) (key_of t) = Some (be_payload_hash (te_event t))"
    "dom (map_of (ts_seen s)) = key_of ` set (ts_kept s)" "\<forall>k hash. map_of (ts_seen s) k = Some hash \<longrightarrow> hash \<noteq> ''''"
    "set (ts_kept s) \<subseteq> set h" "distinct (map key_of (ts_kept s))"
    "set (ts_reasons s) = (\<Union>t \<in> set (ts_kept s). set (event_reasons inp (te_event t)))"
    using inv hh by (auto simp: trade_inv_def)
  from st obtain at where at: "be_source_timestamp ?e = Some at" "bn_start inp \<le> at" "at < bn_start inp + bn_interval inp"
    and tr: "be_trade ?e \<noteq> None"
    by (auto simp: trade_step_def Let_def split: option.splits if_splits)
  have win: "in_window inp t" using at tr by (auto simp: in_window_def)
  have branch: "if ?prior \<noteq> '''' \<and> ?prior \<noteq> be_payload_hash ?e then False
      else if ?prior \<noteq> '''' then s' = s
      else s' = \<lparr>ts_seen = AList.update ?k (be_payload_hash ?e) (ts_seen s), ts_ids = ts_ids s @ [te_id t],
        ts_reasons = ts_reasons s @ event_reasons inp ?e, ts_kept = ts_kept s @ [t]\<rparr>"
    using st at tr ht by (auto simp: trade_step_def Let_def split: if_splits)
  show "(\<forall>t \<in> set (h @ [t]). in_window inp t)
     \<and> (\<forall>t \<in> set (h @ [t]). map_of (ts_seen s') (key_of t) = Some (be_payload_hash (te_event t)))
     \<and> dom (map_of (ts_seen s')) = key_of ` set (ts_kept s')
     \<and> (\<forall>k hash. map_of (ts_seen s') k = Some hash \<longrightarrow> hash \<noteq> '''')
     \<and> set (ts_kept s') \<subseteq> set (h @ [t]) \<and> distinct (map key_of (ts_kept s'))
     \<and> set (ts_reasons s') = (\<Union>t \<in> set (ts_kept s'). set (event_reasons inp (te_event t)))"
  proof (cases "map_of (ts_seen s) ?k")
    case None
    then have s': "s' = \<lparr>ts_seen = AList.update ?k (be_payload_hash ?e) (ts_seen s), ts_ids = ts_ids s @ [te_id t],
        ts_reasons = ts_reasons s @ event_reasons inp ?e, ts_kept = ts_kept s @ [t]\<rparr>"
      using branch by simp
    have "?k \<notin> key_of ` set (ts_kept s)" using None i(3) by blast
    moreover have "key_of u \<noteq> ?k" if "u \<in> set h" for u using i(2) that None by force
    ultimately show ?thesis
      using i win ht by (auto simp: s' map_update)
  next
    case (Some hash)
    then have "s' = s" "be_payload_hash ?e = hash" using branch i(4) by (auto split: if_splits)
    then show ?thesis using i win Some by auto
  qed
qed

interpretation trades: history_reducer "trade_step inp" "\<lparr>ts_seen = [], ts_ids = [], ts_reasons = [], ts_kept = []\<rparr>" "trade_inv inp" for inp
  by unfold_locales (simp add: trade_inv_def, rule trade_inv_step)

section \<open>Prices and volume\<close>

definition px :: "bar_event \<Rightarrow> int" where
  "px e = (case be_trade e of None \<Rightarrow> 0 | Some (p, _) \<Rightarrow> read_int (am_raw p))"

definition qty :: "bar_event \<Rightarrow> int" where
  "qty e = (case be_trade e of None \<Rightarrow> 0 | Some (_, q) \<Rightarrow> read_int (am_raw q))"

definition ohlc_of :: "bar_event list \<Rightarrow> ohlc option" where
  "ohlc_of es = (if es = [] then None
     else Some \<lparr>oh_open = px (hd es), oh_high = Max (px ` set es), oh_low = Min (px ` set es), oh_close = px (last es)\<rparr>)"

definition volume_of :: "bar_event list \<Rightarrow> int" where
  "volume_of es = sum_list (map qty es)"

definition ohlc_inv :: "trade_evidence list \<Rightarrow> ohlc option \<times> int \<Rightarrow> bool" where
  "ohlc_inv h st \<longleftrightarrow> ((\<forall>t \<in> set h. be_trade (te_event t) \<noteq> None) \<longrightarrow>
     fst st = ohlc_of (map te_event h) \<and> snd st = volume_of (map te_event h))"

lemma ohlc_of_snoc:
  "ohlc_of (es @ [e]) = Some (case ohlc_of es of
      None \<Rightarrow> \<lparr>oh_open = px e, oh_high = px e, oh_low = px e, oh_close = px e\<rparr>
    | Some o' \<Rightarrow> o'\<lparr>oh_high := (if px e > oh_high o' then px e else oh_high o'),
        oh_low := (if px e < oh_low o' then px e else oh_low o'), oh_close := px e\<rparr>)"
proof (cases "es = []")
  case True
  then show ?thesis by (simp add: ohlc_of_def)
next
  case False
  define H L where "H = Max (px ` set es)" and "L = Min (px ` set es)"
  have "Max (px ` set (es @ [e])) = max (px e) H" "Min (px ` set (es @ [e])) = min (px e) L"
    using False by (simp_all add: H_def L_def)
  moreover have "max (px e) H = (if px e > H then px e else H)" "min (px e) L = (if px e < L then px e else L)"
    by (simp_all add: max_def min_def)
  ultimately show ?thesis
    using False by (simp add: ohlc_of_def H_def [symmetric] L_def [symmetric] del: set_append image_Un)
qed

interpretation prices: history_reducer ohlc_step "(None, 0)" ohlc_inv
proof (unfold_locales)
  show "ohlc_inv [] (None, 0)" by (simp add: ohlc_inv_def ohlc_of_def volume_of_def)
next
  fix h st t st'
  assume inv: "ohlc_inv h st" and step: "ohlc_step st t = Inr st'"
  show "ohlc_inv (h @ [t]) st'"
    unfolding ohlc_inv_def
  proof
    assume all: "\<forall>t \<in> set (h @ [t]). be_trade (te_event t) \<noteq> None"
    then obtain p q where t: "be_trade (te_event t) = Some (p, q)" by auto
    from inv all have st: "fst st = ohlc_of (map te_event h)" "snd st = volume_of (map te_event h)"
      by (auto simp: ohlc_inv_def)
    have eq: "px (te_event t) = read_int (am_raw p)" "qty (te_event t) = read_int (am_raw q)"
      by (simp_all add: px_def qty_def t)
    have "st' = (Some (case fst st of None \<Rightarrow> \<lparr>oh_open = px (te_event t), oh_high = px (te_event t),
          oh_low = px (te_event t), oh_close = px (te_event t)\<rparr>
        | Some o' \<Rightarrow> o'\<lparr>oh_high := (if px (te_event t) > oh_high o' then px (te_event t) else oh_high o'),
            oh_low := (if px (te_event t) < oh_low o' then px (te_event t) else oh_low o'), oh_close := px (te_event t)\<rparr>),
        snd st + qty (te_event t))"
      using step unfolding eq by (simp add: ohlc_step_def t Let_def)
    then show "fst st' = ohlc_of (map te_event (h @ [t])) \<and> snd st' = volume_of (map te_event (h @ [t]))"
      using st by (simp add: ohlc_of_snoc) (simp add: volume_of_def)
  qed
qed

section \<open>The bar\<close>

definition cover_run :: "bar_input \<Rightarrow> capture_evidence list \<Rightarrow> capture_state" where
  "cover_run inp cs = foldl (capture_step inp) \<lparr>cs_covered = bn_start inp, cs_ids = [], cs_reasons = []\<rparr> cs"

definition cover_state :: "bar_input \<Rightarrow> capture_state" where
  "cover_state inp = cover_run inp (sort_key ce_at (bn_captures inp))"

definition cover_reasons :: "bar_input \<Rightarrow> string list" where
  "cover_reasons inp = cs_reasons (cover_state inp)
     @ (if length (sort_key ce_at (bn_captures inp)) = 0 \<or> ce_from (sort_key ce_at (bn_captures inp) ! 0) > bn_start inp
           \<or> cs_covered (cover_state inp) < bn_start inp + bn_interval inp + latenessMs
        then [''warmup_incomplete''] else [])"

lemma sort_key_Nil: "sort_key f xs = [] \<longleftrightarrow> xs = []"
  by (metis set_empty set_sort)

lemma buildClosedBar_cases:
  assumes "buildClosedBar inp = Inr b"
  obtains ts where "fold_res (trade_step inp) \<lparr>ts_seen = [], ts_ids = [], ts_reasons = [], ts_kept = []\<rparr> (bn_trades inp) = Inr ts"
    and "fold_res ohlc_step (None, 0) (sort_key trade_order (ts_kept ts)) = Inr (cb_ohlc b, cb_volume b)"
    and "cb_trade_count b = length (ts_kept ts)"
    and "cb_complete b \<longleftrightarrow> ts_reasons ts @ (if ts_kept ts = [] then [''no_trades''] else []) @ cover_reasons inp = []"
    and "cb_reasons b = sort (remdups (ts_reasons ts @ (if ts_kept ts = [] then [''no_trades''] else []) @ cover_reasons inp))"
    and "cb_start_at b = bn_start inp" and "cb_end_at b = bn_start inp + bn_interval inp"
    and "barStart (bn_start inp) (bn_interval inp) = Inr (bn_start inp)"
    and "cb_end_at b + latenessMs \<le> bn_as_of inp"
proof -
  from assms obtain ts oh vol where
    ts: "fold_res (trade_step inp) \<lparr>ts_seen = [], ts_ids = [], ts_reasons = [], ts_kept = []\<rparr> (bn_trades inp) = Inr ts"
    and oh: "fold_res ohlc_step (None, 0) (sort_key trade_order (ts_kept ts)) = Inr (oh, vol)"
    and start: "barStart (bn_start inp) (bn_interval inp) = Inr (bn_start inp)"
    and late: "\<not> bn_as_of inp < bn_start inp + bn_interval inp + latenessMs"
    and b: "b = \<lparr>cb_build_version = bar_build_version, cb_instrument_version = bn_instrument_version inp,
      cb_interval_ms = bn_interval inp, cb_start_at = bn_start inp, cb_end_at = bn_start inp + bn_interval inp,
      cb_closed_at = bn_as_of inp, cb_ohlc = oh, cb_volume = vol, cb_trade_count = length (ts_kept ts),
      cb_complete = (ts_reasons ts @ (if ts_kept ts = [] then [''no_trades''] else []) @ cover_reasons inp = []),
      cb_reasons = sort (remdups (ts_reasons ts @ (if ts_kept ts = [] then [''no_trades''] else []) @ cover_reasons inp)),
      cb_input_ids = sort (remdups (bn_metadata_id inp # ts_ids ts @ cs_ids (cover_state inp)))\<rparr>"
    by (auto simp: buildClosedBar_def Let_def cover_reasons_def cover_state_def cover_run_def sort_key_Nil)
  show thesis by (rule that [OF ts]) (use oh start late in \<open>simp_all add: b\<close>)
qed

section \<open>Kept trades\<close>

lemma fold_ohlc_priced:
  assumes "\<forall>t \<in> set ts. be_trade (te_event t) \<noteq> None" "fold_res ohlc_step (None, 0) ts = Inr (oh, vol)"
  shows "oh = ohlc_of (map te_event ts)" "vol = volume_of (map te_event ts)"
  using prices.run_inv [OF assms(2)] assms(1) by (auto simp: ohlc_inv_def)

definition kept_of :: "bar_input \<Rightarrow> trade_evidence list \<Rightarrow> bool" where
  "kept_of inp ts \<longleftrightarrow> set ts \<subseteq> set (bn_trades inp) \<and> distinct (map key_of ts)
     \<and> key_of ` set ts = key_of ` set (bn_trades inp) \<and> sorted (map trade_order ts)
     \<and> (\<forall>t \<in> set (bn_trades inp). in_window inp t)
     \<and> (\<forall>t \<in> set ts. \<forall>u \<in> set (bn_trades inp). key_of t = key_of u \<longrightarrow>
          be_payload_hash (te_event t) = be_payload_hash (te_event u))"

lemma buildClosedBar_kept:
  assumes h: "hashed (bn_trades inp)" and b: "buildClosedBar inp = Inr b"
  obtains ts where "kept_of inp ts"
    and "cb_ohlc b = ohlc_of (map te_event ts)" and "cb_volume b = volume_of (map te_event ts)"
    and "cb_trade_count b = length ts"
    and "set (cb_reasons b) = (\<Union>t \<in> set ts. set (event_reasons inp (te_event t)))
           \<union> (if ts = [] then {''no_trades''} else {}) \<union> set (cover_reasons inp)"
    and "cb_complete b \<longleftrightarrow> cb_reasons b = []"
    and "sorted (cb_reasons b)" and "distinct (cb_reasons b)"
proof -
  obtain st where st: "fold_res (trade_step inp) \<lparr>ts_seen = [], ts_ids = [], ts_reasons = [], ts_kept = []\<rparr> (bn_trades inp) = Inr st"
    and oh: "fold_res ohlc_step (None, 0) (sort_key trade_order (ts_kept st)) = Inr (cb_ohlc b, cb_volume b)"
    and n: "cb_trade_count b = length (ts_kept st)"
    and c: "cb_complete b \<longleftrightarrow> ts_reasons st @ (if ts_kept st = [] then [''no_trades''] else []) @ cover_reasons inp = []"
    and r: "cb_reasons b = sort (remdups (ts_reasons st @ (if ts_kept st = [] then [''no_trades''] else []) @ cover_reasons inp))"
    using buildClosedBar_cases [OF b] by blast
  let ?ts = "sort_key trade_order (ts_kept st)"
  have inv: "\<forall>t \<in> set (bn_trades inp). in_window inp t"
    "\<forall>t \<in> set (bn_trades inp). map_of (ts_seen st) (key_of t) = Some (be_payload_hash (te_event t))"
    "dom (map_of (ts_seen st)) = key_of ` set (ts_kept st)"
    "set (ts_kept st) \<subseteq> set (bn_trades inp)" "distinct (map key_of (ts_kept st))"
    "set (ts_reasons st) = (\<Union>t \<in> set (ts_kept st). set (event_reasons inp (te_event t)))"
    using trades.run_inv [OF st] h by (simp_all add: trade_inv_def)
  have "key_of ` set (bn_trades inp) \<subseteq> dom (map_of (ts_seen st))" using inv(2) by blast
  then have keys: "key_of ` set (ts_kept st) = key_of ` set (bn_trades inp)"
    using inv(3,4) by blast
  have "distinct (map key_of ?ts)"
    using inv(5) by (simp add: distinct_map)
  moreover have "\<forall>t \<in> set (ts_kept st). \<forall>u \<in> set (bn_trades inp). key_of t = key_of u \<longrightarrow>
      be_payload_hash (te_event t) = be_payload_hash (te_event u)"
    using inv(2,4) by (metis option.inject subsetD)
  ultimately have kept: "kept_of inp ?ts"
    using inv(1,4) keys by (simp add: kept_of_def)
  have priced: "\<forall>t \<in> set ?ts. be_trade (te_event t) \<noteq> None"
    using inv(1,4) by (auto simp: in_window_def)
  have reasons: "set (cb_reasons b) = (\<Union>t \<in> set ?ts. set (event_reasons inp (te_event t)))
           \<union> (if ?ts = [] then {''no_trades''} else {}) \<union> set (cover_reasons inp)"
    by (simp add: r inv(6) sort_key_Nil Un_assoc)
  have "cb_reasons b = [] \<longleftrightarrow> cb_complete b" unfolding r c sort_key_Nil by simp
  moreover have "sorted (cb_reasons b)" "distinct (cb_reasons b)" by (simp_all add: r)
  ultimately show thesis
    using that [OF kept] fold_ohlc_priced [OF priced oh] n reasons by simp
qed

section \<open>Coverage\<close>

definition covers :: "capture_evidence list \<Rightarrow> time \<Rightarrow> bool" where
  "covers cs u \<longleftrightarrow> (\<exists>c \<in> set cs. ce_from c \<le> u \<and> u \<le> ce_at c)"

definition sound_capture :: "bar_input \<Rightarrow> capture_evidence \<Rightarrow> bool" where
  "sound_capture inp c \<longleftrightarrow>
     ce_at c - ce_from c \<le> captureSilenceMs
     \<and> (\<forall>g \<in> set (mh_gaps (ce_health c)). mg_channel g = ''trades'' \<longrightarrow>
          \<not> (fst (tradeGapRange g (ce_at c)) < bn_start inp + bn_interval inp
             \<and> bn_start inp \<le> snd (tradeGapRange g (ce_at c))))
     \<and> (bn_start inp \<le> ce_at c \<and> ce_at c < bn_start inp + bn_interval inp \<longrightarrow>
          mh_connected (ce_health c) \<and> mh_trades_status (ce_health c) = ''healthy'')
     \<and> (ce_from c < bn_start inp + bn_interval inp \<and> bn_start inp \<le> ce_at c \<longrightarrow>
          \<not> ce_restarted c \<and> \<not> ce_history_truncated c)"

lemma gap_reasons_Nil:
  "gap_reasons inp c = [] \<longleftrightarrow>
     (\<forall>g \<in> set (mh_gaps (ce_health c)). mg_channel g = ''trades'' \<longrightarrow>
          \<not> (fst (tradeGapRange g (ce_at c)) < bn_start inp + bn_interval inp
             \<and> bn_start inp \<le> snd (tradeGapRange g (ce_at c))))"
  by (auto simp: gap_reasons_def split_def split: if_splits)

lemma guarded_Nil: "(if b then [x] else []) = [] \<longleftrightarrow> \<not> b"
  by simp

lemma capture_step_quiet:
  assumes "cs_reasons (capture_step inp s c) = []"
  shows "cs_reasons s = [] \<and> ce_from c \<le> cs_covered s \<and> sound_capture inp c"
proof -
  let ?in = "ce_from c < bn_start inp + bn_interval inp \<and> ce_at c \<ge> bn_start inp"
  have "cs_reasons s = []" "gap_reasons inp c = []"
    and r: "(if ?in then (if ce_restarted c then [''restart''] else [])
        @ (if ce_history_truncated c then [''gap_history_truncated''] else []) else []) = []"
    and "\<not> ce_from c > cs_covered s" "\<not> ce_at c - ce_from c > captureSilenceMs"
    and u: "\<not> (ce_at c < bn_start inp + bn_interval inp \<and> ce_at c \<ge> bn_start inp
        \<and> (\<not> mh_connected (ce_health c) \<or> mh_trades_status (ce_health c) \<noteq> ''healthy''))"
    using assms unfolding capture_step_def Let_def capture_state.simps append_is_Nil_conv guarded_Nil by blast+
  moreover have "?in \<longrightarrow> \<not> ce_restarted c \<and> \<not> ce_history_truncated c"
    using r by (auto split: if_splits)
  ultimately show ?thesis
    unfolding sound_capture_def gap_reasons_Nil [symmetric] by (auto simp: not_less)
qed

lemma captures_quiet:
  assumes "cs_reasons (cover_run inp cs) = []"
  shows "(\<forall>c \<in> set cs. sound_capture inp c)
    \<and> (bn_start inp < cs_covered (cover_run inp cs) \<longrightarrow> (\<forall>u. bn_start inp \<le> u \<and> u \<le> cs_covered (cover_run inp cs) \<longrightarrow> covers cs u))"
  using assms
proof (induction cs rule: rev_induct)
  case Nil
  then show ?case by (simp add: cover_run_def)
next
  case (snoc c cs)
  let ?s = "cover_run inp cs" and ?s' = "cover_run inp (cs @ [c])"
  have run: "?s' = capture_step inp ?s c" by (simp add: cover_run_def)
  then have q: "cs_reasons ?s = []" "ce_from c \<le> cs_covered ?s" "sound_capture inp c"
    using capture_step_quiet snoc.prems by metis+
  have cov: "cs_covered ?s' = max (cs_covered ?s) (ce_at c)" by (simp add: run capture_step_def Let_def)
  have ge: "bn_start inp \<le> cs_covered ?s"
    by (induction cs rule: rev_induct) (auto simp: cover_run_def capture_step_def Let_def)
  have "covers (cs @ [c]) u" if u: "bn_start inp \<le> u" "u \<le> cs_covered ?s'" and lt: "bn_start inp < cs_covered ?s'" for u
  proof (cases "ce_from c \<le> u \<and> u \<le> ce_at c")
    case True
    then show ?thesis by (auto simp: covers_def)
  next
    case False
    have "u \<le> cs_covered ?s" "bn_start inp < cs_covered ?s" using False u lt q(2) ge cov by linarith+
    then have "covers cs u" using snoc.IH q(1) u(1) by simp
    then show ?thesis by (auto simp: covers_def)
  qed
  then show ?case using snoc.IH q by simp
qed

section \<open>Properties\<close>

lemma sorted_events_unique:
  assumes "sorted (map trade_order xs)" "sorted (map trade_order ys)"
    and "distinct (map te_event xs)" "distinct (map te_event ys)"
    and "te_event ` set xs = te_event ` set ys"
    and inj: "\<forall>t \<in> set xs \<union> set ys. \<forall>u \<in> set xs \<union> set ys. trade_order t = trade_order u \<longrightarrow> te_event t = te_event u"
  shows "map te_event xs = map te_event ys"
proof -
  define f where "f e = ((case be_source_timestamp e of None \<Rightarrow> 0 | Some at \<Rightarrow> at), be_key e)" for e :: bar_event
  have f: "f \<circ> te_event = trade_order" by (simp add: fun_eq_iff trade_order_def f_def)
  have "inj_on f (te_event ` (set xs \<union> set ys))"
  proof (rule inj_onI)
    fix d e
    assume "d \<in> te_event ` (set xs \<union> set ys)" "e \<in> te_event ` (set xs \<union> set ys)" and eq: "f d = f e"
    then obtain t u where "t \<in> set xs \<union> set ys" "d = te_event t" "u \<in> set xs \<union> set ys" "e = te_event u" by blast
    then show "d = e" using inj eq fun_cong [OF f] by (metis comp_apply)
  qed
  moreover have "set (map te_event xs) = set (map te_event ys)" using assms(5) by simp
  moreover from calculation(1) have "distinct (map f (map te_event xs))" "distinct (map f (map te_event ys))"
    using assms(3,4) by (simp_all only: distinct_map) (auto intro: inj_on_subset)
  moreover have "sorted (map f (map te_event xs))" "sorted (map f (map te_event ys))"
    using assms(1,2) by (simp_all add: f)
  ultimately show ?thesis
    by (intro map_sorted_distinct_set_unique [of f]) (simp_all only: set_map image_Un)
qed

lemma kept_events:
  assumes k: "kept_of inp ts"
    and sound: "\<forall>t \<in> set (bn_trades inp). \<forall>u \<in> set (bn_trades inp). key_of t = key_of u
           \<and> be_payload_hash (te_event t) = be_payload_hash (te_event u) \<longrightarrow> te_event t = te_event u"
  shows "te_event ` set ts = te_event ` set (bn_trades inp)" and "distinct (map te_event ts)"
proof -
  have "te_event t \<in> te_event ` set ts" if t: "t \<in> set (bn_trades inp)" for t
  proof -
    have "key_of t \<in> key_of ` set ts" using k t by (simp add: kept_of_def)
    then obtain u where u: "u \<in> set ts" "key_of u = key_of t" by auto
    moreover have "u \<in> set (bn_trades inp)" "be_payload_hash (te_event u) = be_payload_hash (te_event t)"
      using k t u unfolding kept_of_def by blast+
    ultimately have "te_event u = te_event t" using sound t by blast
    then show ?thesis using u(1) by (metis imageI)
  qed
  with k show "te_event ` set ts = te_event ` set (bn_trades inp)"
    unfolding kept_of_def by blast
  have "distinct (map event_key (map te_event ts))" using k by (simp add: kept_of_def comp_def)
  then show "distinct (map te_event ts)" by (simp only: distinct_map)
qed

lemma warmup_walk_iff:
  "warmup_walk v interval expected bs \<longleftrightarrow> (\<forall>i < length bs. cb_interval_ms (bs ! i) = interval
     \<and> cb_end_at (bs ! i) = expected - int i * interval \<and> cb_complete (bs ! i)
     \<and> Some (cb_instrument_version (bs ! i)) = v \<and> cb_build_version (bs ! i) = bar_build_version)"
proof (induction bs arbitrary: expected)
  case Nil
  then show ?case by simp
next
  case (Cons b bs)
  have shift: "expected - interval - int i * interval = expected - int (Suc i) * interval" for i
    by (simp add: algebra_simps)
  have head: "warmup_walk v interval expected (b # bs) \<longleftrightarrow> (cb_interval_ms b = interval \<and> cb_end_at b = expected - int 0 * interval
      \<and> cb_complete b \<and> Some (cb_instrument_version b) = v \<and> cb_build_version b = bar_build_version)
      \<and> warmup_walk v interval (expected - interval) bs"
    by auto
  show ?case
    unfolding head Cons.IH shift length_Cons All_less_Suc2 nth_Cons_0 nth_Cons_Suc ..
qed

text \<open>A closed bar aggregates the validated trades exactly once per key: open and close are the
  first and last price in the order of source time and key, high and low bound all prices, the volume
  is the sum, and every input trade is in the window and agrees with the kept trade of its key.\<close>

theorem bar_aggregates:
  assumes "hashed (bn_trades inp)" and "buildClosedBar inp = Inr b"
  shows "\<exists>ts. kept_of inp ts \<and> cb_ohlc b = ohlc_of (map te_event ts) \<and> cb_volume b = volume_of (map te_event ts)
    \<and> cb_trade_count b = length ts"
  using buildClosedBar_kept [OF assms] by metis

text \<open>A complete bar is really covered: it has trades, each kept trade is fresh, gap-free, of the
  bar's metadata version and received in time, every instant from the start to the end plus the
  lateness lies in a capture, and each capture is short, healthy in the window and free of trade gaps
  that touch it.\<close>

theorem bar_complete:
  assumes "hashed (bn_trades inp)" and "buildClosedBar inp = Inr b" and "cb_complete b"
  shows "0 < cb_trade_count b
    \<and> (\<forall>t \<in> set (bn_trades inp). \<exists>u \<in> set (bn_trades inp). key_of u = key_of t
         \<and> be_payload_hash (te_event u) = be_payload_hash (te_event t) \<and> event_reasons inp (te_event u) = [])
    \<and> (\<forall>c \<in> set (bn_captures inp). sound_capture inp c)
    \<and> (\<forall>u. bn_start inp \<le> u \<and> u \<le> cb_end_at b + latenessMs \<longrightarrow> covers (bn_captures inp) u)"
proof -
  obtain ts where k: "kept_of inp ts" and n: "cb_trade_count b = length ts"
    and r: "set (cb_reasons b) = (\<Union>t \<in> set ts. set (event_reasons inp (te_event t)))
           \<union> (if ts = [] then {''no_trades''} else {}) \<union> set (cover_reasons inp)"
    and c: "cb_complete b \<longleftrightarrow> cb_reasons b = []"
    using buildClosedBar_kept [OF assms(1,2)] by metis
  have e: "ts \<noteq> []" "\<forall>t \<in> set ts. event_reasons inp (te_event t) = []" "cover_reasons inp = []"
    using r c assms(3) by (auto split: if_splits)
  have b: "cb_end_at b = bn_start inp + bn_interval inp" "0 < bn_interval inp"
    by (rule buildClosedBar_cases [OF assms(2)]; simp; fail) (rule buildClosedBar_cases [OF assms(2)], auto simp: barStart_def)
  let ?cs = "sort_key ce_at (bn_captures inp)"
  have q: "cs_reasons (cover_run inp ?cs) = []" "cb_end_at b + latenessMs \<le> cs_covered (cover_run inp ?cs)"
    using e(3) b(1) by (auto simp: cover_reasons_def cover_state_def split: if_splits)
  have cap: "\<forall>c \<in> set (bn_captures inp). sound_capture inp c"
    "\<forall>u. bn_start inp \<le> u \<and> u \<le> cb_end_at b + latenessMs \<longrightarrow> covers (bn_captures inp) u"
    using captures_quiet [OF q(1)] q(2) b by (auto simp: covers_def latenessMs_def)
  have "\<exists>u \<in> set (bn_trades inp). key_of u = key_of t
      \<and> be_payload_hash (te_event u) = be_payload_hash (te_event t) \<and> event_reasons inp (te_event u) = []"
    if t: "t \<in> set (bn_trades inp)" for t
  proof -
    have "key_of t \<in> key_of ` set ts" using k t by (simp add: kept_of_def)
    then obtain u where "u \<in> set ts" "key_of u = key_of t" by auto
    then show ?thesis using k e(2) t unfolding kept_of_def by blast
  qed
  with cap e(1) n show ?thesis by simp
qed

text \<open>The bar does not depend on the order in which its trades arrive: two inputs with the same
  trades, where a key and payload hash identify one event and times and keys tell events apart, give
  the same prices, volume, count, completeness and reasons.\<close>

theorem bar_order_independent:
  assumes "buildClosedBar inp = Inr b" and "buildClosedBar (inp\<lparr>bn_trades := ts'\<rparr>) = Inr b'"
    and "set ts' = set (bn_trades inp)" and "hashed (bn_trades inp)"
    and "\<forall>t \<in> set ts'. \<forall>u \<in> set ts'. key_of t = key_of u
           \<and> be_payload_hash (te_event t) = be_payload_hash (te_event u) \<longrightarrow> te_event t = te_event u"
    and "\<forall>t \<in> set ts'. \<forall>u \<in> set ts'. trade_order t = trade_order u \<longrightarrow> te_event t = te_event u"
  shows "cb_ohlc b' = cb_ohlc b \<and> cb_volume b' = cb_volume b \<and> cb_trade_count b' = cb_trade_count b
    \<and> cb_complete b' = cb_complete b \<and> cb_reasons b' = cb_reasons b"
proof -
  let ?inp' = "inp\<lparr>bn_trades := ts'\<rparr>"
  obtain xs where xs: "kept_of inp xs" "cb_ohlc b = ohlc_of (map te_event xs)" "cb_volume b = volume_of (map te_event xs)"
      "cb_trade_count b = length xs" "cb_complete b \<longleftrightarrow> cb_reasons b = []" "sorted (cb_reasons b)" "distinct (cb_reasons b)"
    and rx: "set (cb_reasons b) = (\<Union>t \<in> set xs. set (event_reasons inp (te_event t)))
           \<union> (if xs = [] then {''no_trades''} else {}) \<union> set (cover_reasons inp)"
    using buildClosedBar_kept [OF assms(4,1)] by metis
  have "hashed (bn_trades ?inp')" using assms(3,4) by (simp add: hashed_def)
  then obtain ys where ys: "kept_of ?inp' ys" "cb_ohlc b' = ohlc_of (map te_event ys)" "cb_volume b' = volume_of (map te_event ys)"
      "cb_trade_count b' = length ys" "cb_complete b' \<longleftrightarrow> cb_reasons b' = []" "sorted (cb_reasons b')" "distinct (cb_reasons b')"
    and ry: "set (cb_reasons b') = (\<Union>t \<in> set ys. set (event_reasons ?inp' (te_event t)))
           \<union> (if ys = [] then {''no_trades''} else {}) \<union> set (cover_reasons ?inp')"
    using buildClosedBar_kept [OF _ assms(2)] by metis
  have sub: "set xs \<union> set ys \<subseteq> set ts'" using xs(1) ys(1) assms(3) by (simp add: kept_of_def)
  have ex: "te_event ` set xs = te_event ` set ts'" "distinct (map te_event xs)"
    using kept_events [OF xs(1)] assms(3,5) by simp_all
  have ey: "te_event ` set ys = te_event ` set ts'" "distinct (map te_event ys)"
    using kept_events [OF ys(1)] assms(5) by simp_all
  have eq: "map te_event xs = map te_event ys"
  proof (rule sorted_events_unique)
    show "sorted (map trade_order xs)" "sorted (map trade_order ys)" using xs(1) ys(1) by (simp_all add: kept_of_def)
    show "te_event ` set xs = te_event ` set ys" using ex(1) ey(1) by simp
    show "\<forall>t \<in> set xs \<union> set ys. \<forall>u \<in> set xs \<union> set ys. trade_order t = trade_order u \<longrightarrow> te_event t = te_event u"
      using sub assms(6) by blast
  qed (rule ex(2) ey(2))+
  have "event_reasons ?inp' = event_reasons inp" by (simp add: fun_eq_iff event_reasons_def cong: option.case_cong)
  moreover have "cover_reasons ?inp' = cover_reasons inp"
  proof -
    have "gap_reasons ?inp' = gap_reasons inp" by (simp add: fun_eq_iff gap_reasons_def tradeGapRange_def cong: if_cong)
    then have "capture_step ?inp' = capture_step inp" by (simp add: fun_eq_iff capture_step_def Let_def)
    then show ?thesis by (simp add: cover_reasons_def cover_state_def cover_run_def)
  qed
  moreover have "(\<Union>t \<in> set xs. set (event_reasons inp (te_event t))) = (\<Union>t \<in> set ys. set (event_reasons inp (te_event t)))"
    using ex(1) ey(1) by (metis image_image)
  moreover have len: "length xs = length ys" using eq by (metis length_map)
  ultimately have "set (cb_reasons b') = set (cb_reasons b)" using rx ry by (auto split: if_splits)
  then have "cb_reasons b' = cb_reasons b" using xs(6,7) ys(6,7) by (simp add: sorted_distinct_set_unique)
  then show ?thesis using xs ys eq len by simp
qed

text \<open>The warm-up is ready exactly when there are at least the required bars and the first
  required ones, newest first, are complete, of one version and interval, and end one after the other
  back from the last bar that can be closed at the given instant.\<close>

theorem barWarmup_ready:
  "(\<exists>r. barWarmup bars (Integral n) asOf interval = Inr (True, r)) \<longleftrightarrow>
     1 \<le> n \<and> n \<le> readBars \<and> interval \<in> {900000, 3600000} \<and> 0 \<le> asOf - latenessMs
     \<and> asOf - latenessMs \<le> 9007199254740991 \<and> n \<le> int (length bars)
     \<and> (\<forall>i < nat n. cb_interval_ms (bars ! i) = interval \<and> cb_complete (bars ! i)
          \<and> cb_instrument_version (bars ! i) = cb_instrument_version (bars ! 0)
          \<and> cb_build_version (bars ! i) = bar_build_version
          \<and> cb_end_at (bars ! i) = (asOf - latenessMs) div interval * interval - int i * interval)"
proof (cases "1 \<le> n \<and> n \<le> int (length bars)")
  case True
  then obtain c cs where bars: "bars = c # cs" by (cases bars) auto
  have take: "length (take (nat n) bars) = nat n" "\<And>i. i < nat n \<Longrightarrow> take (nat n) bars ! i = bars ! i"
    using True by auto
  define W where "W e \<longleftrightarrow> (\<forall>i < nat n. cb_interval_ms (bars ! i) = interval \<and> cb_complete (bars ! i)
          \<and> cb_instrument_version (bars ! i) = cb_instrument_version (bars ! 0)
          \<and> cb_build_version (bars ! i) = bar_build_version
          \<and> cb_end_at (bars ! i) = e - int i * interval)" for e
  have "cb_instrument_version (bars ! 0) = cb_instrument_version c" by (simp add: bars)
  with take have walk: "warmup_walk (Some (cb_instrument_version c)) interval e (take (nat n) bars) \<longleftrightarrow> W e" for e
    unfolding warmup_walk_iff W_def by auto
  have v: "(case bars of [] \<Rightarrow> None | b # _ \<Rightarrow> Some (cb_instrument_version b)) = Some (cb_instrument_version c)"
    by (simp add: bars)
  let ?ok = "interval \<in> {900000, 3600000} \<and> 0 \<le> asOf - latenessMs \<and> asOf - latenessMs \<le> 9007199254740991"
  have start: "barStart (asOf - latenessMs) interval =
      (if ?ok then Inr ((asOf - latenessMs) div interval * interval) else Inl INVALID_TIME)"
    by (auto simp: barStart_def require_def abs_le_iff)
  show ?thesis
    unfolding barWarmup_def js_number.case Let_def v walk start W_def [symmetric]
    using True by (cases "n \<le> readBars"; cases ?ok; cases "W ((asOf - latenessMs) div interval * interval)") simp_all
next
  case False
  then show ?thesis
    by (auto simp: barWarmup_def Let_def barStart_def split: if_splits)
qed

definition sample_trade :: "time \<Rightarrow> string \<Rightarrow> string \<Rightarrow> trade_evidence" where
  "sample_trade at key price = \<lparr>te_id = key, te_event = \<lparr>be_key = key, be_source_id = ''ws'', be_source_timestamp = Some at,
     be_received_at = Some (at + 5), be_payload_hash = ''h'', be_instrument_version = ''v1'', be_quality = ''fresh'',
     be_revalidation = ''none'',
     be_trade = Some (\<lparr>am_raw = price, am_unit = ''USD_PER_BTC'', am_decimals = 6\<rparr>,
       \<lparr>am_raw = ''1'', am_unit = ''BTC'', am_decimals = 8\<rparr>)\<rparr>\<rparr>"

definition sample_capture :: "time \<Rightarrow> capture_evidence" where
  "sample_capture t = \<lparr>ce_id = ''c'', ce_from = t, ce_at = t + 10000,
     ce_health = \<lparr>mh_connected = True, mh_trades_status = ''healthy'', mh_gaps = []\<rparr>,
     ce_restarted = False, ce_history_truncated = False\<rparr>"

definition sample_bar :: "trade_evidence list \<Rightarrow> bar_input" where
  "sample_bar ts = \<lparr>bn_start = 0, bn_interval = 900000, bn_as_of = 910000, bn_instrument_version = ''v1'', bn_metadata_id = ''m'',
     bn_trades = ts, bn_captures = map (\<lambda>i. sample_capture (int i * 10000)) [0..<91]\<rparr>"
lemma sample_cover: "cs_covered (cover_state (sample_bar ts)) = 910000 \<and> cs_reasons (cover_state (sample_bar ts)) = []"
  by code_simp

lemma sample_first: "sort_key ce_at (map (\<lambda>i. sample_capture (int i * 10000)) [0..<91]) =
    map (\<lambda>i. sample_capture (int i * 10000)) [0..<91]"
  by code_simp

abbreviation "first_sample \<equiv> sample_trade 7 ''a'' ''2''"
abbreviation "second_sample \<equiv> sample_trade 9 ''b'' ''3''"

lemma sample_steps:
  "fold_res (trade_step (sample_bar ts)) \<lparr>ts_seen = [], ts_ids = [], ts_reasons = [], ts_kept = []\<rparr>
     [first_sample, second_sample]
   = Inr \<lparr>ts_seen = [(''ws:a'', ''h''), (''ws:b'', ''h'')], ts_ids = [''a'', ''b''], ts_reasons = [],
       ts_kept = [first_sample, second_sample]\<rparr>"
  "fold_res (trade_step (sample_bar ts)) \<lparr>ts_seen = [], ts_ids = [], ts_reasons = [], ts_kept = []\<rparr>
     [second_sample, first_sample]
   = Inr \<lparr>ts_seen = [(''ws:b'', ''h''), (''ws:a'', ''h'')], ts_ids = [''b'', ''a''], ts_reasons = [],
       ts_kept = [second_sample, first_sample]\<rparr>"
  by (simp_all add: trade_step_def sample_trade_def sample_bar_def event_key_def event_reasons_def Let_def latenessMs_def)

lemma sample_ohlc:
  "fold_res ohlc_step (None, 0) [first_sample, second_sample]
   = Inr (Some \<lparr>oh_open = 2, oh_high = 3, oh_low = 2, oh_close = 3\<rparr>, 2)"
  by (simp add: ohlc_step_def sample_trade_def read_nat_def is_digit_def digit_val_def Let_def)

lemma sample_sorted:
  "sort_key trade_order [first_sample, second_sample] = [first_sample, second_sample]"
  "sort_key trade_order [second_sample, first_sample] = [first_sample, second_sample]"
  by (simp_all add: trade_order_def sample_trade_def)

lemma sample_build:
  assumes "ts \<in> {[first_sample, second_sample], [second_sample, first_sample]}"
  shows "\<exists>b. buildClosedBar (sample_bar ts) = Inr b \<and> cb_complete b
    \<and> cb_ohlc b = Some \<lparr>oh_open = 2, oh_high = 3, oh_low = 2, oh_close = 3\<rparr>"
proof -
  have b: "bn_start (sample_bar ts) = 0" "bn_interval (sample_bar ts) = 900000" "bn_as_of (sample_bar ts) = 910000"
    "bn_trades (sample_bar ts) = ts" "bn_captures (sample_bar ts) = map (\<lambda>i. sample_capture (int i * 10000)) [0..<91]"
    by (simp_all add: sample_bar_def)
  have k: "cs_covered (foldl (capture_step (sample_bar ts)) \<lparr>cs_covered = 0, cs_ids = [], cs_reasons = []\<rparr>
      (map (\<lambda>i. sample_capture (int i * 10000)) [0..<91])) = 910000"
    "cs_reasons (foldl (capture_step (sample_bar ts)) \<lparr>cs_covered = 0, cs_ids = [], cs_reasons = []\<rparr>
      (map (\<lambda>i. sample_capture (int i * 10000)) [0..<91])) = []"
    using sample_cover [of ts] by (simp_all only: cover_state_def cover_run_def b sample_first)
  have two: "ts = [first_sample, second_sample] \<or> ts = [second_sample, first_sample]" using assms by simp
  then have "\<exists>st. fold_res (trade_step (sample_bar ts)) \<lparr>ts_seen = [], ts_ids = [], ts_reasons = [], ts_kept = []\<rparr> ts = Inr st
    \<and> sort_key trade_order (ts_kept st) = [first_sample, second_sample] \<and> ts_reasons st = []"
    by (elim disjE; simp only: sample_steps sum.inject simp_thms trade_state.simps sample_sorted)
  then obtain st where st: "fold_res (trade_step (sample_bar ts)) \<lparr>ts_seen = [], ts_ids = [], ts_reasons = [], ts_kept = []\<rparr> ts = Inr st"
    "sort_key trade_order (ts_kept st) = [first_sample, second_sample]" "ts_reasons st = []" by blast
  have ok: "barStart 0 900000 = Inr 0" by (simp add: barStart_def)
  have c: "length (map (\<lambda>i. sample_capture (int i * 10000)) [0..<91]) = 91"
    "ce_from (map (\<lambda>i. sample_capture (int i * 10000)) [0..<91] ! 0) = 0"
    by (simp_all add: sample_capture_def)
  show ?thesis
    using two unfolding buildClosedBar_def Let_def b sample_first st k ok bind_res_def sum.case sample_ohlc c prod.case
    by (auto simp: require_def latenessMs_def tradesLimit_def capturesLimit_def)
qed

lemma sample_hashed: "hashed (bn_trades (sample_bar [first_sample, second_sample]))"
  by (simp add: hashed_def sample_bar_def sample_trade_def)

theorem bar_aggregates_witness:
  "\<exists>b ts. buildClosedBar (sample_bar [first_sample, second_sample]) = Inr b
     \<and> kept_of (sample_bar [first_sample, second_sample]) ts \<and> cb_trade_count b = length ts"
proof -
  obtain b where b: "buildClosedBar (sample_bar [first_sample, second_sample]) = Inr b" using sample_build by blast
  from bar_aggregates [OF sample_hashed b] b show ?thesis by blast
qed

theorem bar_complete_witness:
  "\<exists>b. buildClosedBar (sample_bar [first_sample, second_sample]) = Inr b \<and> 0 < cb_trade_count b
     \<and> covers (bn_captures (sample_bar [first_sample, second_sample])) 0"
proof -
  obtain b where b: "buildClosedBar (sample_bar [first_sample, second_sample]) = Inr b" "cb_complete b"
    using sample_build by blast
  have "bn_start (sample_bar [first_sample, second_sample]) = 0" by (simp add: sample_bar_def)
  moreover have "0 \<le> cb_end_at b + latenessMs"
  proof (rule buildClosedBar_cases [OF b(1)])
    assume "cb_end_at b = bn_start (sample_bar [first_sample, second_sample]) + bn_interval (sample_bar [first_sample, second_sample])"
    then show ?thesis by (simp add: sample_bar_def latenessMs_def)
  qed
  ultimately show ?thesis using bar_complete [OF sample_hashed b] b(1) by auto
qed

theorem bar_order_independent_witness:
  "\<exists>b b'. buildClosedBar (sample_bar [first_sample, second_sample]) = Inr b
     \<and> buildClosedBar (sample_bar [second_sample, first_sample]) = Inr b' \<and> cb_ohlc b' = cb_ohlc b"
proof -
  obtain b where b: "buildClosedBar (sample_bar [first_sample, second_sample]) = Inr b" using sample_build by blast
  obtain b' where b': "buildClosedBar (sample_bar [second_sample, first_sample]) = Inr b'" using sample_build by blast
  have swap: "sample_bar [second_sample, first_sample] = (sample_bar [first_sample, second_sample])\<lparr>bn_trades := [second_sample, first_sample]\<rparr>"
    by (simp add: sample_bar_def)
  have "te_event first_sample \<noteq> te_event second_sample" "key_of first_sample \<noteq> key_of second_sample"
    "trade_order first_sample \<noteq> trade_order second_sample"
    by (simp_all add: sample_trade_def trade_order_def event_key_def)
  then have sound: "\<forall>t \<in> set [second_sample, first_sample]. \<forall>u \<in> set [second_sample, first_sample]. key_of t = key_of u
      \<and> be_payload_hash (te_event t) = be_payload_hash (te_event u) \<longrightarrow> te_event t = te_event u"
    "\<forall>t \<in> set [second_sample, first_sample]. \<forall>u \<in> set [second_sample, first_sample].
      trade_order t = trade_order u \<longrightarrow> te_event t = te_event u"
    by (simp_all only: list.set ball_simps) metis+
  have "set [second_sample, first_sample] = set (bn_trades (sample_bar [first_sample, second_sample]))"
    by (simp add: sample_bar_def insert_commute)
  from bar_order_independent [OF b b' [unfolded swap] this sample_hashed sound] have "cb_ohlc b' = cb_ohlc b" by blast
  with b b' show ?thesis by blast
qed

definition sample_closed :: "time \<Rightarrow> closed_bar" where
  "sample_closed t = \<lparr>cb_build_version = bar_build_version, cb_instrument_version = ''v1'', cb_interval_ms = 900000,
     cb_start_at = t - 900000, cb_end_at = t, cb_closed_at = t + 10000, cb_ohlc = None, cb_volume = 0, cb_trade_count = 1,
     cb_complete = True, cb_reasons = [], cb_input_ids = []\<rparr>"

theorem barWarmup_ready_witness:
  "(\<exists>r. barWarmup [sample_closed 1800000, sample_closed 900000] (Integral 2) 1810000 900000 = Inr (True, r))
   \<and> \<not> (\<exists>r. barWarmup [sample_closed 1800000, sample_closed 0] (Integral 2) 1810000 900000 = Inr (True, r))"
  unfolding barWarmup_ready
  by (auto simp: sample_closed_def readBars_def latenessMs_def numeral_2_eq_2 less_Suc_eq)

end
