(* ===== verification/Reservations.thy ===== *)
theory Reservations
  imports Financial
begin

text \<open>
  Collateral and fee holds of \<open>apps/api/src/trading/reservations.ts\<close>: the hold of an order, the
  opening capacity, and the operations \<open>reserve\<close>, \<open>consume\<close> and \<open>release\<close>. The step relation
  \<open>desk_step\<close> interleaves them with fills and revaluations of the account; its invariant is that
  reducing orders never hold more inventory than the position has.
\<close>

datatype order_source = Manual | Strategy
datatype order_intent = Open | Reduce
datatype reservation_status = Active | Filled | Cancelled | Expired

record risk_plan =
  stop_price_usd :: int
  entry_floor_usd :: int

record reservation_order =
  ro_order_id :: ident
  ro_position_id :: ident
  ro_source :: order_source
  ro_intent :: order_intent
  ro_side :: side
  ro_quantity_btc :: int
  ro_price_cap_usd :: int
  ro_fee_bps :: int
  ro_valid_until :: time
  ro_risk_plan :: "risk_plan option"

record reservation =
  rv_order :: reservation_order
  rv_status :: reservation_status
  rv_remaining_btc :: int
  rv_margin_usd :: int
  rv_fee_usd :: int

record reservation_finance =
  rf_balance_usd :: int
  rf_positions :: "position list"
  rf_usable_for_risk :: bool
  rf_equity_usd :: "int option"
  rf_mark_price :: "int option"

datatype reservation_error = FINANCE_UNAVAILABLE | MARGIN_UNAVAILABLE | INVENTORY_UNAVAILABLE
  | FEE_UNAVAILABLE | SPLIT_REDUCTION_REQUIRED | PRICE_CAP_BELOW_MARK | ORDER_CLOSED
  | QUANTITY_UNAVAILABLE | PRICE_CAP | FEE_CAP | POSITION_CHANGED

definition ceil :: "int \<Rightarrow> int \<Rightarrow> int" where
  "ceil n d = (n + d - 1) sdiv d"

interpretation hold: rounds_up ceil
  by unfold_locales (simp_all only: ceil_def ceil_ge ceil_lt)

definition reservationHold :: "reservation_order \<Rightarrow> int \<Rightarrow> reservation" where
  "reservationHold order remaining =
     (let notional = remaining * ro_price_cap_usd order in
      \<lparr>rv_order = order,
       rv_status = (if remaining = 0 then Filled else Active),
       rv_remaining_btc = remaining,
       rv_margin_usd = (if ro_intent order = Open then ceil notional 100000000 else 0),
       rv_fee_usd = ceil (notional * ro_fee_bps order) 1000000000000\<rparr>)"

definition positionMargin :: "reservation_finance \<Rightarrow> int" where
  "positionMargin finance =
     (let mark = (case rf_mark_price finance of None \<Rightarrow> 0 | Some m \<Rightarrow> m) in
      foldl (\<lambda>sum p. sum + ceil (max (cost_usd14 p) (\<bar>quantity_btc p\<bar> * mark)) 100000000)
        0 (rf_positions finance))"

definition requireOpeningCapacity :: "reservation_finance \<Rightarrow> reservation list \<Rightarrow> reservation_error + unit" where
  "requireOpeningCapacity finance reservations =
     (case (rf_usable_for_risk finance, rf_equity_usd finance) of
        (True, Some equity) \<Rightarrow>
          (let balance = rf_balance_usd finance;
               capacity = (if balance < equity then balance else equity);
               held = foldl (\<lambda>sum r. sum + rv_margin_usd r + rv_fee_usd r) 0
                 (filter (\<lambda>r. rv_status r = Active) reservations)
           in require (positionMargin finance + held \<le> capacity) MARGIN_UNAVAILABLE (Inr ()))
      | _ \<Rightarrow> Inl FINANCE_UNAVAILABLE)"

definition current_quantity :: "reservation_finance \<Rightarrow> ident \<Rightarrow> int" where
  "current_quantity finance pid =
     (case find (\<lambda>p. position_id p = pid) (rf_positions finance) of
        None \<Rightarrow> 0 | Some p \<Rightarrow> quantity_btc p)"

definition reserve ::
  "reservation_order \<Rightarrow> reservation_finance \<Rightarrow> reservation list \<Rightarrow> reservation_error + reservation" where
  "reserve order finance pending =
     (let q = ro_quantity_btc order; sg = side_sign (ro_side order);
          current = current_quantity finance (ro_position_id order);
          peers = filter (\<lambda>r. rv_status r = Active \<and> ro_position_id (rv_order r) = ro_position_id order) pending;
          candidate = reservationHold order q
      in if ro_intent order = Reduce
         then
           let used = foldl (\<lambda>n r. n + rv_remaining_btc r) 0
                 (filter (\<lambda>r. ro_intent (rv_order r) = Reduce) peers) in
           require (current * sg < 0 \<and> used + q \<le> \<bar>current\<bar>) INVENTORY_UNAVAILABLE
           (let fees = foldl (\<lambda>n r. n + rv_fee_usd r) (rv_fee_usd candidate)
                  (filter (\<lambda>r. rv_status r = Active) pending) in
            require (fees \<le> rf_balance_usd finance) FEE_UNAVAILABLE (Inr candidate))
         else
           require (current * sg \<ge> 0
               \<and> list_all (\<lambda>r. ro_intent (rv_order r) \<noteq> Open \<or> ro_side (rv_order r) = ro_side order) peers)
             SPLIT_REDUCTION_REQUIRED
           (require (case rf_mark_price finance of None \<Rightarrow> True | Some m \<Rightarrow> ro_price_cap_usd order \<ge> m)
              PRICE_CAP_BELOW_MARK
            (bind_res (requireOpeningCapacity finance (pending @ [candidate])) (\<lambda>_. Inr candidate))))"

definition consume ::
  "reservation \<Rightarrow> int \<Rightarrow> int \<Rightarrow> int \<Rightarrow> reservation_finance \<Rightarrow> reservation_error + reservation" where
  "consume rv quantity price fee finance =
     require (rv_status rv = Active) ORDER_CLOSED
     (let q = quantity; remaining = rv_remaining_btc rv; order = rv_order rv in
      require (q > 0 \<and> q \<le> remaining) QUANTITY_UNAVAILABLE
      (require (price > 0 \<and> price \<le> ro_price_cap_usd order) PRICE_CAP
       (require (fee \<ge> 0 \<and> fee \<le> ceil (q * price * ro_fee_bps order) 1000000000000) FEE_CAP
        (let current = current_quantity finance (ro_position_id order);
             sg = side_sign (ro_side order) in
         require (if ro_intent order = Reduce then current * sg < 0 \<and> q \<le> \<bar>current\<bar> else current * sg \<ge> 0)
           POSITION_CHANGED
           (Inr (reservationHold order (remaining - q)))))))"

definition release :: "reservation \<Rightarrow> reservation_status \<Rightarrow> reservation_error + reservation" where
  "release rv reason =
     require (rv_status rv = Active) ORDER_CLOSED
       (Inr (rv\<lparr>rv_status := reason, rv_remaining_btc := 0, rv_margin_usd := 0, rv_fee_usd := 0\<rparr>))"

section \<open>Holds\<close>

lemma foldl_sum: "foldl (\<lambda>n x. n + f x) a xs = a + sum_list (map f xs)" for a :: int
  by (induction xs arbitrary: a) simp_all

lemma foldl_sum2: "foldl (\<lambda>n x. n + f x + g x) a xs = a + sum_list (map (\<lambda>x. f x + g x) xs)" for a :: int
  by (induction xs arbitrary: a) simp_all

definition active :: "reservation list \<Rightarrow> reservation list" where
  "active rs = filter (\<lambda>r. rv_status r = Active) rs"

definition held :: "reservation list \<Rightarrow> int" where
  "held rs = sum_list (map (\<lambda>r. rv_margin_usd r + rv_fee_usd r) (active rs))"

text \<open>The inventory that active reducing orders of a position hold.\<close>

definition reducing :: "reservation list \<Rightarrow> ident \<Rightarrow> int" where
  "reducing rs pid = sum_list (map rv_remaining_btc
     (filter (\<lambda>r. ro_position_id (rv_order r) = pid \<and> ro_intent (rv_order r) = Reduce) (active rs)))"

lemma active_simps [simp]:
  "active [] = []" "active (r # rs) = (if rv_status r = Active then r # active rs else active rs)"
  "active (xs @ ys) = active xs @ active ys"
  by (simp_all add: active_def)

lemma held_simps [simp]:
  "held [] = 0" "held (r # rs) = (if rv_status r = Active then rv_margin_usd r + rv_fee_usd r else 0) + held rs"
  "held (xs @ ys) = held xs + held ys"
  by (simp_all add: held_def)

lemma reducing_simps [simp]:
  "reducing [] pid = 0"
  "reducing (r # rs) pid = (if rv_status r = Active \<and> ro_position_id (rv_order r) = pid
     \<and> ro_intent (rv_order r) = Reduce then rv_remaining_btc r else 0) + reducing rs pid"
  "reducing (xs @ ys) pid = reducing xs pid + reducing ys pid"
  by (simp_all add: reducing_def)

lemma reservationHold_simps [simp]:
  "rv_order (reservationHold o' n) = o'" "rv_remaining_btc (reservationHold o' n) = n"
  "rv_status (reservationHold o' n) = (if n = 0 then Filled else Active)"
  "rv_margin_usd (reservationHold o' n) = (if ro_intent o' = Open then ceil (n * ro_price_cap_usd o') 100000000 else 0)"
  "rv_fee_usd (reservationHold o' n) = ceil (n * ro_price_cap_usd o' * ro_fee_bps o') 1000000000000"
  by (simp_all add: reservationHold_def Let_def)

lemma reserve_reduce:
  assumes "reserve order finance pending = Inr r" and "ro_intent order = Reduce"
  shows "r = reservationHold order (ro_quantity_btc order)"
    and "current_quantity finance (ro_position_id order) * side_sign (ro_side order) < 0"
    and "reducing pending (ro_position_id order) + ro_quantity_btc order
      \<le> \<bar>current_quantity finance (ro_position_id order)\<bar>"
  using assms
  by (auto simp: reserve_def Let_def foldl_sum reducing_def active_def conj_ac cong: conj_cong)

lemma reserve_open:
  assumes "reserve order finance pending = Inr r" and "ro_intent order \<noteq> Reduce"
  shows "r = reservationHold order (ro_quantity_btc order)"
    and "0 \<le> current_quantity finance (ro_position_id order) * side_sign (ro_side order)"
    and "\<exists>equity. rf_usable_for_risk finance \<and> rf_equity_usd finance = Some equity
      \<and> positionMargin finance + held (pending @ [r]) \<le> min (rf_balance_usd finance) equity"
proof -
  from assms have r: "r = reservationHold order (ro_quantity_btc order)"
    and cap: "requireOpeningCapacity finance (pending @ [r]) = Inr ()"
    and cur: "0 \<le> current_quantity finance (ro_position_id order) * side_sign (ro_side order)"
    by (auto simp: reserve_def Let_def)
  show "r = reservationHold order (ro_quantity_btc order)" by (rule r)
  show "0 \<le> current_quantity finance (ro_position_id order) * side_sign (ro_side order)" by (rule cur)
  from cap show "\<exists>equity. rf_usable_for_risk finance \<and> rf_equity_usd finance = Some equity
      \<and> positionMargin finance + held (pending @ [r]) \<le> min (rf_balance_usd finance) equity"
    by (cases "rf_equity_usd finance"; cases "rf_usable_for_risk finance")
      (auto simp: requireOpeningCapacity_def Let_def foldl_sum2 held_def active_def split: if_splits)
qed

lemma consume_cases:
  assumes "consume rv q price fee finance = Inr rv'"
  shows "rv_status rv = Active" and "0 < q" and "q \<le> rv_remaining_btc rv"
    and "rv' = reservationHold (rv_order rv) (rv_remaining_btc rv - q)"
    and "0 < price" and "price \<le> ro_price_cap_usd (rv_order rv)"
    and "0 \<le> fee" and "fee \<le> ceil (q * price * ro_fee_bps (rv_order rv)) 1000000000000"
    and "if ro_intent (rv_order rv) = Reduce
      then current_quantity finance (ro_position_id (rv_order rv)) * side_sign (ro_side (rv_order rv)) < 0
        \<and> q \<le> \<bar>current_quantity finance (ro_position_id (rv_order rv))\<bar>
      else 0 \<le> current_quantity finance (ro_position_id (rv_order rv)) * side_sign (ro_side (rv_order rv))"
  using assms by (auto simp: consume_def Let_def split: if_splits)

text \<open>C29: an accepted opening reservation fits the account. The finance is usable, and the margin of
  every position plus all active holds, the new one included, is within the lower of settled
  balance and marked equity: unrealized gains are never pledged. The hold itself covers the
  whole order at its price cap and its fee at the cap.\<close>

theorem reserve_open_capacity:
  assumes "reserve order finance pending = Inr r" and "ro_intent order = Open"
    and "0 \<le> ro_quantity_btc order" and "0 \<le> ro_price_cap_usd order" and "0 \<le> ro_fee_bps order"
  shows "(\<exists>equity. rf_usable_for_risk finance \<and> rf_equity_usd finance = Some equity
      \<and> positionMargin finance + held (pending @ [r]) \<le> min (rf_balance_usd finance) equity)
    \<and> ro_quantity_btc order * ro_price_cap_usd order \<le> 100000000 * rv_margin_usd r
    \<and> ro_quantity_btc order * ro_price_cap_usd order * ro_fee_bps order \<le> 1000000000000 * rv_fee_usd r"
  using reserve_open [OF assms(1)] assms hold.up_ge by auto

definition sample_order :: "order_intent \<Rightarrow> side \<Rightarrow> int \<Rightarrow> reservation_order" where
  "sample_order it sd q =
     \<lparr>ro_order_id = ''o1'', ro_position_id = ''p'', ro_source = Manual, ro_intent = it, ro_side = sd,
      ro_quantity_btc = q, ro_price_cap_usd = 60000000000, ro_fee_bps = 5, ro_valid_until = 9000,
      ro_risk_plan = None\<rparr>"

definition sample_finance :: "int \<Rightarrow> reservation_finance" where
  "sample_finance q =
     \<lparr>rf_balance_usd = 1000000000,
      rf_positions = [\<lparr>position_id = ''p'', quantity_btc = q, cost_usd14 = q * 50000000000, realized_usd14 = 0\<rparr>],
      rf_usable_for_risk = True, rf_equity_usd = Some 990000000, rf_mark_price = Some 50000000000\<rparr>"

theorem reserve_open_capacity_witness:
  "(200000::int) * 60000000000 \<le> 100000000 * rv_margin_usd (reservationHold (sample_order Open Buy 200000) 200000)"
proof -
  have "reserve (sample_order Open Buy 200000) (sample_finance 100000) [] =
      Inr (reservationHold (sample_order Open Buy 200000) 200000)"
    by code_simp
  from reserve_open_capacity [OF this] show ?thesis by (simp add: sample_order_def)
qed

text \<open>C31: a fill is paid for by its hold. The margin a fill needs plus the margin still held, and
  the fee charged plus the fee still held, exceed the previous hold by at most one micro-dollar
  each, however the order is split; and neither hold ever grows.\<close>

theorem consume_hold_covers:
  assumes "consume (reservationHold order remaining) q price fee finance = Inr rv"
    and "0 \<le> ro_fee_bps order"
  defines "before \<equiv> reservationHold order remaining"
  shows "(ro_intent order = Open \<longrightarrow> ceil (q * price) 100000000 + rv_margin_usd rv \<le> rv_margin_usd before + 1)
    \<and> fee + rv_fee_usd rv \<le> rv_fee_usd before + 1
    \<and> rv_margin_usd rv \<le> rv_margin_usd before \<and> rv_fee_usd rv \<le> rv_fee_usd before
    \<and> rv_remaining_btc rv = remaining - q \<and> (rv_status rv = Filled \<longleftrightarrow> q = remaining)"
proof -
  note c = consume_cases [OF assms(1), simplified]
  let ?cap = "ro_price_cap_usd order" and ?bps = "ro_fee_bps order"
  have cap: "0 < ?cap" using c by linarith
  have le: "q * price \<le> q * ?cap" using c by (simp add: mult_left_mono)
  have split: "q * ?cap + (remaining - q) * ?cap = remaining * ?cap" by (simp add: algebra_simps)
  have nn: "0 \<le> q * ?cap" "0 \<le> (remaining - q) * ?cap" "0 \<le> q * price" using c cap by simp_all
  have m: "ceil (q * price) 100000000 + ceil ((remaining - q) * ?cap) 100000000 \<le> ceil (remaining * ?cap) 100000000 + 1"
    using hold.up_mono [OF nn(3) le, of 100000000] hold.up_add_lower [OF nn(1,2), of 100000000]
    by (simp add: split)
  have fnn: "0 \<le> q * ?cap * ?bps" "0 \<le> (remaining - q) * ?cap * ?bps" "0 \<le> q * price * ?bps"
    using nn assms(2) by simp_all
  have fle: "q * price * ?bps \<le> q * ?cap * ?bps" using le assms(2) by (rule mult_right_mono)
  have fsplit: "q * ?cap * ?bps + (remaining - q) * ?cap * ?bps = remaining * ?cap * ?bps"
    by (simp add: algebra_simps)
  have f: "fee + ceil ((remaining - q) * ?cap * ?bps) 1000000000000 \<le> ceil (remaining * ?cap * ?bps) 1000000000000 + 1"
    using c hold.up_mono [OF fnn(3) fle, of 1000000000000] hold.up_add_lower [OF fnn(1,2), of 1000000000000]
    by (simp add: fsplit)
  have mono: "ceil ((remaining - q) * ?cap) 100000000 \<le> ceil (remaining * ?cap) 100000000"
    "ceil ((remaining - q) * ?cap * ?bps) 1000000000000 \<le> ceil (remaining * ?cap * ?bps) 1000000000000"
    using nn fnn split fsplit by (intro hold.up_mono; simp)+
  show ?thesis using m f mono c by (auto simp: before_def)
qed

theorem consume_hold_covers_witness:
  "rv_remaining_btc (reservationHold (sample_order Open Buy 200000) 150000) = 200000 - 50000"
proof -
  have "consume (reservationHold (sample_order Open Buy 200000) 200000) 50000 59000000000 14000 (sample_finance 100000)
      = Inr (reservationHold (sample_order Open Buy 200000) 150000)"
    by code_simp
  from consume_hold_covers [OF this] show ?thesis by (simp add: sample_order_def)
qed

text \<open>only an active reservation can be consumed or released; a released one holds nothing.\<close>

theorem reservation_terminal:
  "(rv_status rv \<noteq> Active \<longrightarrow> consume rv q price fee finance = Inl ORDER_CLOSED \<and> release rv reason = Inl ORDER_CLOSED)
   \<and> (\<forall>rv'. release rv reason = Inr rv' \<longrightarrow> reason \<noteq> Active \<longrightarrow>
        held [rv'] = 0 \<and> rv_margin_usd rv' = 0 \<and> rv_fee_usd rv' = 0 \<and> rv_remaining_btc rv' = 0
        \<and> rv_order rv' = rv_order rv)"
  by (auto simp: consume_def release_def)

theorem reservation_terminal_witness:
  "release (reservationHold (sample_order Open Buy 5) 0) Cancelled = Inl ORDER_CLOSED"
  using reservation_terminal [of "reservationHold (sample_order Open Buy 5) 0"] by simp

section \<open>Interleaved reservations never oversell a position\<close>

text \<open>
  One account: its finance and its reservations. A fill moves the position of its order by the
  signed quantity; a fill outside any reservation is not a step, a revaluation changes prices,
  balances and costs but no quantity. Order quantities are positive by the order contract.
\<close>

definition moves :: "reservation_finance \<Rightarrow> ident \<Rightarrow> int \<Rightarrow> reservation_finance \<Rightarrow> bool" where
  "moves f pid delta f' \<longleftrightarrow>
     (\<forall>p. current_quantity f' p = current_quantity f p + (if p = pid then delta else 0))"

inductive desk_step ::
  "reservation_finance \<times> reservation list \<Rightarrow> reservation_finance \<times> reservation list \<Rightarrow> bool" where
  step_reserve: "0 < ro_quantity_btc order \<Longrightarrow> reserve order f rs = Inr r \<Longrightarrow> desk_step (f, rs) (f, rs @ [r])"
| step_fill: "consume r q price fee f = Inr r' \<Longrightarrow>
     moves f (ro_position_id (rv_order r)) (side_sign (ro_side (rv_order r)) * q) f' \<Longrightarrow>
     desk_step (f, xs @ r # ys) (f', xs @ r' # ys)"
| step_release: "release r reason = Inr r' \<Longrightarrow> reason \<noteq> Active \<Longrightarrow>
     desk_step (f, xs @ r # ys) (f, xs @ r' # ys)"
| step_revalue: "moves f pid 0 f' \<Longrightarrow> desk_step (f, rs) (f', rs)"

definition covered :: "reservation_finance \<times> reservation list \<Rightarrow> bool" where
  "covered d \<longleftrightarrow> (\<forall>r \<in> set (snd d). 0 \<le> rv_remaining_btc r)
     \<and> (\<forall>pid. reducing (snd d) pid \<le> \<bar>current_quantity (fst d) pid\<bar>)"

lemma covered_reserve:
  "covered (f, rs) \<Longrightarrow> 0 < ro_quantity_btc order \<Longrightarrow> reserve order f rs = Inr r \<Longrightarrow> covered (f, rs @ [r])"
proof (cases "ro_intent order = Reduce")
  case True
  assume "covered (f, rs)" and "0 < ro_quantity_btc order" and r: "reserve order f rs = Inr r"
  with reserve_reduce [OF r True] show ?thesis by (auto simp: covered_def)
next
  case False
  assume "covered (f, rs)" and "0 < ro_quantity_btc order" and r: "reserve order f rs = Inr r"
  with reserve_open(1) [OF r False] False show ?thesis by (auto simp: covered_def)
qed

lemma covered_fill:
  assumes inv: "covered (f, xs @ r # ys)" and c: "consume r q price fee f = Inr r'"
    and mv: "moves f (ro_position_id (rv_order r)) (side_sign (ro_side (rv_order r)) * q) f'"
  shows "covered (f', xs @ r' # ys)"
proof -
  note cc = consume_cases [OF c]
  define sg where "sg = side_sign (ro_side (rv_order r))"
  have sg: "sg = 1 \<or> sg = -1" by (cases "ro_side (rv_order r)") (simp_all add: sg_def)
  have "reducing (xs @ r' # ys) pid \<le> \<bar>current_quantity f' pid\<bar>" for pid
  proof -
    have old: "reducing (xs @ r # ys) pid \<le> \<bar>current_quantity f pid\<bar>"
      using inv by (simp add: covered_def)
    have new: "current_quantity f' pid =
        current_quantity f pid + (if pid = ro_position_id (rv_order r) then sg * q else 0)"
      using mv by (simp add: moves_def sg_def)
    show ?thesis using old new cc sg by (auto simp: sg_def [symmetric] split: if_splits)
  qed
  moreover have "\<forall>r \<in> set (xs @ r' # ys). 0 \<le> rv_remaining_btc r"
    using inv cc by (auto simp: covered_def)
  ultimately show ?thesis by (simp add: covered_def)
qed

lemma covered_release:
  assumes inv: "covered (f, xs @ r # ys)" and c: "release r reason = Inr r'" and "reason \<noteq> Active"
  shows "covered (f, xs @ r' # ys)"
proof -
  have r': "r' = r\<lparr>rv_status := reason, rv_remaining_btc := 0, rv_margin_usd := 0, rv_fee_usd := 0\<rparr>"
    using c by (simp add: release_def)
  have nonneg: "0 \<le> rv_remaining_btc r" using inv by (simp add: covered_def)
  have "reducing (xs @ r' # ys) pid \<le> reducing (xs @ r # ys) pid" for pid
    using nonneg r' by simp
  with inv r' show ?thesis unfolding covered_def by (auto intro: order_trans simp del: reducing_simps)
qed

lemma covered_step: "desk_step d d' \<Longrightarrow> covered d \<Longrightarrow> covered d'"
proof (induction rule: desk_step.induct)
  case (step_reserve order f rs r)
  then show ?case by (blast intro: covered_reserve)
next
  case (step_fill r q price fee f r' f' xs ys)
  then show ?case by (blast intro: covered_fill)
next
  case (step_release r reason r' f xs ys)
  then show ?case by (blast intro: covered_release)
next
  case (step_revalue f pid f' rs)
  then show ?case by (simp add: covered_def moves_def)
qed

text \<open>C37: however reservations, fills, releases and revaluations interleave, the reducing orders
  open on a position never hold more than the position has, so no set of exits can oversell it
  into a reversal.\<close>

theorem exits_never_oversell:
  assumes "desk_step\<^sup>*\<^sup>* (f, []) (f', rs)"
  shows "reducing rs pid \<le> \<bar>current_quantity f' pid\<bar>"
proof -
  have "covered (f, [])" by (simp add: covered_def)
  with assms have "covered (f', rs)"
    by (induction rule: rtranclp_induct) (blast intro: covered_step)+
  then show ?thesis by (simp add: covered_def)
qed

theorem exits_never_oversell_witness:
  "reducing [reservationHold (sample_order Reduce Sell 60000) 60000] ''p'' \<le> \<bar>current_quantity (sample_finance 100000) ''p''\<bar>"
proof -
  have "reserve (sample_order Reduce Sell 60000) (sample_finance 100000) [] =
      Inr (reservationHold (sample_order Reduce Sell 60000) 60000)"
    by code_simp
  then have "desk_step (sample_finance 100000, [])
      (sample_finance 100000, [] @ [reservationHold (sample_order Reduce Sell 60000) 60000])"
    by (intro step_reserve) (simp_all add: sample_order_def)
  then have "desk_step\<^sup>*\<^sup>* (sample_finance 100000, [])
      (sample_finance 100000, [reservationHold (sample_order Reduce Sell 60000) 60000])" by simp
  then show ?thesis by (rule exits_never_oversell)
qed

end
