(* ===== verification/Risk.thy ===== *)
theory Risk
  imports Reservations
begin

text \<open>
  The account risk policy of \<open>apps/api/src/trading/risk.ts\<close>: the loss test, the anchor adjustment
  for external flows, the checkpoint, and the exposure and planned-loss caps. Days are UTC day
  numbers, which order as the source's date strings do. \<open>risk_step\<close> threads the previous
  checkpoint through a history; its invariant shows that the state latches.
\<close>

definition exposure_bps :: int where "exposure_bps = 2500"
definition entry_risk_bps :: int where "entry_risk_bps = 25"
definition daily_loss_bps :: int where "daily_loss_bps = 150"
definition drawdown_bps :: int where "drawdown_bps = 500"

datatype risk_mode = NORMAL | REDUCE_ONLY | HALTED

datatype risk_reason = External_Flow_Unvalued | History_Unobserved | Accounting_Inconsistent
  | Utc_Anchor_Unavailable | Data_Unavailable | Daily_Loss | Drawdown

record risk_checkpoint =
  rc_state :: risk_mode
  rc_history_complete :: bool
  rc_reasons :: "risk_reason list"
  rc_day :: int
  rc_daily_anchor :: "int option"
  rc_high_water :: int
  rc_external_cash :: int
  rc_equity :: "int option"
  rc_ledger_sequence :: int
  rc_observed_at :: time

record risk_input =
  ri_now :: time
  ri_equity :: "int option"
  ri_external :: int
  ri_initial_anchor :: int
  ri_daily_anchor :: "int option"
  ri_sequence :: int
  ri_usable :: bool
  ri_accounting :: bool
  ri_history_complete :: "bool option"

datatype risk_error = EXTERNAL_FLOW_EQUITY | PLAN_REQUIRED | PLAN_DIRECTION | FEE_UNDERESTIMATED
  | EXPOSURE_LIMIT | PLANNED_LIMIT

definition riskCeil :: "int \<Rightarrow> int \<Rightarrow> int" where
  "riskCeil n d = (n + d - 1) sdiv d"

interpretation risk_up: rounds_up riskCeil
  by unfold_locales (simp_all only: riskCeil_def ceil_ge ceil_lt)

definition utc_day :: "time \<Rightarrow> int" where
  "utc_day t = t div 86400000"

definition breached :: "int \<Rightarrow> int \<Rightarrow> int \<Rightarrow> bool" where
  "breached equity anchor bps = (equity \<le> 0 \<or> anchor \<le> 0 \<or> (anchor - equity) * 10000 \<ge> anchor * bps)"

definition flowAnchor :: "int \<Rightarrow> int \<Rightarrow> int \<Rightarrow> risk_error + int" where
  "flowAnchor anchor before_flow delta =
     require (before_flow > 0 \<and> before_flow + delta > 0) EXTERNAL_FLOW_EQUITY
       (Inr (riskCeil (anchor * (before_flow + delta)) before_flow))"

section \<open>The checkpoint\<close>

text \<open>The anchors after the external flow since the previous checkpoint, and whether it could not be
  valued.\<close>

definition flow_anchors ::
  "risk_checkpoint option \<Rightarrow> risk_input \<Rightarrow> int \<Rightarrow> int option \<Rightarrow> risk_error + (int \<times> int option \<times> bool)" where
  "flow_anchors p i high daily =
     (let delta = ri_external i - (case p of None \<Rightarrow> ri_external i | Some c \<Rightarrow> rc_external_cash c) in
      if delta = 0 then Inr (high, daily, False)
      else
        let before_flow = (case ri_equity i of None \<Rightarrow> 0 | Some e \<Rightarrow> e - delta) in
        if before_flow \<le> 0 \<or> before_flow + delta \<le> 0 then Inr (high, daily, True)
        else
          bind_res (flowAnchor high before_flow delta) (\<lambda>high'.
          case (daily, p) of
            (Some d, Some c) \<Rightarrow>
              if rc_day c = utc_day (ri_now i)
              then bind_res (flowAnchor d before_flow delta) (\<lambda>d'. Inr (high', Some d', False))
              else Inr (high', daily, False)
          | _ \<Rightarrow> Inr (high', daily, False)))"

definition loss_reasons :: "int option \<Rightarrow> int \<Rightarrow> int option \<Rightarrow> risk_reason list" where
  "loss_reasons equity high daily = (case equity of None \<Rightarrow> [] | Some e \<Rightarrow>
     (case daily of None \<Rightarrow> [] | Some d \<Rightarrow> if breached e d daily_loss_bps then [Daily_Loss] else [])
     @ (if breached e high drawdown_bps then [Drawdown] else []))"

definition checkpoint_reasons ::
  "risk_checkpoint option \<Rightarrow> risk_input \<Rightarrow> bool \<Rightarrow> bool \<Rightarrow> int \<Rightarrow> int option \<Rightarrow> risk_reason list" where
  "checkpoint_reasons p i unvalued complete high daily =
     (if unvalued \<or> (case p of None \<Rightarrow> False | Some c \<Rightarrow> External_Flow_Unvalued \<in> set (rc_reasons c))
      then [External_Flow_Unvalued] else [])
     @ (if \<not> complete then [History_Unobserved] else [])
     @ (if \<not> ri_accounting i then [Accounting_Inconsistent] else [])
     @ (if daily = None then [Utc_Anchor_Unavailable] else [])
     @ (if \<not> ri_usable i \<or> ri_equity i = None then [Data_Unavailable] else [])
     @ loss_reasons (ri_equity i) high daily"

definition next_state :: "risk_reason list \<Rightarrow> risk_mode \<Rightarrow> risk_mode" where
  "next_state reasons state =
     (if list_ex (\<lambda>r. r \<in> set [Accounting_Inconsistent, External_Flow_Unvalued]) reasons then HALTED
      else if reasons \<noteq> [] \<and> state = NORMAL then REDUCE_ONLY else state)"

definition previous_state :: "risk_checkpoint option \<Rightarrow> risk_mode" where
  "previous_state p = (case p of None \<Rightarrow> NORMAL | Some c \<Rightarrow> rc_state c)"

definition previous_high :: "risk_checkpoint option \<Rightarrow> risk_input \<Rightarrow> int" where
  "previous_high p i = (case p of None \<Rightarrow> ri_initial_anchor i | Some c \<Rightarrow> rc_high_water c)"

definition previous_daily :: "risk_checkpoint option \<Rightarrow> risk_input \<Rightarrow> int option" where
  "previous_daily p i = (case p of None \<Rightarrow> ri_daily_anchor i
     | Some c \<Rightarrow> if rc_day c = utc_day (ri_now i) then rc_daily_anchor c else ri_daily_anchor i)"

definition history_flag :: "risk_checkpoint option \<Rightarrow> risk_input \<Rightarrow> bool" where
  "history_flag p i = (case p of Some c \<Rightarrow> rc_history_complete c
     | None \<Rightarrow> (case ri_history_complete i of None \<Rightarrow> True | Some h \<Rightarrow> h))"

definition riskCheckpoint :: "risk_checkpoint option \<Rightarrow> risk_input \<Rightarrow> risk_error + risk_checkpoint" where
  "riskCheckpoint p i =
     bind_res (flow_anchors p i (previous_high p i) (previous_daily p i)) (\<lambda>(high, daily, unvalued).
       let high' = (case ri_equity i of None \<Rightarrow> high | Some e \<Rightarrow> if e > high then e else high);
           reasons = checkpoint_reasons p i unvalued (history_flag p i) high' daily
       in Inr \<lparr>rc_state = next_state reasons (previous_state p), rc_history_complete = history_flag p i,
            rc_reasons = reasons, rc_day = utc_day (ri_now i), rc_daily_anchor = daily, rc_high_water = high',
            rc_external_cash = ri_external i, rc_equity = ri_equity i, rc_ledger_sequence = ri_sequence i,
            rc_observed_at = ri_now i\<rparr>)"

section \<open>Caps\<close>

definition grossExposure :: "position list \<Rightarrow> int \<Rightarrow> reservation list \<Rightarrow> int" where
  "grossExposure positions mark reservations =
     foldl (\<lambda>n p. n + riskCeil (\<bar>quantity_btc p\<bar> * mark) 100000000) 0 positions
     + foldl (\<lambda>n r. n + riskCeil (rv_remaining_btc r * ro_price_cap_usd (rv_order r)) 100000000) 0
         (filter (\<lambda>r. rv_status r = Active \<and> ro_intent (rv_order r) = Open) reservations)"

definition plannedRisk :: "reservation_order \<Rightarrow> int \<Rightarrow> risk_error + int" where
  "plannedRisk order minimumFeeBps = (case ro_risk_plan order of
     None \<Rightarrow> Inl PLAN_REQUIRED
   | Some plan \<Rightarrow>
       (let stop = stop_price_usd plan; floor_price = entry_floor_usd plan; cap = ro_price_cap_usd order;
            q = ro_quantity_btc order
        in require (floor_price > 0 \<and> floor_price \<le> cap
               \<and> (if ro_side order = Buy then stop < floor_price else stop > cap)) PLAN_DIRECTION
           (require (ro_fee_bps order \<ge> minimumFeeBps) FEE_UNDERESTIMATED
             (let loss = (if ro_side order = Buy then cap - stop else stop - floor_price);
                  fee = ro_fee_bps order;
                  exit = (if stop > cap then stop else cap)
              in Inr (riskCeil (q * loss) 100000000 + riskCeil (q * cap * fee) 1000000000000
                   + riskCeil (q * exit * fee) 1000000000000)))))"

definition requireRiskCaps :: "int \<Rightarrow> int \<Rightarrow> int option \<Rightarrow> risk_error + unit" where
  "requireRiskCaps equity exposure planned =
     require (equity > 0 \<and> exposure * 10000 \<le> equity * exposure_bps) EXPOSURE_LIMIT
       (case planned of None \<Rightarrow> Inr ()
        | Some r \<Rightarrow> require (r * 10000 \<le> equity * entry_risk_bps) PLANNED_LIMIT (Inr ()))"

section \<open>Flows cannot hide a loss\<close>

text \<open>an external deposit or withdrawal moves an anchor with the equity: a breached limit stays
  breached, whatever the flow, and the rounding raises the new anchor by less than one
  micro-dollar over the exact proportion.\<close>

theorem flowAnchor_keeps_breach:
  assumes "flowAnchor anchor equity delta = Inr anchor'" and "0 < anchor" and "bps \<le> 10000"
  shows "(breached equity anchor bps \<longrightarrow> breached (equity + delta) anchor' bps)
    \<and> anchor * (equity + delta) \<le> equity * anchor'
    \<and> equity * anchor' < anchor * (equity + delta) + equity"
proof -
  have e: "0 < equity" "0 < equity + delta"
    and a: "anchor' = riskCeil (anchor * (equity + delta)) equity"
    using assms(1) by (simp_all add: flowAnchor_def)
  have n: "0 \<le> anchor * (equity + delta)" using assms(2) e by simp
  note up = risk_up.up_ge [OF n e(1), folded a] risk_up.up_lt [OF n e(1), folded a]
  have "breached (equity + delta) anchor' bps" if b: "breached equity anchor bps"
  proof -
    have le: "equity * 10000 \<le> anchor * (10000 - bps)"
      using b e assms(2) by (simp add: breached_def algebra_simps)
    have "equity * ((equity + delta) * 10000) \<le> (equity + delta) * (anchor * (10000 - bps))"
      using mult_left_mono [OF le, of "equity + delta"] e by (simp add: mult_ac)
    also have "\<dots> = (10000 - bps) * (anchor * (equity + delta))" by (simp add: mult_ac)
    also have "\<dots> \<le> (10000 - bps) * (equity * anchor')" using up(1) assms(3) by (intro mult_left_mono) auto
    finally have "equity * ((equity + delta) * 10000) \<le> equity * (anchor' * (10000 - bps))" by (simp add: mult_ac)
    then have "(equity + delta) * 10000 \<le> anchor' * (10000 - bps)" using e by simp
    then show ?thesis by (simp add: breached_def algebra_simps)
  qed
  with up show ?thesis by blast
qed

theorem flowAnchor_keeps_breach_witness: "breached (984 + 500) 1509 150"
proof -
  have "flowAnchor 1000 984 500 = Inr 1509" by (simp add: flowAnchor_def riskCeil_def)
  moreover have "breached 984 1000 150" by (simp add: breached_def)
  ultimately show ?thesis using flowAnchor_keeps_breach [of 1000 984 500 1509 150] by simp
qed

section \<open>Caps bound the exposure\<close>

lemma sum_riskCeil:
  assumes "\<And>x. x \<in> set xs \<Longrightarrow> 0 \<le> f x" and "0 < d"
  shows "sum_list (map f xs) \<le> d * sum_list (map (\<lambda>x. riskCeil (f x) d) xs)"
  using assms
proof (induction xs)
  case Nil
  then show ?case by simp
next
  case (Cons x xs)
  then show ?case using risk_up.up_ge [of "f x" d] by (simp add: distrib_left add_mono)
qed

definition pending_open :: "reservation list \<Rightarrow> reservation list" where
  "pending_open rs = filter (\<lambda>r. rv_status r = Active \<and> ro_intent (rv_order r) = Open) rs"

text \<open>an order that passes the caps leaves the account within them exactly: positions at the
  mark plus everything still open at its price cap is at most a quarter of equity, and the
  planned loss, if one is given, at most 25 basis points of it; equity is positive.\<close>

theorem riskCaps_bound_exposure:
  assumes "requireRiskCaps equity (grossExposure positions mark rs) planned = Inr ()"
    and "0 \<le> mark" and "\<forall>r \<in> set rs. 0 \<le> rv_remaining_btc r \<and> 0 \<le> ro_price_cap_usd (rv_order r)"
  shows "0 < equity
    \<and> 10000 * (sum_list (map (\<lambda>p. \<bar>quantity_btc p\<bar> * mark) positions)
        + sum_list (map (\<lambda>r. rv_remaining_btc r * ro_price_cap_usd (rv_order r)) (pending_open rs)))
      \<le> 2500 * equity * 100000000
    \<and> (\<forall>r. planned = Some r \<longrightarrow> 10000 * r \<le> 25 * equity)"
proof -
  let ?A = "sum_list (map (\<lambda>p. \<bar>quantity_btc p\<bar> * mark) positions)"
  let ?B = "sum_list (map (\<lambda>r. rv_remaining_btc r * ro_price_cap_usd (rv_order r)) (pending_open rs))"
  have "?A \<le> 100000000 * sum_list (map (\<lambda>p. riskCeil (\<bar>quantity_btc p\<bar> * mark) 100000000) positions)"
    using assms(2) by (intro sum_riskCeil) auto
  moreover have "?B \<le> 100000000 * sum_list (map (\<lambda>r. riskCeil (rv_remaining_btc r * ro_price_cap_usd (rv_order r)) 100000000)
      (pending_open rs))"
    using assms(3) by (intro sum_riskCeil) (auto simp: pending_open_def)
  ultimately have "?A + ?B \<le> 100000000 * grossExposure positions mark rs"
    by (simp add: grossExposure_def foldl_sum pending_open_def)
  moreover have "0 < equity" "grossExposure positions mark rs * 10000 \<le> equity * 2500"
    "\<forall>r. planned = Some r \<longrightarrow> 10000 * r \<le> 25 * equity"
    using assms(1) by (auto simp: requireRiskCaps_def exposure_bps_def entry_risk_bps_def)
  ultimately show ?thesis by auto
qed

theorem riskCaps_bound_exposure_witness:
  "10000 * (sum_list (map (\<lambda>p. \<bar>quantity_btc p\<bar> * 50000000000) (rf_positions (sample_finance 200000)))
    + sum_list (map (\<lambda>r. rv_remaining_btc r * ro_price_cap_usd (rv_order r))
        (pending_open [reservationHold (sample_order Open Buy 200000) 200000]))) \<le> 2500 * 990000000 * (100000000::int)"
proof -
  have "requireRiskCaps 990000000 (grossExposure (rf_positions (sample_finance 200000)) 50000000000
      [reservationHold (sample_order Open Buy 200000) 200000]) (Some 2000000) = Inr ()"
    by code_simp
  from riskCaps_bound_exposure [OF this] show ?thesis by (simp add: sample_order_def)
qed

text \<open>the planned risk of an order covers its plan: for an entry at any price the plan allows
  and an exit at the stop, the loss and the fees of both legs together are at most the planned
  amount.\<close>

theorem plannedRisk_covers:
  assumes "plannedRisk order minimumFeeBps = Inr risk" and "ro_risk_plan order = Some plan"
    and "0 \<le> ro_quantity_btc order" and "0 \<le> ro_fee_bps order"
    and "entry_floor_usd plan \<le> entry" and "entry \<le> ro_price_cap_usd order"
  shows "10000 * (ro_quantity_btc order * (side_sign (ro_side order) * (entry - stop_price_usd plan)))
      + ro_quantity_btc order * entry * ro_fee_bps order
      + ro_quantity_btc order * stop_price_usd plan * ro_fee_bps order \<le> 1000000000000 * risk
    \<and> minimumFeeBps \<le> ro_fee_bps order"
proof -
  let ?q = "ro_quantity_btc order" and ?cap = "ro_price_cap_usd order" and ?fee = "ro_fee_bps order"
    and ?stop = "stop_price_usd plan" and ?floor = "entry_floor_usd plan" and ?sd = "ro_side order"
  define loss where "loss = (if ?sd = Buy then ?cap - ?stop else ?stop - ?floor)"
  define exit where "exit = (if ?stop > ?cap then ?stop else ?cap)"
  have p: "0 < ?floor" "?floor \<le> ?cap" "if ?sd = Buy then ?stop < ?floor else ?stop > ?cap" "minimumFeeBps \<le> ?fee"
    and r: "risk = riskCeil (?q * loss) 100000000 + riskCeil (?q * ?cap * ?fee) 1000000000000
       + riskCeil (?q * exit * ?fee) 1000000000000"
    using assms(1,2) by (auto simp: plannedRisk_def Let_def loss_def exit_def)
  have nn: "0 \<le> ?q * loss" "0 \<le> ?q * ?cap * ?fee" "0 \<le> ?q * exit * ?fee"
    using p assms(3,4) by (auto simp: loss_def exit_def split: if_splits)
  have "side_sign ?sd * (entry - ?stop) \<le> loss"
    using assms(5,6) by (cases ?sd) (auto simp: loss_def)
  then have 1: "?q * (side_sign ?sd * (entry - ?stop)) \<le> ?q * loss" using assms(3) by (rule mult_left_mono)
  have 2: "?q * entry * ?fee \<le> ?q * ?cap * ?fee"
    using assms by (intro mult_right_mono mult_left_mono) auto
  have 3: "?q * ?stop * ?fee \<le> ?q * exit * ?fee"
    using assms(3,4) by (intro mult_right_mono mult_left_mono) (auto simp: exit_def)
  show ?thesis
    using 1 2 3 p(4) risk_up.up_ge [OF nn(1), of 100000000] risk_up.up_ge [OF nn(2), of 1000000000000]
      risk_up.up_ge [OF nn(3), of 1000000000000]
    by (simp add: r distrib_left)
qed

definition planned_order :: reservation_order where
  "planned_order = (sample_order Open Buy 200000)\<lparr>ro_risk_plan := Some \<lparr>stop_price_usd = 58000000000, entry_floor_usd = 59000000000\<rparr>\<rparr>"

theorem plannedRisk_covers_witness:
  "10000 * (200000 * (59500000000 - 58000000000)) + 200000 * 59500000000 * 5 + 200000 * 58000000000 * 5
    \<le> 1000000000000 * (4120000 :: int)"
proof -
  have "plannedRisk planned_order 5 = Inr 4120000" by code_simp
  from plannedRisk_covers [OF this, of "\<lparr>stop_price_usd = 58000000000, entry_floor_usd = 59000000000\<rparr>" 59500000000]
  show ?thesis by (simp add: planned_order_def sample_order_def)
qed

section \<open>The state latches over a history of checkpoints\<close>

definition risk_step :: "risk_checkpoint option \<Rightarrow> risk_input \<Rightarrow> risk_error + risk_checkpoint option" where
  "risk_step p i = bind_res (riskCheckpoint p i) (\<lambda>c. Inr (Some c))"

fun risk_rank :: "risk_mode \<Rightarrow> nat" where
  "risk_rank NORMAL = 0"
| "risk_rank REDUCE_ONLY = 1"
| "risk_rank HALTED = 2"

lemma flow_anchors_total: "\<exists>r. flow_anchors p i high daily = Inr r"
  by (auto simp: flow_anchors_def Let_def flowAnchor_def split: option.splits)

lemma flow_anchors_none:
  "(\<And>c. p = Some c \<Longrightarrow> rc_external_cash c = ri_external i) \<Longrightarrow> flow_anchors p i high daily = Inr (high, daily, False)"
  by (cases p) (simp_all add: flow_anchors_def)

lemma riskCheckpoint_cases:
  assumes "riskCheckpoint p i = Inr c"
  obtains high daily unvalued high' where "flow_anchors p i (previous_high p i) (previous_daily p i) = Inr (high, daily, unvalued)"
    and "high' = (case ri_equity i of None \<Rightarrow> high | Some e \<Rightarrow> max e high)"
    and "c = \<lparr>rc_state = next_state (checkpoint_reasons p i unvalued (history_flag p i) high' daily) (previous_state p),
      rc_history_complete = history_flag p i,
      rc_reasons = checkpoint_reasons p i unvalued (history_flag p i) high' daily, rc_day = utc_day (ri_now i),
      rc_daily_anchor = daily, rc_high_water = high', rc_external_cash = ri_external i, rc_equity = ri_equity i,
      rc_ledger_sequence = ri_sequence i, rc_observed_at = ri_now i\<rparr>"
proof -
  from assms obtain high daily unvalued
    where f: "flow_anchors p i (previous_high p i) (previous_daily p i) = Inr (high, daily, unvalued)"
    by (auto simp: riskCheckpoint_def)
  have m: "(case ri_equity i of None \<Rightarrow> high | Some e \<Rightarrow> if e > high then e else high)
      = (case ri_equity i of None \<Rightarrow> high | Some e \<Rightarrow> max e high)"
    by (auto simp: max_def split: option.splits)
  show thesis
  proof (rule that [OF f refl])
    show "c = \<lparr>rc_state = next_state (checkpoint_reasons p i unvalued (history_flag p i)
        (case ri_equity i of None \<Rightarrow> high | Some e \<Rightarrow> max e high) daily) (previous_state p),
      rc_history_complete = history_flag p i,
      rc_reasons = checkpoint_reasons p i unvalued (history_flag p i)
        (case ri_equity i of None \<Rightarrow> high | Some e \<Rightarrow> max e high) daily, rc_day = utc_day (ri_now i),
      rc_daily_anchor = daily, rc_high_water = (case ri_equity i of None \<Rightarrow> high | Some e \<Rightarrow> max e high),
      rc_external_cash = ri_external i, rc_equity = ri_equity i,
      rc_ledger_sequence = ri_sequence i, rc_observed_at = ri_now i\<rparr>"
      using assms f by (simp only: riskCheckpoint_def Let_def m bind_res_simps prod.case sum.inject)
  qed
qed

lemma next_state_cases:
  "next_state rs st = NORMAL \<longleftrightarrow> rs = [] \<and> st = NORMAL"
  "External_Flow_Unvalued \<in> set rs \<Longrightarrow> next_state rs st = HALTED"
  "risk_rank st \<le> risk_rank (next_state rs st)"
  by (auto simp: next_state_def list_ex_iff) (cases st; simp)+

lemma riskCheckpoint_state:
  assumes "riskCheckpoint p i = Inr c"
  shows "rc_state c = next_state (rc_reasons c) (previous_state p)"
    and "p = Some q \<Longrightarrow> External_Flow_Unvalued \<in> set (rc_reasons q) \<Longrightarrow> External_Flow_Unvalued \<in> set (rc_reasons c)"
    and "p = Some q \<Longrightarrow> rc_history_complete c = rc_history_complete q"
    and "rc_equity c = ri_equity i" and "rc_external_cash c = ri_external i"
    and "rc_reasons c = [] \<Longrightarrow> ri_usable i \<and> ri_accounting i \<and> ri_equity i \<noteq> None \<and> rc_daily_anchor c \<noteq> None"
    and "ri_equity i = Some e \<Longrightarrow> e \<le> rc_high_water c"
    and "rc_reasons c = [] \<Longrightarrow> loss_reasons (ri_equity i) (rc_high_water c) (rc_daily_anchor c) = []"
  by (rule riskCheckpoint_cases [OF assms], simp add: checkpoint_reasons_def history_flag_def split: if_splits)+

lemma riskCheckpoint_high:
  assumes "riskCheckpoint p i = Inr c" and "\<And>q. p = Some q \<Longrightarrow> rc_external_cash q = ri_external i"
  shows "previous_high p i \<le> rc_high_water c"
  by (rule riskCheckpoint_cases [OF assms(1)], simp add: flow_anchors_none [OF assms(2)] split: option.splits)

lemma riskCheckpoint_rank:
  assumes "riskCheckpoint p i = Inr c"
  shows "risk_rank (previous_state p) \<le> risk_rank (rc_state c)"
  by (simp add: riskCheckpoint_state(1) [OF assms] next_state_cases(3))

definition latched :: "risk_checkpoint \<Rightarrow> risk_input list \<Rightarrow> risk_checkpoint option \<Rightarrow> bool" where
  "latched p h s \<longleftrightarrow> (\<exists>c. s = Some c \<and> risk_rank (rc_state p) \<le> risk_rank (rc_state c)
     \<and> rc_history_complete c = rc_history_complete p
     \<and> (External_Flow_Unvalued \<in> set (rc_reasons p) \<longrightarrow> External_Flow_Unvalued \<in> set (rc_reasons c)
         \<and> (h \<noteq> [] \<longrightarrow> rc_state c = HALTED)))"

interpretation latch: history_reducer risk_step "Some p" "latched p" for p
proof (unfold_locales)
  show "latched p [] (Some p)" by (simp add: latched_def)
next
  fix h s i s'
  assume "latched p h s" and s': "risk_step s i = Inr s'"
  then obtain q where q: "s = Some q" "risk_rank (rc_state p) \<le> risk_rank (rc_state q)"
    "rc_history_complete q = rc_history_complete p"
    "External_Flow_Unvalued \<in> set (rc_reasons p) \<longrightarrow> External_Flow_Unvalued \<in> set (rc_reasons q)"
    by (auto simp: latched_def)
  obtain c where c: "riskCheckpoint (Some q) i = Inr c" "s' = Some c"
    using s' q(1) by (auto simp: risk_step_def)
  show "latched p (h @ [i]) s'"
    using q riskCheckpoint_rank [OF c(1)] riskCheckpoint_state(1,3) [OF c(1)] riskCheckpoint_state(2) [OF c(1) refl]
    by (auto simp: latched_def c(2) previous_state_def next_state_cases(2) intro: order_trans)
qed

text \<open>the risk state only tightens. From any checkpoint, over any further observations, the
  state never moves back towards NORMAL, an unvalued external flow stays a reason and halts the
  account for good, and an unobserved history is never repaired.\<close>

theorem risk_state_latches:
  assumes "fold_res risk_step (Some p) inputs = Inr s"
  shows "\<exists>c. s = Some c \<and> risk_rank (rc_state p) \<le> risk_rank (rc_state c)
    \<and> rc_history_complete c = rc_history_complete p
    \<and> (External_Flow_Unvalued \<in> set (rc_reasons p) \<and> inputs \<noteq> [] \<longrightarrow>
        rc_state c = HALTED \<and> External_Flow_Unvalued \<in> set (rc_reasons c))"
  using latch.run_inv [OF assms] by (auto simp: latched_def)

definition sample_input :: "time \<Rightarrow> int option \<Rightarrow> int \<Rightarrow> risk_input" where
  "sample_input t e ext = \<lparr>ri_now = t, ri_equity = e, ri_external = ext, ri_initial_anchor = 1000000000,
     ri_daily_anchor = Some 1000000000, ri_sequence = 1, ri_usable = True, ri_accounting = True,
     ri_history_complete = None\<rparr>"

definition sample_checkpoint :: risk_checkpoint where
  "sample_checkpoint = \<lparr>rc_state = HALTED, rc_history_complete = True, rc_reasons = [External_Flow_Unvalued, Data_Unavailable],
     rc_day = 0, rc_daily_anchor = Some 1000000000, rc_high_water = 1000000000, rc_external_cash = 1500000000,
     rc_equity = None, rc_ledger_sequence = 1, rc_observed_at = 2000\<rparr>"

lemma sample_risk:
  "fold_res risk_step None [sample_input 1000 (Some 1000000000) 1000000000, sample_input 2000 None 1500000000]
    = Inr (Some sample_checkpoint)"
  "fold_res risk_step (Some sample_checkpoint) [sample_input 3000 (Some 1500000000) 1500000000]
    = Inr (Some (sample_checkpoint\<lparr>rc_reasons := [External_Flow_Unvalued], rc_high_water := 1500000000,
        rc_equity := Some 1500000000, rc_observed_at := 3000\<rparr>))"
  by code_simp+

theorem risk_state_latches_witness:
  "\<exists>c. fold_res risk_step (Some sample_checkpoint) [sample_input 3000 (Some 1500000000) 1500000000] = Inr (Some c)
    \<and> rc_state c = HALTED"
  using risk_state_latches [OF sample_risk(2)] sample_risk(2) by (auto simp: sample_checkpoint_def)

text \<open>What NORMAL says of the whole history.\<close>

definition no_flow :: "risk_input list \<Rightarrow> bool" where
  "no_flow h \<longleftrightarrow> (\<forall>i \<in> set h. ri_external i = ri_external (hd h))"

definition holds_value :: "risk_input \<Rightarrow> risk_input \<Rightarrow> bool" where
  "holds_value a b \<longleftrightarrow> (\<forall>x y. ri_equity a = Some x \<longrightarrow> ri_equity b = Some y \<longrightarrow> 9500 * x < 10000 * y)"

definition clean :: "risk_input \<Rightarrow> bool" where
  "clean i \<longleftrightarrow> ri_usable i \<and> ri_accounting i \<and> (\<exists>e. ri_equity i = Some e \<and> 0 < e)"

definition risk_inv :: "risk_input list \<Rightarrow> risk_checkpoint option \<Rightarrow> bool" where
  "risk_inv h s \<longleftrightarrow> (case s of None \<Rightarrow> h = [] | Some c \<Rightarrow> h \<noteq> []
     \<and> rc_external_cash c = ri_external (last h)
     \<and> (rc_state c = NORMAL \<longrightarrow> list_all clean h)
     \<and> (no_flow h \<longrightarrow> ri_initial_anchor (hd h) \<le> rc_high_water c
          \<and> (\<forall>i \<in> set h. \<forall>e. ri_equity i = Some e \<longrightarrow> e \<le> rc_high_water c)
          \<and> (rc_state c = NORMAL \<longrightarrow> sorted_wrt holds_value h)))"

lemma normal_clean:
  assumes "riskCheckpoint p i = Inr c" and "rc_state c = NORMAL"
  shows "rc_reasons c = []" and "clean i" and "\<And>q. p = Some q \<Longrightarrow> rc_state q = NORMAL"
    and "ri_equity i = Some e \<Longrightarrow> 9500 * rc_high_water c < 10000 * e"
proof -
  show r: "rc_reasons c = []" and n: "\<And>q. p = Some q \<Longrightarrow> rc_state q = NORMAL"
    using riskCheckpoint_state(1) [OF assms(1)] next_state_cases(1) [of "rc_reasons c" "previous_state p"] assms(2)
    by (simp_all add: previous_state_def)
  note loss = riskCheckpoint_state(8) [OF assms(1) r] and ok = riskCheckpoint_state(6) [OF assms(1) r]
  show "clean i" using loss ok by (auto simp: clean_def loss_reasons_def breached_def split: option.splits if_splits)
  show "9500 * rc_high_water c < 10000 * e" if "ri_equity i = Some e"
    using loss ok that by (auto simp: loss_reasons_def breached_def drawdown_bps_def split: option.splits if_splits)
qed

interpretation checkpoints: history_reducer risk_step None risk_inv
proof (unfold_locales)
  show "risk_inv [] None" by (simp add: risk_inv_def)
next
  fix h s i s'
  assume inv: "risk_inv h s" and s': "risk_step s i = Inr s'"
  then obtain c where c: "riskCheckpoint s i = Inr c" "s' = Some c" by (auto simp: risk_step_def)
  have normal: "list_all clean (h @ [i])" if "rc_state c = NORMAL"
    using normal_clean [OF c(1) that] inv by (auto simp: risk_inv_def split: option.splits)
  have high: "ri_initial_anchor (hd (h @ [i])) \<le> rc_high_water c"
    "\<forall>x \<in> set h. \<forall>e. ri_equity x = Some e \<longrightarrow> e \<le> rc_high_water c" if nf: "no_flow (h @ [i])"
  proof -
    have ext: "rc_external_cash q = ri_external i" if "s = Some q" for q
      using nf inv that by (cases h) (auto simp: no_flow_def risk_inv_def)
    note le = riskCheckpoint_high [OF c(1) ext]
    have nf': "no_flow h" using nf by (cases h) (simp_all add: no_flow_def)
    show "ri_initial_anchor (hd (h @ [i])) \<le> rc_high_water c"
      using inv le nf' by (cases s) (auto simp: risk_inv_def previous_high_def hd_append)
    show "\<forall>x \<in> set h. \<forall>e. ri_equity x = Some e \<longrightarrow> e \<le> rc_high_water c"
      using inv le nf' by (cases s) (auto simp: risk_inv_def previous_high_def intro: order_trans)
  qed
  have sorted: "sorted_wrt holds_value (h @ [i])" if nf: "no_flow (h @ [i])" and n: "rc_state c = NORMAL"
  proof -
    have nf': "no_flow h" using nf by (cases h) (simp_all add: no_flow_def)
    have "sorted_wrt holds_value h"
      using inv nf' normal_clean(3) [OF c(1) n] by (cases s) (auto simp: risk_inv_def)
    moreover have "holds_value x i" if "x \<in> set h" for x
      using high(2) [OF nf] normal_clean(4) [OF c(1) n] that by (force simp: holds_value_def)
    ultimately show ?thesis by (simp add: sorted_wrt_append)
  qed
  show "risk_inv (h @ [i]) s'"
    using normal high sorted riskCheckpoint_state(5,7) [OF c(1)] by (auto simp: risk_inv_def c(2))
qed

text \<open>NORMAL is earned over the whole history. An account that is still NORMAL had usable data,
  consistent accounting and positive equity at every observation; and if no external flow moved
  its anchors, no equity ever fell five percent below any earlier one.\<close>

theorem risk_normal_history:
  assumes "fold_res risk_step None inputs = Inr (Some c)" and "rc_state c = NORMAL"
  shows "list_all clean inputs \<and> (no_flow inputs \<longrightarrow> sorted_wrt holds_value inputs
      \<and> (\<forall>i \<in> set inputs. \<forall>e. ri_equity i = Some e \<longrightarrow> e \<le> rc_high_water c))"
  using checkpoints.run_inv [OF assms(1)] assms(2) by (auto simp: risk_inv_def)

theorem risk_normal_history_witness:
  "list_all clean [sample_input 1000 (Some 1000000000) 1, sample_input 2000 (Some 990000000) 1]"
proof -
  have "fold_res risk_step None [sample_input 1000 (Some 1000000000) 1, sample_input 2000 (Some 990000000) 1]
    = Inr (Some \<lparr>rc_state = NORMAL, rc_history_complete = True, rc_reasons = [], rc_day = 0,
        rc_daily_anchor = Some 1000000000, rc_high_water = 1000000000, rc_external_cash = 1,
        rc_equity = Some 990000000, rc_ledger_sequence = 1, rc_observed_at = 2000\<rparr>)"
    by code_simp
  from risk_normal_history [OF this] show ?thesis by simp
qed

end
