(* ===== verification/Feed.thy ===== *)
theory Feed
  imports Prelude
begin

text \<open>
  The feed quality machine, \<open>apps/api/src/trading/feed.ts\<close>. One \<open>feed\<close> is the state of a
  \<open>FeedQualityMachine\<close>; every public method is a function from state to state (\<open>drain\<close> also returns
  the deliveries, \<open>feed_status\<close> the report). The instants the adapter parses with \<open>Date.parse\<close> are
  milliseconds and a null source timestamp is \<open>None\<close>; the rest of an observation is the type
  parameter \<open>'p\<close>. The deduplication map is in insertion order, so evicting its first key is \<open>tl\<close>.
\<close>

definition queue_limit :: nat where "queue_limit = 512"
definition dedup_limit :: nat where "dedup_limit = 2048"
definition gaps_limit :: nat where "gaps_limit = 32"
definition sourceAgeMs :: int where "sourceAgeMs = 10000"
definition futureToleranceMs :: int where "futureToleranceMs = 1000"
definition socketAgeMs :: int where "socketAgeMs = 15000"

datatype channel = Book | Trades | Context
datatype gap_reason = Startup | Disconnect_Gap | Silence | Invalid_Gap | Out_Of_Order | Source_Stale | Overflow
datatype quality = Fresh | Stale | Unknown
datatype revalidation = No_Revalidation | Current_State_Only | Delivery_Resumed_Only
datatype channel_status = Awaiting | Healthy | Gone_Stale | Invalidated | Disconnected

record 'p observation =
  ob_channel :: channel
  ob_key :: string
  ob_source :: "time option"
  ob_received :: time
  ob_hash :: string
  ob_body :: 'p

record 'p delivery =
  dl_event :: "'p observation"
  dl_quality :: quality
  dl_gap_epoch :: nat
  dl_revalidation :: revalidation

record channel_state =
  ch_status :: channel_status
  ch_received :: "time option"
  ch_source :: "time option"
  ch_quality :: quality
  ch_gap_epoch :: nat
  ch_needs :: bool

record feed_gap =
  gp_epoch :: nat
  gp_channel :: channel
  gp_reason :: gap_reason
  gp_detected :: time
  gp_after :: "time option"
  gp_resumed :: "time option"
  gp_recovery :: "revalidation option"

record feed_counts =
  ct_accepted :: nat
  ct_duplicates :: nat
  ct_stale :: nat
  ct_out_of_order :: nat
  ct_invalid :: nat
  ct_dropped :: nat
  ct_gaps :: nat

record 'p feed =
  fd_connected :: bool
  fd_opened :: time
  fd_message :: "time option"
  fd_trade :: "time option"
  fd_epoch :: nat
  fd_states :: "channel \<Rightarrow> channel_state"
  fd_seen :: "(string \<times> string) list"
  fd_queue :: "'p delivery list"
  fd_gaps :: "feed_gap list"
  fd_counts :: feed_counts

definition channels :: "channel list" where
  "channels = [Book, Trades, Context]"

fun silence :: "channel \<Rightarrow> int" where
  "silence Book = 10000"
| "silence Trades = 30000"
| "silence Context = 15000"

fun channel_name :: "channel \<Rightarrow> string" where
  "channel_name Book = ''book''"
| "channel_name Trades = ''trades''"
| "channel_name Context = ''context''"

definition fresh_channel :: channel_state where
  "fresh_channel = \<lparr>ch_status = Awaiting, ch_received = None, ch_source = None, ch_quality = Unknown,
     ch_gap_epoch = 0, ch_needs = True\<rparr>"

definition new_feed :: "'p feed" where
  "new_feed = \<lparr>fd_connected = False, fd_opened = 0, fd_message = None, fd_trade = None, fd_epoch = 0,
     fd_states = (\<lambda>_. fresh_channel), fd_seen = [], fd_queue = [], fd_gaps = [],
     fd_counts = \<lparr>ct_accepted = 0, ct_duplicates = 0, ct_stale = 0, ct_out_of_order = 0, ct_invalid = 0,
       ct_dropped = 0, ct_gaps = 0\<rparr>\<rparr>"

section \<open>The methods\<close>

abbreviation set_channel :: "channel \<Rightarrow> channel_state \<Rightarrow> 'p feed \<Rightarrow> 'p feed" where
  "set_channel c s f \<equiv> f\<lparr>fd_states := (fd_states f)(c := s)\<rparr>"

definition open_gap :: "channel \<Rightarrow> gap_reason \<Rightarrow> time \<Rightarrow> 'p feed \<Rightarrow> 'p feed" where
  "open_gap c reason now f =
     (let s = fd_states f c in
      if ch_needs s \<and> ch_gap_epoch s \<noteq> 0 then f
      else
        let e = Suc (fd_epoch f);
            gap = \<lparr>gp_epoch = e, gp_channel = c, gp_reason = reason, gp_detected = now, gp_after = ch_source s,
              gp_resumed = None, gp_recovery = None\<rparr>;
            gaps = fd_gaps f @ [gap]
        in set_channel c (s\<lparr>ch_needs := True, ch_quality := Unknown, ch_gap_epoch := e\<rparr>) f
             \<lparr>fd_epoch := e, fd_counts := (fd_counts f)\<lparr>ct_gaps := Suc (ct_gaps (fd_counts f))\<rparr>,
              fd_gaps := (if length gaps > gaps_limit then tl gaps else gaps)\<rparr>)"

definition set_status :: "channel \<Rightarrow> channel_status \<Rightarrow> 'p feed \<Rightarrow> 'p feed" where
  "set_status c st f = set_channel c ((fd_states f c)\<lparr>ch_status := st\<rparr>) f"

definition set_stale :: "channel \<Rightarrow> 'p feed \<Rightarrow> 'p feed" where
  "set_stale c f = set_channel c ((fd_states f c)\<lparr>ch_status := Gone_Stale, ch_quality := Stale\<rparr>) f"

definition feed_open :: "time \<Rightarrow> 'p feed \<Rightarrow> 'p feed" where
  "feed_open now f =
     (let reason = (if fd_epoch f = 0 then Startup else Disconnect_Gap) in
      foldl (\<lambda>f c. set_status c Awaiting (open_gap c reason now f))
        (f\<lparr>fd_connected := True, fd_opened := now, fd_message := Some now\<rparr>) channels)"

definition feed_message :: "time \<Rightarrow> 'p feed \<Rightarrow> 'p feed" where
  "feed_message now f = f\<lparr>fd_message := Some now\<rparr>"

definition feed_disconnect :: "time \<Rightarrow> 'p feed \<Rightarrow> 'p feed" where
  "feed_disconnect now f =
     foldl (\<lambda>f c. set_status c Disconnected (open_gap c Disconnect_Gap now f)) (f\<lparr>fd_connected := False\<rparr>) channels"

definition feed_invalid :: "channel \<Rightarrow> time \<Rightarrow> 'p feed \<Rightarrow> 'p feed" where
  "feed_invalid c now f =
     set_status c Invalidated (open_gap c Invalid_Gap now
       (f\<lparr>fd_counts := (fd_counts f)\<lparr>ct_invalid := Suc (ct_invalid (fd_counts f))\<rparr>\<rparr>))"

definition tick_silence :: "time \<Rightarrow> channel \<Rightarrow> 'p feed \<Rightarrow> 'p feed" where
  "tick_silence now c f =
     (let last = (case ch_received (fd_states f c) of None \<Rightarrow> fd_opened f | Some t \<Rightarrow> t) in
      if now - max last (fd_opened f) \<ge> silence c then set_stale c (open_gap c Silence now f) else f)"

definition tick_source :: "time \<Rightarrow> channel \<Rightarrow> 'p feed \<Rightarrow> 'p feed" where
  "tick_source now c f =
     (if ch_status (fd_states f c) = Healthy
         \<and> (case ch_source (fd_states f c) of None \<Rightarrow> False | Some t \<Rightarrow> now - t > sourceAgeMs)
      then set_stale c (open_gap c Source_Stale now f) else f)"

definition feed_tick :: "time \<Rightarrow> 'p feed \<Rightarrow> 'p feed" where
  "feed_tick now f = (if \<not> fd_connected f then f
     else foldl (\<lambda>f c. tick_source now c (tick_silence now c f)) f channels)"

definition event_id :: "'p observation \<Rightarrow> string" where
  "event_id e = channel_name (ob_channel e) @ '':'' @ ob_key e"

definition remember :: "'p observation \<Rightarrow> 'p feed \<Rightarrow> 'p feed" where
  "remember e f =
     (let seen = AList.update (event_id e) (ob_hash e) (fd_seen f) in
      f\<lparr>fd_seen := (if length seen > dedup_limit then tl seen else seen)\<rparr>)"

definition event_quality :: "'p observation \<Rightarrow> quality" where
  "event_quality e = (case ob_source e of None \<Rightarrow> Unknown
     | Some t \<Rightarrow> if ob_received e - t > sourceAgeMs \<or> t - ob_received e > futureToleranceMs then Stale else Fresh)"

fun close_gap :: "nat \<Rightarrow> time \<Rightarrow> revalidation \<Rightarrow> feed_gap list \<Rightarrow> feed_gap list" where
  "close_gap e now r [] = []"
| "close_gap e now r (g # gs) =
     (if gp_epoch g = e then g\<lparr>gp_resumed := Some now, gp_recovery := Some r\<rparr> # gs else g # close_gap e now r gs)"

definition deliver :: "'p observation \<Rightarrow> 'p feed \<Rightarrow> 'p feed" where
  "deliver e f =
     (let c = ob_channel e; s = fd_states f c; now = ob_received e;
          r = (if ch_needs s then if c = Trades then Delivery_Resumed_Only else Current_State_Only else No_Revalidation)
      in set_channel c (s\<lparr>ch_needs := False, ch_received := Some now, ch_source := ob_source e,
             ch_quality := event_quality e, ch_status := Healthy\<rparr>) f
           \<lparr>fd_gaps := (if ch_needs s then close_gap (ch_gap_epoch s) now r (fd_gaps f) else fd_gaps f),
            fd_trade := (if c = Trades then ob_source e else fd_trade f),
            fd_counts := (fd_counts f)\<lparr>ct_accepted := Suc (ct_accepted (fd_counts f))\<rparr>,
            fd_queue := fd_queue f @ [\<lparr>dl_event = e, dl_quality = event_quality e, dl_gap_epoch = ch_gap_epoch s,
              dl_revalidation = r\<rparr>]\<rparr>)"

definition judge :: "'p observation \<Rightarrow> 'p feed \<Rightarrow> 'p feed" where
  "judge e f =
     (let c = ob_channel e; s = fd_states f c; now = ob_received e; n = fd_counts f in
      if (case (ob_source e, ch_source s) of (Some t, Some w) \<Rightarrow> t < w | _ \<Rightarrow> False)
      then set_status c Invalidated (open_gap c Out_Of_Order now (f\<lparr>fd_counts := n\<lparr>ct_out_of_order := Suc (ct_out_of_order n)\<rparr>\<rparr>))
      else if event_quality e = Stale
      then set_stale c (open_gap c Source_Stale now (f\<lparr>fd_counts := n\<lparr>ct_stale := Suc (ct_stale n)\<rparr>\<rparr>))
      else if length (fd_queue f) \<ge> queue_limit
      then set_status c Invalidated (open_gap c Overflow now (f\<lparr>fd_counts := n\<lparr>ct_dropped := Suc (ct_dropped n)\<rparr>\<rparr>))
      else deliver e f)"

definition accept :: "'p observation \<Rightarrow> 'p feed \<Rightarrow> 'p feed" where
  "accept e f =
     (if \<not> fd_connected f then f
      else
        let f = feed_tick (ob_received e) f in
        case map_of (fd_seen f) (event_id e) of
          Some h \<Rightarrow> if h \<noteq> ob_hash e then feed_invalid (ob_channel e) (ob_received e) f
            else f\<lparr>fd_counts := (fd_counts f)\<lparr>ct_duplicates := Suc (ct_duplicates (fd_counts f))\<rparr>\<rparr>
        | None \<Rightarrow> judge e (remember e f))"

definition drained_quality :: "time \<Rightarrow> 'p feed \<Rightarrow> 'p delivery \<Rightarrow> quality" where
  "drained_quality now f d =
     (let s = fd_states f (ob_channel (dl_event d)) in
      if dl_quality d = Fresh \<and> (case ob_source (dl_event d) of None \<Rightarrow> False | Some t \<Rightarrow> now - t > sourceAgeMs) then Stale
      else if ch_needs s \<or> ch_gap_epoch s \<noteq> dl_gap_epoch d then Unknown
      else dl_quality d)"

definition drain :: "time \<Rightarrow> 'p feed \<Rightarrow> 'p delivery list \<times> 'p feed" where
  "drain now f =
     (let f = feed_tick now f in
      (map (\<lambda>d. d\<lparr>dl_quality := drained_quality now f d\<rparr>) (fd_queue f), f\<lparr>fd_queue := []\<rparr>))"

record feed_report =
  rp_connected :: bool
  rp_alive :: bool
  rp_message :: "time option"
  rp_channels :: "channel \<Rightarrow> channel_state"
  rp_recent_trade :: bool
  rp_trade :: "time option"
  rp_gaps :: "feed_gap list"
  rp_counts :: feed_counts
  rp_queued :: nat
  rp_dedup :: nat
  rp_gap_count :: nat

definition feed_status :: "time \<Rightarrow> 'p feed \<Rightarrow> feed_report \<times> 'p feed" where
  "feed_status now f =
     (let f = feed_tick now f in
      (\<lparr>rp_connected = fd_connected f,
        rp_alive = (fd_connected f \<and> (case fd_message f of None \<Rightarrow> False | Some t \<Rightarrow> now - t < socketAgeMs)),
        rp_message = fd_message f, rp_channels = fd_states f,
        rp_recent_trade = (case fd_trade f of None \<Rightarrow> False | Some t \<Rightarrow> now - t \<le> sourceAgeMs),
        rp_trade = fd_trade f, rp_gaps = fd_gaps f, rp_counts = fd_counts f,
        rp_queued = length (fd_queue f), rp_dedup = length (fd_seen f), rp_gap_count = length (fd_gaps f)\<rparr>, f))"

section \<open>Operations and runs\<close>

datatype 'p feed_op = Op_Open time | Op_Message time | Op_Disconnect time | Op_Invalid channel time | Op_Tick time
  | Op_Accept "'p observation" | Op_Drain time | Op_Status time

fun feed_step :: "'p feed \<Rightarrow> 'p feed_op \<Rightarrow> 'p feed" where
  "feed_step f (Op_Open t) = feed_open t f"
| "feed_step f (Op_Message t) = feed_message t f"
| "feed_step f (Op_Disconnect t) = feed_disconnect t f"
| "feed_step f (Op_Invalid c t) = feed_invalid c t f"
| "feed_step f (Op_Tick t) = feed_tick t f"
| "feed_step f (Op_Accept e) = accept e f"
| "feed_step f (Op_Drain t) = snd (drain t f)"
| "feed_step f (Op_Status t) = snd (feed_status t f)"

inductive reached :: "'p feed \<Rightarrow> bool" where
  reached_new: "reached new_feed"
| reached_step: "reached f \<Longrightarrow> reached (feed_step f op)"

section \<open>Buffers\<close>

definition buffers_ok :: "'p feed \<Rightarrow> bool" where
  "buffers_ok f \<longleftrightarrow> length (fd_queue f) \<le> queue_limit \<and> length (fd_seen f) \<le> dedup_limit \<and> distinct (map fst (fd_seen f))"

lemma open_gap_frame [simp]:
  "fd_queue (open_gap c r t f) = fd_queue f" "fd_seen (open_gap c r t f) = fd_seen f"
  "fd_connected (open_gap c r t f) = fd_connected f" "fd_opened (open_gap c r t f) = fd_opened f"
  "ct_accepted (fd_counts (open_gap c r t f)) = ct_accepted (fd_counts f)"
  "ct_duplicates (fd_counts (open_gap c r t f)) = ct_duplicates (fd_counts f)"
  "ct_stale (fd_counts (open_gap c r t f)) = ct_stale (fd_counts f)"
  "ct_out_of_order (fd_counts (open_gap c r t f)) = ct_out_of_order (fd_counts f)"
  "ct_invalid (fd_counts (open_gap c r t f)) = ct_invalid (fd_counts f)"
  "ct_dropped (fd_counts (open_gap c r t f)) = ct_dropped (fd_counts f)"
  by (simp_all add: open_gap_def Let_def)

lemma set_status_frame [simp]:
  "fd_queue (set_status c st f) = fd_queue f" "fd_seen (set_status c st f) = fd_seen f"
  "fd_connected (set_status c st f) = fd_connected f" "fd_opened (set_status c st f) = fd_opened f"
  "fd_counts (set_status c st f) = fd_counts f" "fd_epoch (set_status c st f) = fd_epoch f"
  "fd_gaps (set_status c st f) = fd_gaps f"
  by (simp_all add: set_status_def)

lemma set_stale_frame [simp]:
  "fd_queue (set_stale c f) = fd_queue f" "fd_seen (set_stale c f) = fd_seen f"
  "fd_connected (set_stale c f) = fd_connected f" "fd_opened (set_stale c f) = fd_opened f"
  "fd_counts (set_stale c f) = fd_counts f" "fd_epoch (set_stale c f) = fd_epoch f"
  "fd_gaps (set_stale c f) = fd_gaps f"
  by (simp_all add: set_stale_def)

lemma tick_frame:
  "fd_queue (feed_tick t f) = fd_queue f \<and> fd_seen (feed_tick t f) = fd_seen f
   \<and> fd_connected (feed_tick t f) = fd_connected f \<and> fd_opened (feed_tick t f) = fd_opened f
   \<and> ct_accepted (fd_counts (feed_tick t f)) = ct_accepted (fd_counts f)
   \<and> ct_duplicates (fd_counts (feed_tick t f)) = ct_duplicates (fd_counts f)
   \<and> ct_stale (fd_counts (feed_tick t f)) = ct_stale (fd_counts f)
   \<and> ct_out_of_order (fd_counts (feed_tick t f)) = ct_out_of_order (fd_counts f)
   \<and> ct_invalid (fd_counts (feed_tick t f)) = ct_invalid (fd_counts f)
   \<and> ct_dropped (fd_counts (feed_tick t f)) = ct_dropped (fd_counts f)"
proof -
  let ?P = "\<lambda>g. fd_queue g = fd_queue f \<and> fd_seen g = fd_seen f \<and> fd_connected g = fd_connected f \<and> fd_opened g = fd_opened f
   \<and> ct_accepted (fd_counts g) = ct_accepted (fd_counts f) \<and> ct_duplicates (fd_counts g) = ct_duplicates (fd_counts f)
   \<and> ct_stale (fd_counts g) = ct_stale (fd_counts f) \<and> ct_out_of_order (fd_counts g) = ct_out_of_order (fd_counts f)
   \<and> ct_invalid (fd_counts g) = ct_invalid (fd_counts f) \<and> ct_dropped (fd_counts g) = ct_dropped (fd_counts f)"
  have "?P g \<Longrightarrow> ?P (tick_source t c (tick_silence t c g))" for c g
    by (simp add: tick_source_def tick_silence_def Let_def)
  then show ?thesis by (simp add: feed_tick_def channels_def)
qed

lemma length_update_le: "length (AList.update k v m) \<le> Suc (length m)"
  by (induction m) auto

lemma remember_buffers: "buffers_ok f \<Longrightarrow> buffers_ok (remember e f)"
  using distinct_update [of "fd_seen f" "event_id e" "ob_hash e"] length_update_le [of "event_id e" "ob_hash e" "fd_seen f"]
  by (auto simp: buffers_ok_def remember_def Let_def map_tl intro: distinct_tl)

lemma judge_buffers: "buffers_ok f \<Longrightarrow> buffers_ok (judge e f)"
  by (auto simp: buffers_ok_def judge_def deliver_def Let_def)

lemma accept_buffers: "buffers_ok f \<Longrightarrow> buffers_ok (accept e f)"
proof -
  assume "buffers_ok f"
  then have "buffers_ok (feed_tick (ob_received e) f)" using tick_frame [of "ob_received e" f] by (simp add: buffers_ok_def)
  moreover from this have "buffers_ok (judge e (remember e (feed_tick (ob_received e) f)))"
    by (intro judge_buffers remember_buffers)
  ultimately show ?thesis using \<open>buffers_ok f\<close>
    by (auto simp: accept_def Let_def feed_invalid_def buffers_ok_def split: option.splits)
qed

lemma step_buffers: "buffers_ok f \<Longrightarrow> buffers_ok (feed_step f op)"
proof (cases op)
  case (Op_Accept e)
  then show "buffers_ok f \<Longrightarrow> buffers_ok (feed_step f op)" by (simp add: accept_buffers)
qed (simp_all add: buffers_ok_def feed_open_def feed_message_def feed_disconnect_def feed_invalid_def
      drain_def feed_status_def Let_def channels_def tick_frame)

section \<open>The gap log\<close>

text \<open>A channel is broken while it waits for revalidation in a numbered gap.\<close>

definition pending :: "'p feed \<Rightarrow> feed_gap \<Rightarrow> bool" where
  "pending f g \<longleftrightarrow> ch_needs (fd_states f (gp_channel g)) \<and> ch_gap_epoch (fd_states f (gp_channel g)) = gp_epoch g"

definition log_ok :: "'p feed \<Rightarrow> bool" where
  "log_ok f \<longleftrightarrow> length (fd_gaps f) \<le> gaps_limit \<and> length (fd_gaps f) \<le> fd_epoch f
     \<and> map gp_epoch (fd_gaps f) = [Suc (fd_epoch f) - length (fd_gaps f)..<Suc (fd_epoch f)]
     \<and> ct_gaps (fd_counts f) = fd_epoch f
     \<and> (\<forall>c. ch_gap_epoch (fd_states f c) \<le> fd_epoch f)
     \<and> (\<forall>g \<in> set (fd_gaps f). gp_recovery g = None \<longleftrightarrow> pending f g)
     \<and> (\<forall>g \<in> set (fd_gaps f). \<forall>c. ch_gap_epoch (fd_states f c) = gp_epoch g \<longrightarrow> gp_channel g = c)"

lemma log_epochs: "log_ok f \<Longrightarrow> g \<in> set (fd_gaps f) \<Longrightarrow> gp_epoch g \<le> fd_epoch f \<and> 0 < gp_epoch g"
proof -
  assume "log_ok f" "g \<in> set (fd_gaps f)"
  then have "gp_epoch g \<in> set [Suc (fd_epoch f) - length (fd_gaps f)..<Suc (fd_epoch f)]" "length (fd_gaps f) \<le> fd_epoch f"
    unfolding log_ok_def by (metis image_eqI set_map, blast)
  then show ?thesis by auto
qed

text \<open>Writing the other fields of one channel leaves the log as it was.\<close>

lemma log_ok_channel:
  assumes "log_ok f" and "ch_needs s = ch_needs (fd_states f c)" and "ch_gap_epoch s = ch_gap_epoch (fd_states f c)"
  shows "log_ok (set_channel c s f)"
  using assms by (auto simp: log_ok_def pending_def)

lemma log_ok_open_gap:
  assumes ok: "log_ok f"
  shows "log_ok (open_gap c r t f)"
proof (cases "ch_needs (fd_states f c) \<and> ch_gap_epoch (fd_states f c) \<noteq> 0")
  case True
  then show ?thesis using ok by (simp add: open_gap_def Let_def)
next
  case False
  let ?s = "fd_states f c" and ?e = "Suc (fd_epoch f)"
  define gap where "gap = \<lparr>gp_epoch = ?e, gp_channel = c, gp_reason = r, gp_detected = t, gp_after = ch_source ?s,
      gp_resumed = None, gp_recovery = None\<rparr>"
  define gaps where "gaps = (if length (fd_gaps f @ [gap]) > gaps_limit then tl (fd_gaps f @ [gap]) else fd_gaps f @ [gap])"
  let ?f = "open_gap c r t f"
  have f': "fd_gaps ?f = gaps" "fd_epoch ?f = ?e" "ct_gaps (fd_counts ?f) = Suc (ct_gaps (fd_counts f))"
    "fd_states ?f = (fd_states f)(c := ?s\<lparr>ch_needs := True, ch_quality := Unknown, ch_gap_epoch := ?e\<rparr>)"
    using False by (auto simp: open_gap_def Let_def gap_def gaps_def)
  have len: "length gaps \<le> gaps_limit" "length gaps \<le> ?e"
    using ok by (auto simp: log_ok_def gaps_def gaps_limit_def)
  have sub: "set gaps \<subseteq> insert gap (set (fd_gaps f))"
    using list.set_sel(2) [of "fd_gaps f @ [gap]"] by (auto simp: gaps_def)
  have epochs: "map gp_epoch gaps = [Suc ?e - length gaps..<Suc ?e]"
  proof -
    have "map gp_epoch (fd_gaps f @ [gap]) = [Suc ?e - length (fd_gaps f @ [gap])..<Suc ?e]"
      using ok by (auto simp: log_ok_def gap_def)
    moreover have "Suc (Suc ?e - length (fd_gaps f @ [gap])) = Suc ?e - (length (fd_gaps f @ [gap]) - 1)"
      using ok by (simp add: log_ok_def) linarith
    ultimately show ?thesis by (simp only: gaps_def map_tl tl_upt length_tl split: if_split) simp
  qed
  have below: "gp_epoch g \<noteq> ?e" "0 < gp_epoch g" if "g \<in> set (fd_gaps f)" for g
    using log_epochs [OF ok that] by auto
  have old: "gp_recovery g \<noteq> None" if "g \<in> set (fd_gaps f)" "gp_channel g = c" for g
  proof -
    have "gp_recovery g = None \<longleftrightarrow> pending f g" using ok that(1) by (simp add: log_ok_def)
    moreover have "\<not> pending f g" using False below [OF that(1)] that(2) by (auto simp: pending_def)
    ultimately show ?thesis by blast
  qed
  have "gp_recovery g = None \<longleftrightarrow> pending ?f g" if "g \<in> set gaps" for g
  proof (cases "g = gap")
    case True
    then show ?thesis by (simp add: pending_def f' gap_def)
  next
    case g: False
    with that sub have in_f: "g \<in> set (fd_gaps f)" by blast
    then have iff: "gp_recovery g = None \<longleftrightarrow> pending f g" using ok by (simp add: log_ok_def)
    show ?thesis
      using iff old [OF in_f] below(1) [OF in_f] below(1) [OF in_f, symmetric]
      by (cases "gp_channel g = c") (simp_all add: pending_def f')
  qed
  moreover have "gp_channel g = d" if "g \<in> set gaps" "ch_gap_epoch (fd_states ?f d) = gp_epoch g" for g d
  proof (cases "g = gap")
    case True
    have "ch_gap_epoch (fd_states f d) \<noteq> ?e" using ok by (metis log_ok_def Suc_n_not_le_n)
    with True that(2) show ?thesis by (auto simp: f' gap_def split: if_splits)
  next
    case g: False
    with that(1) sub have "g \<in> set (fd_gaps f)" by blast
    then show ?thesis using ok that(2) below by (auto simp: f' log_ok_def split: if_splits)
  qed
  moreover have "ch_gap_epoch (fd_states ?f d) \<le> ?e" for d
    using ok by (auto simp: f' log_ok_def le_Suc_eq)
  ultimately show ?thesis
    using len epochs ok by (simp add: log_ok_def f')
qed

lemma log_ok_status: "log_ok f \<Longrightarrow> log_ok (set_status c st f)"
  unfolding set_status_def by (rule log_ok_channel) simp_all

lemma log_ok_stale: "log_ok f \<Longrightarrow> log_ok (set_stale c f)"
  unfolding set_stale_def by (rule log_ok_channel) simp_all

text \<open>Steps that do not touch the log.\<close>

lemma log_ok_frame:
  assumes "log_ok f" "fd_gaps g = fd_gaps f" "fd_epoch g = fd_epoch f" "fd_states g = fd_states f"
    "ct_gaps (fd_counts g) = ct_gaps (fd_counts f)"
  shows "log_ok g"
  using assms by (simp add: log_ok_def pending_def)

lemma log_ok_tick: "log_ok f \<Longrightarrow> log_ok (feed_tick t f)"
proof -
  have "log_ok g \<Longrightarrow> log_ok (tick_source t c (tick_silence t c g))" for c and g :: "'a feed"
    by (auto simp: tick_source_def tick_silence_def Let_def intro!: log_ok_stale log_ok_open_gap)
  then show "log_ok f \<Longrightarrow> log_ok (feed_tick t f)" by (simp add: feed_tick_def channels_def)
qed

lemma close_gap_other: "e \<notin> gp_epoch ` set gs \<Longrightarrow> close_gap e t r gs = gs"
  by (induction gs) auto

lemma close_gap_map:
  "distinct (map gp_epoch gs) \<Longrightarrow> close_gap e t r gs =
     map (\<lambda>g. if gp_epoch g = e then g\<lparr>gp_resumed := Some t, gp_recovery := Some r\<rparr> else g) gs"
proof (induction gs)
  case Nil
  then show ?case by simp
next
  case (Cons g gs)
  then show ?case by (cases "gp_epoch g = e") (auto intro!: map_idI [symmetric] simp: rev_image_eqI)
qed

lemma log_distinct: "log_ok f \<Longrightarrow> distinct (map gp_epoch (fd_gaps f))"
  unfolding log_ok_def by (metis distinct_upt)

lemma log_ok_deliver:
  assumes ok: "log_ok f"
  shows "log_ok (deliver e f)"
proof -
  let ?c = "ob_channel e" and ?s = "fd_states f (ob_channel e)"
  define r where "r = (if ch_needs ?s then if ?c = Trades then Delivery_Resumed_Only else Current_State_Only else No_Revalidation)"
  define u where "u g = (if ch_needs ?s \<and> gp_epoch g = ch_gap_epoch ?s
      then g\<lparr>gp_resumed := Some (ob_received e), gp_recovery := Some r\<rparr> else g)" for g :: feed_gap
  have f': "fd_epoch (deliver e f) = fd_epoch f" "ct_gaps (fd_counts (deliver e f)) = ct_gaps (fd_counts f)"
    "fd_states (deliver e f) = (fd_states f)(?c := ?s\<lparr>ch_needs := False, ch_received := Some (ob_received e),
        ch_source := ob_source e, ch_quality := event_quality e, ch_status := Healthy\<rparr>)"
    by (simp_all add: deliver_def Let_def)
  have gaps: "fd_gaps (deliver e f) = map u (fd_gaps f)"
    using close_gap_map [OF log_distinct [OF ok]]
    by (simp add: deliver_def Let_def u_def r_def cong: map_cong)
  have u: "gp_epoch (u g) = gp_epoch g" "gp_channel (u g) = gp_channel g" for g by (simp_all add: u_def)
  have "gp_recovery (u g) = None \<longleftrightarrow> pending (deliver e f) (u g)" if g: "g \<in> set (fd_gaps f)" for g
  proof (cases "gp_channel g = ?c")
    case True
    then have "gp_recovery g = None \<longleftrightarrow> ch_needs ?s \<and> ch_gap_epoch ?s = gp_epoch g"
      using ok g by (simp add: log_ok_def pending_def)
    then show ?thesis using True by (auto simp: pending_def u f' u_def)
  next
    case False
    then have "gp_epoch g \<noteq> ch_gap_epoch ?s" using ok g unfolding log_ok_def by metis
    then have "u g = g" by (simp add: u_def)
    then show ?thesis using ok g False by (simp add: log_ok_def pending_def f')
  qed
  then show ?thesis
    using ok by (auto simp: log_ok_def gaps u comp_def f')
qed

lemma judge_cases:
  obtains (late) v w where "ob_source e = Some v" and "ch_source (fd_states f (ob_channel e)) = Some w" and "v < w"
    and "judge e f = set_status (ob_channel e) Invalidated (open_gap (ob_channel e) Out_Of_Order (ob_received e)
      (f\<lparr>fd_counts := (fd_counts f)\<lparr>ct_out_of_order := Suc (ct_out_of_order (fd_counts f))\<rparr>\<rparr>))"
  | (stale) "event_quality e = Stale"
    and "judge e f = set_stale (ob_channel e) (open_gap (ob_channel e) Source_Stale (ob_received e)
      (f\<lparr>fd_counts := (fd_counts f)\<lparr>ct_stale := Suc (ct_stale (fd_counts f))\<rparr>\<rparr>))"
  | (full) "length (fd_queue f) \<ge> queue_limit"
    and "judge e f = set_status (ob_channel e) Invalidated (open_gap (ob_channel e) Overflow (ob_received e)
      (f\<lparr>fd_counts := (fd_counts f)\<lparr>ct_dropped := Suc (ct_dropped (fd_counts f))\<rparr>\<rparr>))"
  | (delivered) "event_quality e \<noteq> Stale" and "length (fd_queue f) < queue_limit"
    and "\<forall>v w. ob_source e = Some v \<and> ch_source (fd_states f (ob_channel e)) = Some w \<longrightarrow> w \<le> v"
    and "judge e f = deliver e f"
proof -
  let ?late = "case (ob_source e, ch_source (fd_states f (ob_channel e))) of (Some v, Some w) \<Rightarrow> v < w | _ \<Rightarrow> False"
  consider ?late | "\<not> ?late" "event_quality e = Stale" | "\<not> ?late" "event_quality e \<noteq> Stale" "length (fd_queue f) \<ge> queue_limit"
    | "\<not> ?late" "event_quality e \<noteq> Stale" "length (fd_queue f) < queue_limit" by linarith
  then show thesis
  proof cases
    case 1
    then obtain v w where "ob_source e = Some v" "ch_source (fd_states f (ob_channel e)) = Some w" "v < w"
      by (auto split: option.splits)
    with 1 show ?thesis by (intro late) (simp_all add: judge_def Let_def)
  next
    case 2
    show ?thesis by (rule stale [OF 2(2)]) (simp only: judge_def Let_def 2 if_False if_True simp_thms)
  next
    case 3
    show ?thesis by (rule full [OF 3(3)]) (simp only: judge_def Let_def 3 if_False if_True simp_thms)
  next
    case 4
    have "judge e f = deliver e f" using 4 by (simp only: judge_def Let_def if_False not_le [symmetric] simp_thms)
    then show ?thesis using 4 by (intro delivered) (auto simp: not_less)
  qed
qed

lemma log_ok_judge:
  assumes ok: "log_ok f"
  shows "log_ok (judge e f)"
proof -
  have "log_ok (f\<lparr>fd_counts := n\<rparr>)" if "ct_gaps n = ct_gaps (fd_counts f)" for n
    using ok by (rule log_ok_frame) (simp_all add: that)
  then show ?thesis
    by (cases rule: judge_cases [of e f]) (simp_all add: log_ok_status log_ok_stale log_ok_open_gap log_ok_deliver ok)
qed

lemma log_ok_invalid: "log_ok f \<Longrightarrow> log_ok (feed_invalid c t f)"
  unfolding feed_invalid_def by (rule log_ok_status, rule log_ok_open_gap, erule log_ok_frame) simp_all

lemma log_ok_accept:
  assumes "log_ok f"
  shows "log_ok (accept e f)"
proof -
  let ?f = "feed_tick (ob_received e) f"
  have ok: "log_ok ?f" using assms by (rule log_ok_tick)
  then have "log_ok (remember e ?f)" by (rule log_ok_frame) (simp_all add: remember_def Let_def)
  then have "log_ok (judge e (remember e ?f))" by (rule log_ok_judge)
  moreover have "log_ok (?f\<lparr>fd_counts := (fd_counts ?f)\<lparr>ct_duplicates := Suc (ct_duplicates (fd_counts ?f))\<rparr>\<rparr>)"
    using ok by (rule log_ok_frame) simp_all
  ultimately show ?thesis
    using assms log_ok_invalid [OF ok] by (simp add: accept_def Let_def split: option.splits)
qed

lemma step_log: "log_ok f \<Longrightarrow> log_ok (feed_step f op)"
proof (cases op)
  case (Op_Open t)
  assume "log_ok f"
  then have "log_ok (f\<lparr>fd_connected := True, fd_opened := t, fd_message := Some t\<rparr>)" by (rule log_ok_frame) simp_all
  then show ?thesis using Op_Open by (simp add: feed_open_def Let_def channels_def log_ok_status log_ok_open_gap)
next
  case (Op_Disconnect t)
  assume "log_ok f"
  then have "log_ok (f\<lparr>fd_connected := False\<rparr>)" by (rule log_ok_frame) simp_all
  then show ?thesis using Op_Disconnect by (simp add: feed_disconnect_def channels_def log_ok_status log_ok_open_gap)
next
  case (Op_Message t)
  assume "log_ok f"
  then show ?thesis using Op_Message by (auto simp: feed_message_def intro: log_ok_frame)
next
  case (Op_Drain t)
  assume "log_ok f"
  then show ?thesis using Op_Drain log_ok_tick [of f t] by (auto simp: drain_def Let_def intro: log_ok_frame)
qed (simp_all add: log_ok_accept log_ok_invalid log_ok_tick feed_status_def Let_def)

section \<open>Channels\<close>

definition gapped :: "nat \<Rightarrow> channel_state \<Rightarrow> channel_state" where
  "gapped e s = (if ch_needs s \<and> ch_gap_epoch s \<noteq> 0 then s
     else s\<lparr>ch_needs := True, ch_quality := Unknown, ch_gap_epoch := Suc e\<rparr>)"

lemma gapped_simps [simp]:
  "ch_needs (gapped e s)" "ch_gap_epoch (gapped e s) \<noteq> 0" "0 < ch_gap_epoch (gapped e s)" "ch_status (gapped e s) = ch_status s"
  "ch_received (gapped e s) = ch_received s" "ch_source (gapped e s) = ch_source s"
  by (simp_all add: gapped_def)

lemma states_open_gap [simp]: "fd_states (open_gap c r t f) = (fd_states f)(c := gapped (fd_epoch f) (fd_states f c))"
  by (auto simp: open_gap_def gapped_def Let_def)

lemma states_set_status [simp]: "fd_states (set_status c st f) = (fd_states f)(c := (fd_states f c)\<lparr>ch_status := st\<rparr>)"
  by (simp add: set_status_def)

lemma states_set_stale [simp]:
  "fd_states (set_stale c f) = (fd_states f)(c := (fd_states f c)\<lparr>ch_status := Gone_Stale, ch_quality := Stale\<rparr>)"
  by (simp add: set_stale_def)

lemma states_deliver [simp]:
  "fd_states (deliver e f) = (fd_states f)(ob_channel e := (fd_states f (ob_channel e))\<lparr>ch_needs := False,
     ch_received := Some (ob_received e), ch_source := ob_source e, ch_quality := event_quality e, ch_status := Healthy\<rparr>)"
  by (simp add: deliver_def Let_def)

lemma states_remember [simp]: "fd_states (remember e f) = fd_states f" "fd_epoch (remember e f) = fd_epoch f"
  "fd_queue (remember e f) = fd_queue f" "fd_connected (remember e f) = fd_connected f" "fd_counts (remember e f) = fd_counts f"
  by (simp_all add: remember_def Let_def)

text \<open>A channel is healthy exactly while it needs no revalidation; then its gap was numbered and its
  last event, received, carries the quality of the channel.\<close>

definition channel_ok :: "channel_state \<Rightarrow> bool" where
  "channel_ok s \<longleftrightarrow> (ch_status s = Healthy \<longleftrightarrow> \<not> ch_needs s)
     \<and> (\<not> ch_needs s \<longrightarrow> ch_gap_epoch s \<noteq> 0 \<and> ch_received s \<noteq> None
          \<and> ch_quality s = (if ch_source s = None then Unknown else Fresh))"

definition channels_ok :: "'p feed \<Rightarrow> bool" where
  "channels_ok f \<longleftrightarrow> (\<forall>c. channel_ok (fd_states f c))
     \<and> (fd_connected f \<longrightarrow> (\<forall>c. ch_gap_epoch (fd_states f c) \<noteq> 0))
     \<and> (\<not> fd_connected f \<longrightarrow> (\<forall>c. ch_needs (fd_states f c)))"

lemma channel_ok_broken: "ch_needs s \<Longrightarrow> ch_status s \<noteq> Healthy \<Longrightarrow> channel_ok s"
  by (simp add: channel_ok_def)

lemma channels_ok_tick: "channels_ok f \<Longrightarrow> channels_ok (feed_tick t f)"
proof -
  have "channels_ok g \<Longrightarrow> channels_ok (tick_source t c (tick_silence t c g))" for c and g :: "'a feed"
    by (auto simp: channels_ok_def tick_source_def tick_silence_def Let_def intro!: channel_ok_broken)
  then show "channels_ok f \<Longrightarrow> channels_ok (feed_tick t f)" by (simp add: feed_tick_def channels_def)
qed

lemma event_quality_not_stale:
  "event_quality e \<noteq> Stale \<Longrightarrow> event_quality e = (if ob_source e = None then Unknown else Fresh)"
  by (auto simp: event_quality_def split: option.splits)

lemma deliver_frame [simp]: "fd_connected (deliver e f) = fd_connected f" "fd_epoch (deliver e f) = fd_epoch f"
  by (simp_all add: deliver_def Let_def)

lemma channels_ok_judge:
  assumes "channels_ok f" and "fd_connected f"
  shows "channels_ok (judge e f)"
  by (cases rule: judge_cases [of e f])
    (use assms event_quality_not_stale [of e] in \<open>auto simp: channels_ok_def channel_ok_def\<close>)

lemma channels_ok_invalid: "channels_ok f \<Longrightarrow> channels_ok (feed_invalid c t f)"
  by (auto simp: feed_invalid_def channels_ok_def intro!: channel_ok_broken)

lemma channels_ok_frame:
  "channels_ok f \<Longrightarrow> fd_states g = fd_states f \<Longrightarrow> fd_connected g = fd_connected f \<Longrightarrow> channels_ok g"
  by (simp add: channels_ok_def)

lemma accept_cases:
  obtains (offline) "\<not> fd_connected f" and "accept e f = f"
  | (conflict) "fd_connected f" and "accept e f = feed_invalid (ob_channel e) (ob_received e) (feed_tick (ob_received e) f)"
  | (duplicate) "fd_connected f" and "map_of (fd_seen f) (event_id e) = Some (ob_hash e)"
    and "accept e f = (feed_tick (ob_received e) f)\<lparr>fd_counts := (fd_counts (feed_tick (ob_received e) f))
      \<lparr>ct_duplicates := Suc (ct_duplicates (fd_counts (feed_tick (ob_received e) f)))\<rparr>\<rparr>"
  | (unseen) "fd_connected f" and "map_of (fd_seen f) (event_id e) = None"
    and "accept e f = judge e (remember e (feed_tick (ob_received e) f))"
proof -
  have seen: "fd_seen (feed_tick (ob_received e) f) = fd_seen f" by (simp add: tick_frame)
  show thesis
  proof (cases "fd_connected f")
    case False
    then show ?thesis by (intro offline) (simp_all add: accept_def)
  next
    case on: True
    show ?thesis
    proof (cases "map_of (fd_seen f) (event_id e)")
      case None
      then show ?thesis by (intro unseen on) (simp_all add: accept_def Let_def on seen)
    next
      case (Some h)
      then show ?thesis
        using on by (cases "h = ob_hash e") (simp_all add: accept_def Let_def seen conflict duplicate)
    qed
  qed
qed

lemma channels_ok_accept: "channels_ok f \<Longrightarrow> channels_ok (accept e f)"
proof -
  assume ok: "channels_ok f"
  have tick: "channels_ok (feed_tick (ob_received e) f)" using ok by (rule channels_ok_tick)
  show ?thesis
  proof (cases rule: accept_cases [of f e])
    case unseen
    have "channels_ok (remember e (feed_tick (ob_received e) f))" using tick by (rule channels_ok_frame) simp_all
    then have "channels_ok (judge e (remember e (feed_tick (ob_received e) f)))"
      by (rule channels_ok_judge) (simp add: unseen tick_frame)
    then show ?thesis by (simp add: unseen)
  next
    case duplicate
    then show ?thesis by (auto intro: channels_ok_frame [OF tick])
  qed (simp_all add: ok tick channels_ok_invalid)
qed

lemma all_channels: "(\<forall>c. P c) \<longleftrightarrow> P Book \<and> P Trades \<and> P Context"
  by (metis channel.exhaust)

lemma step_channels: "channels_ok f \<Longrightarrow> channels_ok (feed_step f op)"
proof (cases op)
  case (Op_Open t)
  show ?thesis
    by (simp add: Op_Open feed_open_def Let_def channels_def channels_ok_def channel_ok_broken all_channels)
next
  case (Op_Disconnect t)
  show ?thesis
    by (simp add: Op_Disconnect feed_disconnect_def channels_def channels_ok_def channel_ok_broken all_channels)
next
  case (Op_Drain t)
  assume "channels_ok f"
  then show ?thesis using Op_Drain channels_ok_tick [of f t] by (auto simp: drain_def Let_def intro: channels_ok_frame)
next
  case (Op_Message t)
  assume "channels_ok f"
  then show ?thesis using Op_Message by (auto simp: feed_message_def intro: channels_ok_frame)
qed (simp_all add: channels_ok_accept channels_ok_invalid channels_ok_tick feed_status_def Let_def)

section \<open>The queue\<close>

definition queue_ok :: "'p feed \<Rightarrow> bool" where
  "queue_ok f \<longleftrightarrow> (\<forall>d \<in> set (fd_queue f). dl_quality d = event_quality (dl_event d) \<and> event_quality (dl_event d) \<noteq> Stale)"

lemma queue_deliver [simp]:
  "fd_queue (deliver e f) = fd_queue f @ [\<lparr>dl_event = e, dl_quality = event_quality e,
     dl_gap_epoch = ch_gap_epoch (fd_states f (ob_channel e)),
     dl_revalidation = (if ch_needs (fd_states f (ob_channel e))
       then if ob_channel e = Trades then Delivery_Resumed_Only else Current_State_Only else No_Revalidation)\<rparr>]"
  by (simp add: deliver_def Let_def)

lemma queue_ok_accept: "queue_ok f \<Longrightarrow> queue_ok (accept e f)"
proof -
  assume ok: "queue_ok f"
  show ?thesis
  proof (cases rule: accept_cases [of f e])
    case unseen
    let ?g = "remember e (feed_tick (ob_received e) f)"
    have "queue_ok ?g" using ok by (simp add: queue_ok_def tick_frame)
    then have "queue_ok (judge e ?g)"
      by (cases rule: judge_cases [of e ?g]) (auto simp: queue_ok_def)
    then show ?thesis by (simp add: unseen)
  qed (use ok in \<open>simp_all add: queue_ok_def tick_frame feed_invalid_def\<close>)
qed

lemma step_queue: "queue_ok f \<Longrightarrow> queue_ok (feed_step f op)"
proof (cases op)
  case (Op_Accept e)
  then show "queue_ok f \<Longrightarrow> queue_ok (feed_step f op)" by (simp add: queue_ok_accept)
qed (simp_all add: queue_ok_def feed_open_def feed_message_def feed_disconnect_def feed_invalid_def
      drain_def feed_status_def Let_def channels_def tick_frame)

section \<open>Every run keeps the invariant\<close>

definition feed_ok :: "'p feed \<Rightarrow> bool" where
  "feed_ok f \<longleftrightarrow> buffers_ok f \<and> log_ok f \<and> channels_ok f \<and> queue_ok f"

lemma feed_ok_new: "feed_ok new_feed"
  by (simp add: feed_ok_def buffers_ok_def log_ok_def channels_ok_def channel_ok_def queue_ok_def new_feed_def
      fresh_channel_def queue_limit_def dedup_limit_def)

interpretation machine: total_reducer feed_step new_feed "\<lambda>_. feed_ok"
  by unfold_locales (simp_all add: feed_ok_new, simp add: feed_ok_def step_buffers step_log step_channels step_queue)

lemma reached_run: "reached f \<longleftrightarrow> (\<exists>ops. f = foldl feed_step new_feed ops)"
proof
  show "reached f \<Longrightarrow> \<exists>ops. f = foldl feed_step new_feed ops"
  proof (induction rule: reached.induct)
    case reached_new
    have "new_feed = foldl feed_step new_feed []" by simp
    then show ?case by blast
  next
    case (reached_step f op)
    then obtain ops where "f = foldl feed_step new_feed ops" by blast
    then have "feed_step f op = foldl feed_step new_feed (ops @ [op])" by simp
    then show ?case by blast
  qed
next
  have "reached (foldl feed_step new_feed ops)" for ops :: "'a feed_op list"
    by (induction ops rule: rev_induct) (auto intro: reached.intros)
  then show "\<exists>ops. f = foldl feed_step new_feed ops \<Longrightarrow> reached f" by blast
qed

lemma reached_ok: "reached f \<Longrightarrow> feed_ok f"
  using machine.foldl_inv by (auto simp: reached_run)

section \<open>What a report promises\<close>

definition timely :: "time \<Rightarrow> 'p feed \<Rightarrow> channel \<Rightarrow> bool" where
  "timely now f c \<longleftrightarrow> ch_status (fd_states f c) = Healthy \<longrightarrow>
     now - max (case ch_received (fd_states f c) of None \<Rightarrow> fd_opened f | Some t \<Rightarrow> t) (fd_opened f) < silence c
     \<and> (case ch_source (fd_states f c) of None \<Rightarrow> True | Some t \<Rightarrow> now - t \<le> sourceAgeMs)"

lemma timely_sweep:
  "timely now (tick_source now c (tick_silence now c f)) c"
  "d \<noteq> c \<Longrightarrow> timely now (tick_source now c (tick_silence now c f)) d = timely now f d"
  by (auto simp: timely_def tick_source_def tick_silence_def Let_def not_le split: option.splits)

lemma timely_tick: "fd_connected f \<Longrightarrow> timely now (feed_tick now f) c"
  by (cases c) (simp_all add: feed_tick_def channels_def timely_sweep)

definition sample_observation :: "channel \<Rightarrow> string \<Rightarrow> time option \<Rightarrow> time \<Rightarrow> unit observation" where
  "sample_observation c k s t = \<lparr>ob_channel = c, ob_key = k, ob_source = s, ob_received = t, ob_hash = ''h'', ob_body = ()\<rparr>"

definition sample_feed :: "unit feed" where
  "sample_feed = foldl feed_step new_feed [Op_Open 1000, Op_Accept (sample_observation Book ''a'' (Some 900) 1100)]"

lemmas feed_eval = feed_open_def feed_tick_def tick_silence_def tick_source_def open_gap_def set_status_def set_stale_def
  accept_def judge_def remember_def deliver_def event_quality_def event_id_def channels_def new_feed_def fresh_channel_def
  sample_observation_def Let_def queue_limit_def dedup_limit_def gaps_limit_def sourceAgeMs_def futureToleranceMs_def
  drain_def drained_quality_def feed_status_def

lemma sample_feed_eval:
  "map gp_epoch (fd_gaps sample_feed) = [1, 2, 3]"
  "map dl_quality (fst (drain 2000 sample_feed)) = [Fresh]"
  "ch_status (rp_channels (fst (feed_status 1200 sample_feed)) Book) = Healthy"
  by (simp_all add: sample_feed_def feed_eval)

lemma sample_reached: "reached sample_feed"
  unfolding reached_run sample_feed_def by blast

text \<open>C30: In every reachable state the buffers are within their limits, deduplication keys are
  distinct, the retained gaps are exactly the last ones, numbered one after the other up to the
  epoch, and a gap is pending exactly while its channel still waits in it.\<close>

theorem feed_log:
  assumes "reached f"
  shows "length (fd_queue f) \<le> 512 \<and> length (fd_seen f) \<le> 2048 \<and> distinct (map fst (fd_seen f))
    \<and> length (fd_gaps f) \<le> 32 \<and> ct_gaps (fd_counts f) = fd_epoch f
    \<and> map gp_epoch (fd_gaps f) = [Suc (fd_epoch f) - length (fd_gaps f)..<Suc (fd_epoch f)]
    \<and> (\<forall>g \<in> set (fd_gaps f). gp_recovery g = None \<longleftrightarrow> pending f g)"
  using reached_ok [OF assms]
  by (simp add: feed_ok_def buffers_ok_def log_ok_def queue_limit_def dedup_limit_def gaps_limit_def)

theorem feed_log_witness: "map gp_epoch (fd_gaps sample_feed) = [1, 2, 3] \<and> length (fd_queue sample_feed) \<le> 512"
proof -
  from feed_log [OF sample_reached] show ?thesis by (simp add: sample_feed_eval)
qed

text \<open>C23: A status report shows a channel healthy only if the socket is connected, the channel's last
  event arrived within its silence limit, its source time, if any, is at most ten seconds old and in
  a fresh channel, and none of the reported gaps of the channel is pending.\<close>

theorem feed_status_healthy:
  assumes "reached f" and "feed_status now f = (r, f')" and "ch_status (rp_channels r c) = Healthy"
  shows "rp_connected r
    \<and> (\<exists>t. ch_received (rp_channels r c) = Some t \<and> now - max t (fd_opened f') < silence c)
    \<and> (\<forall>s. ch_source (rp_channels r c) = Some s \<longrightarrow> now - s \<le> 10000 \<and> ch_quality (rp_channels r c) = Fresh)
    \<and> (\<forall>g \<in> set (rp_gaps r). gp_channel g = c \<longrightarrow> gp_recovery g \<noteq> None)"
proof -
  have r: "f' = feed_tick now f" "rp_channels r = fd_states f'" "rp_gaps r = fd_gaps f'" "rp_connected r = fd_connected f'"
    using assms(2) by (auto simp: feed_status_def Let_def)
  have "reached (feed_step f (Op_Tick now))" using assms(1) by (rule reached_step)
  then have ok: "channels_ok f'" "log_ok f'" using reached_ok r(1) by (auto simp: feed_ok_def)
  have needs: "\<not> ch_needs (fd_states f' c)" "channel_ok (fd_states f' c)"
    using ok(1) assms(3) by (auto simp: channels_ok_def channel_ok_def r)
  then have on: "fd_connected f'" using ok(1) by (auto simp: channels_ok_def)
  then have "timely now f' c" using timely_tick [of f now c] by (simp add: r(1) tick_frame)
  then show ?thesis
    using needs on ok(2) assms(3)
    by (auto simp: r timely_def channel_ok_def log_ok_def pending_def sourceAgeMs_def split: option.splits)
qed

theorem feed_status_healthy_witness:
  "rp_connected (fst (feed_status 1200 sample_feed))
   \<and> list_all (\<lambda>g. gp_recovery g \<noteq> None)
         (filter (\<lambda>g. gp_channel g = Book) (rp_gaps (fst (feed_status 1200 sample_feed))))"
proof -
  from feed_status_healthy [OF sample_reached prod.collapse [symmetric] sample_feed_eval(3)] show ?thesis
    by (auto simp: list_all_iff)
qed

text \<open>C18: A consumer never receives old or gapped data labelled fresh: a drained delivery labelled
  fresh has a source time at most ten seconds before the drain and near its arrival, its channel is
  healthy on a connected socket, and no gap opened on the channel since it was accepted.\<close>

theorem drain_fresh:
  assumes "reached f" and "drain now f = (ds, f')" and "d \<in> set ds" and "dl_quality d = Fresh"
  shows "\<exists>s. ob_source (dl_event d) = Some s \<and> now - s \<le> 10000
      \<and> ob_received (dl_event d) - s \<le> 10000 \<and> s - ob_received (dl_event d) \<le> 1000
      \<and> fd_connected f' \<and> ch_status (fd_states f' (ob_channel (dl_event d))) = Healthy
      \<and> ch_gap_epoch (fd_states f' (ob_channel (dl_event d))) = dl_gap_epoch d"
proof -
  let ?g = "feed_tick now f"
  have f': "f' = ?g\<lparr>fd_queue := []\<rparr>" using assms(2) by (simp add: drain_def Let_def)
  obtain q where q: "q \<in> set (fd_queue ?g)" "d = q\<lparr>dl_quality := drained_quality now ?g q\<rparr>"
    using assms(2,3) by (auto simp: drain_def Let_def)
  have "reached (feed_step f (Op_Tick now))" using assms(1) by (rule reached_step)
  then have ok: "channels_ok ?g" "queue_ok ?g" using reached_ok by (auto simp: feed_ok_def)
  have dq: "drained_quality now ?g q = Fresh" using assms(4) q(2) by simp
  then have k: "dl_quality q = Fresh" "\<not> ch_needs (fd_states ?g (ob_channel (dl_event q)))"
    "ch_gap_epoch (fd_states ?g (ob_channel (dl_event q))) = dl_gap_epoch q"
    "\<forall>s. ob_source (dl_event q) = Some s \<longrightarrow> now - s \<le> sourceAgeMs"
    by (auto simp: drained_quality_def Let_def split: if_splits option.splits)
  have "event_quality (dl_event q) = Fresh" using ok(2) q(1) k(1) by (auto simp: queue_ok_def)
  then obtain s where s: "ob_source (dl_event q) = Some s" "ob_received (dl_event q) - s \<le> sourceAgeMs"
      "s - ob_received (dl_event q) \<le> futureToleranceMs"
    by (auto simp: event_quality_def split: option.splits if_splits)
  have "fd_connected ?g" "ch_status (fd_states ?g (ob_channel (dl_event q))) = Healthy"
    using ok(1) k(2) by (auto simp: channels_ok_def channel_ok_def)
  with s k show ?thesis by (auto simp: f' q(2) sourceAgeMs_def futureToleranceMs_def)
qed

theorem drain_fresh_witness:
  "\<exists>d \<in> set (fst (drain 2000 sample_feed)). dl_quality d = Fresh
     \<and> ch_status (fd_states (snd (drain 2000 sample_feed)) (ob_channel (dl_event d))) = Healthy"
proof -
  have "map dl_quality (fst (drain 2000 sample_feed)) = [Fresh]" by (rule sample_feed_eval)
  then obtain d where d: "d \<in> set (fst (drain 2000 sample_feed))" "dl_quality d = Fresh" by fastforce
  from drain_fresh [OF sample_reached prod.collapse [symmetric] d] d show ?thesis by blast
qed

section \<open>A channel alternates between flowing and broken\<close>

datatype link = Broken nat | Flowing nat

definition link_of :: "'p feed \<Rightarrow> channel \<Rightarrow> link" where
  "link_of f c = (if ch_needs (fd_states f c) then Broken (ch_gap_epoch (fd_states f c)) else Flowing (ch_gap_epoch (fd_states f c)))"

text \<open>The abstract channel: a flow breaks into a later gap, a gap once numbered ends only by a
  delivery (\<open>r\<close>: one is allowed), and then the flow keeps the number.\<close>

inductive link_step :: "bool \<Rightarrow> link \<Rightarrow> link \<Rightarrow> bool" for r where
  break: "e < e' \<Longrightarrow> link_step r (Flowing e) (Broken e')"
| first: "0 < e \<Longrightarrow> link_step r (Broken 0) (Broken e)"
| resume: "r \<Longrightarrow> 0 < e \<Longrightarrow> link_step r (Broken e) (Flowing e)"

inductive_cases link_stepE [elim!]: "link_step r l l'"

lemma links_break:
  assumes "log_ok f"
  shows "(link_step r)\<^sup>*\<^sup>* (link_of f c) (Broken (ch_gap_epoch (gapped (fd_epoch f) (fd_states f c))))"
proof -
  let ?s = "fd_states f c"
  have le: "ch_gap_epoch ?s \<le> fd_epoch f" using assms by (simp add: log_ok_def)
  consider "ch_needs ?s" "ch_gap_epoch ?s \<noteq> 0" | "ch_needs ?s" "ch_gap_epoch ?s = 0" | "\<not> ch_needs ?s" by blast
  then show ?thesis
  proof cases
    case 1
    then show ?thesis by (simp add: link_of_def gapped_def)
  next
    case 2
    then show ?thesis by (auto simp: link_of_def gapped_def intro: r_into_rtranclp link_step.first)
  next
    case 3
    then show ?thesis using le by (auto simp: link_of_def gapped_def intro!: r_into_rtranclp link_step.break)
  qed
qed

definition links_to :: "bool \<Rightarrow> channel \<Rightarrow> 'p feed \<Rightarrow> 'p feed \<Rightarrow> bool" where
  "links_to r c f g \<longleftrightarrow> (link_step r)\<^sup>*\<^sup>* (link_of f c) (link_of g c)"

lemma links_same: "fd_states g c = fd_states f c \<Longrightarrow> links_to r c f g"
  by (simp add: links_to_def link_of_def)

lemma links_trans: "links_to r c f g \<Longrightarrow> links_to r c g h \<Longrightarrow> links_to r c f h"
  by (simp add: links_to_def)

lemma links_status: "log_ok f \<Longrightarrow> links_to r c f (set_status d st (open_gap d q t f))"
  using links_break [of f r d] by (cases "c = d") (auto simp: links_to_def link_of_def)

lemma links_stale: "log_ok f \<Longrightarrow> links_to r c f (set_stale d (open_gap d q t f))"
  using links_break [of f r d] by (cases "c = d") (auto simp: links_to_def link_of_def)

lemma links_tick:
  assumes "log_ok f"
  shows "links_to r c f (feed_tick t f)"
proof -
  have one: "log_ok (tick_source t d (tick_silence t d g)) \<and> links_to r c g (tick_source t d (tick_silence t d g))"
    if ok: "log_ok g" for d and g :: "'a feed"
  proof -
    have s: "log_ok (tick_silence t d g)" "links_to r c g (tick_silence t d g)"
      using ok by (auto simp: tick_silence_def Let_def intro: log_ok_stale log_ok_open_gap links_stale links_same)
    then have "links_to r c (tick_silence t d g) (tick_source t d (tick_silence t d g))"
      by (auto simp: tick_source_def intro: links_stale links_same)
    moreover have "log_ok (tick_source t d (tick_silence t d g))"
      using s(1) by (auto simp: tick_source_def intro: log_ok_stale log_ok_open_gap)
    ultimately show ?thesis using s(2) links_trans by blast
  qed
  show ?thesis
    using one [OF assms] by (auto simp: feed_tick_def channels_def links_same) (meson one links_trans)
qed

lemma links_deliver:
  assumes "channels_ok f" "fd_connected f" "ob_channel e = c \<longrightarrow> r"
  shows "links_to r c f (deliver e f)"
proof (cases "c = ob_channel e")
  case True
  then show ?thesis
    using assms by (auto simp: links_to_def link_of_def channels_ok_def intro!: r_into_rtranclp link_step.resume)
next
  case False
  then show ?thesis by (intro links_same) simp
qed

lemma links_counted:
  assumes "log_ok f" "ct_gaps n = ct_gaps (fd_counts f)"
  shows "links_to r c f (set_status d st (open_gap d q t (f\<lparr>fd_counts := n\<rparr>)))"
    and "links_to r c f (set_stale d (open_gap d q t (f\<lparr>fd_counts := n\<rparr>)))"
proof -
  have ok: "log_ok (f\<lparr>fd_counts := n\<rparr>)" using assms(1) by (rule log_ok_frame) (simp_all add: assms(2))
  have "links_to r c f (f\<lparr>fd_counts := n\<rparr>)" by (rule links_same) simp
  then show "links_to r c f (set_status d st (open_gap d q t (f\<lparr>fd_counts := n\<rparr>)))"
    and "links_to r c f (set_stale d (open_gap d q t (f\<lparr>fd_counts := n\<rparr>)))"
    using links_status [OF ok] links_stale [OF ok] links_trans by blast+
qed

lemma links_judge:
  assumes "log_ok f" "channels_ok f" "fd_connected f" "ob_channel e = c \<longrightarrow> r"
  shows "links_to r c f (judge e f)"
  by (cases rule: judge_cases [of e f]) (simp_all add: links_counted assms(1) links_deliver [OF assms(2-4)])

lemma links_invalid: "log_ok f \<Longrightarrow> links_to r c f (feed_invalid d t f)"
  unfolding feed_invalid_def by (rule links_counted) simp_all

lemma links_accept:
  assumes "log_ok f" "channels_ok f" "ob_channel e = c \<longrightarrow> r"
  shows "links_to r c f (accept e f)"
proof -
  let ?g = "feed_tick (ob_received e) f"
  have g: "links_to r c f ?g" "log_ok ?g" "channels_ok ?g"
    using assms by (simp_all add: links_tick log_ok_tick channels_ok_tick)
  show ?thesis
  proof (cases rule: accept_cases [of f e])
    case unseen
    have r: "log_ok (remember e ?g)" "channels_ok (remember e ?g)"
      using g(2,3) by (auto intro: log_ok_frame channels_ok_frame simp: remember_def Let_def)
    have "links_to r c ?g (remember e ?g)" by (rule links_same) simp
    moreover have "links_to r c (remember e ?g) (judge e (remember e ?g))"
      by (rule links_judge [OF r _ assms(3)]) (simp add: unseen tick_frame)
    ultimately show ?thesis using g(1) unseen(3) links_trans by metis
  next
    case conflict
    then show ?thesis using links_trans [OF g(1) links_invalid [OF g(2)]] by simp
  next
    case duplicate
    then show ?thesis using links_trans [OF g(1) links_same] by simp
  next
    case offline
    then show ?thesis by (simp add: links_same)
  qed
qed

fun delivers_on :: "'p feed_op \<Rightarrow> channel \<Rightarrow> bool" where
  "delivers_on (Op_Accept e) c = (ob_channel e = c)"
| "delivers_on _ c = False"

lemma links_sweep:
  assumes "log_ok f"
  shows "links_to r c f (foldl (\<lambda>f d. set_status d st (open_gap d q t f)) f ds)"
  using assms
proof (induction ds arbitrary: f)
  case Nil
  then show ?case by (simp add: links_same)
next
  case (Cons d ds)
  have "log_ok (set_status d st (open_gap d q t f))" using Cons.prems by (simp add: log_ok_status log_ok_open_gap)
  from Cons.IH [OF this] show ?case using links_trans [OF links_status [OF Cons.prems]] by simp
qed

text \<open>C9: Every operation of the machine moves each channel only along its abstract lifecycle: a flow
  breaks only into a later numbered gap, and a gap ends only by an observation accepted on that
  channel, which keeps the number of the gap it ended.\<close>

theorem feed_refines_links:
  assumes "reached f"
  shows "(link_step (delivers_on op c))\<^sup>*\<^sup>* (link_of f c) (link_of (feed_step f op) c)"
proof -
  have ok: "log_ok f" "channels_ok f" using reached_ok [OF assms] by (simp_all add: feed_ok_def)
  have frame: "log_ok (f\<lparr>fd_connected := b, fd_opened := o', fd_message := m\<rparr>)" "log_ok (f\<lparr>fd_connected := b\<rparr>)" for b o' m
    by (rule log_ok_frame [OF ok(1)]; simp)+
  have "links_to (delivers_on op c) c f (feed_step f op)"
  proof (cases op)
    case (Op_Open t)
    have "links_to r c f (f\<lparr>fd_connected := True, fd_opened := t, fd_message := Some t\<rparr>)" for r by (rule links_same) simp
    from links_trans [OF this links_sweep [OF frame(1)]] show ?thesis by (simp add: Op_Open feed_open_def Let_def)
  next
    case (Op_Disconnect t)
    have "links_to r c f (f\<lparr>fd_connected := False\<rparr>)" for r by (rule links_same) simp
    from links_trans [OF this links_sweep [OF frame(2)]] show ?thesis by (simp add: Op_Disconnect feed_disconnect_def)
  next
    case (Op_Drain t)
    from links_trans [OF links_tick [OF ok(1)] links_same] show ?thesis by (simp add: Op_Drain drain_def Let_def)
  next
    case (Op_Accept e)
    then show ?thesis using links_accept [OF ok] by simp
  qed (simp_all add: links_tick links_invalid ok links_same feed_message_def feed_status_def Let_def)
  then show ?thesis by (simp add: links_to_def)
qed

theorem feed_refines_links_witness:
  "(link_step True)\<^sup>*\<^sup>* (link_of sample_feed Trades)
     (link_of (feed_step sample_feed (Op_Accept (sample_observation Trades ''t'' (Some 1500) 1600))) Trades)"
  using feed_refines_links [OF sample_reached, of "Op_Accept (sample_observation Trades ''t'' (Some 1500) 1600)" Trades]
  by (simp add: sample_observation_def)

section \<open>Every event is accounted for\<close>

definition judged :: "'p feed \<Rightarrow> nat" where
  "judged f = ct_accepted (fd_counts f) + ct_duplicates (fd_counts f) + ct_stale (fd_counts f)
     + ct_out_of_order (fd_counts f) + ct_invalid (fd_counts f) + ct_dropped (fd_counts f)"

lemma judge_accounts:
  "judged (judge e f) = Suc (judged f)
   \<and> (if ct_accepted (fd_counts (judge e f)) = ct_accepted (fd_counts f) then fd_queue (judge e f) = fd_queue f
      else ct_accepted (fd_counts (judge e f)) = Suc (ct_accepted (fd_counts f))
        \<and> (\<exists>d. fd_queue (judge e f) = fd_queue f @ [d] \<and> dl_event d = e))"
  by (cases rule: judge_cases [of e f]) (simp_all add: judged_def, simp add: deliver_def Let_def)

text \<open>While connected, every observation handed to the machine is counted exactly once: it is
  appended to the queue and counted accepted, or it is refused, the queue is unchanged and one
  refusal counter grows. A disconnected machine ignores it.\<close>

theorem accept_accounts:
  "if fd_connected f then judged (accept e f) = Suc (judged f)
     \<and> (if ct_accepted (fd_counts (accept e f)) = ct_accepted (fd_counts f) then fd_queue (accept e f) = fd_queue f
        else ct_accepted (fd_counts (accept e f)) = Suc (ct_accepted (fd_counts f))
          \<and> (\<exists>d. fd_queue (accept e f) = fd_queue f @ [d] \<and> dl_event d = e))
   else accept e f = f"
proof (cases rule: accept_cases [of f e])
  case unseen
  let ?g = "remember e (feed_tick (ob_received e) f)"
  have eq: "judged ?g = judged f" "ct_accepted (fd_counts ?g) = ct_accepted (fd_counts f)" "fd_queue ?g = fd_queue f"
    by (simp_all add: judged_def tick_frame)
  show ?thesis
    unfolding unseen(3) if_P [OF unseen(1)] by (rule judge_accounts [of e ?g, unfolded eq])
qed (simp_all add: judged_def feed_invalid_def tick_frame)

section \<open>Order of delivery\<close>

text \<open>The deliveries that the drains of a run hand out, in order.\<close>

fun drained :: "'p feed \<Rightarrow> 'p feed_op list \<Rightarrow> 'p delivery list" where
  "drained f [] = []"
| "drained f (op # ops) =
     (case op of Op_Drain t \<Rightarrow> fst (drain t f) | _ \<Rightarrow> []) @ drained (feed_step f op) ops"

definition stamped :: "'p feed_op \<Rightarrow> bool" where
  "stamped op \<longleftrightarrow> (case op of Op_Accept e \<Rightarrow> ob_source e \<noteq> None | _ \<Rightarrow> True)"

definition sources :: "channel \<Rightarrow> 'p delivery list \<Rightarrow> time list" where
  "sources c ds = map (\<lambda>d. the (ob_source (dl_event d))) (filter (\<lambda>d. ob_channel (dl_event d) = c) ds)"

definition at_least :: "time option \<Rightarrow> time \<Rightarrow> bool" where
  "at_least lo t \<longleftrightarrow> (case lo of None \<Rightarrow> True | Some l \<Rightarrow> l \<le> t)"

definition ordered :: "channel \<Rightarrow> time option \<Rightarrow> 'p feed \<Rightarrow> bool" where
  "ordered c lo f \<longleftrightarrow> sorted (sources c (fd_queue f)) \<and> (\<forall>t \<in> set (sources c (fd_queue f)). at_least lo t)
     \<and> (case ch_source (fd_states f c) of None \<Rightarrow> sources c (fd_queue f) = [] \<and> lo = None
        | Some w \<Rightarrow> at_least lo w \<and> (\<forall>t \<in> set (sources c (fd_queue f)). t \<le> w))"

lemma sources_append: "sources c (xs @ ys) = sources c xs @ sources c ys"
  by (simp add: sources_def)

lemma ordered_frame:
  "ordered c lo f \<Longrightarrow> fd_queue g = fd_queue f \<Longrightarrow> ch_source (fd_states g c) = ch_source (fd_states f c) \<Longrightarrow> ordered c lo g"
  by (simp add: ordered_def cong: option.case_cong)

lemma tick_source_time: "ch_source (fd_states (feed_tick t f) c) = ch_source (fd_states f c)"
proof -
  have "ch_source (fd_states (tick_source t d (tick_silence t d g)) c) = ch_source (fd_states g c)" for d and g :: "'a feed"
    by (simp add: tick_source_def tick_silence_def Let_def)
  then show ?thesis by (simp add: feed_tick_def channels_def)
qed

lemma ordered_deliver:
  assumes ok: "ordered c lo f" and src: "ob_source e \<noteq> None"
    and ge: "\<forall>v w. ob_source e = Some v \<and> ch_source (fd_states f (ob_channel e)) = Some w \<longrightarrow> w \<le> v"
  shows "ordered c lo (deliver e f)"
proof (cases "ob_channel e = c")
  case True
  from src obtain v where v: "ob_source e = Some v" by blast
  have new: "sources c (fd_queue (deliver e f)) = sources c (fd_queue f) @ [v]"
    by (simp add: sources_append) (simp add: sources_def True v)
  show ?thesis
  proof (cases "ch_source (fd_states f c)")
    case None
    then show ?thesis using ok unfolding ordered_def new by (simp add: True v at_least_def)
  next
    case (Some w)
    then have "w \<le> v" using ge v True by blast
    then show ?thesis
      using ok Some unfolding ordered_def new
      by (auto simp: True v sorted_append at_least_def intro: order_trans split: option.splits)
  qed
next
  case False
  then have "sources c (fd_queue (deliver e f)) = sources c (fd_queue f)"
    by (simp add: sources_append) (auto simp: sources_def)
  moreover have "ch_source (fd_states (deliver e f) c) = ch_source (fd_states f c)" using False by simp
  ultimately show ?thesis using ok unfolding ordered_def by metis
qed

lemma ordered_accept:
  assumes ok: "ordered c lo f" and src: "ob_source e \<noteq> None"
  shows "ordered c lo (accept e f)"
proof -
  let ?g = "feed_tick (ob_received e) f"
  have g: "ordered c lo ?g" using ok by (rule ordered_frame) (simp_all add: tick_frame tick_source_time)
  show ?thesis
  proof (cases rule: accept_cases [of f e])
    case unseen
    have r: "ordered c lo (remember e ?g)" using g by (rule ordered_frame) simp_all
    show ?thesis
      unfolding unseen(3)
    proof (cases rule: judge_cases [of e "remember e ?g"])
      case delivered
      then show "ordered c lo (judge e (remember e ?g))" using ordered_deliver [OF r src] by simp
    qed (use r in \<open>auto intro: ordered_frame\<close>)
  qed (use ok g in \<open>auto intro: ordered_frame simp: feed_invalid_def\<close>)
qed

lemma ordered_step:
  assumes "ordered c lo f" "stamped op"
  shows "ordered c lo (feed_step f op)"
proof (cases op)
  case (Op_Accept e)
  then show ?thesis using assms by (simp add: stamped_def ordered_accept)
next
  case (Op_Drain t)
  have "ordered c lo (feed_tick t f)" using assms(1) by (rule ordered_frame) (simp_all add: tick_frame tick_source_time)
  then show ?thesis by (auto simp: Op_Drain drain_def Let_def ordered_def sources_def split: option.splits)
qed (use assms(1) in \<open>auto intro: ordered_frame simp: tick_frame tick_source_time feed_open_def feed_message_def
      feed_disconnect_def feed_invalid_def feed_status_def Let_def channels_def\<close>)

lemma drained_sorted:
  assumes "ordered c lo f" "list_all stamped ops"
  shows "sorted (sources c (drained f ops)) \<and> (\<forall>t \<in> set (sources c (drained f ops)). at_least lo t)"
  using assms
proof (induction ops arbitrary: f lo)
  case Nil
  then show ?case by (simp add: sources_def)
next
  case (Cons op ops)
  have next_ok: "ordered c lo (feed_step f op)" using Cons.prems by (simp add: ordered_step)
  show ?case
  proof (cases "\<exists>t. op = Op_Drain t")
    case False
    then have "drained f (op # ops) = drained (feed_step f op) ops" by (simp split: feed_op.split)
    then show ?thesis using Cons.IH [OF next_ok] Cons.prems(2) by simp
  next
    case True
    then obtain t where op: "op = Op_Drain t" by blast
    let ?g = "feed_step f op" and ?w = "ch_source (fd_states f c)"
    have w: "ch_source (fd_states ?g c) = ?w" "fd_queue ?g = []"
      by (simp_all add: op drain_def Let_def tick_source_time)
    have out: "sources c (fst (drain t f)) = sources c (fd_queue f)"
      by (simp add: drain_def Let_def sources_def tick_frame filter_map comp_def)
    have "ordered c ?w ?g" by (auto simp: ordered_def w sources_def at_least_def split: option.splits)
    from Cons.IH [OF this] Cons.prems(2)
    have rest: "sorted (sources c (drained ?g ops))" "\<forall>t \<in> set (sources c (drained ?g ops)). at_least ?w t" by auto
    have split: "sources c (drained f (op # ops)) = sources c (fd_queue f) @ sources c (drained ?g ops)"
      by (simp add: op sources_append out)
    show ?thesis
      unfolding split using Cons.prems(1) rest
      by (auto simp: ordered_def sorted_append at_least_def intro: order_trans split: option.splits)
  qed
qed

text \<open>C27: When every observation carries a source time, the consumer receives each channel's events in
  order of source time over the whole life of the machine, across drains, gaps and reconnections.\<close>

theorem drained_in_source_order:
  assumes "list_all stamped ops"
  shows "sorted (sources c (drained new_feed ops))"
proof -
  have "ordered c None new_feed"
    by (simp add: ordered_def sources_def new_feed_def fresh_channel_def)
  from drained_sorted [OF this assms] show ?thesis by blast
qed

theorem drained_in_source_order_witness:
  "sorted (sources Book (drained new_feed [Op_Open 1000, Op_Accept (sample_observation Book ''a'' (Some 900) 1100), Op_Drain 1200]))"
  by (rule drained_in_source_order) (simp add: stamped_def sample_observation_def)

text \<open>The order is lost as soon as one observation has no source time: it is delivered and clears
  the channel's watermark, so an older event is delivered after a newer one.\<close>

theorem null_source_clears_watermark:
  "sources Book (filter (\<lambda>d. ob_source (dl_event d) \<noteq> None) (drained new_feed
     [Op_Open 1000, Op_Accept (sample_observation Book ''a'' (Some 900) 1000),
      Op_Accept (sample_observation Book ''b'' None 1001), Op_Accept (sample_observation Book ''c'' (Some 800) 1002),
      Op_Drain 1003])) = [900, 800]"
  by (simp add: feed_eval sources_def)

section \<open>Recovery\<close>

text \<open>C40: A broken channel of a connected machine always recovers: the next observation that is new,
  not older than the watermark and fresh is delivered while the queue has room, makes the channel
  healthy and closes its gap in the log.\<close>

theorem feed_recovers:
  assumes "reached f" and "fd_connected f" and "map_of (fd_seen f) (event_id e) = None"
    and "event_quality e \<noteq> Stale" and "length (fd_queue f) < 512"
    and "\<forall>v w. ob_source e = Some v \<and> ch_source (fd_states f (ob_channel e)) = Some w \<longrightarrow> w \<le> v"
  shows "ch_status (fd_states (accept e f) (ob_channel e)) = Healthy
    \<and> (\<exists>d. fd_queue (accept e f) = fd_queue f @ [d] \<and> dl_event d = e)
    \<and> (\<forall>g \<in> set (fd_gaps (accept e f)). gp_channel g = ob_channel e \<longrightarrow> gp_recovery g \<noteq> None)"
proof -
  let ?g = "remember e (feed_tick (ob_received e) f)"
  have acc: "accept e f = judge e ?g" using assms(2,3) by (simp add: accept_def Let_def tick_frame)
  have j: "judge e ?g = deliver e ?g"
    by (cases rule: judge_cases [of e ?g])
      (use assms(4-6) in \<open>auto simp: tick_frame tick_source_time queue_limit_def\<close>)
  have "reached (feed_step f (Op_Accept e))" using assms(1) by (rule reached_step)
  then have "log_ok (accept e f)" using reached_ok by (auto simp: feed_ok_def)
  moreover have "\<not> ch_needs (fd_states (accept e f) (ob_channel e))" by (simp add: acc j)
  ultimately show ?thesis by (auto simp: acc j log_ok_def pending_def tick_frame)
qed

theorem feed_recovers_witness:
  "ch_status (fd_states (accept (sample_observation Trades ''t'' (Some 1500) 1600) sample_feed) Trades) = Healthy"
proof -
  let ?e = "sample_observation Trades ''t'' (Some 1500) 1600"
  have "fd_connected sample_feed" "map_of (fd_seen sample_feed) (event_id ?e) = None" "event_quality ?e \<noteq> Stale"
    "length (fd_queue sample_feed) < 512" "ch_source (fd_states sample_feed (ob_channel ?e)) = None"
    by (simp_all add: sample_feed_def feed_eval)
  then show ?thesis using feed_recovers [OF sample_reached, of ?e] by (simp add: sample_observation_def)
qed

end
