(* ===== verification/Baseline.thy ===== *)
theory Baseline
  imports PriceGrid
begin

text \<open>
  The frozen indicators of the baseline strategy, \<open>trading/strategies/baseline.ts\<close>, and the shared
  average true range, \<open>trading/indicators.ts\<close>. Candle prices are the integers of their canonical raw
  strings, newest first. \<open>baselinePrice\<close>, the file's price rounding, is in \<open>PriceGrid\<close> beside the
  venue grid it copies.
\<close>

datatype baseline_direction = Long_Trend | Short_Trend

datatype baseline_error = CONTEXT_LENGTH | ATR_LENGTH

record candle =
  cd_open :: int
  cd_high :: int
  cd_low :: int
  cd_close :: int

definition baselineTrend :: "int list \<Rightarrow> baseline_error + baseline_direction option" where
  "baselineTrend closes =
     require (length closes = 12) CONTEXT_LENGTH
       (let fast = foldl (+) 0 (take 4 closes); slow = foldl (+) 0 closes; newest = closes ! 0 in
        Inr (if newest * 4 > fast \<and> fast * 12 > slow * 4 then Some Long_Trend
             else if newest * 4 < fast \<and> fast * 12 < slow * 4 then Some Short_Trend else None))"

definition baselineBreakout :: "baseline_direction option \<Rightarrow> candle \<Rightarrow> candle \<Rightarrow> baseline_direction option" where
  "baselineBreakout trend current previous =
     (let c = cd_close current; opened = cd_open current in
      if trend = Some Long_Trend \<and> c > cd_high previous \<and> c > opened then trend
      else if trend = Some Short_Trend \<and> c < cd_low previous \<and> c < opened then trend
      else None)"

text \<open>\<open>for (let i = 0; i < 14; i++) sum += max(h - l, max(abs(h - previous), abs(l - previous)))\<close>.\<close>

definition atr_step :: "candle list \<Rightarrow> int \<Rightarrow> nat \<Rightarrow> int" where
  "atr_step bars acc i =
     (let h = cd_high (bars ! i); l = cd_low (bars ! i); previous = cd_close (bars ! (i + 1)) in
      acc + max (h - l) (max \<bar>h - previous\<bar> \<bar>l - previous\<bar>))"

definition baselineAtr :: "candle list \<Rightarrow> baseline_error + int" where
  "baselineAtr bars = require (length bars = 15) ATR_LENGTH
     (Inr ((foldl (atr_step bars) 0 [0..<14] + 13) sdiv 14))"

definition atr14 :: "candle list \<Rightarrow> baseline_error + int" where
  "atr14 bars = require (length bars = 15) ATR_LENGTH
     (Inr ((foldl (\<lambda>acc i.
        let h = cd_high (bars ! i); l = cd_low (bars ! i); previous = cd_close (bars ! (i + 1)) in
        acc + max (h - l) (max \<bar>h - previous\<bar> \<bar>l - previous\<bar>)) 0 [0..<14] + 13) sdiv 14))"

section \<open>Reflection\<close>

text \<open>Prices reflected in a level turn a market upside down.\<close>

definition mirror_candle :: "int \<Rightarrow> candle \<Rightarrow> candle" where
  "mirror_candle k b = \<lparr>cd_open = k - cd_open b, cd_high = k - cd_low b, cd_low = k - cd_high b, cd_close = k - cd_close b\<rparr>"

fun opposite :: "baseline_direction \<Rightarrow> baseline_direction" where
  "opposite Long_Trend = Short_Trend"
| "opposite Short_Trend = Long_Trend"

lemma opposite_simps [simp]: "opposite d = Long_Trend \<longleftrightarrow> d = Short_Trend" "opposite d = Short_Trend \<longleftrightarrow> d = Long_Trend"
  by (cases d; simp)+

lemma foldl_plus: "foldl (+) (a::int) xs = a + sum_list xs"
  by (induction xs arbitrary: a) (simp_all add: algebra_simps)

lemma sum_reflected: "sum_list (map (\<lambda>x. k - x) xs) = int (length xs) * k - sum_list (xs :: int list)"
  by (induction xs) (simp_all add: algebra_simps)

lemma opposite_Some [simp]:
  "map_option opposite t = Some Long_Trend \<longleftrightarrow> t = Some Short_Trend"
  "map_option opposite t = Some Short_Trend \<longleftrightarrow> t = Some Long_Trend"
  by (cases t; simp)+

lemma trend_mirror:
  assumes "length closes = 12"
  shows "baselineTrend (map (\<lambda>x. k - x) closes) = bind_res (baselineTrend closes) (\<lambda>t. Inr (map_option opposite t))"
proof -
  have "sum_list (take 4 (map (\<lambda>x. k - x) closes)) = 4 * k - sum_list (take 4 closes)"
    using assms by (simp only: take_map sum_reflected) simp
  moreover have "sum_list (map (\<lambda>x. k - x) closes) = 12 * k - sum_list closes"
    using assms by (simp add: sum_reflected)
  ultimately show ?thesis
    using assms by (simp add: baselineTrend_def Let_def foldl_plus)
qed

text \<open>The signal has no built-in side: reflecting the closes in any level turns a long trend into a
  short one and a short into a long, and reflecting the candles does the same to the breakout.\<close>

theorem baseline_mirror:
  assumes "length closes = 12" and "baselineTrend closes = Inr t"
  shows "baselineTrend (map (\<lambda>x. k - x) closes) = Inr (map_option opposite t)
    \<and> baselineBreakout (map_option opposite t) (mirror_candle k c) (mirror_candle k p)
        = map_option opposite (baselineBreakout t c p)"
  using trend_mirror [OF assms(1), of k] assms(2)
  by (cases t) (auto simp: baselineBreakout_def mirror_candle_def Let_def)

theorem baseline_mirror_witness:
  "baselineTrend (map (\<lambda>x. 100 - x) [12, 11, 10, 9, 8, 7, 6, 5, 4, 3, 2, 1]) = Inr (Some Short_Trend)"
proof -
  have "baselineTrend [12, 11, 10, 9, 8, 7, 6, 5, 4, 3, 2, 1] = Inr (Some Long_Trend)" by code_simp
  from baseline_mirror [OF _ this, of 100] show ?thesis by simp
qed

section \<open>Average true range\<close>

text \<open>The classical true range: the day's range extended to the previous close.\<close>

definition true_range :: "candle \<Rightarrow> int \<Rightarrow> int" where
  "true_range b previous = max (cd_high b) previous - min (cd_low b) previous"

lemma max_true_range:
  "cd_low b \<le> cd_high b \<Longrightarrow>
   max (cd_high b - cd_low b) (max \<bar>cd_high b - p\<bar> \<bar>cd_low b - p\<bar>) = true_range b p"
  unfolding true_range_def by linarith

lemma atr_fold:
  "\<forall>i < n. cd_low (bars ! i) \<le> cd_high (bars ! i) \<Longrightarrow>
   foldl (atr_step bars) 0 [0..<n] = (\<Sum>i<n. true_range (bars ! i) (cd_close (bars ! Suc i)))"
  by (induction n) (simp_all add: atr_step_def Let_def max_true_range)

lemma ceil_fourteen: "a = (s + 13) div 14 \<Longrightarrow> 0 \<le> s \<Longrightarrow> (a = 0 \<longleftrightarrow> s = 0) \<and> 14 * (a - 1) < s \<and> s \<le> 14 * a"
  for a s :: int
  by presburger

text \<open>Both copies of the average true range are the mean of the fourteen classical true ranges
  rounded up, so the average lies between any bounds of the ranges and is zero only if all are.\<close>

theorem atr_true_range:
  assumes "length bars = 15" and "\<forall>i < 14. cd_low (bars ! i) \<le> cd_high (bars ! i)"
    and "baselineAtr bars = Inr a"
  shows "atr14 bars = Inr a
    \<and> 14 * (a - 1) < (\<Sum>i<14. true_range (bars ! i) (cd_close (bars ! Suc i)))
    \<and> (\<Sum>i<14. true_range (bars ! i) (cd_close (bars ! Suc i))) \<le> 14 * a
    \<and> (a = 0 \<longleftrightarrow> (\<forall>i < 14. true_range (bars ! i) (cd_close (bars ! Suc i)) = 0))"
proof -
  let ?tr = "\<lambda>i. true_range (bars ! i) (cd_close (bars ! Suc i))"
  let ?s = "\<Sum>i<14. ?tr i"
  have same: "atr14 bars = baselineAtr bars"
    by (simp add: atr14_def baselineAtr_def atr_step_def [abs_def])
  have nonneg: "0 \<le> ?tr i" if "i < 14" for i
    using assms(2) that unfolding true_range_def by (simp add: le_max_iff_disj min_le_iff_disj)
  then have s: "0 \<le> ?s" by (intro sum_nonneg) simp
  have a: "a = (?s + 13) div 14"
    using assms(3) s by (simp add: baselineAtr_def atr_fold [OF assms(2)] sdiv_nonneg)
  have "?s = 0 \<longleftrightarrow> (\<forall>i < 14. ?tr i = 0)"
    using nonneg by (subst sum_nonneg_eq_0_iff) auto
  moreover have "(a = 0 \<longleftrightarrow> ?s = 0) \<and> 14 * (a - 1) < ?s \<and> ?s \<le> 14 * a"
    by (rule ceil_fourteen [OF a s])
  ultimately show ?thesis using same assms(3) by simp
qed

theorem atr_true_range_witness:
  "atr14 (map (\<lambda>i. \<lparr>cd_open = i, cd_high = i + 2, cd_low = i - 1, cd_close = i\<rparr>) [1..15]) = Inr 3"
proof -
  let ?bars = "map (\<lambda>i. \<lparr>cd_open = i, cd_high = i + 2, cd_low = i - 1, cd_close = i\<rparr>) [1..15]"
  have "baselineAtr ?bars = Inr 3" by code_simp
  have "\<forall>i < 14. cd_low (?bars ! i) \<le> cd_high (?bars ! i)" by simp
  from atr_true_range [OF _ this \<open>baselineAtr ?bars = Inr 3\<close>] show ?thesis by simp
qed

end
