(* ===== verification/Fixed.thy ===== *)
theory Fixed
  imports Decimals
begin

text \<open>
  Nine-digit working arithmetic, \<open>trading/fixed.ts\<close>: parsing and printing of plain decimals and
  multiplication and division rounded half away from zero.
\<close>

definition scale_digits :: nat where "scale_digits = 9"
definition scale :: int where "scale = 1000000000"

definition int_part :: "string \<Rightarrow> string" where
  "int_part body = takeWhile (\<lambda>c. c \<noteq> CHR ''.'') body"

definition frac_part :: "string \<Rightarrow> string" where
  "frac_part body = drop 1 (dropWhile (\<lambda>c. c \<noteq> CHR ''.'') body)"

definition unsigned :: "string \<Rightarrow> string" where
  "unsigned s = (case s of c # t \<Rightarrow> if c = CHR ''-'' then t else s | [] \<Rightarrow> [])"

text \<open>\<open>/^-?(?:\d+)(?:\.\d+)?$/\<close>\<close>

definition decimal_pattern :: "string \<Rightarrow> bool" where
  "decimal_pattern s \<longleftrightarrow> (let body = unsigned s in
     int_part body \<noteq> [] \<and> list_all is_digit (int_part body)
     \<and> (dropWhile (\<lambda>c. c \<noteq> CHR ''.'') body = [] \<or> frac_part body \<noteq> [] \<and> list_all is_digit (frac_part body)))"

definition parseScaled :: "string \<Rightarrow> int option" where
  "parseScaled s =
     (if s = [] then None
      else if \<not> decimal_pattern s then None
      else
        let negative = (hd s = CHR ''-''); body = unsigned s; ip = int_part body; fp = frac_part body in
        if length fp > scale_digits \<and> (\<exists>c \<in> set (drop scale_digits fp). c \<noteq> CHR ''0'') then None
        else
          let fraction = take scale_digits (fp @ replicate scale_digits (CHR ''0''));
              magnitude = int (read_nat (ip @ fraction))
          in Some (if negative then - magnitude else magnitude))"

definition pad_start :: "nat \<Rightarrow> string \<Rightarrow> string" where
  "pad_start n s = replicate (n - length s) (CHR ''0'') @ s"

definition formatScaled :: "int \<Rightarrow> nat \<Rightarrow> string" where
  "formatScaled v digits =
     (let negative = v < 0; magnitude = \<bar>v\<bar>; whole = magnitude sdiv scale;
          fraction = take digits (pad_start scale_digits (show_int (magnitude smod scale)));
          sign = (if negative then ''-'' else [])
      in if digits = 0 then sign @ show_int whole else sign @ show_int whole @ ''.'' @ fraction)"

definition divRound :: "int \<Rightarrow> int \<Rightarrow> int" where
  "divRound n d =
     (if d = 0 then 0
      else
        let negative = ((n < 0) \<noteq> (d < 0)); an = (if n < 0 then - n else n); ad = (if d < 0 then - d else d);
            quotient = an sdiv ad; remainder = an smod ad;
            rounded = (if remainder * 2 \<ge> ad then quotient + 1 else quotient)
        in if negative then - rounded else rounded)"

definition scaled_mul :: "int \<Rightarrow> int \<Rightarrow> int" where
  "scaled_mul a b = divRound (a * b) scale"

definition scaled_div :: "int \<Rightarrow> int \<Rightarrow> int" where
  "scaled_div a b = (if b = 0 then 0 else divRound (a * scale) b)"

definition maxScaled :: "int \<Rightarrow> int \<Rightarrow> int" where
  "maxScaled a b = (if a > b then a else b)"

definition minScaled :: "int \<Rightarrow> int \<Rightarrow> int" where
  "minScaled a b = (if a < b then a else b)"

section \<open>Rounding\<close>

lemma round_abs:
  fixes n d :: int
  assumes "0 \<le> n" "0 < d"
  defines "r \<equiv> (if n mod d * 2 \<ge> d then n div d + 1 else n div d)"
  shows "2 * \<bar>r * d - n\<bar> \<le> d \<and> (2 * \<bar>r * d - n\<bar> = d \<longrightarrow> n \<le> r * d) \<and> 0 \<le> r"
proof -
  define q m where "q = n div d" and "m = n mod d"
  have n: "n = q * d + m" by (simp add: q_def m_def)
  have m: "0 \<le> m" "m < d" using assms by (simp_all add: m_def)
  have q: "0 \<le> q" using assms by (simp add: q_def pos_imp_zdiv_nonneg_iff)
  have r: "r = (if m * 2 \<ge> d then q + 1 else q)" by (simp add: r_def q_def m_def)
  show ?thesis
  proof (cases "m * 2 \<ge> d")
    case True
    then have "r * d - n = d - m" "0 \<le> r" using q by (simp_all add: r n distrib_right)
    moreover from this have "\<bar>r * d - n\<bar> = d - m" "n \<le> r * d" using m by simp_all
    moreover have "2 * (d - m) \<le> d" using True by simp
    ultimately show ?thesis by metis
  next
    case False
    then have "r * d - n = - m" "0 \<le> r" using q by (simp_all add: r n)
    moreover from this have "\<bar>r * d - n\<bar> = m" using m by simp
    ultimately show ?thesis using False m by simp
  qed
qed

lemma signed_round:
  fixes n d r :: int
  assumes "0 \<le> r"
  shows "\<bar>(if (n < 0) \<noteq> (d < 0) then - r else r) * d - n\<bar> = \<bar>r * \<bar>d\<bar> - \<bar>n\<bar>\<bar>"
    and "\<bar>(if (n < 0) \<noteq> (d < 0) then - r else r) * d\<bar> = r * \<bar>d\<bar>"
proof -
  show "\<bar>(if (n < 0) \<noteq> (d < 0) then - r else r) * d\<bar> = r * \<bar>d\<bar>"
    using assms by (simp add: abs_mult)
  let ?v = "if (n < 0) \<noteq> (d < 0) then - r else r"
  have "?v * d - n = (if n < 0 then - (r * \<bar>d\<bar> - \<bar>n\<bar>) else r * \<bar>d\<bar> - \<bar>n\<bar>)"
    by (cases "n < 0"; cases "d < 0") simp_all
  then show "\<bar>?v * d - n\<bar> = \<bar>r * \<bar>d\<bar> - \<bar>n\<bar>\<bar>"
    by (cases "n < 0") (simp_all only: if_True if_False abs_minus_cancel)
qed

text \<open>Division rounds to a nearest integer and halves away from zero: the result times the divisor
  is within half a divisor of the numerator, and at exactly half it is the larger in magnitude.\<close>

theorem divRound_nearest:
  assumes "d \<noteq> 0"
  shows "2 * \<bar>divRound n d * d - n\<bar> \<le> \<bar>d\<bar>
    \<and> (2 * \<bar>divRound n d * d - n\<bar> = \<bar>d\<bar> \<longrightarrow> \<bar>n\<bar> \<le> \<bar>divRound n d * d\<bar>)"
proof -
  define r where "r = (if \<bar>n\<bar> mod \<bar>d\<bar> * 2 \<ge> \<bar>d\<bar> then \<bar>n\<bar> div \<bar>d\<bar> + 1 else \<bar>n\<bar> div \<bar>d\<bar>)"
  have pos: "0 < \<bar>d\<bar>" using assms by simp
  have r: "2 * \<bar>r * \<bar>d\<bar> - \<bar>n\<bar>\<bar> \<le> \<bar>d\<bar>" "2 * \<bar>r * \<bar>d\<bar> - \<bar>n\<bar>\<bar> = \<bar>d\<bar> \<Longrightarrow> \<bar>n\<bar> \<le> r * \<bar>d\<bar>" "0 \<le> r"
    using round_abs [OF abs_ge_zero pos, of n, folded r_def] by blast+
  have "(if n < 0 then - n else n) = \<bar>n\<bar>" "(if d < 0 then - d else d) = \<bar>d\<bar>" by simp_all
  moreover have "\<bar>n\<bar> sdiv \<bar>d\<bar> = \<bar>n\<bar> div \<bar>d\<bar>" "\<bar>n\<bar> smod \<bar>d\<bar> = \<bar>n\<bar> mod \<bar>d\<bar>"
    by (simp_all add: sdiv_nonneg smod_nonneg)
  ultimately have v: "divRound n d = (if (n < 0) \<noteq> (d < 0) then - r else r)"
    using assms by (simp add: divRound_def Let_def r_def)
  have e: "\<bar>divRound n d * d - n\<bar> = \<bar>r * \<bar>d\<bar> - \<bar>n\<bar>\<bar>" "\<bar>divRound n d * d\<bar> = r * \<bar>d\<bar>"
    unfolding v by (rule signed_round [OF r(3)])+
  show ?thesis unfolding e using r(1,2) by blast
qed

theorem divRound_nearest_witness: "2 * \<bar>divRound (- 7) 2 * 2 + 7\<bar> \<le> 2"
  using divRound_nearest [of 2 "- 7"] by simp

section \<open>Round trip\<close>

lemma read_nat_zeros [simp]: "read_nat (replicate n (CHR ''0'')) = 0"
proof (induction n)
  case 0
  then show ?case by simp
next
  case (Suc n)
  have "read_nat (CHR ''0'' # replicate n (CHR ''0'')) = read_nat [CHR ''0''] * 10 ^ n + read_nat (replicate n (CHR ''0''))"
    using read_nat_append [of "[CHR ''0'']" "replicate n (CHR ''0'')"] by simp
  with Suc show ?case by (simp add: digit_val_def)
qed

lemma read_nat_bound: "list_all is_digit s \<Longrightarrow> read_nat s < 10 ^ length s"
proof (induction s rule: rev_induct)
  case Nil
  then show ?case by simp
next
  case (snoc c s)
  then have "read_nat s + 1 \<le> 10 ^ length s" "digit_val c < 10" by simp_all
  then show ?case by simp
qed

lemma read_nat_take:
  assumes "d \<le> length s" "list_all is_digit s"
  shows "read_nat (take d s) = read_nat s div 10 ^ (length s - d)"
proof -
  have "read_nat s = read_nat (take d s) * 10 ^ (length s - d) + read_nat (drop d s)"
    using read_nat_append [of "take d s" "drop d s"] by simp
  moreover have "read_nat (drop d s) < 10 ^ (length s - d)"
    using assms read_nat_bound [of "drop d s"] by (auto simp: list_all_iff dest: in_set_dropD)
  ultimately show ?thesis by simp
qed

lemma digits_before_dot:
  shows int_part_dot: "list_all is_digit a \<Longrightarrow> int_part (a @ CHR ''.'' # b) = a \<and> frac_part (a @ CHR ''.'' # b) = b"
    and int_part_plain: "list_all is_digit a \<Longrightarrow> int_part a = a \<and> frac_part a = []
      \<and> dropWhile (\<lambda>c. c \<noteq> CHR ''.'') a = []"
proof -
  have no_dot: "c \<noteq> CHR ''.''" if "list_all is_digit a" "c \<in> set a" for c
    using that by (auto simp: list_all_iff is_digit_def)
  show "list_all is_digit a \<Longrightarrow> int_part (a @ CHR ''.'' # b) = a \<and> frac_part (a @ CHR ''.'' # b) = b"
    using no_dot by (auto simp: int_part_def frac_part_def takeWhile_append dropWhile_append)
  show "list_all is_digit a \<Longrightarrow> int_part a = a \<and> frac_part a = [] \<and> dropWhile (\<lambda>c. c \<noteq> CHR ''.'') a = []"
    using no_dot by (auto simp: int_part_def frac_part_def takeWhile_eq_all_conv dropWhile_eq_Nil_conv [THEN iffD2])
qed

lemma pad_digits: "list_all is_digit s \<Longrightarrow> list_all is_digit (pad_start n s)"
  by (auto simp: pad_start_def list_all_iff)

lemma read_pad [simp]: "read_nat (pad_start n s) = read_nat s"
  by (simp add: pad_start_def read_nat_append)

lemma pad_length: "length s \<le> n \<Longrightarrow> length (pad_start n s) = n"
  by (simp add: pad_start_def)

text \<open>Printing truncates toward zero and parsing is exact: parsing the print with up to nine
  fraction digits gives the value with the further digits cut off; with nine it gives it back.\<close>

theorem parse_format_scaled:
  assumes "digits \<le> 9"
  shows "parseScaled (formatScaled v digits)
    = Some (sgn v * (\<bar>v\<bar> div 10 ^ (9 - digits) * 10 ^ (9 - digits)))"
proof -
  define n w f where "n = nat \<bar>v\<bar>" and "w = n div 10 ^ 9" and "f = n mod 10 ^ 9"
  define F where "F = take digits (pad_start 9 (show_nat f))"
  define body where "body = show_nat w @ (if digits = 0 then [] else CHR ''.'' # F)"
  have len: "length (show_nat f) \<le> 9" by (simp add: length_show_nat f_def)
  have F: "length F = digits" "list_all is_digit F" "read_nat F = f div 10 ^ (9 - digits)"
    using assms len pad_digits [OF show_nat_digits, of 9 f] pad_length [OF len]
      read_nat_take [of digits "pad_start 9 (show_nat f)"]
    by (auto simp: F_def list_all_iff dest: in_set_takeD)
  have w: "list_all is_digit (show_nat w)" by (rule show_nat_digits)
  have print: "formatScaled v digits = (if v < 0 then ''-'' else []) @ body"
  proof -
    have "\<bar>v\<bar> sdiv scale = int w" "\<bar>v\<bar> smod scale = int f"
      by (simp_all add: sdiv_nonneg smod_nonneg scale_def w_def f_def n_def zdiv_int zmod_int)
    then show ?thesis by (simp add: formatScaled_def Let_def show_int_def scale_digits_def body_def F_def)
  qed
  have parts: "int_part body = show_nat w" "frac_part body = F"
    "dropWhile (\<lambda>c. c \<noteq> CHR ''.'') body = [] \<or> frac_part body \<noteq> []"
  proof -
    have "int_part body = show_nat w \<and> frac_part body = F
      \<and> (dropWhile (\<lambda>c. c \<noteq> CHR ''.'') body = [] \<or> frac_part body \<noteq> [])"
    proof (cases "digits = 0")
      case True
      then have "body = show_nat w" "F = []" using F(1) by (simp_all add: body_def)
      then show ?thesis using int_part_plain [OF w] by simp
    next
      case False
      then have "body = show_nat w @ CHR ''.'' # F" "F \<noteq> []" using F(1) by (auto simp: body_def)
      then show ?thesis using int_part_dot [OF w, of F] by simp
    qed
    then show "int_part body = show_nat w" "frac_part body = F"
      "dropWhile (\<lambda>c. c \<noteq> CHR ''.'') body = [] \<or> frac_part body \<noteq> []" by blast+
  qed
  obtain c t where ct: "show_nat w = c # t" using show_nat_nonempty [of w] by (meson neq_Nil_conv)
  have "c \<noteq> CHR ''-''" using show_nat_not_minus [of w t] unfolding ct by blast
  then have hd: "body \<noteq> []" "hd body \<noteq> CHR ''-''" by (simp_all add: body_def ct)
  then have u: "unsigned (formatScaled v digits) = body" "hd (formatScaled v digits) = CHR ''-'' \<longleftrightarrow> v < 0"
    "formatScaled v digits \<noteq> []"
    by (auto simp: print unsigned_def split: list.splits)
  have "parseScaled (formatScaled v digits)
      = Some ((if v < 0 then - 1 else 1) * int (read_nat (show_nat w @ F @ replicate (9 - digits) (CHR ''0''))))"
    using parts w F(1,2) u assms
    by (simp add: parseScaled_def decimal_pattern_def Let_def scale_digits_def)
  also have "read_nat (show_nat w @ F @ replicate (9 - digits) (CHR ''0'')) = n div 10 ^ (9 - digits) * 10 ^ (9 - digits)"
  proof -
    have nf: "n = w * 10 ^ 9 + f" by (simp add: w_def f_def)
    have ten: "(10::nat) ^ 9 = 10 ^ digits * 10 ^ (9 - digits)" using assms by (simp flip: power_add)
    have "n div 10 ^ (9 - digits) = w * 10 ^ digits + f div 10 ^ (9 - digits)"
      unfolding nf ten by (simp add: mult.assoc [symmetric])
    then show ?thesis
      using assms ten by (simp add: read_nat_append F(1,3) distrib_right mult.assoc)
  qed
  finally show ?thesis
    by (simp add: n_def sgn_if zdiv_int)
qed

theorem parse_format_scaled_witness: "parseScaled (formatScaled (- 1234567891) 2) = Some (- 1230000000)"
  using parse_format_scaled [of 2 "- 1234567891"] by simp

end
