(* ===== verification/Evidence.thy ===== *)
theory Evidence
  imports Prelude
begin

text \<open>
  Evidence envelopes and fingerprints, \<open>trading/retention.ts\<close> and \<open>trading/replay.ts\<close>. The objects
  handed to \<open>assertEvidenceJson\<close> live in a heap: a value is a leaf or a reference, and a reference
  may close a cycle. \<open>JSON.stringify\<close> of leaves and keys is a parameter of the fingerprint.
\<close>

section \<open>Retention envelopes\<close>

datatype retention_class = Raw | Bar | Log | Decision_Class | Financial_Class | Experiment_Class | Unknown_Class

record storage_identity =
  si_mode :: string
  si_instrument_id :: string
  si_instrument_version :: string
  si_account_id :: "string option"
  si_experiment_id :: "string option"

record retention_object =
  ro_id :: string
  ro_class :: retention_class
  ro_identity :: storage_identity
  ro_recorded_at :: "time option"
  ro_payload_defined :: bool
  ro_dependencies :: "string list"

datatype evidence_error = INVALID_ENVELOPE | INVALID_JSON

definition truthy :: "string option \<Rightarrow> bool" where
  "truthy s \<longleftrightarrow> (case s of None \<Rightarrow> False | Some t \<Rightarrow> t \<noteq> [])"

definition validateRetentionObject :: "retention_object \<Rightarrow> evidence_error + unit" where
  "validateRetentionObject r =
     (let i = ro_identity r in
      if ro_id r = [] \<or> length (ro_id r) > 512 \<or> ro_class r = Unknown_Class \<or> si_mode i \<noteq> ''paper''
         \<or> si_instrument_id i = [] \<or> si_instrument_version i = [] \<or> ro_recorded_at r = None
         \<or> \<not> ro_payload_defined r
         \<or> length (remdups (ro_dependencies r)) \<noteq> length (ro_dependencies r)
         \<or> list_ex (\<lambda>d. d = [] \<or> d = ro_id r \<or> length d > 512) (ro_dependencies r)
         \<or> ro_class r \<in> {Financial_Class, Decision_Class} \<and> (\<not> truthy (si_account_id i) \<or> \<not> truthy (si_experiment_id i))
         \<or> ro_class r = Experiment_Class \<and> \<not> truthy (si_experiment_id i)
      then Inl INVALID_ENVELOPE else Inr ())"

text \<open>An accepted envelope never depends on itself nor twice on the same object, and money and
  decisions always name their account and experiment.\<close>

theorem retention_envelope:
  assumes "validateRetentionObject r = Inr ()"
  shows "distinct (ro_dependencies r) \<and> ro_id r \<notin> set (ro_dependencies r)
    \<and> si_mode (ro_identity r) = ''paper''
    \<and> (ro_class r \<in> {Financial_Class, Decision_Class} \<longrightarrow>
         (\<exists>a e. si_account_id (ro_identity r) = Some a \<and> a \<noteq> [] \<and> si_experiment_id (ro_identity r) = Some e \<and> e \<noteq> []))"
  using assms
  by (auto simp: validateRetentionObject_def Let_def list_ex_iff truthy_def length_remdups_card_conv card_distinct
      split: if_splits option.splits)

definition sample_envelope :: retention_object where
  "sample_envelope = \<lparr>ro_id = ''d1'', ro_class = Decision_Class,
     ro_identity = \<lparr>si_mode = ''paper'', si_instrument_id = ''btc'', si_instrument_version = ''v1'',
       si_account_id = Some ''a'', si_experiment_id = Some ''e''\<rparr>,
     ro_recorded_at = Some 5, ro_payload_defined = True, ro_dependencies = [''b1'', ''b2'']\<rparr>"

theorem retention_envelope_witness: "distinct (ro_dependencies sample_envelope)"
proof -
  have "validateRetentionObject sample_envelope = Inr ()"
    by (simp add: validateRetentionObject_def sample_envelope_def truthy_def)
  from retention_envelope [OF this] show ?thesis by blast
qed

section \<open>JSON evidence\<close>

datatype leaf = Null_Leaf | Text | Boolean | Finite_Number | Other_Number | Not_Json

datatype js_value = Leaf leaf | Ref nat

text \<open>An array or a plain object with its item values, or an object of another class.\<close>

datatype heap_object = Container "js_value list" | Exotic

type_synonym heap = "(nat \<times> heap_object) list"

function assertEvidenceJson :: "heap \<Rightarrow> nat set \<Rightarrow> js_value \<Rightarrow> bool"
  and assertItems :: "heap \<Rightarrow> nat set \<Rightarrow> js_value list \<Rightarrow> bool" where
  "assertEvidenceJson h ancestors (Leaf l) = (l \<in> {Null_Leaf, Text, Boolean, Finite_Number})"
| "assertEvidenceJson h ancestors (Ref r) =
     (if r \<in> ancestors then False
      else case map_of h r of
        Some (Container items) \<Rightarrow> assertItems h (insert r ancestors) items
      | _ \<Rightarrow> False)"
| "assertItems h ancestors [] = True"
| "assertItems h ancestors (v # vs) = (assertEvidenceJson h ancestors v \<and> assertItems h ancestors vs)"
  by pat_completeness auto

lemma fewer_left: "r \<notin> anc \<Longrightarrow> map_of h r = Some k \<Longrightarrow> card (fst ` set h - insert r anc) < card (fst ` set h - anc)"
proof (rule psubset_card_mono)
  assume "r \<notin> anc" "map_of h r = Some k"
  then have "r \<in> fst ` set h - anc" by (auto dest: map_of_SomeD intro: rev_image_eqI)
  then show "fst ` set h - insert r anc \<subset> fst ` set h - anc" by blast
qed simp

termination assertEvidenceJson
  by (relation "inv_image (less_than <*lex*> less_than)
      (\<lambda>x. case x of Inl (h, anc, v) \<Rightarrow> (card (fst ` set h - anc), 0) | Inr (h, anc, vs) \<Rightarrow> (card (fst ` set h - anc), Suc (length vs)))")
    (auto dest: fewer_left)

text \<open>What the serializer would write: a finite JSON tree that the value denotes in the heap.\<close>

datatype json_tree = Scalar leaf | Node "json_tree list"

inductive denotes :: "heap \<Rightarrow> js_value \<Rightarrow> json_tree \<Rightarrow> bool" for h where
  leaf: "l \<in> {Null_Leaf, Text, Boolean, Finite_Number} \<Longrightarrow> denotes h (Leaf l) (Scalar l)"
| node: "map_of h r = Some (Container items) \<Longrightarrow> list_all2 (denotes h) items ts \<Longrightarrow> denotes h (Ref r) (Node ts)"
  monos list_all2_mono

inductive_cases denotes_LeafE [elim!]: "denotes h (Leaf l) t"
inductive_cases denotes_RefE: "denotes h (Ref r) t"

lemma accepted_denotes:
  "assertEvidenceJson h anc v \<Longrightarrow> \<exists>t. denotes h v t"
  "assertItems h anc vs \<Longrightarrow> \<exists>ts. list_all2 (denotes h) vs ts"
proof (induction h anc v and h anc vs rule: assertEvidenceJson_assertItems.induct)
  case (1 h anc l)
  then show ?case by (auto intro: denotes.leaf)
next
  case (2 h anc r)
  then show ?case by (auto split: if_splits option.splits heap_object.splits intro: denotes.node)
next
  case (3 h anc)
  then show ?case by simp
next
  case (4 h anc v vs)
  then show ?case by (auto simp: list_all2_Cons1)
qed

lemma denotes_unique: "denotes h v s \<Longrightarrow> denotes h v t \<Longrightarrow> s = t"
proof (induction arbitrary: t rule: denotes.induct)
  case (leaf l)
  then show ?case by auto
next
  case (node r items ts)
  from node.prems node.hyps(1) obtain us where us: "t = Node us" "list_all2 (denotes h) items us"
    by (auto elim: denotes_RefE)
  from node.IH us(2) have "ts = us"
  proof (induction items ts arbitrary: us rule: list_all2_induct)
    case Nil
    then show ?case by simp
  next
    case (Cons w ws u vs)
    then show ?case by (auto simp: list_all2_Cons1)
  qed
  with us(1) show ?case by simp
qed

text \<open>A value that denotes a tree is accepted below any ancestors that denote no part of that tree.\<close>

lemma tree_member: "t \<in> set ts \<Longrightarrow> size t < size (Node ts)"
  by (induction ts) auto

lemma denoted_accepted:
  "denotes h v t \<Longrightarrow> (\<forall>r \<in> anc. \<forall>s. denotes h (Ref r) s \<longrightarrow> size t < size s) \<Longrightarrow> assertEvidenceJson h anc v"
proof (induction t arbitrary: v anc rule: measure_induct_rule [of size])
  case (less t)
  show ?case
  proof (cases v)
    case (Leaf l)
    with less.prems show ?thesis by auto
  next
    case (Ref r)
    with less.prems(1) obtain items ts where t: "t = Node ts" "map_of h r = Some (Container items)"
        "list_all2 (denotes h) items ts"
      by (auto elim: denotes_RefE)
    have new: "r \<notin> anc" using less.prems Ref by blast
    have "assertItems h (insert r anc) vs" if "list_all2 (denotes h) vs us" "set us \<subseteq> set ts" for vs us
      using that
    proof (induction vs us rule: list_all2_induct)
      case Nil
      then show ?case by simp
    next
      case (Cons w vs u us)
      have u: "size u < size t" using Cons.prems tree_member t(1) by auto
      have "size u < size s" if "q \<in> insert r anc" "denotes h (Ref q) s" for q s
      proof (cases "q = r")
        case True
        then have "s = t" using that(2) less.prems(1) Ref denotes_unique by blast
        with u show ?thesis by simp
      next
        case False
        with that less.prems(2) u show ?thesis by fastforce
      qed
      with less.IH [OF u Cons.hyps(1)] have "assertEvidenceJson h (insert r anc) w" by blast
      with Cons show ?case by simp
    qed
    from this [OF t(3) order_refl] new show ?thesis by (simp add: Ref t(2))
  qed
qed

text \<open>C38: The check of evidence ends on every heap, cyclic or not, and accepts exactly the values that
  denote a finite JSON tree: no cycle, no dangling or exotic object, no leaf the serializer would
  drop or alter. Shared objects that close no cycle are accepted.\<close>

theorem assertEvidenceJson_iff: "assertEvidenceJson h {} v \<longleftrightarrow> (\<exists>t. denotes h v t)"
  using accepted_denotes(1) [of h "{}" v] denoted_accepted [of h v _ "{}"] by blast

section \<open>Fingerprints\<close>

datatype 'a fp_value = FP_Leaf 'a | FP_Undefined | FP_Array "'a fp_value list" | FP_Object "(string \<times> 'a fp_value) list"

datatype fp_error = Invalid_Payload

fun seq_res :: "('e + 'a) list \<Rightarrow> 'e + 'a list" where
  "seq_res [] = Inr []"
| "seq_res (r # rs) = bind_res r (\<lambda>x. bind_res (seq_res rs) (\<lambda>xs. Inr (x # xs)))"

fun join :: "string \<Rightarrow> string list \<Rightarrow> string" where
  "join sep [] = []"
| "join sep [s] = s"
| "join sep (s # t # ts) = s @ sep @ join sep (t # ts)"

fun tag_res :: "string \<times> ('e + 'a) \<Rightarrow> 'e + (string \<times> 'a)" where
  "tag_res (k, r) = bind_res r (\<lambda>x. Inr (k, x))"

fun canonicalFingerprint :: "('a \<Rightarrow> string) \<Rightarrow> (string \<Rightarrow> string) \<Rightarrow> 'a fp_value \<Rightarrow> fp_error + string" where
  "canonicalFingerprint stringify quote (FP_Leaf x) = Inr (stringify x)"
| "canonicalFingerprint stringify quote FP_Undefined = Inl Invalid_Payload"
| "canonicalFingerprint stringify quote (FP_Array xs) =
     bind_res (seq_res (map (canonicalFingerprint stringify quote) xs)) (\<lambda>ss. Inr (''['' @ join '','' ss @ '']''))"
| "canonicalFingerprint stringify quote (FP_Object kvs) =
     bind_res (seq_res (map (\<lambda>(k, r). bind_res r (\<lambda>s. Inr (quote k @ '':'' @ s)))
       (sort_key fst (map (\<lambda>(k, v). (k, canonicalFingerprint stringify quote v)) kvs))))
     (\<lambda>ss. Inr (''{'' @ join '','' ss @ ''}''))"

text \<open>Two values that differ only in the order of keys, at any depth.\<close>

inductive reordered :: "'a fp_value \<Rightarrow> 'a fp_value \<Rightarrow> bool" where
  fp_leaf: "reordered (FP_Leaf x) (FP_Leaf x)"
| fp_undefined: "reordered FP_Undefined FP_Undefined"
| fp_array: "list_all2 reordered xs ys \<Longrightarrow> reordered (FP_Array xs) (FP_Array ys)"
| fp_object: "distinct (map fst xs) \<Longrightarrow> list_all2 (\<lambda>x y. fst x = fst y \<and> reordered (snd x) (snd y)) xs ys \<Longrightarrow> mset ys = mset zs \<Longrightarrow>
     reordered (FP_Object xs) (FP_Object zs)"
  monos list_all2_mono

lemma sort_key_permuted:
  assumes "distinct (map f xs)" "mset xs = mset ys"
  shows "sort_key f xs = sort_key f ys"
proof (rule properties_for_sort_key)
  show "mset (sort_key f ys) = mset xs" using assms(2) by simp
  have "inj_on f (set xs)" "distinct xs" using assms(1) by (auto simp: distinct_map)
  then have inj: "inj_on f (set ys)" "distinct ys" using assms(2) mset_eq_setD mset_eq_imp_distinct_iff by metis+
  have single: "filter (\<lambda>x. f k = f x) zs = [k]" if "k \<in> set zs" "inj_on f (set zs)" "distinct zs" for k zs
    using that by (induction zs) (auto simp: inj_on_def filter_empty_conv)
  fix k
  assume "k \<in> set (sort_key f ys)"
  then have k: "k \<in> set (sort_key f ys)" "k \<in> set xs" using mset_eq_setD [OF assms(2)] by simp_all
  have "inj_on f (set (sort_key f ys))" "distinct (sort_key f ys)" using inj by simp_all
  then show "filter (\<lambda>x. f k = f x) (sort_key f ys) = filter (\<lambda>x. f k = f x) xs"
    using single [OF k(1)] single [OF k(2) \<open>inj_on f (set xs)\<close> \<open>distinct xs\<close>] by metis
next
  show "sorted (map f (sort_key f ys))" by simp
qed

lemma reordered_fingerprint: "reordered v w \<Longrightarrow> canonicalFingerprint stringify quote v = canonicalFingerprint stringify quote w"
proof (induction rule: reordered.induct)
  case (fp_array xs ys)
  then have "map (canonicalFingerprint stringify quote) xs = map (canonicalFingerprint stringify quote) ys"
    by (induction rule: list_all2_induct) auto
  then show ?case by simp
next
  case (fp_object xs ys zs)
  let ?m = "map (\<lambda>(k, v). (k, canonicalFingerprint stringify quote v))"
  have eq: "?m xs = ?m ys"
    using fp_object.IH by (induction rule: list_all2_induct) (auto split: prod.splits)
  have keys: "map fst (?m xs) = map fst xs" by (simp add: comp_def split_def)
  have "distinct (map fst (?m ys))" using fp_object.hyps(1) by (simp only: eq [symmetric] keys)
  moreover have "mset (?m ys) = mset (?m zs)" by (simp only: mset_map fp_object.hyps(2))
  ultimately have "sort_key fst (?m ys) = sort_key fst (?m zs)" by (rule sort_key_permuted)
  then show ?case by (simp add: eq)
qed simp_all

text \<open>The fingerprint of a payload does not depend on the order in which its object keys were
  written, at any depth.\<close>

theorem fingerprint_key_order:
  assumes "reordered v w"
  shows "canonicalFingerprint stringify quote v = canonicalFingerprint stringify quote w"
  using assms by (rule reordered_fingerprint)

theorem fingerprint_key_order_witness:
  "canonicalFingerprint id id (FP_Object [(''b'', FP_Leaf ''1''), (''a'', FP_Leaf ''2'')])
   = canonicalFingerprint id id (FP_Object [(''a'', FP_Leaf ''2''), (''b'', FP_Leaf ''1'')])"
proof (rule fingerprint_key_order)
  show "reordered (FP_Object [(''b'', FP_Leaf ''1''), (''a'', FP_Leaf ''2'')])
      (FP_Object [(''a'', FP_Leaf ''2''), (''b'', FP_Leaf ''1'')])"
    by (rule reordered.fp_object [of _ "[(''b'', FP_Leaf ''1''), (''a'', FP_Leaf ''2'')]"])
      (auto intro: reordered.intros)
qed

section \<open>Replay order and calendar buckets\<close>

definition compareReplayOrder :: "time \<times> string \<Rightarrow> time \<times> string \<Rightarrow> int" where
  "compareReplayOrder a b =
     (let d = fst a - fst b in
      if d \<noteq> 0 then d else if snd a < snd b then - 1 else if snd a > snd b then 1 else 0)"

definition utcBucketDay :: "time \<Rightarrow> bool \<Rightarrow> int" where
  "utcBucketDay at weekly =
     (let day = at div 86400000; weekday = (day + 4) mod 7 in
      if weekly then day - (weekday + 6) mod 7 else day)"

text \<open>The comparator is the strict order of time and then key, and calls only equal pairs equal.\<close>

lemma compareReplayOrder_order:
  "compareReplayOrder a b < 0 \<longleftrightarrow> fst a < fst b \<or> fst a = fst b \<and> snd a < snd b"
  "compareReplayOrder a b = 0 \<longleftrightarrow> a = b"
  by (auto simp: compareReplayOrder_def Let_def prod_eq_iff)

text \<open>A weekly bucket starts on the Monday on or before the instant, at most six days back, and is
  the bucket of every day of its week.\<close>

theorem weekly_bucket:
  "utcBucketDay at True \<le> at div 86400000 \<and> at div 86400000 < utcBucketDay at True + 7
   \<and> (utcBucketDay at True + 4) mod 7 = 1
   \<and> utcBucketDay (utcBucketDay at True * 86400000) True = utcBucketDay at True"
proof -
  define d b where "d = at div 86400000" and "b = d - ((d + 4) mod 7 + 6) mod 7"
  have b: "(b + 4) mod 7 = 1" "b \<le> d" "d < b + 7" unfolding b_def by presburger+
  have "utcBucketDay at True = b" by (simp only: utcBucketDay_def Let_def if_True d_def b_def)
  moreover have "utcBucketDay (b * 86400000) True = b - ((b + 4) mod 7 + 6) mod 7"
    by (simp only: utcBucketDay_def Let_def if_True) simp
  ultimately show ?thesis using b by (simp add: d_def)
qed

end
