(* ===== verification/Contracts.thy ===== *)
theory Contracts
  imports Amounts Ledger
begin

text \<open>
  The trading contracts, \<open>packages/contracts/src/trading/validation.ts\<close> with the shapes of
  \<open>schemas.ts\<close> and the types of \<open>types.ts\<close>. A JSON object of a fixed shape is a record, an enumerated
  field a datatype (so a value outside the enumeration is not a value of the model), and the patterns and
  constants of a schema are the predicates named \<open>_shape\<close>. A timestamp is its instant; the
  \<open>utc-milliseconds\<close> format has a four-digit year, so the instants it can write are those of
  \<open>utc_milliseconds\<close>, and comparing such strings is comparing the instants.
\<close>

section \<open>Patterns\<close>

definition is_alnum :: "char \<Rightarrow> bool" where
  "is_alnum c = (is_digit c \<or> 65 \<le> (of_char c :: nat) \<and> (of_char c :: nat) \<le> 90
     \<or> 97 \<le> (of_char c :: nat) \<and> (of_char c :: nat) \<le> 122)"

definition id_char :: "char \<Rightarrow> bool" where
  "id_char c = (is_alnum c \<or> c \<in> set ''._:/-'')"

text \<open>\<open>/^[A-Za-z0-9][A-Za-z0-9._:/-]{0,191}$/\<close> and \<open>/^[a-f0-9]{64}$/\<close>\<close>

fun contract_id :: "string \<Rightarrow> bool" where
  "contract_id [] = False"
| "contract_id (c # s) = (is_alnum c \<and> length s \<le> 191 \<and> list_all id_char s)"

definition sha256_hex :: "string \<Rightarrow> bool" where
  "sha256_hex s = (length s = 64
     \<and> list_all (\<lambda>c. is_digit c \<or> 97 \<le> (of_char c :: nat) \<and> (of_char c :: nat) \<le> 102) s)"

definition utc_milliseconds :: "time \<Rightarrow> bool" where
  "utc_milliseconds t = (-62167219200000 \<le> t \<and> t \<le> 253402300799999)"

datatype amount_sign = Signed | Positive | Nonnegative

fun raw_pattern :: "amount_sign \<Rightarrow> string \<Rightarrow> bool" where
  "raw_pattern Positive s = positive_canonical s"
| "raw_pattern Nonnegative s = (s = ''0'' \<or> positive_canonical s)"
| "raw_pattern Signed s = canonical_integer s"

definition amount_shape :: "trading_unit \<Rightarrow> amount_sign \<Rightarrow> trading_amount \<Rightarrow> bool" where
  "amount_shape u sign a =
     (ta_unit a = u \<and> ta_decimals a = trading_decimals u \<and> raw_pattern sign (ta_raw a))"

definition trading_version :: string where
  "trading_version = ''trading.v1''"

section \<open>Data identities and instruments\<close>

datatype data_kind = Metadata_Data | Book_Data | Trade_Data | Mark_Data | Funding_Data | Bar_Data

fun data_kind_name :: "data_kind \<Rightarrow> string" where
  "data_kind_name Metadata_Data = ''metadata''"
| "data_kind_name Book_Data = ''book''"
| "data_kind_name Trade_Data = ''trade''"
| "data_kind_name Mark_Data = ''mark''"
| "data_kind_name Funding_Data = ''funding''"
| "data_kind_name Bar_Data = ''bar''"

datatype data_quality = Fresh | Stale | Unknown

record trading_data =
  td_schema_version :: string
  td_instrument_id :: ident
  td_instrument_version :: ident
  td_source_id :: ident
  td_source_event_id :: ident
  td_kind :: data_kind
  td_source_timestamp :: time
  td_received_at :: time
  td_parser_version :: ident
  td_payload_hash :: string
  td_quality :: data_quality

definition data_shape :: "trading_data \<Rightarrow> bool" where
  "data_shape d = (td_schema_version d = trading_version \<and> contract_id (td_instrument_id d)
     \<and> contract_id (td_instrument_version d) \<and> contract_id (td_source_id d) \<and> contract_id (td_source_event_id d)
     \<and> utc_milliseconds (td_source_timestamp d) \<and> utc_milliseconds (td_received_at d)
     \<and> contract_id (td_parser_version d) \<and> sha256_hex (td_payload_hash d))"

definition inputs_shape :: "trading_data list \<Rightarrow> bool" where
  "inputs_shape ds = (ds \<noteq> [] \<and> distinct ds \<and> list_all data_shape ds)"

record trading_instrument =
  tn_schema_version :: string
  tn_instrument_id :: ident
  tn_instrument_version :: ident
  tn_venue_id :: ident
  tn_venue_symbol :: ident
  tn_kind :: string
  tn_base_currency :: string
  tn_quote_currency :: string
  tn_settlement_currency :: string
  tn_tick_size :: trading_amount
  tn_quantity_step :: trading_amount
  tn_origin :: trading_data

definition instrument_shape :: "trading_instrument \<Rightarrow> bool" where
  "instrument_shape i = (tn_schema_version i = trading_version \<and> contract_id (tn_instrument_id i)
     \<and> contract_id (tn_instrument_version i) \<and> contract_id (tn_venue_id i) \<and> contract_id (tn_venue_symbol i)
     \<and> tn_kind i = ''linear_perpetual'' \<and> tn_base_currency i = ''BTC'' \<and> tn_quote_currency i = ''USD''
     \<and> tn_settlement_currency i = ''USD'' \<and> amount_shape USD_PER_BTC Positive (tn_tick_size i)
     \<and> amount_shape BTC Positive (tn_quantity_step i) \<and> data_shape (tn_origin i))"

datatype account_purpose = Manual_Purpose | Baseline_Purpose | Challenger_Purpose

record trading_account =
  tac_schema_version :: string
  tac_account_id :: ident
  tac_experiment_id :: ident
  tac_mode :: trading_mode
  tac_purpose :: account_purpose
  tac_settlement_currency :: string

definition account_shape :: "trading_account \<Rightarrow> bool" where
  "account_shape a = (tac_schema_version a = trading_version \<and> contract_id (tac_account_id a)
     \<and> contract_id (tac_experiment_id a) \<and> tac_settlement_currency a = ''USD'')"

record trading_experiment =
  te_schema_version :: string
  te_experiment_id :: ident
  te_mode :: trading_mode
  te_manifest_hash :: string
  te_strategy_version :: ident
  te_started_at :: time

definition experiment_shape :: "trading_experiment \<Rightarrow> bool" where
  "experiment_shape e = (te_schema_version e = trading_version \<and> contract_id (te_experiment_id e)
     \<and> sha256_hex (te_manifest_hash e) \<and> contract_id (te_strategy_version e) \<and> utc_milliseconds (te_started_at e))"

section \<open>Intents, orders, executions and ledger events\<close>

datatype decision_origin = Manual ident | Strategy ident ident | Model_Filter ident ident ident ident ident

fun origin_shape :: "decision_origin \<Rightarrow> bool" where
  "origin_shape (Manual actor) = contract_id actor"
| "origin_shape (Strategy s v) = (contract_id s \<and> contract_id v)"
| "origin_shape (Model_Filter s v m w r) = list_all contract_id [s, v, m, w, r]"

datatype time_in_force = IOC | GTD (expires_at: time)

record order_terms =
  ot_side :: side
  ot_quantity :: trading_amount
  ot_limit_price :: trading_amount
  ot_reduce_only :: bool
  ot_time_in_force :: time_in_force

definition terms_shape :: "order_terms \<Rightarrow> bool" where
  "terms_shape t = (amount_shape BTC Positive (ot_quantity t) \<and> amount_shape USD_PER_BTC Positive (ot_limit_price t)
     \<and> (case ot_time_in_force t of IOC \<Rightarrow> True | GTD e \<Rightarrow> utc_milliseconds e))"

definition scope_shape :: "'a ledger_scope_scheme \<Rightarrow> bool" where
  "scope_shape s = (contract_id (instrument_id s) \<and> contract_id (instrument_version s)
     \<and> contract_id (account_id s) \<and> contract_id (experiment_id s))"

record trading_intent = ledger_scope +
  ti_schema_version :: string
  ti_intent_id :: ident
  ti_idempotency_key :: string
  ti_decision_id :: ident
  ti_decided_at :: time
  ti_origin :: decision_origin
  ti_inputs :: "trading_data list"
  ti_terms :: order_terms

record trading_order = ledger_scope +
  to_schema_version :: string
  to_order_id :: ident
  to_intent_id :: ident
  to_decision_id :: ident
  to_idempotency_key :: string
  to_accepted_at :: time
  to_terms :: order_terms

datatype liquidity = Maker | Taker

record trading_execution = ledger_scope +
  tx_schema_version :: string
  tx_execution_id :: ident
  tx_order_id :: ident
  tx_intent_id :: ident
  tx_decision_id :: ident
  tx_idempotency_key :: string
  tx_executed_at :: time
  tx_side :: side
  tx_quantity :: trading_amount
  tx_price :: trading_amount
  tx_fee :: trading_amount
  tx_liquidity :: liquidity
  tx_evidence :: "trading_data list"

datatype event_payload =
    Cash_Payload trading_amount cash_reason
  | Margin_Payload bool ident ident trading_amount
  | Fill_Payload ident ident ident side trading_amount trading_amount
  | Fee_Payload ident trading_amount
  | Funding_Payload ident time time trading_amount trading_amount trading_data
  | Realized_Payload ident ident trading_amount
  | Mark_Payload ident trading_amount trading_amount trading_amount trading_data
  | Liquidation_Payload ident ident
  | Reversal_Payload ident ident

record trading_event = ledger_scope +
  tv_schema_version :: string
  tv_event_id :: ident
  tv_idempotency_key :: string
  tv_transaction_id :: ident
  tv_sequence :: string
  tv_cause_id :: ident
  tv_occurred_at :: time
  tv_recorded_at :: time
  tv_payload :: event_payload

definition intent_shape :: "trading_intent \<Rightarrow> bool" where
  "intent_shape i = (ti_schema_version i = trading_version \<and> scope_shape i \<and> contract_id (ti_intent_id i)
     \<and> ti_idempotency_key i \<noteq> [] \<and> contract_id (ti_decision_id i) \<and> utc_milliseconds (ti_decided_at i)
     \<and> origin_shape (ti_origin i) \<and> inputs_shape (ti_inputs i) \<and> terms_shape (ti_terms i))"

definition order_shape :: "trading_order \<Rightarrow> bool" where
  "order_shape r = (to_schema_version r = trading_version \<and> scope_shape r \<and> contract_id (to_order_id r)
     \<and> contract_id (to_intent_id r) \<and> contract_id (to_decision_id r) \<and> to_idempotency_key r \<noteq> []
     \<and> utc_milliseconds (to_accepted_at r) \<and> terms_shape (to_terms r))"

definition execution_shape :: "trading_execution \<Rightarrow> bool" where
  "execution_shape x = (tx_schema_version x = trading_version \<and> scope_shape x \<and> contract_id (tx_execution_id x)
     \<and> contract_id (tx_order_id x) \<and> contract_id (tx_intent_id x) \<and> contract_id (tx_decision_id x)
     \<and> tx_idempotency_key x \<noteq> [] \<and> utc_milliseconds (tx_executed_at x) \<and> amount_shape BTC Positive (tx_quantity x)
     \<and> amount_shape USD_PER_BTC Positive (tx_price x) \<and> amount_shape USD Signed (tx_fee x)
     \<and> inputs_shape (tx_evidence x))"

fun payload_shape :: "event_payload \<Rightarrow> bool" where
  "payload_shape (Cash_Payload delta reason) = amount_shape USD Signed delta"
| "payload_shape (Margin_Payload released r oid a) = (contract_id r \<and> contract_id oid \<and> amount_shape USD Positive a)"
| "payload_shape (Fill_Payload x oid p sd q price) = (contract_id x \<and> contract_id oid \<and> contract_id p
     \<and> amount_shape BTC Positive q \<and> amount_shape USD_PER_BTC Positive price)"
| "payload_shape (Fee_Payload x delta) = (contract_id x \<and> amount_shape USD Signed delta)"
| "payload_shape (Funding_Payload p s e rate delta d) = (contract_id p \<and> utc_milliseconds s \<and> utc_milliseconds e
     \<and> ta_unit rate = RATE \<and> (ta_decimals rate = 9 \<or> ta_decimals rate = 18) \<and> canonical_integer (ta_raw rate)
     \<and> amount_shape USD Signed delta \<and> data_shape d)"
| "payload_shape (Realized_Payload p x delta) = (contract_id p \<and> contract_id x \<and> amount_shape USD Signed delta)"
| "payload_shape (Mark_Payload p price u m d) = (contract_id p \<and> amount_shape USD_PER_BTC Positive price
     \<and> amount_shape USD Signed u \<and> amount_shape USD Nonnegative m \<and> data_shape d)"
| "payload_shape (Liquidation_Payload p x) = (contract_id p \<and> contract_id x)"
| "payload_shape (Reversal_Payload r reason) = (contract_id r \<and> contract_id reason)"

definition event_shape :: "trading_event \<Rightarrow> bool" where
  "event_shape e = (tv_schema_version e = trading_version \<and> scope_shape e \<and> contract_id (tv_event_id e)
     \<and> tv_idempotency_key e \<noteq> [] \<and> contract_id (tv_transaction_id e) \<and> positive_canonical (tv_sequence e)
     \<and> contract_id (tv_cause_id e) \<and> utc_milliseconds (tv_occurred_at e) \<and> utc_milliseconds (tv_recorded_at e)
     \<and> payload_shape (tv_payload e))"

section \<open>Keys and local invariants\<close>

datatype contract_error = Shape | Idempotency_Identity | Idempotency_Mismatch | Instrument_Mismatch
  | Metadata_Provenance | Scope_Mismatch | Data_Unavailable | Order_Expired | Execution_Evidence
  | Recorded_Before | Source_Postdates | Source_Kind | Funding_Period | Self_Reversal
  | Intent_Ownership | Decision_Predates | Order_Decision | Terms_Changed | Execution_Order
  | Exceeds_Quantity | Price_Limit | Quantum amount_error

datatype key_kind = Intent_Key | Order_Key | Execution_Key | Ledger_Key

fun key_kind_name :: "key_kind \<Rightarrow> string" where
  "key_kind_name Intent_Key = ''intent''"
| "key_kind_name Order_Key = ''order''"
| "key_kind_name Execution_Key = ''execution''"
| "key_kind_name Ledger_Key = ''ledger''"

text \<open>\<open>JSON.stringify\<close> of an array of strings that need no escape: quoted, separated by commas.\<close>

fun quoted_items :: "string list \<Rightarrow> string" where
  "quoted_items [] = ''''"
| "quoted_items [s] = ''\"'' @ s @ ''\"''"
| "quoted_items (s # t # ss) = ''\"'' @ s @ ''\"'' @ '','' @ quoted_items (t # ss)"

definition stringify :: "string list \<Rightarrow> string" where
  "stringify ss = ''['' @ quoted_items ss @ '']''"

definition tradingIdempotencyKey :: "'a ledger_scope_scheme \<Rightarrow> key_kind \<Rightarrow> ident \<Rightarrow> contract_error + string" where
  "tradingIdempotencyKey s kind logicalId =
     require (list_all contract_id [account_id s, experiment_id s, instrument_id s, instrument_version s, logicalId])
       Idempotency_Identity
       (Inr (stringify [trading_version, ''paper'', account_id s, experiment_id s, instrument_id s,
          key_kind_name kind, logicalId]))"

definition sameInstrument :: "ident \<Rightarrow> ident \<Rightarrow> ident \<Rightarrow> ident \<Rightarrow> contract_error + unit" where
  "sameInstrument a_id a_version b_id b_version =
     require (a_id = b_id \<and> a_version = b_version) Instrument_Mismatch (Inr ())"

definition sameScope :: "'a ledger_scope_scheme \<Rightarrow> 'b ledger_scope_scheme \<Rightarrow> contract_error + unit" where
  "sameScope a b =
     bind_res (sameInstrument (instrument_id a) (instrument_version a) (instrument_id b) (instrument_version b)) (\<lambda>_.
     require (mode a = mode b \<and> account_id a = account_id b \<and> experiment_id a = experiment_id b) Scope_Mismatch (Inr ()))"

fun knownInputs :: "ident \<Rightarrow> ident \<Rightarrow> trading_data list \<Rightarrow> time \<Rightarrow> contract_error + unit" where
  "knownInputs iid iv [] at = Inr ()"
| "knownInputs iid iv (d # ds) at =
     bind_res (sameInstrument iid iv (td_instrument_id d) (td_instrument_version d)) (\<lambda>_.
     require (td_received_at d \<le> at \<and> td_source_timestamp d \<le> at) Data_Unavailable (knownInputs iid iv ds at))"

definition unexpired :: "order_terms \<Rightarrow> time \<Rightarrow> contract_error + unit" where
  "unexpired t at = require (case ot_time_in_force t of IOC \<Rightarrow> True | GTD e \<Rightarrow> e > at) Order_Expired (Inr ())"

definition tradingDataKey :: "trading_data \<Rightarrow> contract_error + string" where
  "tradingDataKey d = require (data_shape d) Shape
     (Inr (stringify [trading_version, td_instrument_id d, td_source_id d, data_kind_name (td_kind d), td_source_event_id d]))"

definition check_key :: "'a ledger_scope_scheme \<Rightarrow> key_kind \<Rightarrow> ident \<Rightarrow> string \<Rightarrow> contract_error + unit" where
  "check_key s kind logicalId k =
     bind_res (tradingIdempotencyKey s kind logicalId) (\<lambda>expected. require (k = expected) Idempotency_Mismatch (Inr ()))"

text \<open>\<open>parseTradingContract\<close>, one definition per kind.\<close>

definition parse_instrument :: "trading_instrument \<Rightarrow> contract_error + trading_instrument" where
  "parse_instrument i = require (instrument_shape i) Shape
     (bind_res (sameInstrument (tn_instrument_id i) (tn_instrument_version i)
        (td_instrument_id (tn_origin i)) (td_instrument_version (tn_origin i))) (\<lambda>_.
      require (td_kind (tn_origin i) = Metadata_Data) Metadata_Provenance (Inr i)))"

definition parse_intent :: "trading_intent \<Rightarrow> contract_error + trading_intent" where
  "parse_intent i = require (intent_shape i) Shape
     (bind_res (check_key i Intent_Key (ti_intent_id i) (ti_idempotency_key i)) (\<lambda>_.
      bind_res (knownInputs (instrument_id i) (instrument_version i) (ti_inputs i) (ti_decided_at i)) (\<lambda>_.
      bind_res (unexpired (ti_terms i) (ti_decided_at i)) (\<lambda>_. Inr i))))"

definition parse_order :: "trading_order \<Rightarrow> contract_error + trading_order" where
  "parse_order r = require (order_shape r) Shape
     (bind_res (check_key r Order_Key (to_order_id r) (to_idempotency_key r)) (\<lambda>_.
      bind_res (unexpired (to_terms r) (to_accepted_at r)) (\<lambda>_. Inr r)))"

definition parse_execution :: "trading_execution \<Rightarrow> contract_error + trading_execution" where
  "parse_execution x = require (execution_shape x) Shape
     (bind_res (check_key x Execution_Key (tx_execution_id x) (tx_idempotency_key x)) (\<lambda>_.
      bind_res (knownInputs (instrument_id x) (instrument_version x) (tx_evidence x) (tx_executed_at x)) (\<lambda>_.
      require (list_all (\<lambda>d. td_quality d = Fresh \<and> (td_kind d = Book_Data \<or> td_kind d = Trade_Data)) (tx_evidence x))
        Execution_Evidence (Inr x))))"

definition source_check :: "trading_event \<Rightarrow> trading_data \<Rightarrow> data_kind \<Rightarrow> contract_error + unit" where
  "source_check e d kind =
     bind_res (knownInputs (instrument_id e) (instrument_version e) [d] (tv_recorded_at e)) (\<lambda>_.
     require (td_source_timestamp d \<le> tv_occurred_at e) Source_Postdates
     (require (td_kind d = kind) Source_Kind (Inr ())))"

definition parse_event :: "trading_event \<Rightarrow> contract_error + trading_event" where
  "parse_event e = require (event_shape e) Shape
     (bind_res (check_key e Ledger_Key (tv_event_id e) (tv_idempotency_key e)) (\<lambda>_.
      require (tv_recorded_at e \<ge> tv_occurred_at e) Recorded_Before
      (case tv_payload e of
         Funding_Payload p s t rate delta d \<Rightarrow>
           bind_res (source_check e d Funding_Data) (\<lambda>_.
           require (s < t \<and> t \<le> tv_occurred_at e) Funding_Period (Inr e))
       | Mark_Payload p price u m d \<Rightarrow> bind_res (source_check e d Mark_Data) (\<lambda>_. Inr e)
       | Reversal_Payload r reason \<Rightarrow> require (r \<noteq> tv_event_id e) Self_Reversal (Inr e)
       | _ \<Rightarrow> Inr e)))"

definition parse_account :: "trading_account \<Rightarrow> contract_error + trading_account" where
  "parse_account a = require (account_shape a) Shape (Inr a)"

definition parse_experiment :: "trading_experiment \<Rightarrow> contract_error + trading_experiment" where
  "parse_experiment e = require (experiment_shape e) Shape (Inr e)"

section \<open>The chain\<close>

definition parseTradingIntent ::
  "trading_intent \<Rightarrow> trading_account \<Rightarrow> trading_experiment \<Rightarrow> trading_instrument \<Rightarrow> contract_error + trading_intent" where
  "parseTradingIntent intent_value account_value experiment_value instrument_value =
     bind_res (parse_intent intent_value) (\<lambda>intent.
     bind_res (parse_account account_value) (\<lambda>account.
     bind_res (parse_experiment experiment_value) (\<lambda>exper.
     bind_res (parse_instrument instrument_value) (\<lambda>instrument.
     require (account_id intent = tac_account_id account \<and> experiment_id intent = tac_experiment_id account
         \<and> tac_experiment_id account = te_experiment_id exper \<and> mode intent = tac_mode account
         \<and> tac_mode account = te_mode exper) Intent_Ownership
     (require (ti_decided_at intent \<ge> te_started_at exper) Decision_Predates
     (bind_res (sameInstrument (instrument_id intent) (instrument_version intent)
        (tn_instrument_id instrument) (tn_instrument_version instrument)) (\<lambda>_.
      bind_res (knownInputs (instrument_id intent) (instrument_version intent) [tn_origin instrument] (ti_decided_at intent)) (\<lambda>_.
      bind_res (with_error Quantum (assertTradingQuantum (ot_quantity (ti_terms intent)) (tn_quantity_step instrument))) (\<lambda>_.
      bind_res (with_error Quantum (assertTradingQuantum (ot_limit_price (ti_terms intent)) (tn_tick_size instrument))) (\<lambda>_.
        Inr intent))))))))))"

definition same_terms :: "order_terms \<Rightarrow> order_terms \<Rightarrow> bool" where
  "same_terms a b = (ot_side a = ot_side b \<and> ta_raw (ot_quantity a) = ta_raw (ot_quantity b)
     \<and> ta_raw (ot_limit_price a) = ta_raw (ot_limit_price b) \<and> ot_reduce_only a = ot_reduce_only b
     \<and> ot_time_in_force a = ot_time_in_force b)"

definition parseTradingOrder :: "trading_order \<Rightarrow> trading_intent \<Rightarrow> trading_instrument \<Rightarrow> contract_error + trading_order" where
  "parseTradingOrder order_value intent_value instrument_value =
     bind_res (parse_order order_value) (\<lambda>order.
     bind_res (parse_intent intent_value) (\<lambda>intent.
     bind_res (parse_instrument instrument_value) (\<lambda>instrument.
     bind_res (sameScope order intent) (\<lambda>_.
     bind_res (sameInstrument (instrument_id order) (instrument_version order)
        (tn_instrument_id instrument) (tn_instrument_version instrument)) (\<lambda>_.
     bind_res (knownInputs (instrument_id order) (instrument_version order) [tn_origin instrument] (to_accepted_at order)) (\<lambda>_.
     require (to_intent_id order = ti_intent_id intent \<and> to_decision_id order = ti_decision_id intent
         \<and> to_accepted_at order \<ge> ti_decided_at intent) Order_Decision
     (require (same_terms (to_terms order) (ti_terms intent)) Terms_Changed
     (bind_res (with_error Quantum (assertTradingQuantum (ot_quantity (to_terms order)) (tn_quantity_step instrument))) (\<lambda>_.
      bind_res (with_error Quantum (assertTradingQuantum (ot_limit_price (to_terms order)) (tn_tick_size instrument))) (\<lambda>_.
        Inr order))))))))))"

definition within_limit :: "trading_execution \<Rightarrow> trading_order \<Rightarrow> bool" where
  "within_limit x order =
     (if tx_side x = Buy then read_int (ta_raw (tx_price x)) \<le> read_int (ta_raw (ot_limit_price (to_terms order)))
      else read_int (ta_raw (tx_price x)) \<ge> read_int (ta_raw (ot_limit_price (to_terms order))))"

definition parseTradingExecution ::
  "trading_execution \<Rightarrow> trading_order \<Rightarrow> trading_instrument \<Rightarrow> contract_error + trading_execution" where
  "parseTradingExecution execution_value order_value instrument_value =
     bind_res (parse_execution execution_value) (\<lambda>x.
     bind_res (parse_order order_value) (\<lambda>order.
     bind_res (parse_instrument instrument_value) (\<lambda>instrument.
     bind_res (sameScope x order) (\<lambda>_.
     bind_res (sameInstrument (instrument_id x) (instrument_version x)
        (tn_instrument_id instrument) (tn_instrument_version instrument)) (\<lambda>_.
     bind_res (knownInputs (instrument_id x) (instrument_version x) [tn_origin instrument] (tx_executed_at x)) (\<lambda>_.
     bind_res (with_error Quantum (assertTradingQuantum (ot_quantity (to_terms order)) (tn_quantity_step instrument))) (\<lambda>_.
     bind_res (with_error Quantum (assertTradingQuantum (ot_limit_price (to_terms order)) (tn_tick_size instrument))) (\<lambda>_.
     require (tx_order_id x = to_order_id order \<and> tx_intent_id x = to_intent_id order
         \<and> tx_decision_id x = to_decision_id order \<and> tx_side x = ot_side (to_terms order)
         \<and> tx_executed_at x \<ge> to_accepted_at order) Execution_Order
     (bind_res (unexpired (to_terms order) (tx_executed_at x)) (\<lambda>_.
      require (read_int (ta_raw (tx_quantity x)) \<le> read_int (ta_raw (ot_quantity (to_terms order)))) Exceeds_Quantity
      (require (within_limit x order) Price_Limit
      (bind_res (with_error Quantum (assertTradingQuantum (tx_quantity x) (tn_quantity_step instrument))) (\<lambda>_.
       bind_res (with_error Quantum (assertTradingQuantum (tx_price x) (tn_tick_size instrument))) (\<lambda>_.
         Inr x))))))))))))))"

section \<open>Keys determine identities\<close>

definition unquoted :: "string \<Rightarrow> bool" where
  "unquoted s \<longleftrightarrow> CHR ''\"'' \<notin> set s"

lemma quote_split:
  "unquoted s \<Longrightarrow> unquoted t \<Longrightarrow> s @ CHR ''\"'' # a = t @ CHR ''\"'' # b \<longleftrightarrow> s = t \<and> a = b"
proof (induction s arbitrary: t)
  case Nil
  then show ?case by (cases t) (auto simp: unquoted_def)
next
  case (Cons c s)
  then show ?case by (cases t) (auto simp: unquoted_def)
qed

lemma quoted_items_inj:
  "list_all unquoted ss \<Longrightarrow> list_all unquoted ts \<Longrightarrow> quoted_items ss = quoted_items ts \<Longrightarrow> ss = ts"
proof (induction ss arbitrary: ts rule: quoted_items.induct)
  case 1
  then show ?case by (cases ts rule: quoted_items.cases) simp_all
next
  case (2 s)
  then show ?case by (cases ts rule: quoted_items.cases) (simp_all add: quote_split)
next
  case (3 s t ss)
  show ?case
  proof (cases ts rule: quoted_items.cases)
    case (3 s' t' ss')
    then have "s = s'" "quoted_items (t # ss) = quoted_items (t' # ss')"
      using "3.prems" by (auto simp: quote_split)
    then show ?thesis using "3.IH" [of "t' # ss'"] "3.prems" 3 by simp
  qed (use "3.prems" in \<open>simp_all add: quote_split\<close>)
qed

lemma stringify_inj:
  "list_all unquoted ss \<Longrightarrow> list_all unquoted ts \<Longrightarrow> stringify ss = stringify ts \<longleftrightarrow> ss = ts"
  by (auto simp: stringify_def dest: quoted_items_inj)

lemma id_char_unquoted: "\<not> id_char CHR ''\"''"
  by (simp add: id_char_def is_alnum_def is_digit_def)

lemma is_alnum_id [simp]: "is_alnum c \<Longrightarrow> id_char c"
  by (simp add: id_char_def)

lemma contract_id_unquoted [simp]: "contract_id s \<Longrightarrow> unquoted s"
proof -
  assume "contract_id s"
  then have "list_all id_char s" by (cases s) auto
  then show ?thesis unfolding unquoted_def list_all_iff using id_char_unquoted by blast
qed

lemma key_kind_unquoted [simp]: "unquoted (key_kind_name k)"
  by (cases k) (simp_all add: unquoted_def)

lemma version_unquoted [simp]: "unquoted trading_version" "unquoted ''paper''"
  by (simp_all add: unquoted_def trading_version_def)

lemma key_kind_name_inj [simp]: "key_kind_name k = key_kind_name l \<longleftrightarrow> k = l"
  by (cases k; cases l) simp_all

lemma tradingIdempotencyKey_Inr:
  "tradingIdempotencyKey s kind i = Inr k \<longleftrightarrow>
     list_all contract_id [account_id s, experiment_id s, instrument_id s, instrument_version s, i]
     \<and> k = stringify [trading_version, ''paper'', account_id s, experiment_id s, instrument_id s, key_kind_name kind, i]"
  by (auto simp: tradingIdempotencyKey_def)

text \<open>An idempotency key determines the account, the experiment, the instrument, the kind of record and
  its logical id: two records collide only if they agree in all of them, so a retry is the only way
  to reuse a key.\<close>

theorem idempotency_key_injective:
  assumes "tradingIdempotencyKey s kind i = Inr k" and "tradingIdempotencyKey t kind' j = Inr k"
  shows "account_id s = account_id t \<and> experiment_id s = experiment_id t \<and> instrument_id s = instrument_id t
    \<and> kind = kind' \<and> i = j"
proof -
  let ?items = "\<lambda>s kind i. [trading_version, ''paper'', account_id s, experiment_id s, instrument_id s, key_kind_name kind, i]"
  have "list_all unquoted (?items s kind i)" "list_all unquoted (?items t kind' j)"
    using assms by (simp_all add: tradingIdempotencyKey_Inr)
  moreover have "stringify (?items s kind i) = stringify (?items t kind' j)"
    using assms by (simp add: tradingIdempotencyKey_Inr)
  ultimately show ?thesis by (simp only: stringify_inj) simp
qed

section \<open>The chain from decision to execution\<close>

lemma knownInputs_iff:
  "knownInputs iid iv ds at = Inr () \<longleftrightarrow> list_all (\<lambda>d. td_instrument_id d = iid \<and> td_instrument_version d = iv
     \<and> td_received_at d \<le> at \<and> td_source_timestamp d \<le> at) ds"
  by (induction ds) (auto simp: sameInstrument_def)

lemma sameScope_Inr:
  "sameScope a b = Inr () \<longleftrightarrow> instrument_id a = instrument_id b \<and> instrument_version a = instrument_version b
     \<and> account_id a = account_id b \<and> experiment_id a = experiment_id b"
  by (cases "mode a"; cases "mode b") (auto simp: sameScope_def sameInstrument_def)

lemma quantum_amount:
  assumes "assertTradingQuantum a q = Inr ()"
  shows "0 < read_int (ta_raw q) \<and> read_int (ta_raw q) dvd read_int (ta_raw a)"
  using assms by (auto simp: assertTradingQuantum_def parse_amount_json_iff smod_eq_0_iff)

lemma positive_shape: "amount_shape u Positive a \<Longrightarrow> 0 < read_int (ta_raw a)"
proof -
  assume "amount_shape u Positive a"
  then obtain n where "0 < n" "ta_raw a = show_nat n" by (auto simp: amount_shape_def positive_canonical_iff)
  then have "ta_raw a = show_int (int n)" by (simp add: show_int_def)
  with \<open>0 < n\<close> show ?thesis by simp
qed

lemma parse_intent_Inr:
  "parse_intent i = Inr i' \<Longrightarrow> i' = i \<and> terms_shape (ti_terms i)
     \<and> list_all (\<lambda>d. td_instrument_id d = instrument_id i \<and> td_instrument_version d = instrument_version i
        \<and> td_received_at d \<le> ti_decided_at i \<and> td_source_timestamp d \<le> ti_decided_at i) (ti_inputs i)"
  by (auto simp: parse_intent_def knownInputs_iff intent_shape_def)

lemma parse_execution_Inr:
  "parse_execution x = Inr x' \<Longrightarrow> x' = x \<and> amount_shape BTC Positive (tx_quantity x)
     \<and> list_all (\<lambda>d. td_quality d = Fresh \<and> td_kind d \<in> {Book_Data, Trade_Data}
        \<and> td_instrument_id d = instrument_id x \<and> td_instrument_version d = instrument_version x
        \<and> td_received_at d \<le> tx_executed_at x \<and> td_source_timestamp d \<le> tx_executed_at x) (tx_evidence x)"
  by (auto simp: parse_execution_def knownInputs_iff execution_shape_def list_all_iff)

lemma parse_order_Inr: "parse_order r = Inr r' \<Longrightarrow> r' = r"
  by (auto simp: parse_order_def)

lemma parse_instrument_Inr: "parse_instrument i = Inr i' \<Longrightarrow> i' = i"
  by (auto simp: parse_instrument_def)

lemma parse_account_Inr [simp]: "parse_account a = Inr a' \<longleftrightarrow> account_shape a \<and> a' = a"
  by (auto simp: parse_account_def)

lemma parse_experiment_Inr [simp]: "parse_experiment e = Inr e' \<longleftrightarrow> experiment_shape e \<and> e' = e"
  by (auto simp: parse_experiment_def)

lemma intent_accepted:
  assumes "parseTradingIntent i a e n = Inr i'"
  shows "i' = i" and "te_started_at e \<le> ti_decided_at i" and "account_id i = tac_account_id a"
    and "experiment_id i = te_experiment_id e" and "instrument_id i = tn_instrument_id n"
    and "list_all (\<lambda>d. td_received_at d \<le> ti_decided_at i) (ti_inputs i)"
    and "td_received_at (tn_origin n) \<le> ti_decided_at i"
  using assms unfolding parseTradingIntent_def res_simps
  by (auto dest!: parse_intent_Inr parse_instrument_Inr simp: list_all_iff sameInstrument_def knownInputs_iff)

lemma order_accepted:
  assumes "parseTradingOrder r i n = Inr r'"
  shows "r' = r" and "account_id r = account_id i" and "experiment_id r = experiment_id i"
    and "instrument_id r = instrument_id i" and "instrument_version r = instrument_version i"
    and "to_intent_id r = ti_intent_id i" and "to_decision_id r = ti_decision_id i"
    and "ti_decided_at i \<le> to_accepted_at r" and "same_terms (to_terms r) (ti_terms i)"
  using assms unfolding parseTradingOrder_def res_simps
  by (auto dest!: parse_intent_Inr parse_order_Inr simp: sameScope_Inr)

lemma execution_accepted:
  assumes "parseTradingExecution x r n = Inr x'"
  shows "account_id x = account_id r" and "experiment_id x = experiment_id r"
    and "instrument_id x = instrument_id r" and "tx_order_id x = to_order_id r" and "tx_intent_id x = to_intent_id r"
    and "tx_decision_id x = to_decision_id r" and "tx_side x = ot_side (to_terms r)" and "to_accepted_at r \<le> tx_executed_at x"
    and "case ot_time_in_force (to_terms r) of IOC \<Rightarrow> True | GTD e \<Rightarrow> tx_executed_at x < e"
    and "0 < read_int (ta_raw (tx_quantity x))"
    and "read_int (ta_raw (tx_quantity x)) \<le> read_int (ta_raw (ot_quantity (to_terms r)))"
    and "within_limit x r" and "read_int (ta_raw (tn_quantity_step n)) dvd read_int (ta_raw (tx_quantity x))"
    and "read_int (ta_raw (tn_tick_size n)) dvd read_int (ta_raw (tx_price x))"
    and "list_all (\<lambda>d. td_quality d = Fresh \<and> td_received_at d \<le> tx_executed_at x) (tx_evidence x)"
  using assms unfolding parseTradingExecution_def res_simps
  by (auto dest!: parse_execution_Inr parse_order_Inr parse_instrument_Inr positive_shape dest: quantum_amount
      simp: list_all_iff sameScope_Inr unexpired_def)

text \<open>C6: An execution accepted against an order accepted against an intent stays inside the decision: same
  owner, instrument, ids and side, a positive quantity on the lot grid and at most the decided one, a price
  on the tick grid and no worse than the decided limit, before the decided expiry; and nothing in
  the chain uses data received after the moment it claims.\<close>

theorem execution_within_decision:
  assumes "parseTradingIntent i a e n = Inr i1" and "parseTradingOrder r i n = Inr r1"
    and "parseTradingExecution x r n = Inr x1"
  shows "account_id x = tac_account_id a \<and> experiment_id x = te_experiment_id e \<and> instrument_id x = tn_instrument_id n
    \<and> tx_intent_id x = ti_intent_id i \<and> tx_decision_id x = ti_decision_id i \<and> tx_order_id x = to_order_id r
    \<and> tx_side x = ot_side (ti_terms i)
    \<and> 0 < read_int (ta_raw (tx_quantity x)) \<and> read_int (ta_raw (tx_quantity x)) \<le> read_int (ta_raw (ot_quantity (ti_terms i)))
    \<and> read_int (ta_raw (tn_quantity_step n)) dvd read_int (ta_raw (tx_quantity x))
    \<and> read_int (ta_raw (tn_tick_size n)) dvd read_int (ta_raw (tx_price x))
    \<and> (if ot_side (ti_terms i) = Buy then read_int (ta_raw (tx_price x)) \<le> read_int (ta_raw (ot_limit_price (ti_terms i)))
       else read_int (ta_raw (tx_price x)) \<ge> read_int (ta_raw (ot_limit_price (ti_terms i))))
    \<and> te_started_at e \<le> ti_decided_at i \<and> ti_decided_at i \<le> to_accepted_at r \<and> to_accepted_at r \<le> tx_executed_at x
    \<and> (case ot_time_in_force (ti_terms i) of IOC \<Rightarrow> True | GTD t \<Rightarrow> tx_executed_at x < t)
    \<and> list_all (\<lambda>d. td_received_at d \<le> ti_decided_at i) (ti_inputs i)
    \<and> list_all (\<lambda>d. td_quality d = Fresh \<and> td_received_at d \<le> tx_executed_at x) (tx_evidence x)"
  using intent_accepted [OF assms(1)] order_accepted [OF assms(2)] execution_accepted [OF assms(3)]
  unfolding same_terms_def within_limit_def by (cases "ot_side (ti_terms i)") simp_all
section \<open>An accepted chain\<close>

definition sample_scope :: ledger_scope where
  "sample_scope = \<lparr>mode = Paper, account_id = ''a'', experiment_id = ''e'', instrument_id = ''i'', instrument_version = ''v''\<rparr>"

lemma sample_contract_id: "contract_id [c] \<longleftrightarrow> is_alnum c" "is_alnum CHR ''a''" "is_alnum CHR ''e''" "is_alnum CHR ''i''"
  "is_alnum CHR ''v''" "is_alnum CHR ''b''"
  by (simp_all add: is_alnum_def)

theorem idempotency_key_injective_witness:
  "tradingIdempotencyKey sample_scope Order_Key ''a'' \<noteq> tradingIdempotencyKey sample_scope Order_Key ''b''"
proof
  assume eq: "tradingIdempotencyKey sample_scope Order_Key ''a'' = tradingIdempotencyKey sample_scope Order_Key ''b''"
  obtain k where "tradingIdempotencyKey sample_scope Order_Key ''b'' = Inr k"
    by (simp add: tradingIdempotencyKey_def sample_scope_def sample_contract_id)
  from idempotency_key_injective [OF trans [OF eq this] this] show False by simp
qed

definition sample_data :: "data_kind \<Rightarrow> time \<Rightarrow> trading_data" where
  "sample_data kind at = \<lparr>td_schema_version = trading_version, td_instrument_id = ''i'', td_instrument_version = ''v'',
     td_source_id = ''a'', td_source_event_id = ''a'', td_kind = kind, td_source_timestamp = at, td_received_at = at,
     td_parser_version = ''v'', td_payload_hash = replicate 64 CHR ''a'', td_quality = Fresh\<rparr>"

definition sample_terms :: order_terms where
  "sample_terms = \<lparr>ot_side = Buy, ot_quantity = amount_of BTC 4, ot_limit_price = amount_of USD_PER_BTC 10,
     ot_reduce_only = False, ot_time_in_force = GTD 50\<rparr>"

definition sample_key :: "key_kind \<Rightarrow> string" where
  "sample_key kind = stringify [trading_version, ''paper'', ''a'', ''e'', ''i'', key_kind_name kind, ''a'']"

definition sample_intent :: trading_intent where
  "sample_intent = ledger_scope.extend sample_scope (trading_intent.fields trading_version ''a'' (sample_key Intent_Key) ''a'' 20
     (Manual ''a'') [sample_data Book_Data 10] sample_terms)"

definition sample_order :: trading_order where
  "sample_order = ledger_scope.extend sample_scope
     (trading_order.fields trading_version ''a'' ''a'' ''a'' (sample_key Order_Key) 30 sample_terms)"

definition sample_execution :: trading_execution where
  "sample_execution = ledger_scope.extend sample_scope (trading_execution.fields trading_version ''a'' ''a'' ''a'' ''a''
     (sample_key Execution_Key) 40 Buy (amount_of BTC 2) (amount_of USD_PER_BTC 8) (amount_of USD 0) Taker
     [sample_data Trade_Data 35])"

definition sample_instrument :: trading_instrument where
  "sample_instrument = \<lparr>tn_schema_version = trading_version, tn_instrument_id = ''i'', tn_instrument_version = ''v'',
     tn_venue_id = ''a'', tn_venue_symbol = ''a'', tn_kind = ''linear_perpetual'', tn_base_currency = ''BTC'',
     tn_quote_currency = ''USD'', tn_settlement_currency = ''USD'', tn_tick_size = amount_of USD_PER_BTC 2,
     tn_quantity_step = amount_of BTC 2, tn_origin = sample_data Metadata_Data 5\<rparr>"

definition sample_account :: trading_account where
  "sample_account = \<lparr>tac_schema_version = trading_version, tac_account_id = ''a'', tac_experiment_id = ''e'',
     tac_mode = Paper, tac_purpose = Manual_Purpose, tac_settlement_currency = ''USD''\<rparr>"

definition sample_experiment :: trading_experiment where
  "sample_experiment = \<lparr>te_schema_version = trading_version, te_experiment_id = ''e'', te_mode = Paper,
     te_manifest_hash = replicate 64 CHR ''a'', te_strategy_version = ''v'', te_started_at = 1\<rparr>"

lemma sample_hash: "sha256_hex (replicate 64 CHR ''a'')"
  by (simp add: sha256_hex_def list_all_iff)

lemma amount_shape_positive [simp]: "amount_shape u Positive (amount_of u n) \<longleftrightarrow> 0 < n"
proof
  assume "0 < n"
  then have "positive_canonical (show_int n)" by (auto simp: positive_canonical_iff show_int_def intro: exI [of _ "nat n"])
  then show "amount_shape u Positive (amount_of u n)" by (simp add: amount_shape_def amount_of_def)
qed (use positive_shape [of u "amount_of u n"] in simp)

lemma amount_shape_signed [simp]: "amount_shape u Signed (amount_of u n)"
  by (simp add: amount_shape_def amount_of_def canonical_show_int)

lemma quantum_amount_of:
  "u \<noteq> PROBABILITY \<Longrightarrow> 0 < q \<Longrightarrow> q dvd n \<Longrightarrow> assertTradingQuantum (amount_of u n) (amount_of u q) = Inr ()"
  by (simp add: assertTradingQuantum_def parse_amount_json_iff unit_range_def smod_eq_0_iff)

lemma sample_data_shape [simp]: "data_shape (sample_data kind at) \<longleftrightarrow> utc_milliseconds at"
  by (simp add: data_shape_def sample_data_def sample_contract_id sample_hash)

lemma sample_key_ok [simp]: "account_id s = ''a'' \<Longrightarrow> experiment_id s = ''e'' \<Longrightarrow> instrument_id s = ''i'' \<Longrightarrow> instrument_version s = ''v''
    \<Longrightarrow> check_key s kind ''a'' (sample_key kind) = Inr ()" "sample_key kind \<noteq> []"
  by (simp_all add: check_key_def tradingIdempotencyKey_def sample_contract_id sample_key_def stringify_def)

lemmas sample_defs = sample_scope_def ledger_scope.defs trading_intent.defs trading_order.defs trading_execution.defs

lemma sample_instrument_ok: "parse_instrument sample_instrument = Inr sample_instrument"
  by (simp add: parse_instrument_def instrument_shape_def sample_instrument_def sample_contract_id sameInstrument_def
      utc_milliseconds_def) (simp add: sample_data_def)

lemma sample_terms_ok: "terms_shape sample_terms" "t < 50 \<Longrightarrow> unexpired sample_terms t = Inr ()"
  by (simp_all add: terms_shape_def sample_terms_def utc_milliseconds_def unexpired_def)

lemma sample_inputs_ok: "inputs_shape [sample_data kind at] \<longleftrightarrow> utc_milliseconds at"
  "knownInputs ''i'' ''v'' [sample_data kind at] t = Inr () \<longleftrightarrow> at \<le> t"
  by (simp_all add: inputs_shape_def sameInstrument_def sample_data_def)
    (simp add: sample_data_def [symmetric])

lemma sample_intent_ok: "parse_intent sample_intent = Inr sample_intent"
  by (simp add: parse_intent_def intent_shape_def scope_shape_def sample_intent_def sample_defs sample_contract_id
      sample_terms_ok sample_inputs_ok utc_milliseconds_def del: knownInputs.simps)

lemma sample_order_ok: "parse_order sample_order = Inr sample_order"
  by (simp add: parse_order_def order_shape_def scope_shape_def sample_order_def sample_defs sample_contract_id
      sample_terms_ok utc_milliseconds_def)

lemma sample_execution_ok: "parse_execution sample_execution = Inr sample_execution"
  by (simp add: parse_execution_def execution_shape_def scope_shape_def sample_execution_def sample_defs sample_contract_id
      sample_inputs_ok utc_milliseconds_def del: knownInputs.simps) (simp add: sample_data_def)

text \<open>The fields the chain compares, read off the sample records.\<close>

lemma sample_fields:
  "account_id sample_intent = ''a''" "experiment_id sample_intent = ''e''" "instrument_id sample_intent = ''i''"
  "instrument_version sample_intent = ''v''" "ti_decided_at sample_intent = 20" "ti_terms sample_intent = sample_terms"
  "ti_intent_id sample_intent = ''a''" "ti_decision_id sample_intent = ''a''"
  "account_id sample_order = ''a''" "experiment_id sample_order = ''e''" "instrument_id sample_order = ''i''"
  "instrument_version sample_order = ''v''" "to_accepted_at sample_order = 30" "to_terms sample_order = sample_terms"
  "to_order_id sample_order = ''a''" "to_intent_id sample_order = ''a''" "to_decision_id sample_order = ''a''"
  "account_id sample_execution = ''a''" "experiment_id sample_execution = ''e''" "instrument_id sample_execution = ''i''"
  "instrument_version sample_execution = ''v''" "tx_executed_at sample_execution = 40" "tx_side sample_execution = Buy"
  "tx_order_id sample_execution = ''a''" "tx_intent_id sample_execution = ''a''" "tx_decision_id sample_execution = ''a''"
  "tx_quantity sample_execution = amount_of BTC 2" "tx_price sample_execution = amount_of USD_PER_BTC 8"
  by (simp_all add: sample_intent_def sample_order_def sample_execution_def sample_defs)

lemma sample_instrument_fields:
  "tn_instrument_id sample_instrument = ''i''" "tn_instrument_version sample_instrument = ''v''"
  "tn_tick_size sample_instrument = amount_of USD_PER_BTC 2" "tn_quantity_step sample_instrument = amount_of BTC 2"
  "tn_origin sample_instrument = sample_data Metadata_Data 5"
  by (simp_all add: sample_instrument_def)

lemma sample_term_fields:
  "ot_side sample_terms = Buy" "ot_quantity sample_terms = amount_of BTC 4"
  "ot_limit_price sample_terms = amount_of USD_PER_BTC 10" "ot_time_in_force sample_terms = GTD 50"
  by (simp_all add: sample_terms_def)

lemmas sample_chain = sample_instrument_ok sample_intent_ok sample_order_ok sample_execution_ok sample_fields
  sample_instrument_fields sample_term_fields sample_inputs_ok sameInstrument_def sameScope_Inr

lemma sample_account_ok:
  "account_shape sample_account" "experiment_shape sample_experiment" "tac_account_id sample_account = ''a''"
  "tac_experiment_id sample_account = ''e''" "te_experiment_id sample_experiment = ''e''"
  "te_started_at sample_experiment = 1"
  by (simp_all add: account_shape_def experiment_shape_def sample_account_def sample_experiment_def sample_contract_id
      sample_hash utc_milliseconds_def)

lemma trading_mode_unique: "m = n \<longleftrightarrow> True" for m n :: trading_mode
  by (cases m; cases n) simp

theorem execution_within_decision_witness:
  "read_int (ta_raw (tx_quantity sample_execution)) \<le> read_int (ta_raw (ot_quantity (ti_terms sample_intent)))"
proof -
  have quanta: "assertTradingQuantum (amount_of BTC 4) (amount_of BTC 2) = Inr ()"
    "assertTradingQuantum (amount_of BTC 2) (amount_of BTC 2) = Inr ()"
    "assertTradingQuantum (amount_of USD_PER_BTC 10) (amount_of USD_PER_BTC 2) = Inr ()"
    "assertTradingQuantum (amount_of USD_PER_BTC 8) (amount_of USD_PER_BTC 2) = Inr ()"
    by (simp_all add: quantum_amount_of)
  have "parseTradingIntent sample_intent sample_account sample_experiment sample_instrument = Inr sample_intent"
    by (simp add: parseTradingIntent_def sample_chain sample_account_ok quanta del: knownInputs.simps)
      (simp add: trading_mode_unique)
  moreover have "parseTradingOrder sample_order sample_intent sample_instrument = Inr sample_order"
    by (simp add: parseTradingOrder_def sample_chain same_terms_def quanta del: knownInputs.simps)
  moreover have "parseTradingExecution sample_execution sample_order sample_instrument = Inr sample_execution"
    by (simp add: parseTradingExecution_def sample_chain unexpired_def within_limit_def quanta del: knownInputs.simps)
  ultimately show ?thesis by (blast dest: execution_within_decision)
qed

end
