(* ===== verification/JevScope.thy ===== *)
theory JevScope
  imports Contracts
begin

text \<open>
  Ownership in the JEV contracts, \<open>packages/contracts/src/trading/jev.ts\<close>: profiles, accounts,
  bindings, the scope every record carries, its event key, and the guard that an event belongs to its
  binding. \<open>started_at\<close> strings have the \<open>utc-milliseconds\<close> format, so they are instants.
\<close>

datatype jev_mode = Paper_Mode | Stress_Mode | Live_Mode

fun jev_mode_name :: "jev_mode \<Rightarrow> string" where
  "jev_mode_name Paper_Mode = ''paper''"
| "jev_mode_name Stress_Mode = ''stress''"
| "jev_mode_name Live_Mode = ''live''"

datatype capital_origin = Fictitious | Unfunded_Live

record jev_profile =
  jp_schema_version :: string
  jp_owner_id :: ident
  jp_profile_id :: ident
  jp_profile_version :: ident
  jp_manifest_hash :: string
  jp_horizon_minutes :: int
  jp_created_at :: time

record jev_account =
  ja_schema_version :: string
  ja_owner_id :: ident
  ja_account_id :: ident
  ja_mode :: jev_mode
  ja_started_at :: time
  ja_capital_limit :: trading_amount
  ja_initial_allocation :: trading_amount
  ja_capital_origin :: capital_origin
  ja_executor_enabled :: bool

record jev_binding =
  jb_schema_version :: string
  jb_owner_id :: ident
  jb_account_id :: ident
  jb_mode :: jev_mode
  jb_profile_id :: ident
  jb_profile_version :: ident
  jb_experiment_id :: ident
  jb_started_at :: time

record jev_scope =
  js_schema_version :: string
  js_owner_id :: ident
  js_account_id :: ident
  js_mode :: jev_mode
  js_profile_id :: ident
  js_profile_version :: ident
  js_experiment_id :: ident
  js_instrument_id :: ident
  js_instrument_version :: ident

datatype jev_contract_error = INVALID_PROFILE | INVALID_ACCOUNT | INVALID_BINDING | CAPITAL | OWNERSHIP
  | INSTRUMENT_OR_VERSION | PARENT_OWNERSHIP | EVENT_IDENTITY | LEDGER_PAYLOAD
  | Contract contract_error | Amount amount_error

definition jev_version :: string where
  "jev_version = ''trading.jev.v2''"

section \<open>Shapes\<close>

definition jev_amount_shape :: "trading_amount \<Rightarrow> bool" where
  "jev_amount_shape a = amount_shape USD Nonnegative a"

definition profile_shape :: "jev_profile \<Rightarrow> bool" where
  "profile_shape p = (jp_schema_version p = jev_version \<and> contract_id (jp_owner_id p) \<and> contract_id (jp_profile_id p)
     \<and> contract_id (jp_profile_version p) \<and> sha256_hex (jp_manifest_hash p) \<and> jp_horizon_minutes p \<in> set [1, 3, 5]
     \<and> utc_milliseconds (jp_created_at p))"

definition jev_account_shape :: "jev_account \<Rightarrow> bool" where
  "jev_account_shape a = (ja_schema_version a = jev_version \<and> contract_id (ja_owner_id a) \<and> contract_id (ja_account_id a)
     \<and> utc_milliseconds (ja_started_at a) \<and> jev_amount_shape (ja_capital_limit a)
     \<and> jev_amount_shape (ja_initial_allocation a) \<and> \<not> ja_executor_enabled a)"

definition binding_shape :: "jev_binding \<Rightarrow> bool" where
  "binding_shape b = (jb_schema_version b = jev_version \<and> contract_id (jb_owner_id b) \<and> contract_id (jb_account_id b)
     \<and> contract_id (jb_profile_id b) \<and> contract_id (jb_profile_version b) \<and> contract_id (jb_experiment_id b)
     \<and> utc_milliseconds (jb_started_at b))"

definition capital_ok :: "jev_account \<Rightarrow> bool" where
  "capital_ok a = (ta_raw (ja_capital_limit a) = ''250000000''
     \<and> (if ja_mode a = Live_Mode then ta_raw (ja_initial_allocation a) = ''0'' \<and> ja_capital_origin a = Unfunded_Live
        else ta_raw (ja_initial_allocation a) = ''250000000'' \<and> ja_capital_origin a = Fictitious))"

text \<open>\<open>parseJevContract\<close>, one definition per kind.\<close>

definition parse_profile :: "jev_profile \<Rightarrow> jev_contract_error + jev_profile" where
  "parse_profile p = require (profile_shape p) INVALID_PROFILE (Inr p)"

definition parse_binding :: "jev_binding \<Rightarrow> jev_contract_error + jev_binding" where
  "parse_binding b = require (binding_shape b) INVALID_BINDING (Inr b)"

definition parse_jev_account :: "jev_account \<Rightarrow> jev_contract_error + jev_account" where
  "parse_jev_account a = require (jev_account_shape a) INVALID_ACCOUNT
     (bind_res (with_error Amount (parseTradingAmount USD (amount_json (ja_capital_limit a)))) (\<lambda>_.
      bind_res (with_error Amount (parseTradingAmount USD (amount_json (ja_initial_allocation a)))) (\<lambda>_.
      require (capital_ok a) CAPITAL (Inr a))))"

section \<open>Bindings, keys and ownership\<close>

definition validateJevBinding :: "jev_binding \<Rightarrow> jev_account \<Rightarrow> jev_profile \<Rightarrow> jev_contract_error + unit" where
  "validateJevBinding b a p =
     bind_res (parse_binding b) (\<lambda>_.
     bind_res (parse_jev_account a) (\<lambda>_.
     bind_res (parse_profile p) (\<lambda>_.
     require (jb_owner_id b = ja_owner_id a \<and> jb_owner_id b = jp_owner_id p \<and> jb_account_id b = ja_account_id a
         \<and> jb_mode b = ja_mode a \<and> jb_profile_id b = jp_profile_id p \<and> jb_profile_version b = jp_profile_version p
         \<and> jb_started_at b \<ge> ja_started_at a \<and> jb_started_at b \<ge> jp_created_at p) OWNERSHIP (Inr ()))))"

definition paper_scope :: "jev_scope \<Rightarrow> ledger_scope" where
  "paper_scope s = \<lparr>mode = Paper, account_id = js_account_id s, experiment_id = js_experiment_id s,
     instrument_id = js_instrument_id s, instrument_version = js_instrument_version s\<rparr>"

definition jevEventKey :: "jev_scope \<Rightarrow> ident \<Rightarrow> jev_contract_error + string" where
  "jevEventKey s eventId =
     bind_res (parse_binding \<lparr>jb_schema_version = js_schema_version s, jb_owner_id = js_owner_id s,
        jb_account_id = js_account_id s, jb_mode = js_mode s, jb_profile_id = js_profile_id s,
        jb_profile_version = js_profile_version s, jb_experiment_id = js_experiment_id s,
        jb_started_at = 946684800000\<rparr>) (\<lambda>_.
     bind_res (with_error Contract (tradingIdempotencyKey (paper_scope s) Ledger_Key eventId)) (\<lambda>_.
     Inr (stringify [jev_version, js_owner_id s, jev_mode_name (js_mode s), js_account_id s, js_profile_id s,
       js_profile_version s, js_experiment_id s, js_instrument_id s, js_instrument_version s, ''ledger'', eventId])))"

record jev_event =
  je_scope :: jev_scope
  je_event_id :: ident
  je_idempotency_key :: string
  je_transaction_id :: ident
  je_sequence :: string
  je_cause_id :: ident
  je_occurred_at :: time
  je_recorded_at :: time
  je_payload :: event_payload

fun jev_payload :: "event_payload \<Rightarrow> bool" where
  "jev_payload (Cash_Payload _ _) = True"
| "jev_payload (Fill_Payload _ _ _ _ _ _) = True"
| "jev_payload (Fee_Payload _ _) = True"
| "jev_payload (Funding_Payload _ _ _ _ _ _) = True"
| "jev_payload (Liquidation_Payload _ _) = True"
| "jev_payload _ = False"

definition legacy_event :: "jev_event \<Rightarrow> string \<Rightarrow> trading_event" where
  "legacy_event v key = ledger_scope.extend (paper_scope (je_scope v))
     (trading_event.fields trading_version (je_event_id v) key (je_transaction_id v) (je_sequence v) (je_cause_id v)
        (je_occurred_at v) (je_recorded_at v) (je_payload v))"

definition parseJevLedgerEvent :: "jev_event \<Rightarrow> jev_contract_error + jev_event" where
  "parseJevLedgerEvent v =
     (if js_schema_version (je_scope v) \<noteq> jev_version then Inl EVENT_IDENTITY
      else bind_res (jevEventKey (je_scope v) (je_event_id v)) (\<lambda>k.
        require (je_idempotency_key v = k) EVENT_IDENTITY
        (bind_res (with_error Contract (tradingIdempotencyKey (paper_scope (je_scope v)) Ledger_Key (je_event_id v))) (\<lambda>key.
         bind_res (with_error Contract (parse_event (legacy_event v key))) (\<lambda>_.
         require (jev_payload (je_payload v)) LEDGER_PAYLOAD (Inr v))))))"

definition owns :: "jev_scope \<Rightarrow> jev_binding \<Rightarrow> bool" where
  "owns s b = (js_owner_id s = jb_owner_id b \<and> js_account_id s = jb_account_id b \<and> js_mode s = jb_mode b
     \<and> js_profile_id s = jb_profile_id b \<and> js_profile_version s = jb_profile_version b
     \<and> js_experiment_id s = jb_experiment_id b)"

definition assertJevOwnership ::
  "jev_scope \<Rightarrow> jev_binding \<Rightarrow> jev_account \<Rightarrow> jev_profile \<Rightarrow> jev_scope option \<Rightarrow> jev_contract_error + unit" where
  "assertJevOwnership s b a p parent =
     bind_res (validateJevBinding b a p) (\<lambda>_.
     bind_res (jevEventKey s ''ownership'') (\<lambda>_.
     require (js_instrument_id s = ''hyperliquid:mainnet:BTC'' \<and> js_schema_version s = jev_version) INSTRUMENT_OR_VERSION
     (require (owns s b) OWNERSHIP
     (case parent of None \<Rightarrow> Inr () | Some q \<Rightarrow> require (s = q) PARENT_OWNERSHIP (Inr ())))))"

section \<open>What the guards establish\<close>

lemma parse_profile_Inr [simp]: "parse_profile p = Inr q \<longleftrightarrow> profile_shape p \<and> q = p"
  by (auto simp: parse_profile_def)

lemma parse_binding_Inr [simp]: "parse_binding b = Inr c \<longleftrightarrow> binding_shape b \<and> c = b"
  by (auto simp: parse_binding_def)

lemma parse_jev_account_Inr: "parse_jev_account a = Inr c \<Longrightarrow> c = a \<and> jev_account_shape a \<and> capital_ok a"
  by (auto simp: parse_jev_account_def)

lemma validateJevBinding_Inr:
  assumes "validateJevBinding b a p = Inr u"
  shows "binding_shape b" and "capital_ok a" and "jb_owner_id b = ja_owner_id a" and "jb_owner_id b = jp_owner_id p"
    and "jb_account_id b = ja_account_id a" and "jb_mode b = ja_mode a" and "jb_profile_id b = jp_profile_id p"
    and "jb_profile_version b = jp_profile_version p" and "ja_started_at a \<le> jb_started_at b"
    and "jp_created_at p \<le> jb_started_at b"
  using assms unfolding validateJevBinding_def res_simps by (auto dest: parse_jev_account_Inr)

text \<open>The identity an owned scope has is that of its binding on the one instrument.\<close>

definition bound_scope :: "jev_binding \<Rightarrow> ident \<Rightarrow> jev_scope" where
  "bound_scope b version = \<lparr>js_schema_version = jev_version, js_owner_id = jb_owner_id b, js_account_id = jb_account_id b,
     js_mode = jb_mode b, js_profile_id = jb_profile_id b, js_profile_version = jb_profile_version b,
     js_experiment_id = jb_experiment_id b, js_instrument_id = ''hyperliquid:mainnet:BTC'',
     js_instrument_version = version\<rparr>"

lemma assertJevOwnership_Inr:
  assumes "assertJevOwnership s b a p parent = Inr u"
  shows "validateJevBinding b a p = Inr ()" and "s = bound_scope b (js_instrument_version s)"
    and "\<And>q. parent = Some q \<Longrightarrow> s = q"
  using assms by (auto simp: assertJevOwnership_def owns_def bound_scope_def)

lemma jev_mode_name_inj [simp]: "jev_mode_name m = jev_mode_name n \<longleftrightarrow> m = n"
  by (cases m; cases n) simp_all

lemma jev_unquoted [simp]: "unquoted (jev_mode_name m)" "unquoted jev_version" "unquoted ''ledger''"
  by (cases m) (simp_all add: unquoted_def jev_version_def)

lemma jevEventKey_Inr:
  "jevEventKey s i = Inr k \<Longrightarrow> js_schema_version s = jev_version
     \<and> list_all contract_id [js_owner_id s, js_account_id s, js_profile_id s, js_profile_version s, js_experiment_id s,
          js_instrument_id s, js_instrument_version s, i]
     \<and> k = stringify [jev_version, js_owner_id s, jev_mode_name (js_mode s), js_account_id s, js_profile_id s,
          js_profile_version s, js_experiment_id s, js_instrument_id s, js_instrument_version s, ''ledger'', i]"
  by (auto simp: jevEventKey_def binding_shape_def tradingIdempotencyKey_Inr paper_scope_def)

text \<open>A JEV event key determines the whole scope and the event id: events of different owners, accounts,
  modes, profiles, versions, experiments or instruments never share a key.\<close>

theorem jevEventKey_injective:
  assumes "jevEventKey s i = Inr k" and "jevEventKey t j = Inr k"
  shows "s = t \<and> i = j"
proof -
  let ?items = "\<lambda>s i. [jev_version, js_owner_id s, jev_mode_name (js_mode s), js_account_id s, js_profile_id s,
          js_profile_version s, js_experiment_id s, js_instrument_id s, js_instrument_version s, ''ledger'', i]"
  have "list_all unquoted (?items s i)" "list_all unquoted (?items t j)"
    using jevEventKey_Inr [OF assms(1)] jevEventKey_Inr [OF assms(2)] by simp_all
  moreover have "stringify (?items s i) = stringify (?items t j)"
    using jevEventKey_Inr [OF assms(1)] jevEventKey_Inr [OF assms(2)] by simp
  ultimately have "?items s i = ?items t j" by (simp only: stringify_inj)
  moreover have "js_schema_version s = js_schema_version t"
    using jevEventKey_Inr [OF assms(1)] jevEventKey_Inr [OF assms(2)] by simp
  ultimately show ?thesis by simp
qed

definition sample_jev_scope :: jev_scope where
  "sample_jev_scope = \<lparr>js_schema_version = jev_version, js_owner_id = ''a'', js_account_id = ''a'', js_mode = Paper_Mode,
     js_profile_id = ''a'', js_profile_version = ''v'', js_experiment_id = ''e'', js_instrument_id = ''i'',
     js_instrument_version = ''v''\<rparr>"

theorem jevEventKey_injective_witness:
  "jevEventKey sample_jev_scope ''a'' \<noteq> jevEventKey (sample_jev_scope\<lparr>js_mode := Stress_Mode\<rparr>) ''a''"
proof
  let ?t = "sample_jev_scope\<lparr>js_mode := Stress_Mode\<rparr>"
  assume eq: "jevEventKey sample_jev_scope ''a'' = jevEventKey ?t ''a''"
  obtain k where "jevEventKey ?t ''a'' = Inr k"
    by (simp add: jevEventKey_def binding_shape_def tradingIdempotencyKey_def paper_scope_def sample_jev_scope_def
        sample_contract_id utc_milliseconds_def)
  from jevEventKey_injective [OF trans [OF eq this] this] show False by (simp add: sample_jev_scope_def)
qed

end
