(* ===== verification/JevLedger.thy ===== *)
theory JevLedger
  imports JevScope
begin

text \<open>
  The ledger of a JEV account, \<open>apps/api/src/storage/jev-ledger.ts\<close>: the identity check, the genesis
  batch, the materialization of a batch and \<open>replayJevLedger\<close>, which parses every stored event, checks
  that it belongs to the binding it names and that it belongs to the owner of the position or execution it
  mentions, and reduces it with the ledger of \<open>Ledger\<close>. \<open>jev_ledger_inv\<close> is the invariant of the loop.
\<close>

record jev_identity =
  jli_account :: jev_account
  jli_instrument :: trading_instrument
  jli_bindings :: "(jev_binding \<times> jev_profile) list"

datatype jev_ledger_error = LEDGER_IDENTITY | DUPLICATE_BINDING | LIVE_FUNDING_REQUIRES_VENUE_EVIDENCE | BATCH
  | WINDOW | EVENT_BINDING | NO_CAPITAL_RESET_OR_TRANSFER | GENESIS_IDENTITY | EXECUTION_OWNER | POSITION_OWNER
  | Jev_Contract jev_contract_error | Trading_Contract contract_error | Reducer ledger_error

definition jevScope :: "jev_binding \<Rightarrow> trading_instrument \<Rightarrow> jev_scope" where
  "jevScope b instrument = \<lparr>js_schema_version = jev_version, js_owner_id = jb_owner_id b, js_account_id = jb_account_id b,
     js_mode = jb_mode b, js_profile_id = jb_profile_id b, js_profile_version = jb_profile_version b,
     js_experiment_id = jb_experiment_id b, js_instrument_id = tn_instrument_id instrument,
     js_instrument_version = tn_instrument_version instrument\<rparr>"

definition check_binding :: "jev_identity \<Rightarrow> ident set \<Rightarrow> jev_binding \<times> jev_profile \<Rightarrow> jev_ledger_error + ident set" where
  "check_binding idn ids = (\<lambda>(b, p).
     bind_res (with_error Jev_Contract (assertJevOwnership (jevScope b (jli_instrument idn)) b (jli_account idn) p None)) (\<lambda>_.
     require (jb_experiment_id b \<notin> ids) DUPLICATE_BINDING (Inr (insert (jb_experiment_id b) ids))))"

definition validateJevLedgerIdentity :: "jev_identity \<Rightarrow> jev_ledger_error + unit" where
  "validateJevLedgerIdentity idn =
     bind_res (with_error Jev_Contract (parse_jev_account (jli_account idn))) (\<lambda>_.
     bind_res (with_error Trading_Contract (parse_instrument (jli_instrument idn))) (\<lambda>_.
     require (tn_instrument_id (jli_instrument idn) = ''hyperliquid:mainnet:BTC''
         \<and> td_received_at (tn_origin (jli_instrument idn)) \<le> ja_started_at (jli_account idn)
         \<and> length (jli_bindings idn) > 0 \<and> length (jli_bindings idn) \<le> 4096) LEDGER_IDENTITY
     (bind_res (fold_res (check_binding idn) {} (jli_bindings idn)) (\<lambda>_. Inr ()))))"

text \<open>A command is an event without the fields the store assigns.\<close>

record jev_command =
  jm_scope :: jev_scope
  jm_event_id :: ident
  jm_idempotency_key :: string
  jm_cause_id :: ident
  jm_occurred_at :: time
  jm_payload :: event_payload

record jev_batch =
  bt_transaction_id :: ident
  bt_events :: "jev_command list"

definition jevGenesis :: "jev_identity \<Rightarrow> jev_ledger_error + jev_batch" where
  "jevGenesis idn =
     bind_res (validateJevLedgerIdentity idn) (\<lambda>_.
     require (ja_mode (jli_account idn) \<noteq> Live_Mode) LIVE_FUNDING_REQUIRES_VENUE_EVIDENCE
     (let initial = fst (hd (jli_bindings idn)); scope = jevScope initial (jli_instrument idn) in
      bind_res (with_error Jev_Contract (jevEventKey scope ''genesis'')) (\<lambda>key.
      Inr \<lparr>bt_transaction_id = ''genesis'',
           bt_events = [\<lparr>jm_scope = scope, jm_event_id = ''genesis'', jm_idempotency_key = key,
             jm_cause_id = jb_experiment_id initial, jm_occurred_at = ja_started_at (jli_account idn),
             jm_payload = Cash_Payload (ja_initial_allocation (jli_account idn)) Initial_Allocation\<rparr>]\<rparr>)))"

text \<open>\<open>fingerprint\<close> is \<open>canonicalFingerprint\<close> of the batch, whose length is bounded.\<close>

fun materialize :: "ident \<Rightarrow> int \<Rightarrow> time \<Rightarrow> nat \<Rightarrow> jev_command list \<Rightarrow> jev_ledger_error + jev_event list" where
  "materialize tx previous recorded i [] = Inr []"
| "materialize tx previous recorded i (c # cs) =
     bind_res (with_error Jev_Contract (parseJevLedgerEvent
        \<lparr>je_scope = jm_scope c, je_event_id = jm_event_id c, je_idempotency_key = jm_idempotency_key c,
         je_transaction_id = tx, je_sequence = show_int (previous + int i + 1), je_cause_id = jm_cause_id c,
         je_occurred_at = jm_occurred_at c, je_recorded_at = recorded, je_payload = jm_payload c\<rparr>)) (\<lambda>e.
     bind_res (materialize tx previous recorded (Suc i) cs) (\<lambda>es. Inr (e # es)))"

definition materializeJevBatch ::
  "(jev_batch \<Rightarrow> string) \<Rightarrow> jev_batch \<Rightarrow> string \<Rightarrow> time \<Rightarrow> jev_ledger_error + jev_event list" where
  "materializeJevBatch fingerprint batch previous recordedAt =
     require (contract_id (bt_transaction_id batch) \<and> raw_pattern Nonnegative previous \<and> length (bt_events batch) > 0
         \<and> length (bt_events batch) \<le> 128 \<and> length (fingerprint batch) \<le> 1048576) BATCH
       (materialize (bt_transaction_id batch) (read_int previous) recordedAt 0 (bt_events batch))"

section \<open>Replay\<close>

record jev_state =
  jr_ledger :: ledger_state
  jr_executions :: "(ident \<times> jev_scope) list"
  jr_positions :: "(ident \<times> jev_scope) list"

definition lifetime_experiment :: "jev_account \<Rightarrow> ident" where
  "lifetime_experiment a = ''financial:'' @ ja_account_id a"

definition economic_identity :: "jev_identity \<Rightarrow> ledger_identity" where
  "economic_identity idn = (let a = jli_account idn; n = jli_instrument idn in
     \<lparr>li_account = \<lparr>acc_mode = Paper, acc_account_id = ja_account_id a, acc_experiment_id = lifetime_experiment a\<rparr>,
      li_experiment = \<lparr>exp_experiment_id = lifetime_experiment a, started_at = ja_started_at a\<rparr>,
      li_instrument = \<lparr>ins_instrument_id = tn_instrument_id n, ins_instrument_version = tn_instrument_version n,
        quantity_step = read_int (ta_raw (tn_quantity_step n)), tick_size = read_int (ta_raw (tn_tick_size n))\<rparr>\<rparr>)"

fun reducer_payload :: "event_payload \<Rightarrow> ledger_payload" where
  "reducer_payload (Cash_Payload delta reason) = Cash reason (read_int (ta_raw delta))"
| "reducer_payload (Fill_Payload x oid p sd q price) = Fill x p sd (read_int (ta_raw q)) (read_int (ta_raw price))"
| "reducer_payload (Fee_Payload x delta) = Fee x (read_int (ta_raw delta))"
| "reducer_payload (Funding_Payload p s e rate delta d) = Funding p s e (read_int (ta_raw delta))"
| "reducer_payload (Liquidation_Payload p x) = Liquidation x p"
| "reducer_payload _ = Other ''unsupported''"

definition reducer_event :: "jev_identity \<Rightarrow> jev_event \<Rightarrow> ledger_event" where
  "reducer_event idn e = (let lifetime = lifetime_experiment (jli_account idn) in
     ledger_scope.extend
       \<lparr>mode = Paper, account_id = js_account_id (je_scope e), experiment_id = lifetime,
        instrument_id = js_instrument_id (je_scope e), instrument_version = js_instrument_version (je_scope e)\<rparr>
       (ledger_event.fields (je_event_id e) (read_int (je_sequence e)) (je_transaction_id e)
          (if je_event_id e = ''genesis'' then lifetime else je_cause_id e) (je_occurred_at e)
          (reducer_payload (je_payload e))))"

definition jev_init :: jev_state where
  "jev_init = \<lparr>jr_ledger = ledger_init, jr_executions = [], jr_positions = []\<rparr>"

definition find_binding :: "jev_identity \<Rightarrow> ident \<Rightarrow> (jev_binding \<times> jev_profile) option" where
  "find_binding idn experiment_name = List.find (\<lambda>(b, p). jb_experiment_id b = experiment_name) (jli_bindings idn)"

definition cash_rules :: "jev_identity \<Rightarrow> jev_binding \<Rightarrow> jev_event \<Rightarrow> jev_ledger_error + unit" where
  "cash_rules idn b e = (case je_payload e of
     Cash_Payload delta reason \<Rightarrow>
       require (je_sequence e = ''1'' \<and> reason = Initial_Allocation) NO_CAPITAL_RESET_OR_TRANSFER
       (require (je_cause_id e = jb_experiment_id b \<and> je_occurred_at e = jb_started_at b
           \<and> jb_started_at b = ja_started_at (jli_account idn)) GENESIS_IDENTITY (Inr ()))
   | _ \<Rightarrow> Inr ())"

text \<open>The owner an event must share, looked up under its position or its execution.\<close>

definition check_parent ::
  "jev_identity \<Rightarrow> jev_binding \<times> jev_profile \<Rightarrow> jev_event \<Rightarrow> jev_scope \<Rightarrow> jev_ledger_error + unit" where
  "check_parent idn pair e owner_scope =
     with_error Jev_Contract (assertJevOwnership (je_scope e) (fst pair) (jli_account idn) (snd pair) (Some owner_scope))"

definition claim_owner ::
  "jev_identity \<Rightarrow> jev_binding \<times> jev_profile \<Rightarrow> jev_event \<Rightarrow> jev_state \<Rightarrow> jev_ledger_error + jev_state" where
  "claim_owner idn pair e s = (let mine = jevScope (fst pair) (jli_instrument idn) in case je_payload e of
     Fill_Payload x oid p sd q price \<Rightarrow>
       bind_res (case map_of (jr_positions s) p of None \<Rightarrow> Inr () | Some owner_scope \<Rightarrow> check_parent idn pair e owner_scope) (\<lambda>_.
       Inr (s\<lparr>jr_positions := AList.update p mine (jr_positions s),
              jr_executions := AList.update x mine (jr_executions s)\<rparr>))
   | Fee_Payload x delta \<Rightarrow>
       (case map_of (jr_executions s) x of None \<Rightarrow> Inl EXECUTION_OWNER
        | Some parent \<Rightarrow> bind_res (check_parent idn pair e parent) (\<lambda>_. Inr s))
   | Liquidation_Payload p x \<Rightarrow>
       (case map_of (jr_executions s) x of None \<Rightarrow> Inl EXECUTION_OWNER
        | Some parent \<Rightarrow> bind_res (check_parent idn pair e parent) (\<lambda>_. Inr s))
   | Funding_Payload p s1 s2 rate delta d \<Rightarrow>
       (case map_of (jr_positions s) p of None \<Rightarrow> Inl POSITION_OWNER
        | Some parent \<Rightarrow> bind_res (check_parent idn pair e parent) (\<lambda>_. Inr s))
   | _ \<Rightarrow> Inr s)"

definition jev_append :: "jev_identity \<Rightarrow> jev_state \<Rightarrow> jev_event \<Rightarrow> jev_ledger_error + jev_state" where
  "jev_append idn s e =
     bind_res (with_error Jev_Contract (parseJevLedgerEvent e)) (\<lambda>_.
     case find_binding idn (js_experiment_id (je_scope e)) of
       None \<Rightarrow> Inl EVENT_BINDING
     | Some pair \<Rightarrow>
         require (je_occurred_at e \<ge> jb_started_at (fst pair)) EVENT_BINDING
         (bind_res (check_parent idn pair e (jevScope (fst pair) (jli_instrument idn))) (\<lambda>_.
          bind_res (cash_rules idn (fst pair) e) (\<lambda>_.
          bind_res (claim_owner idn pair e s) (\<lambda>s1.
          bind_res (with_error Reducer (ledger_append (economic_identity idn)
             (read_int (ta_raw (ja_initial_allocation (jli_account idn)))) (jr_ledger s1) (reducer_event idn e))) (\<lambda>l.
          Inr (s1\<lparr>jr_ledger := l\<rparr>)))))))"

record jev_projection =
  jlp_owner_id :: ident
  jlp_account_id :: ident
  jlp_mode :: jev_mode
  jlp_last_sequence :: int
  jlp_cash_usd :: int
  jlp_positions :: "(ident \<times> int) list"
  jlp_window_event_ids :: "ident list"

definition window_ids :: "(time \<times> time) option \<Rightarrow> jev_event list \<Rightarrow> ident list" where
  "window_ids window ordered = map je_event_id (filter (\<lambda>e. case window of None \<Rightarrow> True
     | Some (a, b) \<Rightarrow> je_occurred_at e \<ge> a \<and> je_occurred_at e < b) ordered)"

definition replayJevLedger :: "jev_identity \<Rightarrow> jev_event list \<Rightarrow> (time \<times> time) option \<Rightarrow> jev_ledger_error + jev_projection" where
  "replayJevLedger idn input window =
     bind_res (validateJevLedgerIdentity idn) (\<lambda>_.
     require (case window of None \<Rightarrow> True | Some (a, b) \<Rightarrow> a < b) WINDOW
     (let account = jli_account idn; ordered = sort_key (read_int \<circ> je_sequence) input in
      require (ja_mode account \<noteq> Live_Mode \<or> length ordered = 0) LIVE_FUNDING_REQUIRES_VENUE_EVIDENCE
      (bind_res (fold_res (jev_append idn) jev_init ordered) (\<lambda>s.
       bind_res (if ja_mode account = Live_Mode then Inr (0, 0, [])
                 else bind_res (with_error Reducer (ledger_snapshot (economic_identity idn) (jr_ledger s)))
                   (\<lambda>p. Inr (last_sequence p, cash_usd p, ledger_positions p))) (\<lambda>(sequence_no, cash, positions).
       Inr \<lparr>jlp_owner_id = ja_owner_id account, jlp_account_id = ja_account_id account, jlp_mode = ja_mode account,
            jlp_last_sequence = sequence_no, jlp_cash_usd = cash, jlp_positions = positions,
            jlp_window_event_ids = window_ids window ordered\<rparr>)))))"

section \<open>What an accepted history says\<close>

fun event_position :: "event_payload \<Rightarrow> ident option" where
  "event_position (Fill_Payload x oid p sd q price) = Some p"
| "event_position (Funding_Payload p s e rate delta d) = Some p"
| "event_position _ = None"

fun event_execution :: "event_payload \<Rightarrow> ident option" where
  "event_execution (Fill_Payload x oid p sd q price) = Some x"
| "event_execution (Fee_Payload x delta) = Some x"
| "event_execution (Liquidation_Payload p x) = Some x"
| "event_execution _ = None"

fun is_cash :: "event_payload \<Rightarrow> bool" where
  "is_cash (Cash_Payload delta reason) = True"
| "is_cash _ = False"

text \<open>An event is owned when its scope is that of a binding of the account in force at its time.\<close>

definition owned :: "jev_identity \<Rightarrow> jev_event \<Rightarrow> bool" where
  "owned idn e \<longleftrightarrow> (\<exists>b p. (b, p) \<in> set (jli_bindings idn) \<and> je_scope e = jevScope b (jli_instrument idn)
     \<and> jb_started_at b \<le> je_occurred_at e \<and> jb_owner_id b = ja_owner_id (jli_account idn)
     \<and> jb_account_id b = ja_account_id (jli_account idn) \<and> jb_mode b = ja_mode (jli_account idn))"

definition owners_inv :: "jev_event list \<Rightarrow> jev_state \<Rightarrow> bool" where
  "owners_inv h s \<longleftrightarrow>
     (\<forall>e \<in> set h. \<forall>p. event_position (je_payload e) = Some p \<longrightarrow> map_of (jr_positions s) p = Some (je_scope e))
   \<and> (\<forall>e \<in> set h. \<forall>x. event_execution (je_payload e) = Some x \<longrightarrow> map_of (jr_executions s) x = Some (je_scope e))
   \<and> (\<forall>x sc. map_of (jr_executions s) x = Some sc \<longrightarrow> (\<exists>e \<in> set h. \<exists>oid p sd q pr. je_payload e = Fill_Payload x oid p sd q pr))"

definition cash_inv :: "int \<Rightarrow> jev_event list \<Rightarrow> bool" where
  "cash_inv a h \<longleftrightarrow> (case h of [] \<Rightarrow> True
     | e # es \<Rightarrow> reducer_payload (je_payload e) = Cash Initial_Allocation a \<and> list_all (\<lambda>e. \<not> is_cash (je_payload e)) es)"

definition allocation :: "jev_identity \<Rightarrow> int" where
  "allocation idn = read_int (ta_raw (ja_initial_allocation (jli_account idn)))"

definition jev_ledger_inv :: "jev_identity \<Rightarrow> jev_event list \<Rightarrow> jev_state \<Rightarrow> bool" where
  "jev_ledger_inv idn h s \<longleftrightarrow> ledger_inv (map (reducer_event idn) h) (jr_ledger s)
     \<and> list_all (owned idn) h \<and> owners_inv h s \<and> cash_inv (allocation idn) h"

lemma reducer_event_fields [simp]:
  "payload (reducer_event idn e) = reducer_payload (je_payload e)"
  "sequence (reducer_event idn e) = read_int (je_sequence e)" "event_id (reducer_event idn e) = je_event_id e"
  by (simp_all add: reducer_event_def Let_def ledger_scope.defs ledger_event.defs)

lemma check_parent_scope: "check_parent idn pair e sc = Inr u \<Longrightarrow> je_scope e = sc"
  by (auto simp: check_parent_def dest: assertJevOwnership_Inr(3))

lemma check_parent_binding:
  assumes "check_parent idn (b, p) e sc = Inr u"
  shows "jb_owner_id b = ja_owner_id (jli_account idn)" and "jb_account_id b = ja_account_id (jli_account idn)"
    and "jb_mode b = ja_mode (jli_account idn)"
  using assms validateJevBinding_Inr [OF assertJevOwnership_Inr(1)] unfolding check_parent_def with_error_Inr fst_conv snd_conv
  by metis+

lemma find_binding_Some: "find_binding idn x = Some (b, p) \<Longrightarrow> (b, p) \<in> set (jli_bindings idn)"
  by (auto simp: find_binding_def find_Some_iff dest: nth_mem)

lemma jev_append_cases:
  assumes "jev_append idn s e = Inr s'"
  obtains b p s1 l where "(b, p) \<in> set (jli_bindings idn)" and "je_scope e = jevScope b (jli_instrument idn)"
    and "owned idn e" and "cash_rules idn b e = Inr ()" and "claim_owner idn (b, p) e s = Inr s1"
    and "ledger_append (economic_identity idn) (allocation idn) (jr_ledger s1) (reducer_event idn e) = Inr l"
    and "s' = s1\<lparr>jr_ledger := l\<rparr>"
proof -
  from assms obtain pair s1 l where f: "find_binding idn (js_experiment_id (je_scope e)) = Some pair"
    and at: "jb_started_at (fst pair) \<le> je_occurred_at e"
    and own: "check_parent idn pair e (jevScope (fst pair) (jli_instrument idn)) = Inr ()"
    and rest: "cash_rules idn (fst pair) e = Inr ()" "claim_owner idn pair e s = Inr s1"
      "ledger_append (economic_identity idn) (allocation idn) (jr_ledger s1) (reducer_event idn e) = Inr l" "s' = s1\<lparr>jr_ledger := l\<rparr>"
    unfolding jev_append_def allocation_def by (auto split: option.splits)
  obtain b p where pair: "pair = (b, p)" by (cases pair)
  have mem: "(b, p) \<in> set (jli_bindings idn)" using f find_binding_Some pair by blast
  moreover have sc: "je_scope e = jevScope b (jli_instrument idn)" using check_parent_scope [OF own] pair by simp
  moreover have "owned idn e"
    using mem sc at check_parent_binding own unfolding owned_def pair fst_conv by metis
  ultimately show thesis using rest pair by (intro that [of b p s1 l]) simp_all
qed

lemma claim_owner_ledger: "claim_owner idn pair e s = Inr s1 \<Longrightarrow> jr_ledger s1 = jr_ledger s"
  by (auto simp: claim_owner_def Let_def split: event_payload.splits option.splits)

text \<open>A fill the reducer accepts brings a new execution.\<close>

lemma fill_is_new:
  assumes "ledger_inv h l" and "ledger_append I a l ev = Inr l'" and "payload ev = Fill x p sd q pr"
  shows "fill_events h x = {}"
  using assms(2)
proof (rule ledger_append_cases)
  fix ts c s2
  assume "ledger_apply I (l\<lparr>ls_transactions := ts, ls_current := c\<rparr>) ev = Inr s2"
  then have "map_of (ls_executions l) x = None" by (auto simp: ledger_apply_def assms(3))
  moreover have "fill_events h x = (case map_of (ls_executions l) x of None \<Rightarrow> {} | Some (e, c) \<Rightarrow> {e})"
    using assms(1) by (auto simp: ledger_inv_def)
  ultimately show "fill_events h x = {}" by simp
qed

lemma no_fill_events:
  assumes "fill_events (map (reducer_event idn) h) x = {}" and "e \<in> set h"
  shows "je_payload e \<noteq> Fill_Payload x oid p sd q pr"
proof
  assume "je_payload e = Fill_Payload x oid p sd q pr"
  then have "payload (reducer_event idn e) = Fill x p sd (read_int (ta_raw q)) (read_int (ta_raw pr))" by simp
  then show False using assms unfolding fill_events_def by auto
qed

lemma owners_step:
  assumes inv: "owners_inv h s" and claim: "claim_owner idn (b, p0) e s = Inr s1"
    and mine: "je_scope e = jevScope b (jli_instrument idn)"
    and fresh: "\<And>x oid p sd q pr. je_payload e = Fill_Payload x oid p sd q pr \<Longrightarrow> map_of (jr_executions s) x = None"
  shows "owners_inv (h @ [e]) s1"
proof (cases "je_payload e")
  case (Fill_Payload x oid p sd q pr)
  have new: "map_of (jr_executions s) x = None" using fresh Fill_Payload .
  have own: "sc = je_scope e" if "map_of (jr_positions s) p = Some sc" for sc
    using claim that by (auto simp: claim_owner_def Fill_Payload Let_def dest!: check_parent_scope)
  have s1: "s1 = s\<lparr>jr_positions := AList.update p (je_scope e) (jr_positions s),
      jr_executions := AList.update x (je_scope e) (jr_executions s)\<rparr>"
    using claim by (auto simp: claim_owner_def Fill_Payload Let_def mine)
  have pos: "map_of (jr_positions s1) p' = Some (je_scope e')"
    if "e' \<in> set (h @ [e])" "event_position (je_payload e') = Some p'" for e' p'
  proof (cases "e' = e")
    case False
    then have "map_of (jr_positions s) p' = Some (je_scope e')" using inv that by (auto simp: owners_inv_def)
    then show ?thesis using own by (auto simp: s1 update_conv')
  qed (use that Fill_Payload in \<open>auto simp: s1 update_conv'\<close>)
  have exe: "map_of (jr_executions s1) x' = Some (je_scope e')"
    if "e' \<in> set (h @ [e])" "event_execution (je_payload e') = Some x'" for e' x'
  proof (cases "e' = e")
    case False
    then have "map_of (jr_executions s) x' = Some (je_scope e')" using inv that by (auto simp: owners_inv_def)
    then show ?thesis using new by (auto simp: s1 update_conv')
  qed (use that Fill_Payload in \<open>auto simp: s1 update_conv'\<close>)
  have fills: "\<exists>e' \<in> set (h @ [e]). \<exists>oid p sd q pr. je_payload e' = Fill_Payload x' oid p sd q pr"
    if "map_of (jr_executions s1) x' = Some sc" for x' sc
  proof (cases "x' = x")
    case False
    then have "map_of (jr_executions s) x' = Some sc" using that by (simp add: s1 update_conv')
    then show ?thesis using inv unfolding owners_inv_def by fastforce
  qed (use Fill_Payload in auto)
  show ?thesis unfolding owners_inv_def using pos exe fills by blast
next
  case (Fee_Payload x delta)
  then have "s1 = s \<and> map_of (jr_executions s) x = Some (je_scope e)"
    using claim by (auto simp: claim_owner_def Let_def dest!: check_parent_scope split: option.splits)
  then show ?thesis using inv Fee_Payload unfolding owners_inv_def by fastforce
next
  case (Liquidation_Payload p x)
  then have "s1 = s \<and> map_of (jr_executions s) x = Some (je_scope e)"
    using claim by (auto simp: claim_owner_def Let_def dest!: check_parent_scope split: option.splits)
  then show ?thesis using inv Liquidation_Payload unfolding owners_inv_def by fastforce
next
  case (Funding_Payload p a z rate delta d)
  then have "s1 = s \<and> map_of (jr_positions s) p = Some (je_scope e)"
    using claim by (auto simp: claim_owner_def Let_def dest!: check_parent_scope split: option.splits)
  then show ?thesis using inv Funding_Payload unfolding owners_inv_def by fastforce
qed (use inv claim in \<open>fastforce simp: claim_owner_def Let_def owners_inv_def\<close>)+

lemma cash_step:
  assumes inv: "cash_inv (allocation idn) h" and led: "ledger_inv (map (reducer_event idn) h) l"
    and app: "ledger_append I (allocation idn) l (reducer_event idn e) = Inr l'" and rules: "cash_rules idn b e = Inr ()"
  shows "cash_inv (allocation idn) (h @ [e])"
proof (cases h)
  case Nil
  then have "ls_sequence l = 0" using led by (simp add: ledger_inv_def)
  with app have "genesis_event I (allocation idn) (reducer_event idn e)" by (auto elim!: ledger_append_cases)
  then show ?thesis by (simp add: Nil cash_inv_def genesis_event_def)
next
  case (Cons g gs)
  have "payload (reducer_event idn e) \<noteq> Cash Initial_Allocation d" for d
    using genesis_only_first [OF led _ app] Cons by simp
  then have "\<not> is_cash (je_payload e)"
    using rules by (cases "je_payload e") (auto simp: cash_rules_def)
  then show ?thesis using inv by (simp add: Cons cash_inv_def)
qed

interpretation jev_replay: history_reducer "jev_append idn" jev_init "jev_ledger_inv idn" for idn
proof (unfold_locales)
  show "jev_ledger_inv idn [] jev_init"
    by (simp add: jev_ledger_inv_def jev_init_def owners_inv_def cash_inv_def ledger_inv_init)
next
  fix h s e s'
  assume inv: "jev_ledger_inv idn h s" and step: "jev_append idn s e = Inr s'"
  from step obtain b p s1 l where sc: "je_scope e = jevScope b (jli_instrument idn)" and own: "owned idn e"
    and rules: "cash_rules idn b e = Inr ()" and claim: "claim_owner idn (b, p) e s = Inr s1"
    and app: "ledger_append (economic_identity idn) (allocation idn) (jr_ledger s1) (reducer_event idn e) = Inr l"
    and s': "s' = s1\<lparr>jr_ledger := l\<rparr>" by (rule jev_append_cases)
  have led: "ledger_inv (map (reducer_event idn) h) (jr_ledger s1)"
    using inv claim_owner_ledger [OF claim] by (simp add: jev_ledger_inv_def)
  have fresh: "map_of (jr_executions s) x = None" if pay: "je_payload e = Fill_Payload x oid p sd q pr" for x oid p sd q pr
  proof (cases "map_of (jr_executions s) x")
    case (Some sc)
    then obtain e' oid' p' sd' q' pr' where old: "e' \<in> set h" "je_payload e' = Fill_Payload x oid' p' sd' q' pr'"
      using inv unfolding jev_ledger_inv_def owners_inv_def by blast
    have "payload (reducer_event idn e) = Fill x p sd (read_int (ta_raw q)) (read_int (ta_raw pr))" by (simp add: pay)
    from no_fill_events [OF fill_is_new [OF led app this] old(1)] old(2) show ?thesis by blast
  qed
  have "owners_inv (h @ [e]) s1"
    by (rule owners_step [OF _ claim sc fresh]) (use inv in \<open>simp add: jev_ledger_inv_def\<close>)
  moreover have "cash_inv (allocation idn) (h @ [e])"
    by (rule cash_step [OF _ led app rules]) (use inv in \<open>simp add: jev_ledger_inv_def\<close>)
  moreover have "ledger_inv (map (reducer_event idn) (h @ [e])) l"
    using ledger_inv_step [OF led app] by simp
  ultimately show "jev_ledger_inv idn (h @ [e]) s'"
    using inv own by (simp add: jev_ledger_inv_def s' owners_inv_def)
qed

lemma replayJevLedger_inv:
  assumes "replayJevLedger idn input w = Inr p" and "ja_mode (jli_account idn) \<noteq> Live_Mode"
  obtains s lp where "jev_ledger_inv idn (sort_key (read_int \<circ> je_sequence) input) s"
    and "ledger_snapshot (economic_identity idn) (jr_ledger s) = Inr lp"
    and "jlp_last_sequence p = last_sequence lp" and "jlp_cash_usd p = cash_usd lp" and "jlp_positions p = ledger_positions lp"
    and "validateJevLedgerIdentity idn = Inr ()"
proof -
  from assms obtain s lp where "fold_res (jev_append idn) jev_init (sort_key (read_int \<circ> je_sequence) input) = Inr s"
    and rest: "ledger_snapshot (economic_identity idn) (jr_ledger s) = Inr lp" "jlp_last_sequence p = last_sequence lp"
      "jlp_cash_usd p = cash_usd lp" "jlp_positions p = ledger_positions lp" "validateJevLedgerIdentity idn = Inr ()"
    by (auto simp: replayJevLedger_def Let_def)
  from jev_replay.run_inv [OF this(1)] rest show thesis by (rule that)
qed

lemma identity_allocation:
  assumes "validateJevLedgerIdentity idn = Inr ()" and "ja_mode (jli_account idn) \<noteq> Live_Mode"
  shows "allocation idn = 250000000"
proof -
  have "capital_ok (jli_account idn)" using assms(1) by (auto simp: validateJevLedgerIdentity_def dest: parse_jev_account_Inr)
  then have "ta_raw (ja_initial_allocation (jli_account idn)) = ''250000000''" using assms(2) by (simp add: capital_ok_def)
  then show ?thesis by (simp add: allocation_def read_nat_def digit_val_def)
qed

definition event_cash :: "jev_event \<Rightarrow> int" where
  "event_cash e = payload_cash (reducer_payload (je_payload e))"

lemma cash_inv_sum:
  assumes "cash_inv a h" and "h \<noteq> []"
  shows "sum_list (map event_cash h) = a + sum_list (map event_cash (filter (\<lambda>e. \<not> is_cash (je_payload e)) h))"
proof -
  obtain g gs where h: "h = g # gs" using assms(2) by (cases h) auto
  have "reducer_payload (je_payload g) = Cash Initial_Allocation a" "list_all (\<lambda>e. \<not> is_cash (je_payload e)) gs"
    using assms(1) by (simp_all add: h cash_inv_def)
  moreover from this(1) have "is_cash (je_payload g)" by (cases "je_payload g") simp_all
  ultimately show ?thesis by (simp add: h event_cash_def list_all_iff)
qed

text \<open>C12: A JEV account starts with 250 dollars and nothing resets or transfers capital: after any accepted
  history cash is that amount plus the fees and funding of its events, a position is the signed sum of
  its fills, and the last sequence counts the events, in whatever order they were read.\<close>

theorem jev_ledger_closed_form:
  assumes "replayJevLedger idn input w = Inr p" and "ja_mode (jli_account idn) \<noteq> Live_Mode"
  shows "jlp_last_sequence p = int (length input)
    \<and> jlp_cash_usd p = 250000000 + sum_list (map event_cash (filter (\<lambda>e. \<not> is_cash (je_payload e)) input))
    \<and> (\<forall>q. map_of (jlp_positions p) q = (if q \<in> fill_positions (map (reducer_event idn) input)
         then Some (history_quantity (map (reducer_event idn) input) q) else None))"
proof -
  let ?xs = "sort_key (read_int \<circ> je_sequence) input"
  obtain s lp where inv: "jev_ledger_inv idn ?xs s" and lp: "ledger_snapshot (economic_identity idn) (jr_ledger s) = Inr lp"
    and p: "jlp_last_sequence p = last_sequence lp" "jlp_cash_usd p = cash_usd lp" "jlp_positions p = ledger_positions lp"
    and idn: "validateJevLedgerIdentity idn = Inr ()"
    using assms by (rule replayJevLedger_inv)
  have led: "ledger_inv (map (reducer_event idn) ?xs) (jr_ledger s)" and cash: "cash_inv 250000000 ?xs"
    using inv identity_allocation [OF idn assms(2)] by (simp_all add: jev_ledger_inv_def)
  have "?xs \<noteq> []" using led lp by (auto simp: ledger_snapshot_def ledger_inv_def)
  from cash_inv_sum [OF cash this] have sum: "sum_list (map event_cash input)
      = 250000000 + sum_list (map event_cash (filter (\<lambda>e. \<not> is_cash (je_payload e)) input))"
    using sum_list_mset [of ?xs input event_cash]
      sum_list_mset [of "filter (\<lambda>e. \<not> is_cash (je_payload e)) ?xs" "filter (\<lambda>e. \<not> is_cash (je_payload e)) input" event_cash]
    by simp
  have perm: "mset (map (reducer_event idn) ?xs) = mset (map (reducer_event idn) input)" by simp
  have "history_cash (map (reducer_event idn) input) = sum_list (map event_cash input)"
    by (simp add: history_cash_def event_cash_def [abs_def] comp_def)
  with led lp history_mset [OF perm] show ?thesis
    by (auto simp: p sum ledger_snapshot_def ledger_inv_def map_of_sort_key)
qed

text \<open>C13: Ownership never leaks: in an accepted history every event is that of a binding of this account that
  had started, and all events of one position, or of one execution, carry one and the same scope,
  so profile, version and experiment of a position never change.\<close>

theorem jev_single_owner:
  assumes "replayJevLedger idn input w = Inr p" and "ja_mode (jli_account idn) \<noteq> Live_Mode"
    and "e \<in> set input" and "e' \<in> set input"
  shows "owned idn e
    \<and> (event_position (je_payload e) \<noteq> None \<and> event_position (je_payload e) = event_position (je_payload e')
        \<or> event_execution (je_payload e) \<noteq> None \<and> event_execution (je_payload e) = event_execution (je_payload e')
       \<longrightarrow> je_scope e = je_scope e')"
proof -
  let ?xs = "sort_key (read_int \<circ> je_sequence) input"
  obtain s where inv: "jev_ledger_inv idn ?xs s"
    using assms(1,2) by (rule replayJevLedger_inv)
  have mem: "e \<in> set ?xs" "e' \<in> set ?xs" using assms(3,4) by simp_all
  then have "owned idn e" using inv by (simp add: jev_ledger_inv_def list_all_iff)
  moreover have pos: "map_of (jr_positions s) q = Some (je_scope x)" if "x \<in> set ?xs" "event_position (je_payload x) = Some q" for x q
    using inv that by (simp add: jev_ledger_inv_def owners_inv_def)
  moreover have exe: "map_of (jr_executions s) q = Some (je_scope x)" if "x \<in> set ?xs" "event_execution (je_payload x) = Some q" for x q
    using inv that by (simp add: jev_ledger_inv_def owners_inv_def)
  ultimately show ?thesis using mem by (metis not_None_eq option.inject)
qed

section \<open>An accepted JEV history\<close>

definition btc :: ident where
  "btc = ''hyperliquid:mainnet:BTC''"

definition sample_owner :: jev_account where
  "sample_owner = \<lparr>ja_schema_version = jev_version, ja_owner_id = ''a'', ja_account_id = ''a'', ja_mode = Paper_Mode,
     ja_started_at = 10, ja_capital_limit = amount_of USD 250000000, ja_initial_allocation = amount_of USD 250000000,
     ja_capital_origin = Fictitious, ja_executor_enabled = False\<rparr>"

definition sample_profile :: jev_profile where
  "sample_profile = \<lparr>jp_schema_version = jev_version, jp_owner_id = ''a'', jp_profile_id = ''a'', jp_profile_version = ''v'',
     jp_manifest_hash = replicate 64 CHR ''a'', jp_horizon_minutes = 1, jp_created_at = 5\<rparr>"

definition sample_binding :: jev_binding where
  "sample_binding = \<lparr>jb_schema_version = jev_version, jb_owner_id = ''a'', jb_account_id = ''a'', jb_mode = Paper_Mode,
     jb_profile_id = ''a'', jb_profile_version = ''v'', jb_experiment_id = ''e'', jb_started_at = 10\<rparr>"

definition sample_btc :: trading_instrument where
  "sample_btc = sample_instrument\<lparr>tn_instrument_id := btc, tn_origin := (sample_data Metadata_Data 5)\<lparr>td_instrument_id := btc\<rparr>\<rparr>"

definition sample_jev_identity :: jev_identity where
  "sample_jev_identity = \<lparr>jli_account = sample_owner, jli_instrument = sample_btc,
     jli_bindings = [(sample_binding, sample_profile)]\<rparr>"

definition sample_own_scope :: jev_scope where
  "sample_own_scope = jevScope sample_binding sample_btc"

definition sample_jev_key :: "ident \<Rightarrow> string" where
  "sample_jev_key i = stringify [jev_version, ''a'', ''paper'', ''a'', ''a'', ''v'', ''e'', btc, ''v'', ''ledger'', i]"

definition sample_jev_event :: "ident \<Rightarrow> ident \<Rightarrow> nat \<Rightarrow> ident \<Rightarrow> event_payload \<Rightarrow> jev_event" where
  "sample_jev_event i tx n cause p = \<lparr>je_scope = sample_own_scope, je_event_id = i, je_idempotency_key = sample_jev_key i,
     je_transaction_id = tx, je_sequence = show_nat n, je_cause_id = cause, je_occurred_at = 10, je_recorded_at = 10,
     je_payload = p\<rparr>"

definition sample_jev_history :: "jev_event list" where
  "sample_jev_history =
     [sample_jev_event ''genesis'' ''genesis'' 1 ''e'' (Cash_Payload (amount_of USD 250000000) Initial_Allocation),
      sample_jev_event ''b'' ''b'' 2 ''e'' (Fill_Payload ''a'' ''a'' ''a'' Buy (amount_of BTC 2) (amount_of USD_PER_BTC 8)),
      sample_jev_event ''i'' ''b'' 3 ''e'' (Fee_Payload ''a'' (amount_of USD (-3)))]"

lemma btc_id [simp]: "contract_id btc"
  by (simp add: btc_def id_char_def is_alnum_def)

lemma word_id [simp]: "contract_id ''genesis''" "contract_id ''ownership''"
  by (simp_all add: id_char_def is_alnum_def)

lemma raw_250: "ta_raw (amount_of USD 250000000) = ''250000000''"
proof -
  have "canonical_integer ''250000000''" by (simp add: canonical_integer_def is_digit_def)
  from canonical_show_read [OF this] have "show_int 250000000 = ''250000000''" by (simp add: read_nat_def digit_val_def)
  then show ?thesis by (simp add: amount_of_def)
qed

lemma usd_parse [simp]: "parseTradingAmount USD (amount_json (amount_of USD n)) = Inr (amount_of USD n)"
  by (simp add: parse_amount_json_iff unit_range_def)

lemma amount_shape_nonnegative [simp]: "amount_shape u Nonnegative (amount_of u n) \<longleftrightarrow> 0 \<le> n"
proof (cases "n = 0")
  case True
  then show ?thesis by (simp add: amount_shape_def amount_of_def show_int_def show_nat_0)
next
  case False
  have "ta_raw (amount_of u n) \<noteq> ''0''"
  proof
    assume "ta_raw (amount_of u n) = ''0''"
    then have "show_int n = show_int 0" by (simp add: amount_of_def show_int_def show_nat_0)
    with False show False by simp
  qed
  then have "amount_shape u Nonnegative (amount_of u n) \<longleftrightarrow> amount_shape u Positive (amount_of u n)"
    by (simp add: amount_shape_def)
  with False show ?thesis by (simp add: less_le)
qed

lemma sample_owner_ok: "parse_jev_account sample_owner = Inr sample_owner"
  by (simp add: parse_jev_account_def jev_account_shape_def sample_owner_def sample_contract_id utc_milliseconds_def
      jev_amount_shape_def capital_ok_def raw_250)

lemma sample_btc_ok: "parse_instrument sample_btc = Inr sample_btc" "tn_instrument_id sample_btc = btc"
  "tn_instrument_version sample_btc = ''v''" "td_received_at (tn_origin sample_btc) = 5"
  "tn_tick_size sample_btc = amount_of USD_PER_BTC 2" "tn_quantity_step sample_btc = amount_of BTC 2"
  by (simp_all add: parse_instrument_def instrument_shape_def sample_btc_def sample_instrument_def sample_contract_id
      sameInstrument_def utc_milliseconds_def data_shape_def sample_data_def sample_hash)

lemma sample_binding_ok: "validateJevBinding sample_binding sample_owner sample_profile = Inr ()"
  by (simp add: validateJevBinding_def sample_owner_ok)
    (simp add: binding_shape_def profile_shape_def sample_binding_def sample_profile_def sample_owner_def sample_contract_id
      utc_milliseconds_def sample_hash)

lemma sample_own_fields: "js_schema_version sample_own_scope = jev_version" "js_owner_id sample_own_scope = ''a''"
  "js_account_id sample_own_scope = ''a''" "js_mode sample_own_scope = Paper_Mode" "js_profile_id sample_own_scope = ''a''"
  "js_profile_version sample_own_scope = ''v''" "js_experiment_id sample_own_scope = ''e''"
  "js_instrument_id sample_own_scope = btc" "js_instrument_version sample_own_scope = ''v''"
  by (simp_all add: sample_own_scope_def jevScope_def sample_binding_def sample_btc_ok)

lemma sample_key_Inr: "contract_id i \<Longrightarrow> jevEventKey sample_own_scope i = Inr (sample_jev_key i)"
  by (simp add: jevEventKey_def binding_shape_def sample_own_fields sample_contract_id utc_milliseconds_def
      tradingIdempotencyKey_def paper_scope_def sample_jev_key_def)

lemma sample_ownership:
  "assertJevOwnership sample_own_scope sample_binding sample_owner sample_profile None = Inr ()"
  "assertJevOwnership sample_own_scope sample_binding sample_owner sample_profile (Some sample_own_scope) = Inr ()"
  by (simp_all add: assertJevOwnership_def sample_binding_ok sample_key_Inr [OF word_id(2)])
    (simp_all add: sample_own_fields owns_def sample_binding_def btc_def)

lemma sample_jev_identity_ok: "validateJevLedgerIdentity sample_jev_identity = Inr ()"
  by (simp add: validateJevLedgerIdentity_def sample_jev_identity_def sample_owner_ok sample_btc_ok check_binding_def
      sample_own_scope_def [symmetric] sample_ownership) (simp add: btc_def sample_owner_def)

lemma sample_event_parses:
  assumes "contract_id i" and "contract_id tx" and "0 < n" and "payload_shape p" and "jev_payload p"
    and "case p of Funding_Payload _ _ _ _ _ _ \<Rightarrow> False | _ \<Rightarrow> True"
  shows "parseJevLedgerEvent (sample_jev_event i tx n ''e'' p) = Inr (sample_jev_event i tx n ''e'' p)"
proof -
  let ?v = "sample_jev_event i tx n ''e'' p"
  let ?key = "stringify [trading_version, ''paper'', ''a'', ''e'', btc, ''ledger'', i]"
  have key: "tradingIdempotencyKey (paper_scope sample_own_scope) Ledger_Key i = Inr ?key"
    using assms(1) by (simp add: tradingIdempotencyKey_def paper_scope_def sample_own_fields sample_contract_id)
  have "event_shape (legacy_event ?v ?key)"
    using assms by (auto simp: event_shape_def legacy_event_def sample_jev_event_def ledger_scope.defs trading_event.defs
        paper_scope_def sample_own_fields scope_shape_def sample_contract_id utc_milliseconds_def stringify_def
        positive_canonical_iff)
  moreover have "check_key (legacy_event ?v ?key) Ledger_Key i ?key = Inr ()"
    using assms(1) by (simp add: check_key_def tradingIdempotencyKey_def legacy_event_def sample_jev_event_def
        ledger_scope.defs trading_event.defs paper_scope_def sample_own_fields sample_contract_id)
  moreover have "tv_event_id (legacy_event ?v ?key) = i" "tv_idempotency_key (legacy_event ?v ?key) = ?key"
    "tv_payload (legacy_event ?v ?key) = p" "tv_recorded_at (legacy_event ?v ?key) = tv_occurred_at (legacy_event ?v ?key)"
    by (simp_all add: legacy_event_def sample_jev_event_def ledger_scope.defs trading_event.defs)
  ultimately have "parse_event (legacy_event ?v ?key) = Inr (legacy_event ?v ?key)"
    using assms(5,6) by (cases p) (simp_all add: parse_event_def)
  then show ?thesis
    using assms(1,5) by (simp add: parseJevLedgerEvent_def key sample_key_Inr)
      (simp add: sample_jev_event_def sample_own_fields sample_key_Inr key)
qed

lemma sample_find: "find_binding sample_jev_identity ''e'' = Some (sample_binding, sample_profile)"
  by (simp add: find_binding_def sample_jev_identity_def sample_binding_def)

lemma sample_append:
  assumes "contract_id i" and "contract_id tx" and "0 < n" and "payload_shape p" and "jev_payload p"
    and "case p of Funding_Payload _ _ _ _ _ _ \<Rightarrow> False | _ \<Rightarrow> True"
    and "cash_rules sample_jev_identity sample_binding (sample_jev_event i tx n ''e'' p) = Inr ()"
    and "claim_owner sample_jev_identity (sample_binding, sample_profile) (sample_jev_event i tx n ''e'' p) s = Inr s1"
    and "ledger_append (economic_identity sample_jev_identity) 250000000 (jr_ledger s1)
       (reducer_event sample_jev_identity (sample_jev_event i tx n ''e'' p)) = Inr l"
  shows "jev_append sample_jev_identity s (sample_jev_event i tx n ''e'' p) = Inr (s1\<lparr>jr_ledger := l\<rparr>)"
proof -
  let ?e = "sample_jev_event i tx n ''e'' p"
  have scope: "je_scope ?e = sample_own_scope" "je_occurred_at ?e = 10" by (simp_all add: sample_jev_event_def)
  have "check_parent sample_jev_identity (sample_binding, sample_profile) ?e sample_own_scope = Inr ()"
    by (simp add: check_parent_def scope sample_jev_identity_def sample_ownership)
  moreover have "jevScope sample_binding (jli_instrument sample_jev_identity) = sample_own_scope"
    "ta_raw (ja_initial_allocation (jli_account sample_jev_identity)) = ta_raw (amount_of USD 250000000)"
    by (simp_all add: sample_own_scope_def sample_jev_identity_def sample_owner_def)
  moreover have "jb_started_at sample_binding = 10" by (simp add: sample_binding_def)
  ultimately show ?thesis
    using assms by (simp add: jev_append_def sample_event_parses scope sample_own_fields sample_find)
qed

lemma sample_economic: "economic_identity sample_jev_identity =
    \<lparr>li_account = \<lparr>acc_mode = Paper, acc_account_id = ''a'', acc_experiment_id = ''financial:a''\<rparr>,
     li_experiment = \<lparr>exp_experiment_id = ''financial:a'', started_at = 10\<rparr>,
     li_instrument = \<lparr>ins_instrument_id = btc, ins_instrument_version = ''v'', quantity_step = 2, tick_size = 2\<rparr>\<rparr>"
  by (simp add: economic_identity_def sample_jev_identity_def sample_btc_ok)
    (simp add: lifetime_experiment_def sample_owner_def)

lemma sample_reducer_event: "reducer_event sample_jev_identity (sample_jev_event i tx n cause p) =
    \<lparr>mode = Paper, account_id = ''a'', experiment_id = ''financial:a'', instrument_id = btc, instrument_version = ''v'',
     event_id = i, sequence = int n, transaction_id = tx,
     cause_id = (if i = ''genesis'' then ''financial:a'' else cause), occurred_at = 10, payload = reducer_payload p\<rparr>"
proof -
  have "read_int (show_nat n) = int n" using read_show_int [of "int n"] by (simp add: show_int_def)
  then show ?thesis
    by (simp add: reducer_event_def Let_def sample_jev_event_def ledger_scope.defs ledger_event.defs sample_own_fields
        lifetime_experiment_def sample_jev_identity_def sample_owner_def)
qed

lemmas sample_reduce = sample_economic sample_reducer_event ledger_append_def ledgerScope_def scope_matches_def
  enter_transaction_def genesis_event_def ledger_apply_def ledger_init_def Let_def position_of_def

lemma sample_jev_event_fields:
  "je_payload (sample_jev_event i tx n c p) = p" "je_sequence (sample_jev_event i tx n c p) = show_nat n"
  "je_cause_id (sample_jev_event i tx n c p) = c" "je_occurred_at (sample_jev_event i tx n c p) = 10"
  "je_scope (sample_jev_event i tx n c p) = sample_own_scope"
  by (simp_all add: sample_jev_event_def)

lemma sample_cash_rules:
  "cash_rules sample_jev_identity sample_binding (sample_jev_event i tx 1 ''e'' (Cash_Payload d Initial_Allocation)) = Inr ()"
  "\<not> is_cash p \<Longrightarrow> cash_rules sample_jev_identity sample_binding (sample_jev_event i tx n ''e'' p) = Inr ()"
proof -
  have "canonical_integer ''1''" by (simp add: canonical_integer_def is_digit_def)
  from canonical_show_read [OF this] have "show_nat 1 = ''1''" by (simp add: show_int_def digit_val_def)
  then show "cash_rules sample_jev_identity sample_binding (sample_jev_event i tx 1 ''e'' (Cash_Payload d Initial_Allocation)) = Inr ()"
    by (simp add: cash_rules_def sample_jev_event_fields) (simp add: sample_binding_def sample_jev_identity_def sample_owner_def)
  show "\<not> is_cash p \<Longrightarrow> cash_rules sample_jev_identity sample_binding (sample_jev_event i tx n ''e'' p) = Inr ()"
    by (cases p) (simp_all add: cash_rules_def sample_jev_event_fields)
qed

lemma sample_jev_scope_eq: "jevScope sample_binding (jli_instrument sample_jev_identity) = sample_own_scope"
  by (simp add: sample_own_scope_def sample_jev_identity_def)

lemma sample_parent:
  "check_parent sample_jev_identity (sample_binding, sample_profile) (sample_jev_event i tx n c p) sample_own_scope = Inr ()"
  by (simp add: check_parent_def sample_jev_event_fields sample_jev_identity_def sample_ownership)

lemma sample_jev_run:
  "\<exists>s. fold_res (jev_append sample_jev_identity) jev_init sample_jev_history = Inr s \<and> ls_sequence (jr_ledger s) = 3"
proof -
  let ?I = "economic_identity sample_jev_identity" and ?R = "reducer_event sample_jev_identity"
  let ?fill = "Fill_Payload ''a'' ''a'' ''a'' Buy (amount_of BTC 2) (amount_of USD_PER_BTC 8)"
  let ?e1 = "sample_jev_event ''genesis'' ''genesis'' 1 ''e'' (Cash_Payload (amount_of USD 250000000) Initial_Allocation)"
  let ?e2 = "sample_jev_event ''b'' ''b'' 2 ''e'' ?fill"
  let ?e3 = "sample_jev_event ''i'' ''b'' 3 ''e'' (Fee_Payload ''a'' (amount_of USD (-3)))"
  define l1 where "l1 = \<lparr>ls_cash = 250000000, ls_sequence = 1, ls_positions = [], ls_executions = [], ls_ids = {''genesis''},
    ls_fees = {}, ls_liquidations = {}, ls_funding = {}, ls_transactions = {''genesis''}, ls_current = ''genesis''\<rparr>"
  define l2 where "l2 = \<lparr>ls_cash = 250000000, ls_sequence = 2, ls_positions = [(''a'', 2)], ls_executions = [(''a'', ?R ?e2, False)],
    ls_ids = {''b'', ''genesis''}, ls_fees = {}, ls_liquidations = {}, ls_funding = {},
    ls_transactions = {''b'', ''genesis''}, ls_current = ''b''\<rparr>"
  define l3 where "l3 = l2\<lparr>ls_cash := 249999997, ls_sequence := 3, ls_ids := {''i'', ''b'', ''genesis''}, ls_fees := {''a''}\<rparr>"
  have 1: "ledger_append ?I 250000000 ledger_init (?R ?e1) = Inr l1"
    by (simp add: sample_reduce l1_def)
  have 2: "ledger_append ?I 250000000 l1 (?R ?e2) = Inr l2"
    by (simp add: sample_reduce l1_def l2_def)
  have 3: "ledger_append ?I 250000000 l2 (?R ?e3) = Inr l3"
    by (simp add: sample_reduce l2_def l3_def)
  let ?s = "\<lambda>l. \<lparr>jr_ledger = l, jr_executions = [(''a'', sample_own_scope)], jr_positions = [(''a'', sample_own_scope)]\<rparr>"
  have "jev_append sample_jev_identity jev_init ?e1 = Inr (jev_init\<lparr>jr_ledger := l1\<rparr>)"
    by (rule sample_append [where ?s1.0 = jev_init]) (use 1 word_id in \<open>simp_all add: sample_cash_rules claim_owner_def sample_jev_event_fields jev_init_def Let_def del: contract_id.simps One_nat_def\<close>)
  moreover have "jev_append sample_jev_identity (jev_init\<lparr>jr_ledger := l1\<rparr>) ?e2 = Inr ((?s l1)\<lparr>jr_ledger := l2\<rparr>)"
    by (rule sample_append [where ?s1.0 = "?s l1"]) (use 2 in \<open>simp_all add: sample_cash_rules claim_owner_def sample_jev_event_fields jev_init_def
      sample_jev_scope_eq sample_contract_id Let_def\<close>)
  moreover have "jev_append sample_jev_identity ((?s l1)\<lparr>jr_ledger := l2\<rparr>) ?e3 = Inr ((?s l2)\<lparr>jr_ledger := l3\<rparr>)"
    by (rule sample_append [where ?s1.0 = "?s l2"]) (use 3 in \<open>simp_all add: sample_cash_rules claim_owner_def sample_jev_event_fields
      sample_jev_scope_eq sample_parent sample_contract_id Let_def\<close>)
  ultimately show ?thesis by (simp add: sample_jev_history_def l3_def)
qed

lemma sample_jev_replay: "\<exists>p. replayJevLedger sample_jev_identity sample_jev_history None = Inr p"
  "ja_mode (jli_account sample_jev_identity) \<noteq> Live_Mode"
proof -
  have "read_int (show_nat n) = int n" for n using read_show_int [of "int n"] by (simp add: show_int_def)
  then have "sort_key (read_int \<circ> je_sequence) sample_jev_history = sample_jev_history"
    by (simp add: sample_jev_history_def sample_jev_event_fields)
  moreover have "ja_mode (jli_account sample_jev_identity) = Paper_Mode"
    by (simp add: sample_jev_identity_def sample_owner_def)
  ultimately show "\<exists>p. replayJevLedger sample_jev_identity sample_jev_history None = Inr p"
    "ja_mode (jli_account sample_jev_identity) \<noteq> Live_Mode"
    using sample_jev_run by (auto simp: replayJevLedger_def sample_jev_identity_ok ledger_snapshot_def Let_def)
qed

theorem jev_ledger_closed_form_witness:
  "\<exists>p. replayJevLedger sample_jev_identity sample_jev_history None = Inr p \<and> jlp_cash_usd p = 249999997"
proof -
  obtain p where p: "replayJevLedger sample_jev_identity sample_jev_history None = Inr p" using sample_jev_replay(1) by blast
  from jev_ledger_closed_form [OF p sample_jev_replay(2)] p show ?thesis
    by (simp add: sample_jev_history_def sample_jev_event_fields event_cash_def)
qed

theorem jev_single_owner_witness:
  "je_scope (sample_jev_history ! 1) = je_scope (sample_jev_history ! 2)"
proof -
  obtain p where p: "replayJevLedger sample_jev_identity sample_jev_history None = Inr p" using sample_jev_replay(1) by blast
  have "sample_jev_history ! 1 \<in> set sample_jev_history" "sample_jev_history ! 2 \<in> set sample_jev_history"
    by (simp_all add: sample_jev_history_def)
  from jev_single_owner [OF p sample_jev_replay(2) this] show ?thesis
    by (simp add: sample_jev_history_def sample_jev_event_fields)
qed

end
