(* ===== verification/JevManifest.thy ===== *)
theory JevManifest
  imports Prelude
begin

text \<open>
  The JEV manifest, \<open>apps/api/src/storage/jev-manifest.ts\<close>. A plain JSON object of a fixed shape is a
  record, so comparing the canonical fingerprints of two values is equality, and the check of the
  keys is the type. \<open>jevHash\<close>, SHA-256 of the fingerprint, is the parameter \<open>hash\<close>. \<open>as const\<close> values
  that the validator compares are fields like any other.
\<close>

record decision_template =
  dt_criteria_version :: string
  dt_instruction :: string
  dt_model_selection :: string

record context_template =
  ct_version :: string
  ct_book_levels :: int
  ct_rounding :: string
  ct_trade_window_seconds :: int
  ct_bar_interval_ms :: int
  ct_bar_count :: int
  ct_atr_periods :: int
  ct_atr_formula :: string
  ct_rsi_periods :: int
  ct_rsi_formula :: string
  ct_return_periods :: "int list"
  ct_return_unit :: string
  ct_information_set :: "string list"

record freshness_limits =
  fr_book_ms :: int
  fr_mark_funding_ms :: int
  fr_account_ms :: int
  fr_closed_bar_lag_ms :: int
  fr_response_deadline_ms :: int
  fr_decision_ttl_ms :: int

record cadence_config =
  cc_standard_ms :: int
  cc_fast_ms :: int
  cc_movement_atr_numerator :: int
  cc_movement_atr_denominator :: int
  cc_near_stop_atr_numerator :: int
  cc_near_stop_atr_denominator :: int
  cc_fast_minimum_ms :: int
  cc_fast_maximum_ms :: int
  cc_cooldown_ms :: int
  cc_requires_open_position :: bool
  cc_trigger_families :: "string list"

record exit_config =
  xc_stop_atr_multiplier :: int
  xc_atr_capture :: string
  xc_anchor :: string
  xc_partials :: string
  xc_rounding :: string
  xc_maximum_holding_ms :: int
  xc_clock_origin :: string
  xc_stop_trigger :: string
  xc_native_slippage_reserve_bps :: int
  xc_reduce_only :: bool
  xc_take_profit :: bool
  xc_trailing :: bool
  xc_trend_exit :: bool

record risk_config =
  rk_entry_risk_bps :: int
  rk_exposure_bps :: int
  rk_daily_loss_bps :: int
  rk_drawdown_usd :: int
  rk_leverage :: int
  rk_margin :: string
  rk_pyramid :: bool
  rk_reverse :: bool

record execution_config =
  ec_entry :: string
  ec_exit :: string
  ec_maker_wait_after_ack_ms :: int
  ec_paper_latency_ms :: int
  ec_stress_latency_ms :: int
  ec_stress_fee_multiplier :: int

record generator_config =
  gc_one_component_only :: bool
  gc_horizon_minutes :: "int list"
  gc_trade_window_seconds :: "int list"
  gc_information_sets :: "string list list"
  gc_criteria_versions :: "string list"
  gc_frozen_components :: "string list"

record manifest =
  mf_schema_version :: string
  mf_horizon_minutes :: int
  mf_decision :: decision_template
  mf_context :: context_template
  mf_freshness :: freshness_limits
  mf_cadence :: cadence_config
  mf_exits :: exit_config
  mf_risk :: risk_config
  mf_execution :: execution_config
  mf_generator :: generator_config

datatype manifest_error = HORIZON | FROZEN_MANIFEST | CONTEXT_WINDOW | INFORMATION_SET | MANIFEST_TEMPLATE
  | ONE_COMPONENT_CHANGE

definition initial_instruction :: string where
  "initial_instruction = ''Avalie dire'' @ [CHR 0xE7, CHR 0xE3] @ ''o long/short e inten'' @ [CHR 0xE7, CHR 0xE3]
     @ ''o abrir/manter/encerrar no horizonte econ'' @ [CHR 0xF4] @ ''mico indicado. Vincule a resposta ''
     @ [CHR 0xE0] @ '' conta, posi'' @ [CHR 0xE7, CHR 0xE3] @ ''o, corte e vers'' @ [CHR 0xE3]
     @ ''o da pergunta. Tamanho, prote'' @ [CHR 0xE7, CHR 0xE3] @ ''o, risco e execu'' @ [CHR 0xE7, CHR 0xE3]
     @ ''o pertencem ao c'' @ [CHR 0xF3] @ ''digo.''"

definition full_information :: "string list" where
  "full_information = [''book'', ''flow'', ''returns'', ''atr'', ''rsi'', ''funding'']"

definition initial_decision :: decision_template where
  "initial_decision = \<lparr>dt_criteria_version = ''jev.principal.v1'', dt_instruction = initial_instruction,
     dt_model_selection = ''pinned_model_required_before_admission''\<rparr>"

definition initial_context :: context_template where
  "initial_context = \<lparr>ct_version = ''btc.jev-context.v1'', ct_book_levels = 5,
     ct_rounding = ''ratios_toward_zero_prices_and_depth_floor_atr_ceiling'', ct_trade_window_seconds = 60,
     ct_bar_interval_ms = 900000, ct_bar_count = 15, ct_atr_periods = 14,
     ct_atr_formula = ''ceil_mean_true_range_14'', ct_rsi_periods = 14,
     ct_rsi_formula = ''simple_gain_loss_14_rate9'', ct_return_periods = [1, 3, 5],
     ct_return_unit = ''RATE9_closed_15m_bars'', ct_information_set = full_information\<rparr>"

definition initial_freshness :: freshness_limits where
  "initial_freshness = \<lparr>fr_book_ms = 2000, fr_mark_funding_ms = 10000, fr_account_ms = 2000,
     fr_closed_bar_lag_ms = 910000, fr_response_deadline_ms = 1500, fr_decision_ttl_ms = 2000\<rparr>"

definition initial_cadence :: cadence_config where
  "initial_cadence = \<lparr>cc_standard_ms = 60000, cc_fast_ms = 2000, cc_movement_atr_numerator = 1,
     cc_movement_atr_denominator = 2, cc_near_stop_atr_numerator = 1, cc_near_stop_atr_denominator = 2,
     cc_fast_minimum_ms = 10000, cc_fast_maximum_ms = 30000, cc_cooldown_ms = 60000,
     cc_requires_open_position = True, cc_trigger_families = [''price_atr'', ''stop_proximity'']\<rparr>"

definition initial_exits :: exit_config where
  "initial_exits = \<lparr>xc_stop_atr_multiplier = 2, xc_atr_capture = ''closed_15m_at_entry_decision'',
     xc_anchor = ''first_fill_price'', xc_partials = ''first_fill_anchor_fixed_quantity_updates_only'',
     xc_rounding = ''toward_entry_on_venue_grid'', xc_maximum_holding_ms = 21600000,
     xc_clock_origin = ''first_fill'', xc_stop_trigger = ''mark_price'', xc_native_slippage_reserve_bps = 1000,
     xc_reduce_only = True, xc_take_profit = False, xc_trailing = False, xc_trend_exit = False\<rparr>"

definition initial_risk :: risk_config where
  "initial_risk = \<lparr>rk_entry_risk_bps = 100, rk_exposure_bps = 5000, rk_daily_loss_bps = 200,
     rk_drawdown_usd = 12500000, rk_leverage = 1, rk_margin = ''isolated'', rk_pyramid = False, rk_reverse = False\<rparr>"

definition initial_execution :: execution_config where
  "initial_execution = \<lparr>ec_entry = ''post_only'', ec_exit = ''IOC_reduce_only'', ec_maker_wait_after_ack_ms = 2000,
     ec_paper_latency_ms = 1000, ec_stress_latency_ms = 2000, ec_stress_fee_multiplier = 2\<rparr>"

definition initial_generator :: generator_config where
  "initial_generator = \<lparr>gc_one_component_only = True, gc_horizon_minutes = [1, 3, 5],
     gc_trade_window_seconds = [30, 60, 120],
     gc_information_sets = [full_information, [''book'', ''flow'', ''returns'', ''atr'', ''funding'']],
     gc_criteria_versions = [''jev.principal.v1''],
     gc_frozen_components = [''freshness'', ''cadence'', ''exits'', ''risk'', ''execution'', ''generator'']\<rparr>"

definition initialJevManifest :: "int \<Rightarrow> manifest_error + manifest" where
  "initialJevManifest horizon = require (horizon \<in> set [1, 3, 5]) HORIZON
     (Inr \<lparr>mf_schema_version = ''btc.jev-manifest.v1'', mf_horizon_minutes = horizon, mf_decision = initial_decision,
       mf_context = initial_context, mf_freshness = initial_freshness, mf_cadence = initial_cadence,
       mf_exits = initial_exits, mf_risk = initial_risk, mf_execution = initial_execution,
       mf_generator = initial_generator\<rparr>)"

definition validateJevManifest :: "(manifest \<Rightarrow> string) \<Rightarrow> manifest \<Rightarrow> manifest_error + string" where
  "validateJevManifest hash m =
     bind_res (initialJevManifest (mf_horizon_minutes m)) (\<lambda>baseline.
     require (mf_schema_version m = mf_schema_version baseline \<and> mf_freshness m = mf_freshness baseline
         \<and> mf_cadence m = mf_cadence baseline \<and> mf_exits m = mf_exits baseline \<and> mf_risk m = mf_risk baseline
         \<and> mf_execution m = mf_execution baseline \<and> mf_generator m = mf_generator baseline) FROZEN_MANIFEST
     (require (ct_trade_window_seconds (mf_context m) \<in> set [30, 60, 120]) CONTEXT_WINDOW
     (require (list_ex (\<lambda>s. s = ct_information_set (mf_context m)) (gc_information_sets (mf_generator baseline))) INFORMATION_SET
     (let normalized = m\<lparr>mf_context := (mf_context m)\<lparr>ct_trade_window_seconds := 60,
            ct_information_set := ct_information_set (mf_context baseline)\<rparr>\<rparr>
      in require (normalized = baseline) MANIFEST_TEMPLATE (Inr (hash m))))))"

text \<open>The components that a successor may change, and whether each differs.\<close>

definition changed_components :: "manifest \<Rightarrow> manifest \<Rightarrow> bool list" where
  "changed_components p n =
     [mf_horizon_minutes p \<noteq> mf_horizon_minutes n,
      ct_trade_window_seconds (mf_context p) \<noteq> ct_trade_window_seconds (mf_context n),
      ct_information_set (mf_context p) \<noteq> ct_information_set (mf_context n),
      mf_decision p \<noteq> mf_decision n]"

definition validateJevSuccessor :: "(manifest \<Rightarrow> string) \<Rightarrow> manifest \<Rightarrow> manifest \<Rightarrow> manifest_error + string" where
  "validateJevSuccessor hash previous nxt =
     bind_res (validateJevManifest hash previous) (\<lambda>previousHash.
     bind_res (validateJevManifest hash nxt) (\<lambda>nextHash.
     require (previousHash \<noteq> nextHash \<and> length (filter id (changed_components previous nxt)) = 1)
       ONE_COMPONENT_CHANGE (Inr nextHash)))"

section \<open>The family of manifests\<close>

text \<open>The template with one of its free choices: horizon, trade window and information set.\<close>

definition template :: "int \<Rightarrow> int \<Rightarrow> string list \<Rightarrow> manifest" where
  "template h w s = \<lparr>mf_schema_version = ''btc.jev-manifest.v1'', mf_horizon_minutes = h, mf_decision = initial_decision,
       mf_context = initial_context\<lparr>ct_trade_window_seconds := w, ct_information_set := s\<rparr>,
       mf_freshness = initial_freshness, mf_cadence = initial_cadence,
       mf_exits = initial_exits, mf_risk = initial_risk, mf_execution = initial_execution,
       mf_generator = initial_generator\<rparr>"

definition approved :: "manifest set" where
  "approved = {template h w s | h w s. h \<in> {1, 3, 5} \<and> w \<in> {30, 60, 120} \<and> s \<in> set (gc_information_sets initial_generator)}"

lemma normalized_context:
  "c\<lparr>ct_trade_window_seconds := 60, ct_information_set := full_information\<rparr>
     = initial_context\<lparr>ct_trade_window_seconds := 60, ct_information_set := full_information\<rparr> \<longleftrightarrow>
   c = initial_context\<lparr>ct_trade_window_seconds := ct_trade_window_seconds c, ct_information_set := ct_information_set c\<rparr>"
  for c :: context_template
  by (cases c) (auto simp: initial_context_def)

lemma normalized_eq:
  "m\<lparr>mf_context := (mf_context m)\<lparr>ct_trade_window_seconds := 60, ct_information_set := full_information\<rparr>\<rparr>
     = template h 60 full_information \<longleftrightarrow>
   m = template h (ct_trade_window_seconds (mf_context m)) (ct_information_set (mf_context m))"
  for m :: manifest
  by (cases m) (simp add: template_def normalized_context)

lemma initial_template:
  "initialJevManifest h = Inr b \<longleftrightarrow> h \<in> {1, 3, 5} \<and> b = template h 60 full_information"
  by (auto simp: initialJevManifest_def template_def initial_context_def)

lemma template_simps [simp]:
  "mf_horizon_minutes (template h w s) = h" "ct_trade_window_seconds (mf_context (template h w s)) = w"
  "ct_information_set (mf_context (template h w s)) = s" "mf_decision (template h w s) = initial_decision"
  "mf_generator (template h w s) = initial_generator" "mf_cadence (template h w s) = initial_cadence"
  "mf_exits (template h w s) = initial_exits" "mf_freshness (template h w s) = initial_freshness"
  "mf_risk (template h w s) = initial_risk" "mf_execution (template h w s) = initial_execution"
  "mf_schema_version (template h w s) = ''btc.jev-manifest.v1''"
  by (simp_all add: template_def)

lemma approved_iff:
  "m \<in> approved \<longleftrightarrow> mf_horizon_minutes m \<in> {1, 3, 5} \<and> ct_trade_window_seconds (mf_context m) \<in> {30, 60, 120}
     \<and> ct_information_set (mf_context m) \<in> set (gc_information_sets initial_generator)
     \<and> m = template (mf_horizon_minutes m) (ct_trade_window_seconds (mf_context m)) (ct_information_set (mf_context m))"
  (is "_ \<longleftrightarrow> ?r")
proof
  assume "m \<in> approved"
  then obtain h w s where "h \<in> {1, 3, 5}" "w \<in> {30, 60, 120}" "s \<in> set (gc_information_sets initial_generator)"
    "m = template h w s" unfolding approved_def by blast
  then show ?r by (simp only: template_simps simp_thms)
next
  assume ?r
  then show "m \<in> approved" unfolding approved_def by blast
qed

lemma bind_initial:
  "bind_res (initialJevManifest h) f = Inr y \<longleftrightarrow> h \<in> {1, 3, 5} \<and> f (template h 60 full_information) = Inr y"
  by (auto simp: bind_res_Inr initial_template)

lemma bex_eq_mem: "(\<exists>x\<in>A. x = y) \<longleftrightarrow> y \<in> A"
  by blast

text \<open>The fields the validator compares with the template one by one.\<close>

definition same_frozen :: "manifest \<Rightarrow> manifest \<Rightarrow> bool" where
  "same_frozen m b \<longleftrightarrow> mf_schema_version m = mf_schema_version b \<and> mf_freshness m = mf_freshness b
     \<and> mf_cadence m = mf_cadence b \<and> mf_exits m = mf_exits b \<and> mf_risk m = mf_risk b
     \<and> mf_execution m = mf_execution b \<and> mf_generator m = mf_generator b"

lemma same_frozen_template [simp]: "same_frozen (template h w s) (template h' w' s')"
  by (simp add: same_frozen_def)

lemma validate_iff: "validateJevManifest hash m = Inr hm \<longleftrightarrow> m \<in> approved \<and> hm = hash m"
proof -
  let ?h = "mf_horizon_minutes m" and ?w = "ct_trade_window_seconds (mf_context m)"
  let ?s = "ct_information_set (mf_context m)" and ?b = "template (mf_horizon_minutes m) 60 full_information"
  have "validateJevManifest hash m = Inr hm \<longleftrightarrow> ?h \<in> {1, 3, 5} \<and> same_frozen m ?b \<and> ?w \<in> {30, 60, 120}
      \<and> ?s \<in> set (gc_information_sets initial_generator) \<and> m = template ?h ?w ?s \<and> hm = hash m"
    unfolding validateJevManifest_def Let_def bind_initial require_Inr list_ex_iff same_frozen_def [symmetric]
      template_simps normalized_eq list.set bex_eq_mem by blast
  moreover have "same_frozen m ?b" if "m = template ?h ?w ?s"
    by (subst that) (rule same_frozen_template)
  ultimately show ?thesis unfolding approved_iff by blast
qed

text \<open>The manifests the validator accepts are exactly the eighteen approved ones: the frozen
  template with one of three horizons, three trade windows and two information sets.\<close>

theorem manifest_family:
  "validateJevManifest hash m = Inr hm \<longleftrightarrow> m \<in> approved \<and> hm = hash m"
  by (rule validate_iff)

text \<open>A successor is another approved manifest that differs from the previous one in exactly one of
  horizon, trade window and information set, and in nothing else.\<close>

theorem successor_one_change:
  assumes "validateJevSuccessor hash previous nxt = Inr h"
  shows "previous \<in> approved \<and> nxt \<in> approved \<and> h = hash nxt \<and> previous \<noteq> nxt
    \<and> ((\<exists>x. nxt = previous\<lparr>mf_horizon_minutes := x\<rparr>)
      \<or> (\<exists>x. nxt = previous\<lparr>mf_context := (mf_context previous)\<lparr>ct_trade_window_seconds := x\<rparr>\<rparr>)
      \<or> (\<exists>x. nxt = previous\<lparr>mf_context := (mf_context previous)\<lparr>ct_information_set := x\<rparr>\<rparr>))"
proof -
  have v: "previous \<in> approved" "nxt \<in> approved" "h = hash nxt" "hash previous \<noteq> hash nxt"
    and one: "length (filter id (changed_components previous nxt)) = 1"
    using assms by (auto simp: validateJevSuccessor_def validate_iff)
  obtain a w s b w' s' where p: "previous = template a w s" "nxt = template b w' s'"
    using v(1,2) unfolding approved_iff by metis
  have "length (filter id [a \<noteq> b, w \<noteq> w', s \<noteq> s', False]) = 1"
    using one by (simp only: changed_components_def p template_simps simp_thms)
  then have "a \<noteq> b \<and> w = w' \<and> s = s' \<or> a = b \<and> w \<noteq> w' \<and> s = s' \<or> a = b \<and> w = w' \<and> s \<noteq> s'"
    by (cases "a = b"; cases "w = w'"; cases "s = s'") simp_all
  then have "(\<exists>x. nxt = previous\<lparr>mf_horizon_minutes := x\<rparr>)
      \<or> (\<exists>x. nxt = previous\<lparr>mf_context := (mf_context previous)\<lparr>ct_trade_window_seconds := x\<rparr>\<rparr>)
      \<or> (\<exists>x. nxt = previous\<lparr>mf_context := (mf_context previous)\<lparr>ct_information_set := x\<rparr>\<rparr>)"
    by (elim disjE) (simp_all add: p template_def initial_context_def)
  with v show ?thesis by metis
qed

theorem successor_one_change_witness:
  "template 3 30 full_information \<in> approved"
proof -
  have "template 1 30 full_information \<in> approved" "template 3 30 full_information \<in> approved"
    by (simp_all add: approved_iff initial_generator_def)
  then have "validateJevSuccessor (\<lambda>m. if mf_horizon_minutes m = 1 then ''a'' else ''b'')
      (template 1 30 full_information) (template 3 30 full_information) = Inr ''b''"
    by (simp add: validateJevSuccessor_def validate_iff changed_components_def)
  from successor_one_change [OF this] show ?thesis by blast
qed

end
