(* ===== verification/JevPolicy.thy ===== *)
theory JevPolicy
  imports PriceGrid JevScope JevManifest
begin

text \<open>
  Protection, cadence and deadlines of JEV accounts, \<open>storage/jev-protection.ts\<close> and
  \<open>storage/jev-policy.ts\<close>, and the maker quote of \<open>storage/jev-execution-contract.ts\<close>. Raw amounts are the
  source's strings; \<open>hash\<close> is the manifest hash of \<open>JevManifest\<close>. \<open>jevTime\<close> accepts the instants of
  ISO strings from 1970 on, and printing an instant fails beyond the last date JavaScript has.
\<close>

datatype policy_error = TIME | DATE_RANGE | PROTECTION_IDENTITY | PROTECTION_AMOUNTS | STOP_GRID | PARTIAL_OWNER
  | PARTIAL_QUANTITY | PROTECTION_VERSION | EXIT_CLOCK | MARK_PRICE | CADENCE_VERSION_OR_CLOCK | CADENCE_OWNER
  | TRIGGER_AMOUNTS | FAST_START | DECISION_CLOCK | REFERENCE_PRICE | DEADLINE_CLOCK | QUOTE_BOOK
  | Manifest_Error manifest_error | Amount_Error amount_error | Trading_Error contract_error

datatype position_direction = Long | Short

text \<open>The fields of the instrument metadata envelope that orders depend on.\<close>

record venue_metadata =
  vm_instrument :: trading_instrument
  vm_asset_index :: js_number
  vm_price_rules :: price_rules
  vm_minimum_order_notional :: trading_amount
  vm_maker_fee :: trading_amount
  vm_taker_fee :: trading_amount

definition gridPrice :: "int \<Rightarrow> int \<Rightarrow> direction \<Rightarrow> venue_metadata \<Rightarrow> int option" where
  "gridPrice num den dir md =
     venueGridPrice num den dir (read_int (ta_raw (tn_tick_size (vm_instrument md)))) (vm_price_rules md)"

definition jevTime :: "time \<Rightarrow> policy_error + time" where
  "jevTime n = require (0 \<le> n \<and> n \<le> 8640000000000000) TIME (Inr n)"

definition toISOString :: "time \<Rightarrow> policy_error + time" where
  "toISOString n = require (\<bar>n\<bar> \<le> 8640000000000000) DATE_RANGE (Inr n)"

definition parse_raw :: "trading_unit \<Rightarrow> string \<Rightarrow> policy_error + trading_amount" where
  "parse_raw u raw = with_error Amount_Error
     (parseTradingAmount u (amount_json \<lparr>ta_unit = u, ta_decimals = trading_decimals u, ta_raw = raw\<rparr>))"

definition price_of :: "string \<Rightarrow> policy_error + int" where
  "price_of raw = bind_res (parse_raw USD_PER_BTC raw) (\<lambda>a. Inr (read_int (ta_raw a)))"

section \<open>Protection\<close>

record protection =
  pr_schema_version :: string
  pr_manifest_hash :: string
  pr_scope :: jev_scope
  pr_position_id :: ident
  pr_direction :: position_direction
  pr_first_fill_at :: time
  pr_first_fill_price :: string
  pr_entry_atr14 :: string
  pr_stop_price :: string
  pr_quantity_btc :: string
  pr_maximum_exit_at :: time

record protection_input =
  pi_scope :: jev_scope
  pi_position_id :: ident
  pi_direction :: position_direction
  pi_first_fill_at :: time
  pi_first_fill_price :: string
  pi_quantity_btc :: string
  pi_atr14 :: string
  pi_atr_captured_at :: time
  pi_decision_at :: time

definition stop_beyond :: "position_direction \<Rightarrow> int \<Rightarrow> int option \<Rightarrow> bool" where
  "stop_beyond dir fill stop = (case stop of None \<Rightarrow> False | Some s \<Rightarrow> if dir = Long then s < fill else s > fill)"

definition initialJevProtection ::
  "(manifest \<Rightarrow> string) \<Rightarrow> manifest \<Rightarrow> protection_input \<Rightarrow> venue_metadata \<Rightarrow> policy_error + protection" where
  "initialJevProtection hash m i md =
     bind_res (with_error Manifest_Error (validateJevManifest hash m)) (\<lambda>h.
     bind_res (jevTime (pi_first_fill_at i)) (\<lambda>at.
     bind_res (jevTime (pi_atr_captured_at i)) (\<lambda>captured.
     bind_res (jevTime (pi_decision_at i)) (\<lambda>decided.
     require (captured \<le> decided \<and> decided \<le> at \<and> js_instrument_id (pi_scope i) = tn_instrument_id (vm_instrument md)
         \<and> js_instrument_version (pi_scope i) = tn_instrument_version (vm_instrument md)) PROTECTION_IDENTITY
     (bind_res (price_of (pi_first_fill_price i)) (\<lambda>fill.
      bind_res (price_of (pi_atr14 i)) (\<lambda>atr.
      bind_res (parse_raw BTC (pi_quantity_btc i)) (\<lambda>q.
      bind_res (with_error Amount_Error (assertTradingQuantum q (tn_quantity_step (vm_instrument md)))) (\<lambda>_.
      require (read_int (ta_raw q) > 0 \<and> fill > 0 \<and> atr > 0) PROTECTION_AMOUNTS
      (let target = fill + (if pi_direction i = Long then -1 else 1) * 2 * atr;
           stop = gridPrice target 1 (if pi_direction i = Long then Up else Down) md in
       require (stop_beyond (pi_direction i) fill stop) STOP_GRID
       (bind_res (toISOString (at + xc_maximum_holding_ms (mf_exits m))) (\<lambda>until.
        Inr \<lparr>pr_schema_version = ''btc.jev-protection.v1'', pr_manifest_hash = h, pr_scope = pi_scope i,
             pr_position_id = pi_position_id i, pr_direction = pi_direction i, pr_first_fill_at = pi_first_fill_at i,
             pr_first_fill_price = pi_first_fill_price i, pr_entry_atr14 = pi_atr14 i,
             pr_stop_price = show_int (the stop), pr_quantity_btc = ta_raw q, pr_maximum_exit_at = until\<rparr>))))))))))))"

record partial_fill =
  pf_scope :: jev_scope
  pf_position_id :: ident
  pf_occurred_at :: time
  pf_quantity_btc :: string

definition updateJevPartialProtection ::
  "venue_metadata \<Rightarrow> protection \<Rightarrow> partial_fill \<Rightarrow> policy_error + protection" where
  "updateJevPartialProtection md p fill =
     (if pr_scope p \<noteq> pf_scope fill \<or> pr_position_id p \<noteq> pf_position_id fill then Inl PARTIAL_OWNER
      else bind_res (jevTime (pf_occurred_at fill)) (\<lambda>occurred.
        bind_res (jevTime (pr_first_fill_at p)) (\<lambda>opened.
        require (occurred \<ge> opened) PARTIAL_OWNER
        (bind_res (parse_raw BTC (pf_quantity_btc fill)) (\<lambda>q.
         bind_res (with_error Amount_Error (assertTradingQuantum q (tn_quantity_step (vm_instrument md)))) (\<lambda>_.
         require (read_int (ta_raw q) > 0) PARTIAL_QUANTITY
         (Inr (p\<lparr>pr_quantity_btc := show_int (read_int (pr_quantity_btc p) + read_int (ta_raw q))\<rparr>))))))))"

record exit_input =
  ex_now_at :: time
  ex_mark_price :: "string option"
  ex_mark_at :: "time option"
  ex_protection_confirmed :: bool
  ex_risk_blocked :: bool

record exit_decision =
  xd_request_close :: bool
  xd_reasons :: "string list"
  xd_reduce_only :: bool
  xd_time_in_force :: string

text \<open>The last reason: the mark is unknown or stale, or it has reached the stop.\<close>

definition mark_reasons :: "manifest \<Rightarrow> protection \<Rightarrow> exit_input \<Rightarrow> time \<Rightarrow> policy_error + string list" where
  "mark_reasons m p i now = (case (ex_mark_at i, ex_mark_price i) of
     (Some at, Some raw) \<Rightarrow>
       bind_res (jevTime at) (\<lambda>t.
         if t > now \<or> now - t > fr_mark_funding_ms (mf_freshness m) then Inr [''PROTECTION_MARK_UNKNOWN'']
         else bind_res (price_of raw) (\<lambda>mark.
           require (mark > 0) MARK_PRICE
           (Inr (if (if pr_direction p = Long then mark \<le> read_int (pr_stop_price p) else mark \<ge> read_int (pr_stop_price p))
                 then [''FIXED_STOP''] else []))))
   | _ \<Rightarrow> Inr [''PROTECTION_MARK_UNKNOWN''])"

definition jevMandatoryExit ::
  "(manifest \<Rightarrow> string) \<Rightarrow> manifest \<Rightarrow> protection \<Rightarrow> exit_input \<Rightarrow> policy_error + exit_decision" where
  "jevMandatoryExit hash m p i =
     bind_res (with_error Manifest_Error (validateJevManifest hash m)) (\<lambda>h.
     require (pr_manifest_hash p = h) PROTECTION_VERSION
     (bind_res (jevTime (ex_now_at i)) (\<lambda>now.
      bind_res (jevTime (pr_first_fill_at p)) (\<lambda>opened.
      require (now \<ge> opened) EXIT_CLOCK
      (bind_res (jevTime (pr_maximum_exit_at p)) (\<lambda>until.
       bind_res (mark_reasons m p i now) (\<lambda>marks.
       let reasons = (if now \<ge> until then [''MAXIMUM_HOLDING_TIME''] else [])
         @ (if ex_risk_blocked i then [''RISK_BLOCKED''] else [])
         @ (if \<not> ex_protection_confirmed i then [''PROTECTION_UNCONFIRMED''] else []) @ marks
       in Inr \<lparr>xd_request_close = (length reasons > 0), xd_reasons = reasons, xd_reduce_only = True,
               xd_time_in_force = ''IOC''\<rparr>)))))))"

section \<open>The maker quote\<close>

definition quoteJevMaker :: "side \<Rightarrow> string \<Rightarrow> string \<Rightarrow> venue_metadata \<Rightarrow> policy_error + string" where
  "quoteJevMaker sd bid ask md =
     bind_res (with_error Trading_Error (parse_instrument (vm_instrument md))) (\<lambda>_.
     let b = read_int bid; a = read_int ask in
     require (b > 0 \<and> a > b \<and> gridPrice b 1 Down md = Some b \<and> gridPrice a 1 Down md = Some a) QUOTE_BOOK
     (let nxt = gridPrice (if sd = Buy then b + 1 else a - 1) 1 (if sd = Buy then Up else Down) md
      in Inr (show_int (case nxt of
           Some n \<Rightarrow> (if n > b \<and> n < a then n else if sd = Buy then b else a)
         | None \<Rightarrow> (if sd = Buy then b else a)))))"

section \<open>Cadence\<close>

record jev_position =
  ps_position_id :: ident
  ps_direction :: position_direction
  ps_quantity_btc :: string
  ps_entry_price :: string
  ps_stop_price :: string
  ps_first_fill_at :: time

record account_context =
  ac_scope :: jev_scope
  ac_observed_at :: time
  ac_cash_usd :: string
  ac_equity_usd :: "string option"
  ac_position :: "jev_position option"
  ac_entries_paused :: bool
  ac_risk_blocked :: bool
  ac_recovery_ready :: bool

datatype cadence_mode = Slow | Fast

record cadence =
  cd_schema_version :: string
  cd_manifest_hash :: string
  cd_scope :: jev_scope
  cd_observed_at :: time
  cd_mode :: cadence_mode
  cd_fast_started_at :: "time option"
  cd_cooldown_until :: "time option"
  cd_last_decision_at :: "time option"
  cd_reference_price :: "string option"

definition initialJevCadence :: "(manifest \<Rightarrow> string) \<Rightarrow> manifest \<Rightarrow> jev_scope \<Rightarrow> time \<Rightarrow> policy_error + cadence" where
  "initialJevCadence hash m scope at =
     bind_res (jevTime at) (\<lambda>_.
     bind_res (with_error Manifest_Error (validateJevManifest hash m)) (\<lambda>h.
     Inr \<lparr>cd_schema_version = ''btc.jev-cadence.v1'', cd_manifest_hash = h, cd_scope = scope, cd_observed_at = at,
          cd_mode = Slow, cd_fast_started_at = None, cd_cooldown_until = None, cd_last_decision_at = None,
          cd_reference_price = None\<rparr>))"

record cadence_input =
  ci_now_at :: time
  ci_account :: "account_context option"
  ci_mark_price :: "string option"
  ci_atr14 :: "string option"
  ci_context_fresh :: bool

record cadence_result =
  cr_state :: cadence
  cr_interval_ms :: int
  cr_triggers :: "string list"
  cr_due :: bool

definition usable :: "cadence_input \<Rightarrow> bool" where
  "usable i = (case ci_account i of None \<Rightarrow> False
     | Some a \<Rightarrow> ci_context_fresh i \<and> \<not> ac_entries_paused a \<and> \<not> ac_risk_blocked a \<and> ac_recovery_ready a)"

definition open_position :: "cadence_input \<Rightarrow> jev_position option" where
  "open_position i = (case ci_account i of None \<Rightarrow> None | Some a \<Rightarrow> ac_position a)"

definition trigger_list :: "cadence_config \<Rightarrow> string option \<Rightarrow> int \<Rightarrow> int \<Rightarrow> int \<Rightarrow> string list" where
  "trigger_list cfg reference mark atr stop =
     (if atr > 0 then
       (case reference of None \<Rightarrow> [] | Some r \<Rightarrow>
          if \<bar>mark - read_int r\<bar> * cc_movement_atr_denominator cfg \<ge> atr * cc_movement_atr_numerator cfg then [''price_atr''] else [])
       @ (if \<bar>mark - stop\<bar> * cc_near_stop_atr_denominator cfg \<le> atr * cc_near_stop_atr_numerator cfg
          then [''stop_proximity''] else [])
      else [])"

definition triggers :: "manifest \<Rightarrow> cadence \<Rightarrow> cadence_input \<Rightarrow> policy_error + string list" where
  "triggers m s i = (case (open_position i, ci_mark_price i, ci_atr14 i) of
     (Some p, Some mark_raw, Some atr_raw) \<Rightarrow>
       (if \<not> usable i then Inr []
        else bind_res (price_of mark_raw) (\<lambda>mark.
          bind_res (price_of atr_raw) (\<lambda>atr.
          let stop = read_int (ps_stop_price p) in
          require (mark > 0 \<and> atr \<ge> 0 \<and> stop > 0) TRIGGER_AMOUNTS
          (Inr (trigger_list (mf_cadence m) (cd_reference_price s) mark atr stop)))))
   | _ \<Rightarrow> Inr [])"

text \<open>The change of mode at \<open>now\<close>, given the triggers.\<close>

definition next_mode :: "cadence_config \<Rightarrow> cadence_input \<Rightarrow> time \<Rightarrow> string list \<Rightarrow> cadence \<Rightarrow> policy_error + cadence" where
  "next_mode cfg i now trig nxt =
     (if cd_mode nxt = Fast then
        (case cd_fast_started_at nxt of
           None \<Rightarrow> Inl FAST_START
         | Some since \<Rightarrow>
             bind_res (jevTime since) (\<lambda>started.
             let elapsed = now - started in
             if \<not> usable i \<or> open_position i = None \<or> elapsed \<ge> cc_fast_maximum_ms cfg
                \<or> elapsed \<ge> cc_fast_minimum_ms cfg \<and> trig = []
             then bind_res (toISOString (now + cc_cooldown_ms cfg)) (\<lambda>until.
               Inr (nxt\<lparr>cd_mode := Slow, cd_fast_started_at := None, cd_cooldown_until := Some until\<rparr>))
             else Inr nxt))
      else if usable i \<and> open_position i \<noteq> None \<and> trig \<noteq> [] then
        bind_res (case cd_cooldown_until nxt of None \<Rightarrow> Inr True | Some c \<Rightarrow> bind_res (jevTime c) (\<lambda>until. Inr (now \<ge> until)))
          (\<lambda>cool. if cool then Inr (nxt\<lparr>cd_mode := Fast, cd_fast_started_at := Some (ci_now_at i)\<rparr>) else Inr nxt)
      else Inr nxt)"

definition decision_due :: "cadence_input \<Rightarrow> time \<Rightarrow> int \<Rightarrow> cadence \<Rightarrow> policy_error + bool" where
  "decision_due i now interval nxt =
     (if \<not> usable i then Inr False
      else case cd_last_decision_at nxt of None \<Rightarrow> Inr True
        | Some l \<Rightarrow> bind_res (jevTime l) (\<lambda>last_at. Inr (now - last_at \<ge> interval)))"

definition advanceJevCadence ::
  "(manifest \<Rightarrow> string) \<Rightarrow> manifest \<Rightarrow> cadence \<Rightarrow> cadence_input \<Rightarrow> policy_error + cadence_result" where
  "advanceJevCadence hash m s i =
     bind_res (jevTime (ci_now_at i)) (\<lambda>now.
     if cd_schema_version s \<noteq> ''btc.jev-cadence.v1'' then Inl CADENCE_VERSION_OR_CLOCK
     else bind_res (with_error Manifest_Error (validateJevManifest hash m)) (\<lambda>h.
       if cd_manifest_hash s \<noteq> h then Inl CADENCE_VERSION_OR_CLOCK
       else bind_res (jevTime (cd_observed_at s)) (\<lambda>observed.
         require (now \<ge> observed) CADENCE_VERSION_OR_CLOCK
         (require (case ci_account i of None \<Rightarrow> True | Some a \<Rightarrow> ac_scope a = cd_scope s) CADENCE_OWNER
         (bind_res (triggers m s i) (\<lambda>trig.
          bind_res (next_mode (mf_cadence m) i now trig (s\<lparr>cd_observed_at := ci_now_at i\<rparr>)) (\<lambda>nxt.
          let interval = (if cd_mode nxt = Fast then cc_fast_ms (mf_cadence m) else cc_standard_ms (mf_cadence m)) in
          bind_res (decision_due i now interval nxt) (\<lambda>due.
          Inr \<lparr>cr_state = nxt, cr_interval_ms = interval, cr_triggers = trig, cr_due = due\<rparr>))))))))"

definition recordJevDecision :: "cadence \<Rightarrow> time \<Rightarrow> string \<Rightarrow> policy_error + cadence" where
  "recordJevDecision s at raw =
     bind_res (jevTime at) (\<lambda>now.
     bind_res (jevTime (cd_observed_at s)) (\<lambda>observed.
     require (now \<ge> observed) DECISION_CLOCK
     (bind_res (case cd_last_decision_at s of None \<Rightarrow> Inr True
        | Some l \<Rightarrow> bind_res (jevTime l) (\<lambda>last_at. Inr (now \<ge> last_at))) (\<lambda>later.
      require later DECISION_CLOCK
      (bind_res (price_of raw) (\<lambda>price.
       require (price > 0) REFERENCE_PRICE
       (Inr (s\<lparr>cd_observed_at := at, cd_last_decision_at := Some at, cd_reference_price := Some raw\<rparr>))))))))"

record deadline_times =
  dl_context_cut_at :: time
  dl_asked_at :: time
  dl_response_at :: time
  dl_action_at :: time

definition jevDeadlineStatus ::
  "(manifest \<Rightarrow> string) \<Rightarrow> manifest \<Rightarrow> deadline_times \<Rightarrow> policy_error + (bool \<times> string option)" where
  "jevDeadlineStatus hash m t =
     bind_res (with_error Manifest_Error (validateJevManifest hash m)) (\<lambda>_.
     bind_res (jevTime (dl_context_cut_at t)) (\<lambda>cut.
     bind_res (jevTime (dl_asked_at t)) (\<lambda>asked.
     bind_res (jevTime (dl_response_at t)) (\<lambda>response.
     bind_res (jevTime (dl_action_at t)) (\<lambda>action.
     require (cut \<le> asked \<and> asked \<le> response \<and> response \<le> action) DEADLINE_CLOCK
     (let f = mf_freshness m in
      Inr (response - asked \<le> fr_response_deadline_ms f \<and> action - cut \<le> fr_decision_ttl_ms f,
           if response - asked > fr_response_deadline_ms f then Some ''RESPONSE_DEADLINE''
           else if action - cut > fr_decision_ttl_ms f then Some ''DECISION_STALE'' else None)))))))"

section \<open>Frozen settings\<close>

lemma validated_settings:
  assumes "validateJevManifest hash m = Inr h"
  shows "mf_exits m = initial_exits" and "mf_cadence m = initial_cadence" and "mf_freshness m = initial_freshness"
    and "h = hash m"
proof -
  from assms have "m \<in> approved" and h: "h = hash m" by (simp_all add: validate_iff)
  then obtain a w s where "m = template a w s" unfolding approved_iff by blast
  then show "mf_exits m = initial_exits" "mf_cadence m = initial_cadence" "mf_freshness m = initial_freshness" by simp_all
  show "h = hash m" by (rule h)
qed

lemma jevTime_Inr [simp]: "jevTime n = Inr t \<longleftrightarrow> 0 \<le> n \<and> n \<le> 8640000000000000 \<and> t = n"
  by (auto simp: jevTime_def)

lemma toISOString_Inr [simp]: "toISOString n = Inr t \<longleftrightarrow> \<bar>n\<bar> \<le> 8640000000000000 \<and> t = n"
  by (auto simp: toISOString_def)

lemma parse_raw_Inr: "u \<noteq> PROBABILITY \<Longrightarrow> parse_raw u raw = Inr a \<longleftrightarrow> canonical_integer raw \<and> a = amount_of u (read_int raw)"
proof -
  assume u: "u \<noteq> PROBABILITY"
  have "canonical_integer raw \<longleftrightarrow> (\<exists>n. raw = show_int n)" using canonical_show_int canonical_show_read by metis
  then show ?thesis
    using u by (auto simp: parse_raw_def parse_amount_json_iff amount_of_def unit_range_def canonical_show_read)
qed

lemma price_of_Inr [simp]: "price_of raw = Inr n \<longleftrightarrow> canonical_integer raw \<and> n = read_int raw"
  by (auto simp: price_of_def parse_raw_Inr)

section \<open>Stops\<close>

lemma initialJevProtection_cases:
  assumes "initialJevProtection hash m i md = Inr p"
  obtains stop where "gridPrice (read_int (pi_first_fill_price i) + (if pi_direction i = Long then -1 else 1) * 2 * read_int (pi_atr14 i))
      1 (if pi_direction i = Long then Up else Down) md = Some stop"
    and "stop_beyond (pi_direction i) (read_int (pi_first_fill_price i)) (Some stop)"
    and "validateJevManifest hash m = Inr (pr_manifest_hash p)"
    and "p = \<lparr>pr_schema_version = ''btc.jev-protection.v1'', pr_manifest_hash = pr_manifest_hash p, pr_scope = pi_scope i,
             pr_position_id = pi_position_id i, pr_direction = pi_direction i, pr_first_fill_at = pi_first_fill_at i,
             pr_first_fill_price = pi_first_fill_price i, pr_entry_atr14 = pi_atr14 i,
             pr_stop_price = show_int stop, pr_quantity_btc = pi_quantity_btc i,
             pr_maximum_exit_at = pi_first_fill_at i + 21600000\<rparr>"
    and "pr_stop_price p = show_int stop" and "0 < read_int (pi_atr14 i)" and "0 < read_int (pi_quantity_btc i)" and "canonical_integer (pi_quantity_btc i)"
    and "pi_decision_at i \<le> pi_first_fill_at i" and "pi_atr_captured_at i \<le> pi_decision_at i"
proof -
  let ?target = "read_int (pi_first_fill_price i) + (if pi_direction i = Long then -1 else 1) * 2 * read_int (pi_atr14 i)"
  let ?stop = "gridPrice ?target 1 (if pi_direction i = Long then Up else Down) md"
  have ex: "xc_maximum_holding_ms (mf_exits m) = 21600000" if "validateJevManifest hash m = Inr h" for h
    using validated_settings(1) [OF that] by (simp add: initial_exits_def)
  from assms obtain h until where h: "validateJevManifest hash m = Inr h"
    and q: "canonical_integer (pi_quantity_btc i)" "0 < read_int (pi_quantity_btc i)" "0 < read_int (pi_atr14 i)"
    and t: "pi_decision_at i \<le> pi_first_fill_at i" "pi_atr_captured_at i \<le> pi_decision_at i"
    and beyond: "stop_beyond (pi_direction i) (read_int (pi_first_fill_price i)) ?stop"
    and until: "toISOString (pi_first_fill_at i + xc_maximum_holding_ms (mf_exits m)) = Inr until"
    and p: "p = \<lparr>pr_schema_version = ''btc.jev-protection.v1'', pr_manifest_hash = h, pr_scope = pi_scope i,
             pr_position_id = pi_position_id i, pr_direction = pi_direction i, pr_first_fill_at = pi_first_fill_at i,
             pr_first_fill_price = pi_first_fill_price i, pr_entry_atr14 = pi_atr14 i,
             pr_stop_price = show_int (the ?stop), pr_quantity_btc = pi_quantity_btc i, pr_maximum_exit_at = until\<rparr>"
    unfolding initialJevProtection_def Let_def
    by (auto simp: parse_raw_Inr amount_of_def canonical_show_read simp del: toISOString_Inr)
  from beyond obtain stop where stop: "?stop = Some stop" by (auto simp: stop_beyond_def split: option.splits)
  show thesis
    by (rule that [of stop]) (use h q t beyond until p stop ex [OF h] in \<open>simp_all\<close>)
qed

text \<open>The target of the stop is two average true ranges from the fill, and the stop is the venue price
  next to it on the side of the fill.\<close>

definition venue_price :: "venue_metadata \<Rightarrow> int \<Rightarrow> bool" where
  "venue_price md p \<longleftrightarrow> (\<exists>d k. grid_digits (vm_price_rules md) = Some (d, k)
     \<and> grid_price (read_int (ta_raw (tn_tick_size (vm_instrument md)))) (integer_prices_exempt (vm_price_rules md)) d k p)"

lemma gridPrice_up:
  assumes "gridPrice num 1 Up md = Some p"
  shows "venue_price md p" and "num \<le> p" and "venue_price md q \<Longrightarrow> num \<le> q \<Longrightarrow> p \<le> q"
proof -
  from assms obtain d k where pos: "0 < num" "0 < read_int (ta_raw (tn_tick_size (vm_instrument md)))"
    and dk: "grid_digits (vm_price_rules md) = Some (d, k)"
    by (auto simp: gridPrice_def dest!: venueGridPrice_digits)
  note up = grid_up_exact [OF pos(1) zero_less_one pos(2) dk]
  from up assms have "grid_price (read_int (ta_raw (tn_tick_size (vm_instrument md)))) (integer_prices_exempt (vm_price_rules md)) d k p"
    and le: "num \<le> p" by (simp_all add: gridPrice_def)
  then show "venue_price md p" unfolding venue_price_def using dk by blast
  show "num \<le> p" by (rule le)
  show "p \<le> q" if "venue_price md q" "num \<le> q"
    using up assms that dk by (auto simp: gridPrice_def venue_price_def)
qed

lemma gridPrice_down:
  assumes "gridPrice num 1 Down md = Some p"
  shows "venue_price md p" and "p \<le> num"
proof -
  from assms obtain d k where dk: "grid_digits (vm_price_rules md) = Some (d, k)"
    by (auto simp: gridPrice_def dest!: venueGridPrice_digits)
  note down = grid_down_sound [OF assms [unfolded gridPrice_def] dk]
  then show "venue_price md p" unfolding venue_price_def using dk by blast
  show "p \<le> num" using down(2) by simp
qed

lemma gridPrice_bound:
  assumes "gridPrice num den dir md = Some p"
  shows "if dir = Up then num \<le> den * p else den * p \<le> num"
proof -
  from assms obtain d k where pos: "0 < num" "0 < den" "0 < read_int (ta_raw (tn_tick_size (vm_instrument md)))"
    and dk: "grid_digits (vm_price_rules md) = Some (d, k)"
    by (auto simp: gridPrice_def dest!: venueGridPrice_digits)
  show ?thesis
  proof (cases dir)
    case Up
    with grid_up_exact [OF pos dk] assms show ?thesis by (simp add: gridPrice_def)
  next
    case Down
    with grid_down_sound(2) [OF _ dk] assms show ?thesis by (auto simp: gridPrice_def)
  qed
qed

lemma venue_price_pos: "venue_price md p \<Longrightarrow> 0 < p"
  by (auto simp: venue_price_def grid_price_def)

text \<open>C21: A protected position has a stop the venue can take, strictly on the losing side of the first fill and
  at most two captured average true ranges from it; for a long it is the first venue price from
  that distance on. The exit clock is six hours from the first fill, and the range was captured
  before the decision and the decision before the fill.\<close>

theorem protection_stop:
  assumes "initialJevProtection hash m i md = Inr p"
  shows "venue_price md (read_int (pr_stop_price p))
    \<and> (if pi_direction i = Long
       then read_int (pi_first_fill_price i) - 2 * read_int (pi_atr14 i) \<le> read_int (pr_stop_price p)
         \<and> read_int (pr_stop_price p) < read_int (pi_first_fill_price i)
         \<and> (\<forall>q. venue_price md q \<longrightarrow> read_int (pi_first_fill_price i) - 2 * read_int (pi_atr14 i) \<le> q \<longrightarrow> read_int (pr_stop_price p) \<le> q)
       else read_int (pi_first_fill_price i) < read_int (pr_stop_price p)
         \<and> read_int (pr_stop_price p) \<le> read_int (pi_first_fill_price i) + 2 * read_int (pi_atr14 i))
    \<and> pr_maximum_exit_at p = pi_first_fill_at i + 6 * 60 * 60 * 1000
    \<and> pi_atr_captured_at i \<le> pi_decision_at i \<and> pi_decision_at i \<le> pr_first_fill_at p"
  using assms
proof (rule initialJevProtection_cases)
  fix stop
  let ?fill = "read_int (pi_first_fill_price i)" and ?atr = "read_int (pi_atr14 i)"
  assume stop: "gridPrice (?fill + (if pi_direction i = Long then -1 else 1) * 2 * ?atr) 1
      (if pi_direction i = Long then Up else Down) md = Some stop"
    and beyond: "stop_beyond (pi_direction i) ?fill (Some stop)"
    and p: "p = \<lparr>pr_schema_version = ''btc.jev-protection.v1'', pr_manifest_hash = pr_manifest_hash p, pr_scope = pi_scope i,
             pr_position_id = pi_position_id i, pr_direction = pi_direction i, pr_first_fill_at = pi_first_fill_at i,
             pr_first_fill_price = pi_first_fill_price i, pr_entry_atr14 = pi_atr14 i,
             pr_stop_price = show_int stop, pr_quantity_btc = pi_quantity_btc i,
             pr_maximum_exit_at = pi_first_fill_at i + 21600000\<rparr>"
    and t: "pi_decision_at i \<le> pi_first_fill_at i" "pi_atr_captured_at i \<le> pi_decision_at i"
  have fields: "pr_stop_price p = show_int stop" "pr_maximum_exit_at p = pi_first_fill_at i + 21600000"
    "pr_first_fill_at p = pi_first_fill_at i" by (subst p, simp)+
  show ?thesis
  proof (cases "pi_direction i")
    case Long
    then have "gridPrice (?fill - 2 * ?atr) 1 Up md = Some stop" using stop by simp
    from gridPrice_up [OF this] beyond t Long show ?thesis by (simp add: fields stop_beyond_def)
  next
    case Short
    then have "gridPrice (?fill + 2 * ?atr) 1 Down md = Some stop" using stop by simp
    from gridPrice_down [OF this] beyond t Short show ?thesis by (simp add: fields stop_beyond_def)
  qed
qed

section \<open>Partial fills\<close>

lemma updateJevPartialProtection_cases:
  assumes "updateJevPartialProtection md p f = Inr p'"
  shows "p' = p\<lparr>pr_quantity_btc := show_int (read_int (pr_quantity_btc p) + read_int (pf_quantity_btc f))\<rparr>"
    and "0 < read_int (pf_quantity_btc f)" and "pf_scope f = pr_scope p" and "pf_position_id f = pr_position_id p"
    and "pr_first_fill_at p \<le> pf_occurred_at f"
  using assms by (auto simp: updateJevPartialProtection_def parse_raw_Inr split: if_splits)

text \<open>Partial fills of the same position only grow the protected quantity, by exactly what they filled:
  price, range, stop and clock keep the anchors of the first fill.\<close>

theorem partials_keep_anchors:
  assumes "fold_res (updateJevPartialProtection md) p fills = Inr p'"
  shows "p' = p\<lparr>pr_quantity_btc := pr_quantity_btc p'\<rparr>
    \<and> read_int (pr_quantity_btc p') = read_int (pr_quantity_btc p) + sum_list (map (read_int \<circ> pf_quantity_btc) fills)
    \<and> list_all (\<lambda>f. 0 < read_int (pf_quantity_btc f) \<and> pf_scope f = pr_scope p \<and> pf_position_id f = pr_position_id p
        \<and> pr_first_fill_at p \<le> pf_occurred_at f) fills"
  using assms
proof (induction fills arbitrary: p)
  case Nil
  then show ?case by simp
next
  case (Cons f fs)
  then obtain q where q: "updateJevPartialProtection md p f = Inr q" "fold_res (updateJevPartialProtection md) q fs = Inr p'"
    by auto
  note step = updateJevPartialProtection_cases [OF q(1)]
  have eq: "q\<lparr>pr_quantity_btc := pr_quantity_btc p'\<rparr> = p\<lparr>pr_quantity_btc := pr_quantity_btc p'\<rparr>"
    by (simp add: step(1))
  have fields: "pr_scope q = pr_scope p" "pr_position_id q = pr_position_id p" "pr_first_fill_at q = pr_first_fill_at p"
    "read_int (pr_quantity_btc q) = read_int (pr_quantity_btc p) + read_int (pf_quantity_btc f)"
    by (simp_all add: step(1))
  show ?case using Cons.IH [OF q(2)] step(2-5) unfolding eq fields by simp
qed

section \<open>Mandatory exits\<close>

lemma mark_reasons_empty:
  assumes "mark_reasons m p i now = Inr marks" and "fr_mark_funding_ms (mf_freshness m) = 10000"
  shows "marks = [] \<longleftrightarrow> (\<exists>t raw. ex_mark_at i = Some t \<and> ex_mark_price i = Some raw \<and> t \<le> now \<and> now - t \<le> 10000
      \<and> (if pr_direction p = Long then read_int (pr_stop_price p) < read_int raw else read_int raw < read_int (pr_stop_price p)))"
  using assms by (auto simp: mark_reasons_def split: option.splits if_splits)

text \<open>C28: An open position is left alone only when it provably may be: the exit is requested unless the holding
  time has not run out, nothing blocks risk, the protection is confirmed and a mark not older than
  ten seconds is known and strictly better than the stop. The request is always a reduce-only IOC.\<close>

theorem mandatory_exit:
  assumes "jevMandatoryExit hash m p i = Inr d"
  shows "(\<not> xd_request_close d \<longleftrightarrow> ex_now_at i < pr_maximum_exit_at p \<and> \<not> ex_risk_blocked i \<and> ex_protection_confirmed i
      \<and> (\<exists>t raw. ex_mark_at i = Some t \<and> ex_mark_price i = Some raw \<and> t \<le> ex_now_at i \<and> ex_now_at i - t \<le> 10000
          \<and> (if pr_direction p = Long then read_int (pr_stop_price p) < read_int raw else read_int raw < read_int (pr_stop_price p))))
    \<and> xd_reduce_only d \<and> xd_time_in_force d = ''IOC''"
proof -
  from assms obtain h marks where h: "validateJevManifest hash m = Inr h" and marks: "mark_reasons m p i (ex_now_at i) = Inr marks"
    and d: "d = (let reasons = (if ex_now_at i \<ge> pr_maximum_exit_at p then [''MAXIMUM_HOLDING_TIME''] else [])
         @ (if ex_risk_blocked i then [''RISK_BLOCKED''] else [])
         @ (if \<not> ex_protection_confirmed i then [''PROTECTION_UNCONFIRMED''] else []) @ marks
       in \<lparr>xd_request_close = (length reasons > 0), xd_reasons = reasons, xd_reduce_only = True, xd_time_in_force = ''IOC''\<rparr>)"
    by (auto simp: jevMandatoryExit_def Let_def)
  have "fr_mark_funding_ms (mf_freshness m) = 10000"
    using validated_settings(3) [OF h] by (simp add: initial_freshness_def)
  from mark_reasons_empty [OF marks this] show ?thesis by (auto simp: d Let_def)
qed

section \<open>Quotes\<close>

lemma gridPrice_up_exists:
  assumes "venue_price md q" and "num \<le> q" and "0 < num" and "0 < read_int (ta_raw (tn_tick_size (vm_instrument md)))"
  shows "\<exists>p. gridPrice num 1 Up md = Some p \<and> p \<le> q"
proof -
  from assms(1) obtain d k where dk: "grid_digits (vm_price_rules md) = Some (d, k)"
    and q: "grid_price (read_int (ta_raw (tn_tick_size (vm_instrument md)))) (integer_prices_exempt (vm_price_rules md)) d k q"
    by (auto simp: venue_price_def)
  note up = grid_up_exact [OF assms(3) zero_less_one assms(4) dk]
  show ?thesis
  proof (cases "gridPrice num 1 Up md")
    case None
    then show ?thesis using up q assms(2) by (auto simp: gridPrice_def)
  next
    case (Some p)
    then show ?thesis using gridPrice_up(3) [OF Some] assms(1,2) by blast
  qed
qed

text \<open>A maker quote never crosses: it is a venue price from the own best on and strictly before the other
  side; a buy improves the bid to the first venue price above it whenever one lies below the ask.\<close>

theorem maker_quote_rests:
  assumes "quoteJevMaker sd bid ask md = Inr raw"
  shows "venue_price md (read_int raw)
    \<and> (if sd = Buy then read_int bid \<le> read_int raw \<and> read_int raw < read_int ask
         \<and> (\<forall>q. venue_price md q \<longrightarrow> read_int bid < q \<longrightarrow> q < read_int ask \<longrightarrow> read_int bid < read_int raw \<and> read_int raw \<le> q)
       else read_int bid < read_int raw \<and> read_int raw \<le> read_int ask)"
proof -
  let ?b = "read_int bid" and ?a = "read_int ask"
  from assms have b: "gridPrice ?b 1 Down md = Some ?b" "0 < ?b" and a: "gridPrice ?a 1 Down md = Some ?a" "?b < ?a"
    and raw: "raw = show_int (case gridPrice (if sd = Buy then ?b + 1 else ?a - 1) 1 (if sd = Buy then Up else Down) md of
         Some n \<Rightarrow> (if n > ?b \<and> n < ?a then n else if sd = Buy then ?b else ?a)
       | None \<Rightarrow> (if sd = Buy then ?b else ?a))"
    by (auto simp: quoteJevMaker_def Let_def)
  have tick: "0 < read_int (ta_raw (tn_tick_size (vm_instrument md)))"
    using b(1) by (auto simp: gridPrice_def dest: venueGridPrice_digits)
  note vb = gridPrice_down(1) [OF b(1)] and va = gridPrice_down(1) [OF a(1)]
  show ?thesis
  proof (cases sd)
    case Buy
    obtain n where n: "gridPrice (?b + 1) 1 Up md = Some n" "n \<le> ?a"
      using gridPrice_up_exists [OF va, of "?b + 1"] a(2) b(2) tick by auto
    note up = gridPrice_up [OF n(1)]
    have "read_int raw = (if n < ?a then n else ?b)" using raw Buy n(1) up(2) by simp
    moreover have "n \<le> q" if "venue_price md q" "?b < q" for q using up(3) [OF that(1)] that(2) by simp
    ultimately show ?thesis using Buy vb up(1,2) a(2) by (cases "n < ?a") force+
  next
    case Sell
    then have "read_int raw = (case gridPrice (?a - 1) 1 Down md of Some n \<Rightarrow> (if n > ?b \<and> n < ?a then n else ?a) | None \<Rightarrow> ?a)"
      using raw by simp
    then show ?thesis using Sell va a(2) gridPrice_down(1) by (auto split: option.splits if_splits)
  qed
qed

section \<open>Cadence over time\<close>

lemma cadence_settings:
  assumes "validateJevManifest hash m = Inr h"
  shows "cc_fast_maximum_ms (mf_cadence m) = 30000" and "cc_fast_minimum_ms (mf_cadence m) = 10000"
    and "cc_cooldown_ms (mf_cadence m) = 60000" and "cc_fast_ms (mf_cadence m) = 2000" and "cc_standard_ms (mf_cadence m) = 60000"
  using validated_settings(2) [OF assms] by (simp_all add: initial_cadence_def)

lemma advance_cases:
  assumes "advanceJevCadence hash m s i = Inr r"
  obtains h where "validateJevManifest hash m = Inr h" and "0 \<le> ci_now_at i" and "cd_observed_at s \<le> ci_now_at i"
    and "next_mode (mf_cadence m) i (ci_now_at i) (cr_triggers r) (s\<lparr>cd_observed_at := ci_now_at i\<rparr>) = Inr (cr_state r)"
    and "cr_interval_ms r = (if cd_mode (cr_state r) = Fast then 2000 else 60000)"
    and "decision_due i (ci_now_at i) (cr_interval_ms r) (cr_state r) = Inr (cr_due r)"
proof -
  from assms obtain h trig nxt due where h: "validateJevManifest hash m = Inr h" and t: "0 \<le> ci_now_at i" "cd_observed_at s \<le> ci_now_at i"
    and nxt: "next_mode (mf_cadence m) i (ci_now_at i) trig (s\<lparr>cd_observed_at := ci_now_at i\<rparr>) = Inr nxt"
    and due: "decision_due i (ci_now_at i) (if cd_mode nxt = Fast then cc_fast_ms (mf_cadence m) else cc_standard_ms (mf_cadence m)) nxt = Inr due"
    and r: "r = \<lparr>cr_state = nxt, cr_interval_ms = (if cd_mode nxt = Fast then cc_fast_ms (mf_cadence m) else cc_standard_ms (mf_cadence m)),
      cr_triggers = trig, cr_due = due\<rparr>"
    unfolding advanceJevCadence_def Let_def by (auto split: if_splits)
  show thesis by (rule that) (use h t nxt due r cadence_settings [OF h] in simp_all)
qed

text \<open>What a change of mode can be: nothing, into fast after the cooldown, or out of fast into a new cooldown.\<close>

lemma next_mode_cases:
  assumes "next_mode cfg i now trig s = Inr s'"
  obtains (stay) "s' = s" and "cd_mode s = Fast \<Longrightarrow> usable i \<and> open_position i \<noteq> None
      \<and> (\<exists>t. cd_fast_started_at s = Some t \<and> now - t < cc_fast_maximum_ms cfg \<and> (now - t < cc_fast_minimum_ms cfg \<or> trig \<noteq> []))"
  | (enter) "cd_mode s = Slow" and "s' = s\<lparr>cd_mode := Fast, cd_fast_started_at := Some (ci_now_at i)\<rparr>" and "usable i"
      and "open_position i \<noteq> None" and "trig \<noteq> []" and "\<And>c. cd_cooldown_until s = Some c \<Longrightarrow> c \<le> now"
  | (leave) "cd_mode s = Fast"
      and "s' = s\<lparr>cd_mode := Slow, cd_fast_started_at := None, cd_cooldown_until := Some (now + cc_cooldown_ms cfg)\<rparr>"
proof (cases "cd_mode s")
  case Fast
  with assms obtain t where t: "cd_fast_started_at s = Some t"
    by (auto simp: next_mode_def split: option.splits)
  show thesis
  proof (cases "\<not> usable i \<or> open_position i = None \<or> cc_fast_maximum_ms cfg \<le> now - t \<or> cc_fast_minimum_ms cfg \<le> now - t \<and> trig = []")
    case True
    with assms Fast t show thesis by (intro leave) (simp_all add: next_mode_def Let_def)
  next
    case False
    with assms Fast t show thesis by (intro stay) (auto simp: next_mode_def Let_def)
  qed
next
  case Slow
  show thesis
  proof (cases "s' = s")
    case True
    with Slow show thesis by (intro stay) simp_all
  next
    case False
    with assms Slow show thesis
      by (intro enter) (auto simp: next_mode_def split: if_splits option.splits)
  qed
qed

text \<open>Fast mode is bounded: it needs a usable account with an open position, lasts less than thirty seconds,
  and after its first ten seconds only while a trigger persists; a decision is due at most every
  two seconds in it, every minute otherwise, and never for an unusable account.\<close>

theorem cadence_fast_bounded:
  assumes "advanceJevCadence hash m s i = Inr r"
  shows "(cd_mode (cr_state r) = Fast \<longrightarrow> usable i \<and> open_position i \<noteq> None
      \<and> (\<exists>t. cd_fast_started_at (cr_state r) = Some t \<and> ci_now_at i - t < 30000 \<and> (ci_now_at i - t < 10000 \<or> cr_triggers r \<noteq> [])))
    \<and> cr_interval_ms r = (if cd_mode (cr_state r) = Fast then 2000 else 60000)
    \<and> (cr_due r \<longrightarrow> usable i \<and> (\<forall>l. cd_last_decision_at s = Some l \<longrightarrow> cr_interval_ms r \<le> ci_now_at i - l))"
  using assms
proof (rule advance_cases)
  fix h
  assume h: "validateJevManifest hash m = Inr h" and interval: "cr_interval_ms r = (if cd_mode (cr_state r) = Fast then 2000 else 60000)"
    and nxt: "next_mode (mf_cadence m) i (ci_now_at i) (cr_triggers r) (s\<lparr>cd_observed_at := ci_now_at i\<rparr>) = Inr (cr_state r)"
    and due: "decision_due i (ci_now_at i) (cr_interval_ms r) (cr_state r) = Inr (cr_due r)"
  note cfg = cadence_settings [OF h]
  have last_at: "cd_last_decision_at (cr_state r) = cd_last_decision_at s"
    using nxt by (rule next_mode_cases) simp_all
  then have "cr_due r \<longrightarrow> usable i \<and> (\<forall>l. cd_last_decision_at s = Some l \<longrightarrow> cr_interval_ms r \<le> ci_now_at i - l)"
    using due by (auto simp: decision_due_def split: if_splits option.splits)
  moreover have "cd_mode (cr_state r) = Fast \<longrightarrow> usable i \<and> open_position i \<noteq> None
      \<and> (\<exists>t. cd_fast_started_at (cr_state r) = Some t \<and> ci_now_at i - t < 30000 \<and> (ci_now_at i - t < 10000 \<or> cr_triggers r \<noteq> []))"
    using nxt by (rule next_mode_cases) (auto simp: cfg)
  ultimately show ?thesis using interval by blast
qed

text \<open>The life of one cadence: observations and recorded decisions.\<close>

datatype cadence_op = Observe cadence_input | Decide time string

definition cadence_step :: "(manifest \<Rightarrow> string) \<Rightarrow> manifest \<Rightarrow> cadence \<Rightarrow> cadence_op \<Rightarrow> policy_error + cadence" where
  "cadence_step hash m s op = (case op of
     Observe i \<Rightarrow> bind_res (advanceJevCadence hash m s i) (\<lambda>r. Inr (cr_state r))
   | Decide at raw \<Rightarrow> recordJevDecision s at raw)"

lemma cadence_step_clock: "cadence_step hash m s op = Inr s' \<Longrightarrow> cd_observed_at s \<le> cd_observed_at s'"
proof (cases op)
  case (Observe i)
  assume "cadence_step hash m s op = Inr s'"
  with Observe obtain r where r: "advanceJevCadence hash m s i = Inr r" "s' = cr_state r" by (auto simp: cadence_step_def)
  from r(1) show ?thesis
  proof (rule advance_cases)
    assume "next_mode (mf_cadence m) i (ci_now_at i) (cr_triggers r) (s\<lparr>cd_observed_at := ci_now_at i\<rparr>) = Inr (cr_state r)"
      and le: "cd_observed_at s \<le> ci_now_at i"
    from this(1) show ?thesis by (rule next_mode_cases) (simp_all add: r(2) le)
  qed
qed (auto simp: cadence_step_def recordJevDecision_def)

definition cooling :: "time \<Rightarrow> cadence \<Rightarrow> bool" where
  "cooling u s \<longleftrightarrow> u \<le> cd_observed_at s \<and> (\<exists>c. cd_cooldown_until s = Some c \<and> u + 60000 \<le> c)"

lemma cooling_step:
  assumes "cooling u s" and "cadence_step hash m s op = Inr s'"
  shows "cooling u s' \<and> (cd_mode s = Slow \<longrightarrow> cd_mode s' = Fast \<longrightarrow> u + 60000 \<le> cd_observed_at s')"
proof (cases op)
  case (Observe i)
  with assms(2) obtain r where r: "advanceJevCadence hash m s i = Inr r" "s' = cr_state r" by (auto simp: cadence_step_def)
  from r(1) show ?thesis
  proof (rule advance_cases)
    fix h
    assume h: "validateJevManifest hash m = Inr h" and le: "cd_observed_at s \<le> ci_now_at i"
      and nxt: "next_mode (mf_cadence m) i (ci_now_at i) (cr_triggers r) (s\<lparr>cd_observed_at := ci_now_at i\<rparr>) = Inr (cr_state r)"
    from nxt show ?thesis
      by (rule next_mode_cases) (use assms(1) le cadence_settings [OF h] in \<open>force simp: cooling_def r(2)\<close>)+
  qed
next
  case (Decide at raw)
  with assms show ?thesis by (auto simp: cadence_step_def recordJevDecision_def cooling_def)
qed

text \<open>C33: Cooldown: once fast mode has ended, whatever is observed and decided afterwards, it is not entered
  again within a minute.\<close>

theorem cadence_cooldown:
  assumes "cadence_step hash m s op = Inr s1" and "cd_mode s = Fast" and "cd_mode s1 = Slow"
    and "fold_res (cadence_step hash m) s1 ops = Inr s2"
    and "cadence_step hash m s2 op' = Inr s3" and "cd_mode s2 = Slow" and "cd_mode s3 = Fast"
  shows "cd_observed_at s1 + 60000 \<le> cd_observed_at s3"
proof -
  from assms(1-3) obtain i r where r: "advanceJevCadence hash m s i = Inr r" "s1 = cr_state r"
    by (cases op) (auto simp: cadence_step_def recordJevDecision_def)
  from r(1) have "cooling (cd_observed_at s1) s1"
  proof (rule advance_cases)
    fix h
    assume h: "validateJevManifest hash m = Inr h"
      and "next_mode (mf_cadence m) i (ci_now_at i) (cr_triggers r) (s\<lparr>cd_observed_at := ci_now_at i\<rparr>) = Inr (cr_state r)"
    from this(2) show ?thesis
      by (rule next_mode_cases) (use assms(2,3) cadence_settings [OF h] in \<open>auto simp: cooling_def r(2)\<close>)
  qed
  then have "cooling (cd_observed_at s1) s2"
    by (rule fold_res_preserves [rotated, OF _ assms(4)]) (use cooling_step in blast)
  from cooling_step [OF this assms(5)] assms(6,7) show ?thesis by blast
qed

section \<open>A protected position and its cadence\<close>

definition sample_md :: venue_metadata where
  "sample_md = \<lparr>vm_instrument = sample_instrument\<lparr>tn_tick_size := amount_of USD_PER_BTC 1\<rparr>, vm_asset_index = Integral 0,
     vm_price_rules = \<lparr>max_decimals = Integral 6, max_significant_digits = Integral 38, integer_prices_exempt = True\<rparr>,
     vm_minimum_order_notional = amount_of USD 10, vm_maker_fee = amount_of RATE 1, vm_taker_fee = amount_of RATE 2\<rparr>"

lemma sample_md_fields:
  "tn_tick_size (vm_instrument sample_md) = amount_of USD_PER_BTC 1" "tn_quantity_step (vm_instrument sample_md) = amount_of BTC 2"
  "grid_digits (vm_price_rules sample_md) = Some (6, 38)" "tn_instrument_id (vm_instrument sample_md) = ''i''"
  "tn_instrument_version (vm_instrument sample_md) = ''v''"
  by (simp_all add: sample_md_def grid_digits_def sample_instrument_def)

lemma sample_venue_price: "venue_price sample_md p \<longleftrightarrow> 0 < p \<and> p < 10 ^ 38"
proof -
  have "sig_digits (nat p) \<le> 38" if "0 < p" "p < 10 ^ 38"
    using that sig_digits_le_length [of "nat p"] length_show_nat [of 38 "nat p"] by (simp add: nat_less_iff)
  then show ?thesis by (auto simp: venue_price_def sample_md_fields grid_price_def)
qed

definition sample_manifest :: manifest where
  "sample_manifest = template 1 60 full_information"

definition sample_hash_fun :: "manifest \<Rightarrow> string" where
  "sample_hash_fun m = ''h''"

lemma sample_manifest_ok: "validateJevManifest sample_hash_fun sample_manifest = Inr ''h''"
  by (simp add: validate_iff approved_iff sample_manifest_def initial_generator_def sample_hash_fun_def)

lemma sample_freshness: "mf_freshness sample_manifest = initial_freshness" "mf_cadence sample_manifest = initial_cadence"
  by (simp_all add: sample_manifest_def)

definition sample_protection_input :: protection_input where
  "sample_protection_input = \<lparr>pi_scope = sample_jev_scope, pi_position_id = ''p'', pi_direction = Long, pi_first_fill_at = 30,
     pi_first_fill_price = show_int 900, pi_quantity_btc = show_int 4, pi_atr14 = show_int 100, pi_atr_captured_at = 10,
     pi_decision_at = 20\<rparr>"

lemma sample_protection: "\<exists>p. initialJevProtection sample_hash_fun sample_manifest sample_protection_input sample_md = Inr p"
proof -
  obtain stop where stop: "gridPrice 700 1 Up sample_md = Some stop" "stop \<le> 700"
    using gridPrice_up_exists [of sample_md 700 700] by (auto simp: sample_venue_price sample_md_fields)
  have "xc_maximum_holding_ms (mf_exits sample_manifest) = 21600000" by (simp add: sample_manifest_def initial_exits_def)
  then show ?thesis
    using stop by (simp add: initialJevProtection_def sample_manifest_ok sample_protection_input_def sample_jev_scope_def
        sample_md_fields parse_raw_Inr canonical_show_int quantum_amount_of stop_beyond_def Let_def)
qed

theorem protection_stop_witness:
  "\<exists>p. initialJevProtection sample_hash_fun sample_manifest sample_protection_input sample_md = Inr p
     \<and> 700 \<le> read_int (pr_stop_price p) \<and> read_int (pr_stop_price p) < 900"
proof -
  obtain p where p: "initialJevProtection sample_hash_fun sample_manifest sample_protection_input sample_md = Inr p"
    using sample_protection by blast
  from protection_stop [OF p] p show ?thesis by (simp add: sample_protection_input_def)
qed

definition sample_held :: protection where
  "sample_held = \<lparr>pr_schema_version = ''btc.jev-protection.v1'', pr_manifest_hash = ''h'', pr_scope = sample_jev_scope,
     pr_position_id = ''p'', pr_direction = Long, pr_first_fill_at = 30, pr_first_fill_price = show_int 900,
     pr_entry_atr14 = show_int 100, pr_stop_price = show_int 700, pr_quantity_btc = show_int 4, pr_maximum_exit_at = 21600030\<rparr>"

definition sample_partial :: partial_fill where
  "sample_partial = \<lparr>pf_scope = sample_jev_scope, pf_position_id = ''p'', pf_occurred_at = 40, pf_quantity_btc = show_int 2\<rparr>"

theorem partials_keep_anchors_witness:
  "\<exists>p. fold_res (updateJevPartialProtection sample_md) sample_held [sample_partial, sample_partial] = Inr p
     \<and> read_int (pr_quantity_btc p) = 8"
proof -
  obtain p where p: "fold_res (updateJevPartialProtection sample_md) sample_held [sample_partial, sample_partial] = Inr p"
    by (simp add: updateJevPartialProtection_def sample_held_def sample_partial_def parse_raw_Inr canonical_show_int
        sample_md_fields quantum_amount_of)
  from partials_keep_anchors [OF p] have "read_int (pr_quantity_btc p) = 8" by (simp add: sample_held_def sample_partial_def)
  with p show ?thesis by blast
qed

theorem mandatory_exit_witness:
  "\<exists>d. jevMandatoryExit sample_hash_fun sample_manifest sample_held \<lparr>ex_now_at = 50, ex_mark_price = Some (show_int 700),
     ex_mark_at = Some 45, ex_protection_confirmed = True, ex_risk_blocked = False\<rparr> = Inr d \<and> xd_request_close d"
proof -
  let ?i = "\<lparr>ex_now_at = 50, ex_mark_price = Some (show_int 700), ex_mark_at = Some 45, ex_protection_confirmed = True,
    ex_risk_blocked = False\<rparr>"
  obtain d where d: "jevMandatoryExit sample_hash_fun sample_manifest sample_held ?i = Inr d"
    by (simp add: jevMandatoryExit_def sample_manifest_ok sample_held_def mark_reasons_def sample_freshness
        initial_freshness_def canonical_show_int Let_def)
  from mandatory_exit [OF d] d show ?thesis by (simp add: sample_held_def)
qed

lemma sample_md_instrument: "parse_instrument (vm_instrument sample_md) = Inr (vm_instrument sample_md)"
  by (simp add: parse_instrument_def instrument_shape_def sample_md_def sample_instrument_def sample_contract_id
      sameInstrument_def utc_milliseconds_def) (simp add: sample_data_def)

lemma sample_md_down: "0 < p \<Longrightarrow> p < 10 ^ 38 \<Longrightarrow> gridPrice p 1 Down sample_md = Some p"
proof -
  assume p: "0 < p" "p < 10 ^ 38"
  then have "venue_price sample_md p" by (simp add: sample_venue_price)
  then have g: "grid_price 1 (integer_prices_exempt (vm_price_rules sample_md)) 6 38 p"
    by (auto simp: venue_price_def sample_md_fields)
  have ten: "\<exists>j. (1 :: int) = 10 ^ j" by (rule exI [of _ 0]) simp
  note down = grid_down_exact [of p 1 1 "vm_price_rules sample_md" 6 38]
  show ?thesis
  proof (cases "gridPrice p 1 Down sample_md")
    case None
    then show ?thesis using down p g ten by (auto simp: gridPrice_def sample_md_fields)
  next
    case (Some q)
    then have "p \<le> q" using down p g ten by (auto simp: gridPrice_def sample_md_fields)
    with gridPrice_down(2) [OF Some] Some show ?thesis by simp
  qed
qed

theorem maker_quote_rests_witness:
  "\<exists>raw. quoteJevMaker Buy (show_int 10) (show_int 20) sample_md = Inr raw \<and> 10 < read_int raw \<and> read_int raw < 20"
proof -
  obtain raw where raw: "quoteJevMaker Buy (show_int 10) (show_int 20) sample_md = Inr raw"
    by (simp add: quoteJevMaker_def sample_md_instrument sample_md_down Let_def)
  from maker_quote_rests [OF raw] have "10 < read_int raw" "read_int raw < 20"
    by (auto simp: sample_venue_price dest: spec [of _ 11])
  with raw show ?thesis by blast
qed

definition sample_account_context :: account_context where
  "sample_account_context = \<lparr>ac_scope = sample_jev_scope, ac_observed_at = 0, ac_cash_usd = show_int 0, ac_equity_usd = None,
     ac_position = Some \<lparr>ps_position_id = ''p'', ps_direction = Long, ps_quantity_btc = show_int 4, ps_entry_price = show_int 900,
       ps_stop_price = show_int 700, ps_first_fill_at = 0\<rparr>,
     ac_entries_paused = False, ac_risk_blocked = False, ac_recovery_ready = True\<rparr>"

definition sample_observation :: "account_context option \<Rightarrow> time \<Rightarrow> cadence_input" where
  "sample_observation a at = \<lparr>ci_now_at = at, ci_account = a, ci_mark_price = Some (show_int 710), ci_atr14 = Some (show_int 100),
     ci_context_fresh = True\<rparr>"

definition sample_cadence :: "cadence_mode \<Rightarrow> time option \<Rightarrow> time option \<Rightarrow> cadence" where
  "sample_cadence md started cool = \<lparr>cd_schema_version = ''btc.jev-cadence.v1'', cd_manifest_hash = ''h'', cd_scope = sample_jev_scope,
     cd_observed_at = 0, cd_mode = md, cd_fast_started_at = started, cd_cooldown_until = cool, cd_last_decision_at = None,
     cd_reference_price = None\<rparr>"

lemmas sample_cadence_simps = advanceJevCadence_def sample_manifest_ok triggers_def trigger_list_def next_mode_def decision_due_def
  open_position_def usable_def sample_freshness initial_cadence_def sample_cadence_def sample_observation_def
  sample_account_context_def canonical_show_int Let_def

lemma sample_enter:
  assumes "0 \<le> observed" and "observed \<le> now" and "now \<le> 8640000000000000" and "\<And>c. cool = Some c \<Longrightarrow> 0 \<le> c \<and> c \<le> now"
  shows "advanceJevCadence sample_hash_fun sample_manifest ((sample_cadence Slow None cool)\<lparr>cd_observed_at := observed\<rparr>)
      (sample_observation (Some sample_account_context) now)
    = Inr \<lparr>cr_state = (sample_cadence Fast (Some now) cool)\<lparr>cd_observed_at := now\<rparr>, cr_interval_ms = 2000,
        cr_triggers = [''stop_proximity''], cr_due = True\<rparr>"
proof (cases cool)
  case None
  then show ?thesis using assms by (simp add: sample_cadence_simps ex_bool_eq)
next
  case (Some c)
  then show ?thesis using assms by (simp add: sample_cadence_simps ex_bool_eq)
qed

theorem cadence_fast_bounded_witness:
  "\<exists>r. advanceJevCadence sample_hash_fun sample_manifest (sample_cadence Slow None None)
    (sample_observation (Some sample_account_context) 10) = Inr r \<and> cr_interval_ms r = 2000"
proof -
  have "(sample_cadence Slow None None)\<lparr>cd_observed_at := 0\<rparr> = sample_cadence Slow None None" by (simp add: sample_cadence_def)
  with sample_enter [of 0 10 None] obtain r where r: "advanceJevCadence sample_hash_fun sample_manifest (sample_cadence Slow None None)
    (sample_observation (Some sample_account_context) 10) = Inr r" "cd_mode (cr_state r) = Fast" by (simp add: sample_cadence_def)
  from cadence_fast_bounded [OF r(1)] r show ?thesis by auto
qed

theorem cadence_cooldown_witness:
  "\<exists>s1 s3. cadence_step sample_hash_fun sample_manifest (sample_cadence Fast (Some 0) None) (Observe (sample_observation None 30000)) = Inr s1
     \<and> cadence_step sample_hash_fun sample_manifest s1 (Observe (sample_observation (Some sample_account_context) 90000)) = Inr s3
     \<and> cd_observed_at s1 + 60000 \<le> cd_observed_at s3"
proof -
  let ?step = "cadence_step sample_hash_fun sample_manifest"
  obtain s1 where s1: "?step (sample_cadence Fast (Some 0) None) (Observe (sample_observation None 30000)) = Inr s1"
    "s1 = (sample_cadence Slow None (Some 90000))\<lparr>cd_observed_at := 30000\<rparr>"
    by (simp add: cadence_step_def sample_cadence_simps)
  obtain s3 where s3: "?step s1 (Observe (sample_observation (Some sample_account_context) 90000)) = Inr s3" "cd_mode s3 = Fast"
    using sample_enter [of 30000 90000 "Some 90000"] by (simp add: s1(2) cadence_step_def sample_cadence_def)
  have "cd_mode (sample_cadence Fast (Some 0) None) = Fast" "cd_mode s1 = Slow"
    by (simp_all add: sample_cadence_def s1(2))
  from cadence_cooldown [OF s1(1) this fold_res.simps(1) s3(1) this(2) s3(2)] s1(1) s3(1) show ?thesis by blast
qed

end
