(* ===== verification/JevRisk.thy ===== *)
theory JevRisk
  imports Amounts Risk
begin

text \<open>
  The risk checkpoint of the JEV account, \<open>apps/api/src/trading/jev-risk.ts\<close>. Amounts are the raw
  strings of the source and are parsed by \<open>riskRaw\<close>; days are UTC day numbers. The invariant of
  \<open>jev_step\<close> over a history ties the high-water mark, the fixed drawdown latch and the daily
  pause to the equities observed.
\<close>

record jev_checkpoint =
  jc_version :: string
  jc_day :: int
  jc_observed_at :: time
  jc_ledger_sequence :: string
  jc_equity :: "string option"
  jc_daily_anchor :: "string option"
  jc_high_water :: string
  jc_drawdown_floor :: string
  jc_daily_pause_day :: "int option"
  jc_drawdown_blocked :: bool
  jc_history_complete :: bool
  jc_entries_paused :: bool
  jc_cancel_entries :: bool
  jc_request_close :: bool
  jc_reasons :: "string list"

record jev_input =
  ji_now_at :: time
  ji_ledger_sequence :: string
  ji_equity :: "string option"
  ji_daily_anchor :: "string option"
  ji_initial_equity :: string
  ji_history_complete :: bool
  ji_fresh :: bool
  ji_reconciled :: bool
  ji_flat :: bool
  ji_global_blocked :: bool

datatype jev_error = AMOUNT | TIME | CLOCK_OR_SEQUENCE

definition jev_risk_version :: string where
  "jev_risk_version = ''btc.jev-risk.v1''"

definition riskRaw :: "string \<Rightarrow> jev_error + int" where
  "riskRaw raw = require (canonical_integer raw \<and> length raw \<le> 39) AMOUNT (Inr (read_int raw))"

definition riskTime :: "time \<Rightarrow> jev_error + time" where
  "riskTime n = require (\<bar>n\<bar> \<le> 9007199254740991 \<and> n \<ge> 0) TIME (Inr n)"

definition riskRaw_opt :: "string option \<Rightarrow> jev_error + int option" where
  "riskRaw_opt raw = (case raw of None \<Rightarrow> Inr None | Some s \<Rightarrow> bind_res (riskRaw s) (\<lambda>n. Inr (Some n)))"

text \<open>The previous checkpoint must be of this policy and not after the observation.\<close>

definition previous_ok :: "jev_checkpoint option \<Rightarrow> jev_input \<Rightarrow> jev_error + unit" where
  "previous_ok p i = (case p of None \<Rightarrow> Inr ()
   | Some c \<Rightarrow>
       if jc_version c \<noteq> jev_risk_version then Inl CLOCK_OR_SEQUENCE
       else
         bind_res (riskTime (jc_observed_at c)) (\<lambda>then_at.
         bind_res (riskTime (ji_now_at i)) (\<lambda>now_at.
         if \<not> then_at \<le> now_at then Inl CLOCK_OR_SEQUENCE
         else
           bind_res (riskRaw (jc_ledger_sequence c)) (\<lambda>a.
           bind_res (riskRaw (ji_ledger_sequence i)) (\<lambda>b.
           require (a \<le> b) CLOCK_OR_SEQUENCE (Inr ()))))))"

definition day_anchor :: "jev_checkpoint option \<Rightarrow> jev_input \<Rightarrow> string option" where
  "day_anchor p i = (case p of None \<Rightarrow> ji_daily_anchor i
     | Some c \<Rightarrow> if jc_day c = utc_day (ji_now_at i) then jc_daily_anchor c else ji_daily_anchor i)"

definition daily_breach :: "int option \<Rightarrow> string option \<Rightarrow> jev_error + bool" where
  "daily_breach e anchor = (case (e, anchor) of
     (Some n, Some a) \<Rightarrow>
       (if n \<le> 0 then Inr True else bind_res (riskRaw a) (\<lambda>m. Inr ((m - n) * 10000 \<ge> m * 200)))
   | _ \<Rightarrow> Inr False)"

definition kept_pause :: "jev_checkpoint option \<Rightarrow> jev_input \<Rightarrow> int option" where
  "kept_pause p i = (case p of None \<Rightarrow> None | Some c \<Rightarrow> (case jc_daily_pause_day c of None \<Rightarrow> None
     | Some d \<Rightarrow>
         if d < utc_day (ji_now_at i) \<and> ji_flat i \<and> ji_reconciled i \<and> ji_fresh i \<and> \<not> ji_global_blocked i
            \<and> day_anchor p i \<noteq> None
         then None else Some d))"

definition jev_reasons :: "bool \<Rightarrow> string option \<Rightarrow> int option \<Rightarrow> bool \<Rightarrow> jev_input \<Rightarrow> string list" where
  "jev_reasons history anchor dailyPause dd i =
     (if \<not> history then [''HISTORY_UNOBSERVED''] else [])
     @ (if anchor = None then [''UTC_ANCHOR_UNKNOWN''] else [])
     @ (if dailyPause \<noteq> None then [''DAILY_LOSS''] else [])
     @ (if dd then [''FIXED_DRAWDOWN''] else [])
     @ (if ji_global_blocked i then [''GLOBAL_BLOCK''] else [])
     @ (if \<not> ji_reconciled i then [''RECONCILIATION_REQUIRED''] else [])
     @ (if \<not> ji_fresh i \<or> ji_equity i = None then [''DATA_UNAVAILABLE''] else [])"

definition jevRiskCheckpoint :: "jev_checkpoint option \<Rightarrow> jev_input \<Rightarrow> jev_error + jev_checkpoint" where
  "jevRiskCheckpoint p i =
     bind_res (riskTime (ji_now_at i)) (\<lambda>now_at.
     bind_res (previous_ok p i) (\<lambda>_.
     bind_res (riskRaw (case p of None \<Rightarrow> ji_initial_equity i | Some c \<Rightarrow> jc_high_water c)) (\<lambda>high0.
     bind_res (riskRaw_opt (ji_equity i)) (\<lambda>e.
     let day = utc_day now_at;
         anchor = day_anchor p i;
         high = (case e of None \<Rightarrow> high0 | Some n \<Rightarrow> if n > high0 then n else high0)
     in bind_res (daily_breach e anchor) (\<lambda>breach.
     let dailyPause = (if breach then Some day else kept_pause p i);
         dd = ((case p of None \<Rightarrow> False | Some c \<Rightarrow> jc_drawdown_blocked c)
               \<or> (case e of None \<Rightarrow> False | Some n \<Rightarrow> n \<le> high - 12500000));
         history = ((case p of None \<Rightarrow> ji_history_complete i | Some c \<Rightarrow> jc_history_complete c)
               \<and> ji_history_complete i);
         reasons = jev_reasons history anchor dailyPause dd i;
         paused = (length reasons > 0)
     in Inr \<lparr>jc_version = jev_risk_version, jc_day = day, jc_observed_at = ji_now_at i,
          jc_ledger_sequence = ji_ledger_sequence i, jc_equity = ji_equity i, jc_daily_anchor = anchor,
          jc_high_water = show_int high, jc_drawdown_floor = show_int (high - 12500000),
          jc_daily_pause_day = dailyPause, jc_drawdown_blocked = dd, jc_history_complete = history,
          jc_entries_paused = paused, jc_cancel_entries = paused,
          jc_request_close = (paused \<and> \<not> ji_flat i), jc_reasons = reasons\<rparr>)))))"

section \<open>The latches over a history\<close>

definition jev_step :: "jev_checkpoint option \<Rightarrow> jev_input \<Rightarrow> jev_error + jev_checkpoint option" where
  "jev_step p i = bind_res (jevRiskCheckpoint p i) (\<lambda>c. Inr (Some c))"

definition equity_of :: "jev_input \<Rightarrow> int option" where
  "equity_of i = map_option read_int (ji_equity i)"

text \<open>The highest of the initial equity and every equity observed, and whether some observation was
  12.5 dollars or more below the peak at that time.\<close>

definition peak :: "jev_input list \<Rightarrow> int" where
  "peak h = foldl (\<lambda>m i. case equity_of i of None \<Rightarrow> m | Some e \<Rightarrow> max e m) (read_int (ji_initial_equity (hd h))) h"

definition fell :: "jev_input list \<Rightarrow> bool" where
  "fell h \<longleftrightarrow> (\<exists>k < length h. \<exists>e. equity_of (h ! k) = Some e \<and> e \<le> peak (take (Suc k) h) - 12500000)"

lemma peak_snoc:
  "peak (h @ [i]) = (let m = (if h = [] then read_int (ji_initial_equity i) else peak h)
     in case equity_of i of None \<Rightarrow> m | Some e \<Rightarrow> max e m)"
  by (cases h) (auto simp: peak_def Let_def split: option.splits)

lemma fell_snoc:
  "fell (h @ [i]) \<longleftrightarrow> fell h \<or> (\<exists>e. equity_of i = Some e \<and> e \<le> peak (h @ [i]) - 12500000)"
proof -
  have "fell (h @ [i]) \<longleftrightarrow> (\<exists>k < length h. \<exists>e. equity_of (h ! k) = Some e \<and> e \<le> peak (take (Suc k) h) - 12500000)
      \<or> (\<exists>e. equity_of i = Some e \<and> e \<le> peak (h @ [i]) - 12500000)"
    by (auto simp: fell_def less_Suc_eq nth_append)
  then show ?thesis by (simp add: fell_def)
qed

lemma riskRaw_Inr [simp]: "riskRaw s = Inr n \<longleftrightarrow> canonical_integer s \<and> length s \<le> 39 \<and> n = read_int s"
  by (auto simp: riskRaw_def)

lemma riskRaw_opt_Inr: "riskRaw_opt s = Inr e \<Longrightarrow> e = map_option read_int s"
  by (cases s) (auto simp: riskRaw_opt_def)

lemma jevRiskCheckpoint_cases:
  assumes "jevRiskCheckpoint p i = Inr c"
  obtains high0 breach where "high0 = read_int (case p of None \<Rightarrow> ji_initial_equity i | Some q \<Rightarrow> jc_high_water q)"
    and "daily_breach (equity_of i) (day_anchor p i) = Inr breach"
    and "read_int (jc_high_water c) = (case equity_of i of None \<Rightarrow> high0 | Some n \<Rightarrow> max n high0)"
    and "read_int (jc_drawdown_floor c) = read_int (jc_high_water c) - 12500000"
    and "jc_daily_pause_day c = (if breach then Some (utc_day (ji_now_at i)) else kept_pause p i)"
    and "jc_drawdown_blocked c \<longleftrightarrow> (case p of None \<Rightarrow> False | Some q \<Rightarrow> jc_drawdown_blocked q)
      \<or> (case equity_of i of None \<Rightarrow> False | Some n \<Rightarrow> n \<le> read_int (jc_high_water c) - 12500000)"
    and "jc_history_complete c \<longleftrightarrow> (case p of None \<Rightarrow> True | Some q \<Rightarrow> jc_history_complete q) \<and> ji_history_complete i"
    and "jc_reasons c = jev_reasons (jc_history_complete c) (day_anchor p i) (jc_daily_pause_day c) (jc_drawdown_blocked c) i"
    and "jc_entries_paused c = (jc_reasons c \<noteq> [])" and "jc_cancel_entries c = jc_entries_paused c"
    and "jc_request_close c = (jc_entries_paused c \<and> \<not> ji_flat i)"
    and "previous_ok p i = Inr ()"
proof -
  from assms obtain now_at high0 e where t: "riskTime (ji_now_at i) = Inr now_at" and ok: "previous_ok p i = Inr ()"
    and h: "riskRaw (case p of None \<Rightarrow> ji_initial_equity i | Some q \<Rightarrow> jc_high_water q) = Inr high0"
    and e: "riskRaw_opt (ji_equity i) = Inr e"
    by (auto simp: jevRiskCheckpoint_def)
  have e': "e = equity_of i" using riskRaw_opt_Inr [OF e] by (simp add: equity_of_def)
  have t': "now_at = ji_now_at i" using t by (simp add: riskTime_def)
  from assms obtain breach where b: "daily_breach (equity_of i) (day_anchor p i) = Inr breach"
    unfolding jevRiskCheckpoint_def Let_def t ok h e bind_res_simps e' [symmetric] by auto
  have hist: "((case p of None \<Rightarrow> ji_history_complete i | Some c \<Rightarrow> jc_history_complete c) \<and> ji_history_complete i)
      \<longleftrightarrow> (case p of None \<Rightarrow> True | Some q \<Rightarrow> jc_history_complete q) \<and> ji_history_complete i"
    by (cases p) auto
  have m: "(case equity_of i of None \<Rightarrow> high0 | Some n \<Rightarrow> if n > high0 then n else high0)
      = (case equity_of i of None \<Rightarrow> high0 | Some n \<Rightarrow> max n high0)"
    by (auto simp: max_def split: option.splits)
  have c: "jc_high_water c = show_int (case equity_of i of None \<Rightarrow> high0 | Some n \<Rightarrow> max n high0)
    \<and> jc_drawdown_floor c = show_int ((case equity_of i of None \<Rightarrow> high0 | Some n \<Rightarrow> max n high0) - 12500000)
    \<and> jc_daily_pause_day c = (if breach then Some (utc_day (ji_now_at i)) else kept_pause p i)
    \<and> jc_drawdown_blocked c = ((case p of None \<Rightarrow> False | Some q \<Rightarrow> jc_drawdown_blocked q)
      \<or> (case equity_of i of None \<Rightarrow> False
         | Some n \<Rightarrow> n \<le> (case equity_of i of None \<Rightarrow> high0 | Some n \<Rightarrow> max n high0) - 12500000))
    \<and> jc_history_complete c = ((case p of None \<Rightarrow> True | Some q \<Rightarrow> jc_history_complete q) \<and> ji_history_complete i)
    \<and> jc_reasons c = jev_reasons (jc_history_complete c) (day_anchor p i) (jc_daily_pause_day c) (jc_drawdown_blocked c) i
    \<and> jc_entries_paused c = (jc_reasons c \<noteq> []) \<and> jc_cancel_entries c = jc_entries_paused c
    \<and> jc_request_close c = (jc_entries_paused c \<and> \<not> ji_flat i)"
    using assms
    unfolding jevRiskCheckpoint_def Let_def t ok h e bind_res_simps e' t' b hist m by auto
  then have hw: "read_int (jc_high_water c) = (case equity_of i of None \<Rightarrow> high0 | Some n \<Rightarrow> max n high0)" by simp
  show thesis
    by (rule that [of high0 breach]) (use c h ok b in \<open>simp_all add: hw cong: option.case_cong\<close>)
qed

definition jev_inv :: "jev_input list \<Rightarrow> jev_checkpoint option \<Rightarrow> bool" where
  "jev_inv h s \<longleftrightarrow> (case s of None \<Rightarrow> h = [] | Some c \<Rightarrow> h \<noteq> []
     \<and> read_int (jc_high_water c) = peak h \<and> read_int (jc_drawdown_floor c) = peak h - 12500000
     \<and> (jc_drawdown_blocked c \<longleftrightarrow> fell h)
     \<and> (jc_history_complete c \<longleftrightarrow> list_all ji_history_complete h)
     \<and> (jc_drawdown_blocked c \<or> \<not> jc_history_complete c \<or> jc_daily_pause_day c \<noteq> None \<longrightarrow> jc_entries_paused c)
     \<and> (jc_entries_paused c \<longrightarrow> jc_cancel_entries c \<and> (ji_flat (last h) \<or> jc_request_close c)))"

interpretation jev: history_reducer jev_step None jev_inv
proof (unfold_locales)
  show "jev_inv [] None" by (simp add: jev_inv_def)
next
  fix h s i s'
  assume inv: "jev_inv h s" and s': "jev_step s i = Inr s'"
  then obtain c where c: "jevRiskCheckpoint s i = Inr c" "s' = Some c" by (auto simp: jev_step_def)
  from jevRiskCheckpoint_cases [OF c(1)] obtain high0
    where h0: "high0 = read_int (case s of None \<Rightarrow> ji_initial_equity i | Some q \<Rightarrow> jc_high_water q)"
    and hw: "read_int (jc_high_water c) = (case equity_of i of None \<Rightarrow> high0 | Some n \<Rightarrow> max n high0)"
    and fl: "read_int (jc_drawdown_floor c) = read_int (jc_high_water c) - 12500000"
    and dd: "jc_drawdown_blocked c \<longleftrightarrow> (case s of None \<Rightarrow> False | Some q \<Rightarrow> jc_drawdown_blocked q)
      \<or> (case equity_of i of None \<Rightarrow> False | Some n \<Rightarrow> n \<le> read_int (jc_high_water c) - 12500000)"
    and hc: "jc_history_complete c \<longleftrightarrow> (case s of None \<Rightarrow> True | Some q \<Rightarrow> jc_history_complete q) \<and> ji_history_complete i"
    and rs: "jc_reasons c = jev_reasons (jc_history_complete c) (day_anchor s i) (jc_daily_pause_day c) (jc_drawdown_blocked c) i"
    and fin: "jc_entries_paused c = (jc_reasons c \<noteq> [])" "jc_cancel_entries c = jc_entries_paused c"
      "jc_request_close c = (jc_entries_paused c \<and> \<not> ji_flat i)"
    by metis
  have "high0 = (if h = [] then read_int (ji_initial_equity i) else peak h)"
    using inv h0 by (cases s) (simp_all add: jev_inv_def)
  then have pk: "read_int (jc_high_water c) = peak (h @ [i])"
    by (simp add: hw peak_snoc Let_def split: option.splits)
  have "(case s of None \<Rightarrow> False | Some q \<Rightarrow> jc_drawdown_blocked q) \<longleftrightarrow> fell h"
    using inv by (cases s) (simp_all add: jev_inv_def fell_def [of "[]"])
  then have "fell (h @ [i]) \<longleftrightarrow> jc_drawdown_blocked c"
    by (auto simp: dd fell_snoc pk split: option.splits)
  moreover have "list_all ji_history_complete (h @ [i]) \<longleftrightarrow> jc_history_complete c"
    using inv by (cases s) (auto simp: hc jev_inv_def)
  moreover have "jc_drawdown_blocked c \<or> \<not> jc_history_complete c \<or> jc_daily_pause_day c \<noteq> None \<Longrightarrow> jc_entries_paused c"
    by (auto simp: fin(1) rs jev_reasons_def)
  ultimately show "jev_inv (h @ [i]) s'"
    using pk fl fin(2,3) by (simp add: jev_inv_def c(2))
qed

text \<open>the fixed-dollar drawdown latch is exact and permanent. After any history the high-water
  mark is the highest of the initial and all observed equities, and the account is blocked
  exactly when some observation was 12.5 dollars or more below the peak of its time; a blocked
  account, one with an unobserved stretch of history, or one in a daily pause, has its entries paused,
  its pending entries cancelled and, unless flat, its close requested.\<close>

theorem jev_drawdown_exact:
  assumes "fold_res jev_step None inputs = Inr (Some c)"
  shows "read_int (jc_high_water c) = peak inputs
    \<and> (jc_drawdown_blocked c \<longleftrightarrow> fell inputs)
    \<and> (jc_history_complete c \<longleftrightarrow> list_all ji_history_complete inputs)
    \<and> (jc_drawdown_blocked c \<or> \<not> jc_history_complete c \<or> jc_daily_pause_day c \<noteq> None \<longrightarrow>
        jc_entries_paused c \<and> jc_cancel_entries c \<and> (ji_flat (last inputs) \<or> jc_request_close c))"
  using jev.run_inv [OF assms] by (auto simp: jev_inv_def)

lemma daily_breach_Inr:
  "daily_breach e anchor = Inr b \<Longrightarrow> b \<longleftrightarrow> (\<exists>n a. e = Some n \<and> anchor = Some a
     \<and> (n \<le> 0 \<or> read_int a * 200 \<le> (read_int a - n) * 10000))"
  by (auto simp: daily_breach_def split: option.splits if_splits)

text \<open>a daily loss pauses the account for the rest of its UTC day. A breach of two percent of
  the day's anchor, or a nonpositive equity, sets the pause to the day of the observation; a pause
  once set stays or moves to a later breach, and is cleared only on a later day, when the account
  is flat, reconciled, fresh, not globally blocked and has a known anchor it does not breach.\<close>

theorem jev_daily_pause:
  assumes "jevRiskCheckpoint (Some p) i = Inr c"
  defines "day \<equiv> utc_day (ji_now_at i)" and "anchor \<equiv> day_anchor (Some p) i"
  defines "breach \<equiv> \<exists>n a. equity_of i = Some n \<and> anchor = Some a
      \<and> (n \<le> 0 \<or> read_int a * 200 \<le> (read_int a - n) * 10000)"
  shows "(breach \<longrightarrow> jc_daily_pause_day c = Some day)
    \<and> (\<not> breach \<longrightarrow> jc_daily_pause_day c = jc_daily_pause_day p
        \<or> jc_daily_pause_day c = None \<and> (\<exists>d. jc_daily_pause_day p = Some d \<and> d < day) \<and> anchor \<noteq> None
          \<and> ji_flat i \<and> ji_reconciled i \<and> ji_fresh i \<and> \<not> ji_global_blocked i)
    \<and> jc_observed_at p \<le> ji_now_at i"
proof -
  obtain b where b: "daily_breach (equity_of i) anchor = Inr b"
    and p: "jc_daily_pause_day c = (if b then Some day else kept_pause (Some p) i)"
    and ok: "previous_ok (Some p) i = Inr ()"
    using jevRiskCheckpoint_cases [OF assms(1)] unfolding day_def anchor_def by metis
  have breach: "breach \<longleftrightarrow> b" using daily_breach_Inr [OF b] by (simp add: breach_def)
  have "jc_observed_at p \<le> ji_now_at i"
    using ok by (auto simp: previous_ok_def riskTime_def split: if_splits)
  then show ?thesis
    using p by (auto simp: breach kept_pause_def anchor_def day_def split: option.splits if_splits)
qed

definition sample_jev_input :: "time \<Rightarrow> string \<Rightarrow> jev_input" where
  "sample_jev_input t e = \<lparr>ji_now_at = t, ji_ledger_sequence = ''3'', ji_equity = Some e,
     ji_daily_anchor = Some ''9'', ji_initial_equity = ''9'', ji_history_complete = True,
     ji_fresh = True, ji_reconciled = True, ji_flat = True, ji_global_blocked = False\<rparr>"

lemma sample_raw: "canonical_integer ''9''" "read_int ''9'' = 9" "canonical_integer ''3''" "read_int ''3'' = 3"
  by (simp_all add: canonical_integer_def is_digit_def read_nat_def digit_val_def)

lemma riskRaw_sample: "riskRaw ''9'' = Inr 9" "riskRaw ''3'' = Inr 3"
  by (simp_all add: sample_raw riskRaw_def digit_val_def)

lemma sample_jev_first: "\<exists>c. jevRiskCheckpoint None (sample_jev_input 1000 ''9'') = Inr c
    \<and> jc_version c = jev_risk_version \<and> jc_observed_at c = 1000 \<and> jc_ledger_sequence c = ''3'' \<and> jc_high_water c = show_int 9
    \<and> jc_day c = 0 \<and> jc_daily_anchor c = Some ''9'' \<and> jc_daily_pause_day c = None"
  by (simp add: jevRiskCheckpoint_def sample_jev_input_def riskTime_def previous_ok_def riskRaw_opt_def
      daily_breach_def day_anchor_def kept_pause_def utc_day_def Let_def riskRaw_sample)

theorem jev_drawdown_exact_witness:
  "\<exists>c. fold_res jev_step None [sample_jev_input 1000 ''9''] = Inr (Some c)
    \<and> read_int (jc_high_water c) = peak [sample_jev_input 1000 ''9'']"
proof -
  obtain c where "jevRiskCheckpoint None (sample_jev_input 1000 ''9'') = Inr c" using sample_jev_first by blast
  then have "fold_res jev_step None [sample_jev_input 1000 ''9''] = Inr (Some c)" by (simp add: jev_step_def)
  with jev_drawdown_exact [OF this] show ?thesis by blast
qed

theorem jev_daily_pause_witness:
  "\<exists>p c. jevRiskCheckpoint (Some p) (sample_jev_input 2000 ''3'') = Inr c \<and> jc_daily_pause_day c = Some 0"
proof -
  from sample_jev_first obtain p :: jev_checkpoint where p: "jc_version p = jev_risk_version" "jc_observed_at p = 1000"
    "jc_ledger_sequence p = ''3''" "jc_high_water p = show_int 9" "jc_day p = 0" "jc_daily_anchor p = Some ''9''"
    "jc_daily_pause_day p = None"
    by auto
  have hw: "show_int 9 = ''9''" using canonical_show_read [OF sample_raw(1)] by (simp only: sample_raw)
  have anchor: "day_anchor (Some p) (sample_jev_input 2000 ''3'') = Some ''9''"
    by (simp add: day_anchor_def sample_jev_input_def p utc_day_def)
  obtain c where c: "jevRiskCheckpoint (Some p) (sample_jev_input 2000 ''3'') = Inr c"
    by (simp add: jevRiskCheckpoint_def sample_jev_input_def riskTime_def previous_ok_def riskRaw_opt_def
      daily_breach_def day_anchor_def kept_pause_def utc_day_def Let_def riskRaw_sample p hw)
  have e: "equity_of (sample_jev_input 2000 ''3'') = Some 3"
    by (simp add: equity_of_def sample_jev_input_def sample_raw digit_val_def)
  have day: "utc_day (ji_now_at (sample_jev_input 2000 ''3'')) = 0" by (simp add: sample_jev_input_def utc_day_def)
  have "jc_daily_pause_day c = Some 0"
    using jev_daily_pause [OF c] by (simp add: anchor e sample_raw digit_val_def day)
  with c show ?thesis by blast
qed

end
