(* ===== verification/JevSizing.thy ===== *)
theory JevSizing
  imports JevPolicy JevRisk
begin

text \<open>
  The size of a JEV entry, \<open>apps/api/src/storage/jev-sizing.ts\<close>: planned costs with each liability rounded
  up, a binary search over lots, and the venue check of the result. Amounts are raw strings parsed by
  \<open>riskRaw\<close>; \<open>lot_search\<close> is the \<open>while\<close> loop over its two bounds.
\<close>

record sizing_input =
  sz_scope :: jev_scope
  sz_order_id :: ident
  sz_decision_id :: ident
  sz_decision_at :: time
  sz_entry_price :: string
  sz_direction :: position_direction
  sz_atr14 :: string
  sz_atr_captured_at :: time
  sz_maker_fee :: "string option"
  sz_exit_fee :: "string option"
  sz_funding_debit :: "string option"
  sz_cost_evidence_id :: ident

record entry_plan =
  ep_version :: string
  ep_policy_version :: string
  ep_manifest_hash :: string
  ep_input :: sizing_input
  ep_equity :: string
  ep_quantity :: int
  ep_entry_notional :: int
  ep_stop_price :: int
  ep_worst_exit_price :: int
  ep_planned_loss :: int
  ep_planned_entry_fee :: int
  ep_planned_exit_fee :: int
  ep_planned_funding :: int
  ep_total_risk :: int

datatype sizing_error = SIZING_IDENTITY | SIZING_GRID | COST_UNKNOWN | COST_RATE | STOP_SLIPPAGE_GRID | STOP_DISTANCE
  | VENUE_MINIMUM_OR_BUDGET | PLAN_HASH | Risk_Error jev_error | Policy_Error policy_error
  | Size_Manifest manifest_error | Size_Contract contract_error | Size_Amount amount_error

definition raw_of :: "string \<Rightarrow> sizing_error + int" where
  "raw_of s = with_error Risk_Error (riskRaw s)"

definition ceil :: "int \<Rightarrow> int \<Rightarrow> int" where
  "ceil n d = (n + d - 1) sdiv d"

text \<open>The terms of an entry that do not depend on its size.\<close>

record entry_terms =
  et_price :: int
  et_distance :: int
  et_fee_exit_price :: int
  et_maker :: int
  et_exit :: int
  et_funding :: int
  et_multiplier :: int

record planned_costs =
  co_loss :: int
  co_entry_fee :: int
  co_exit_fee :: int
  co_funding :: int
  co_total :: int

definition costs :: "entry_terms \<Rightarrow> int \<Rightarrow> planned_costs" where
  "costs t q =
     (let loss = ceil (q * et_distance t) 100000000;
          entryFee = ceil (q * et_price t * et_maker t * et_multiplier t) 100000000000000000;
          exitFee = ceil (q * et_fee_exit_price t * et_exit t * et_multiplier t) 100000000000000000;
          plannedFunding = ceil (q * et_fee_exit_price t * et_funding t) 100000000000000000
      in \<lparr>co_loss = loss, co_entry_fee = entryFee, co_exit_fee = exitFee, co_funding = plannedFunding,
          co_total = loss + entryFee + exitFee + plannedFunding\<rparr>)"

definition within_risk :: "entry_terms \<Rightarrow> int \<Rightarrow> int \<Rightarrow> int \<Rightarrow> bool" where
  "within_risk t e step lots = (co_total (costs t (lots * step)) * 10000 \<le> e * 100)"

function lot_search :: "(int \<Rightarrow> bool) \<Rightarrow> int \<Rightarrow> int \<Rightarrow> int" where
  "lot_search ok low high =
     (if low < high then
        (let mid = (low + high + 1) sdiv 2
         in if ok mid then lot_search ok mid high else lot_search ok low (mid - 1))
      else low)"
  by pat_completeness auto

lemma mid_between: "low < high \<Longrightarrow> low < (low + high + 1) sdiv 2 \<and> (low + high + 1) sdiv 2 \<le> high" for low high :: int
proof -
  assume lt: "low < high"
  let ?n = "low + high + 1"
  have "?n sdiv 2 = ?n div 2 + (if ?n < 0 \<and> ?n smod 2 \<noteq> 0 then 1 else 0)"
    using trunc_floor [of 2 ?n] by linarith
  moreover have "?n smod 2 \<noteq> 0 \<longleftrightarrow> \<not> 2 dvd ?n" by (simp add: smod_eq_0_iff)
  ultimately show ?thesis using lt by (auto simp: dvd_def split: if_splits) presburger+
qed

termination lot_search
  by (relation "measure (\<lambda>(ok, low, high). nat (high - low))") (use mid_between in \<open>force simp: Let_def\<close>)+

declare lot_search.simps [simp del]

definition maximum_lots :: "int \<Rightarrow> int \<Rightarrow> int \<Rightarrow> int" where
  "maximum_lots e price step = (((e * 5000) sdiv 10000) * 100000000) sdiv (price * step)"

definition order_metadata :: "venue_metadata \<Rightarrow> instrument_metadata" where
  "order_metadata md = \<lparr>im_tick_size = tn_tick_size (vm_instrument md), im_quantity_step = tn_quantity_step (vm_instrument md),
     im_price_rules = vm_price_rules md, im_minimum_order_notional = vm_minimum_order_notional md\<rparr>"

definition sizing_rates :: "venue_metadata \<Rightarrow> sizing_input \<Rightarrow> sizing_error + (int \<times> int \<times> int)" where
  "sizing_rates md i = (case (sz_maker_fee i, sz_exit_fee i, sz_funding_debit i) of
     (Some mk, Some ex, Some fu) \<Rightarrow>
       bind_res (raw_of mk) (\<lambda>maker.
       bind_res (raw_of ex) (\<lambda>exit_rate.
       bind_res (raw_of fu) (\<lambda>funding.
       bind_res (raw_of (ta_raw (vm_maker_fee md))) (\<lambda>venue_maker.
       bind_res (raw_of (ta_raw (vm_taker_fee md))) (\<lambda>venue_taker.
       require (maker \<ge> venue_maker \<and> exit_rate \<ge> venue_taker \<and> maker \<le> 1000000000 \<and> exit_rate \<le> 1000000000
           \<and> funding \<ge> 0 \<and> funding \<le> 1000000000) COST_RATE
         (Inr (maker, exit_rate, funding)))))))
   | _ \<Rightarrow> Inl COST_UNKNOWN)"

text \<open>The stop, the worst exit price ten percent beyond it, and the terms they give.\<close>

definition sizing_terms ::
  "(manifest \<Rightarrow> string) \<Rightarrow> manifest \<Rightarrow> venue_metadata \<Rightarrow> sizing_input \<Rightarrow> int \<Rightarrow> int \<Rightarrow> int \<times> int \<times> int \<Rightarrow> sizing_error + (int \<times> int \<times> entry_terms)" where
  "sizing_terms hash m md i price step = (\<lambda>(maker, exit_rate, funding).
     bind_res (with_error Policy_Error (initialJevProtection hash m
        \<lparr>pi_scope = sz_scope i, pi_position_id = sz_order_id i, pi_direction = sz_direction i,
         pi_first_fill_at = sz_decision_at i, pi_first_fill_price = sz_entry_price i, pi_quantity_btc = show_int step,
         pi_atr14 = sz_atr14 i, pi_atr_captured_at = sz_atr_captured_at i, pi_decision_at = sz_decision_at i\<rparr> md)) (\<lambda>p.
     bind_res (raw_of (pr_stop_price p)) (\<lambda>stop.
     case gridPrice (stop * (if sz_direction i = Long then 9 else 11)) 10 (if sz_direction i = Long then Down else Up) md of
       None \<Rightarrow> Inl STOP_SLIPPAGE_GRID
     | Some worst \<Rightarrow>
         require (worst > 0) STOP_SLIPPAGE_GRID
         (let distance = (if sz_direction i = Long then price - worst else worst - price) in
          require (distance > 0) STOP_DISTANCE
          (Inr (stop, worst, \<lparr>et_price = price, et_distance = distance,
             et_fee_exit_price = (if worst > price then worst else price), et_maker = maker, et_exit = exit_rate,
             et_funding = funding, et_multiplier = (if js_mode (sz_scope i) = Stress_Mode then 2 else 1)\<rparr>))))))"

definition sizeJevEntry ::
  "(manifest \<Rightarrow> string) \<Rightarrow> manifest \<Rightarrow> venue_metadata \<Rightarrow> sizing_input \<Rightarrow> string \<Rightarrow> sizing_error + entry_plan" where
  "sizeJevEntry hash m md i equityRaw =
     bind_res (with_error Size_Manifest (validateJevManifest hash m)) (\<lambda>h.
     bind_res (with_error Size_Contract (parse_instrument (vm_instrument md))) (\<lambda>_.
     bind_res (raw_of equityRaw) (\<lambda>e.
     bind_res (raw_of (sz_entry_price i)) (\<lambda>price.
     bind_res (raw_of (ta_raw (tn_quantity_step (vm_instrument md)))) (\<lambda>step.
     require (js_instrument_id (sz_scope i) = tn_instrument_id (vm_instrument md)
         \<and> js_instrument_version (sz_scope i) = tn_instrument_version (vm_instrument md)
         \<and> length (sz_cost_evidence_id i) > 0 \<and> length (sz_cost_evidence_id i) \<le> 512
         \<and> length (sz_order_id i) > 0 \<and> length (sz_decision_id i) > 0) SIZING_IDENTITY
     (require (e > 0 \<and> price > 0 \<and> step > 0 \<and> gridPrice price 1 Down md = Some price) SIZING_GRID
     (bind_res (sizing_rates md i) (\<lambda>rates.
      bind_res (sizing_terms hash m md i price step rates) (\<lambda>(stop, worst, t).
      let low = lot_search (within_risk t e step) 0 (maximum_lots e price step);
          q = low * step; notional = ceil (q * price) 100000000; c = costs t q in
      bind_res (raw_of (ta_raw (vm_minimum_order_notional md))) (\<lambda>minimum.
      require (q > 0 \<and> q * price \<ge> (if minimum > 10000000 then minimum else 10000000) * 100000000) VENUE_MINIMUM_OR_BUDGET
      (bind_res (with_error Size_Amount (assertInstrumentOrderConstraints (order_metadata md)
          (amount_of USD_PER_BTC price) (amount_of BTC q))) (\<lambda>_.
       Inr \<lparr>ep_version = ''btc.jev-sizing.v1'', ep_policy_version = jev_risk_version, ep_manifest_hash = h, ep_input = i,
            ep_equity = equityRaw, ep_quantity = q, ep_entry_notional = notional, ep_stop_price = stop,
            ep_worst_exit_price = worst, ep_planned_loss = co_loss c, ep_planned_entry_fee = co_entry_fee c,
            ep_planned_exit_fee = co_exit_fee c, ep_planned_funding = co_funding c, ep_total_risk = co_total c\<rparr>))))))))))))"

record sized_order =
  so_scope :: jev_scope
  so_decision_id :: ident
  so_order_id :: ident
  so_quantity :: int
  so_price :: string
  so_side :: side
  so_time_in_force :: string
  so_reduce_only :: bool

definition jevSizedOrder :: "(entry_plan \<Rightarrow> string) \<Rightarrow> entry_plan \<Rightarrow> string \<Rightarrow> sizing_error + sized_order" where
  "jevSizedOrder plan_hash plan expected =
     require (plan_hash plan = expected) PLAN_HASH
       (Inr \<lparr>so_scope = sz_scope (ep_input plan), so_decision_id = sz_decision_id (ep_input plan),
             so_order_id = sz_order_id (ep_input plan), so_quantity = ep_quantity plan, so_price = sz_entry_price (ep_input plan),
             so_side = (if sz_direction (ep_input plan) = Long then Buy else Sell), so_time_in_force = ''ALO'',
             so_reduce_only = False\<rparr>)"

section \<open>The search\<close>

text \<open>Whatever the test, the search ends inside its bounds, at its lower bound or at a lot that passed.\<close>

lemma lot_search_ok:
  "low \<le> high \<Longrightarrow> low \<le> lot_search ok low high \<and> lot_search ok low high \<le> high
     \<and> (lot_search ok low high = low \<or> ok (lot_search ok low high))"
proof (induction ok low high rule: lot_search.induct)
  case (1 ok low high)
  show ?case
  proof (cases "low < high")
    case True
    let ?mid = "(low + high + 1) sdiv 2"
    note mid = mid_between [OF True]
    show ?thesis
    proof (cases "ok ?mid")
      case ok: True
      then have "lot_search ok low high = lot_search ok ?mid high" using True by (subst lot_search.simps) simp
      with "1.IH"(1) [OF True refl ok] mid ok show ?thesis by auto
    next
      case no: False
      then have "lot_search ok low high = lot_search ok low (?mid - 1)" using True by (subst lot_search.simps) simp
      with "1.IH"(2) [OF True refl no] mid show ?thesis by auto
    qed
  next
    case False
    then have "lot_search ok low high = low" by (subst lot_search.simps) simp
    then show ?thesis using "1.prems" by simp
  qed
qed

text \<open>If a larger lot never passes where a smaller one fails, the result is the largest lot that passes.\<close>

lemma lot_search_max:
  assumes "\<And>a b. low \<le> a \<Longrightarrow> a \<le> b \<Longrightarrow> ok b \<Longrightarrow> ok a" and "lot_search ok low high < k" and "k \<le> high"
  shows "\<not> ok k"
  using assms
proof (induction ok low high rule: lot_search.induct)
  case (1 ok low high)
  let ?mid = "(low + high + 1) sdiv 2"
  show ?case
  proof (cases "low < high")
    case True
    note mid = mid_between [OF True]
    show ?thesis
    proof (cases "ok ?mid")
      case ok: True
      then have eq: "lot_search ok low high = lot_search ok ?mid high" using True by (subst lot_search.simps) simp
      show ?thesis
        by (rule "1.IH"(1) [OF True refl ok]) (use "1.prems" eq mid in auto)
    next
      case no: False
      then have eq: "lot_search ok low high = lot_search ok low (?mid - 1)" using True by (subst lot_search.simps) simp
      show ?thesis
      proof (cases "k \<le> ?mid - 1")
        case le: True
        show ?thesis
          by (rule "1.IH"(2) [OF True refl no]) (use "1.prems" eq le in auto)
      next
        case False
        then show ?thesis using no "1.prems"(1) [of ?mid k] mid by auto
      qed
    qed
  next
    case False
    then have "lot_search ok low high = low" by (subst lot_search.simps) simp
    then show ?thesis using False "1.prems" by simp
  qed
qed

section \<open>Costs\<close>

interpretation sizing: rounds_up ceil
  by unfold_locales (simp_all add: ceil_def ceil_ge ceil_lt)

interpretation sizing_floor: rounds_down "(div)"
  by unfold_locales (simp_all add: div_bounds)

text \<open>The terms of a plan, read back from its own fields.\<close>

definition plan_terms :: "entry_plan \<Rightarrow> entry_terms" where
  "plan_terms p = (let i = ep_input p; price = read_int (sz_entry_price i); worst = ep_worst_exit_price p in
     \<lparr>et_price = price, et_distance = (if sz_direction i = Long then price - worst else worst - price),
      et_fee_exit_price = max worst price, et_maker = read_int (the (sz_maker_fee i)),
      et_exit = read_int (the (sz_exit_fee i)), et_funding = read_int (the (sz_funding_debit i)),
      et_multiplier = (if js_mode (sz_scope i) = Stress_Mode then 2 else 1)\<rparr>)"

definition lot_step :: "venue_metadata \<Rightarrow> int" where
  "lot_step md = read_int (ta_raw (tn_quantity_step (vm_instrument md)))"

lemma raw_of_Inr [simp]: "raw_of s = Inr n \<longleftrightarrow> canonical_integer s \<and> length s \<le> 39 \<and> n = read_int s"
  by (simp add: raw_of_def)

lemma sizing_rates_Inr:
  assumes "sizing_rates md i = Inr rates"
  obtains mk ex fu where "sz_maker_fee i = Some mk" and "sz_exit_fee i = Some ex" and "sz_funding_debit i = Some fu"
    and "rates = (read_int mk, read_int ex, read_int fu)" and "read_int (ta_raw (vm_maker_fee md)) \<le> read_int mk"
    and "read_int (ta_raw (vm_taker_fee md)) \<le> read_int ex" and "0 \<le> read_int fu"
  using assms by (auto simp: sizing_rates_def split: option.splits)

lemma sizing_terms_Inr:
  assumes "sizing_terms hash m md i price step (mk, ex, fu) = Inr (stop, worst, t)"
  obtains p where "stop = read_int (pr_stop_price p)" and "0 < worst"
    and "gridPrice (stop * (if sz_direction i = Long then 9 else 11)) 10 (if sz_direction i = Long then Down else Up) md = Some worst"
    and "t = \<lparr>et_price = price, et_distance = (if sz_direction i = Long then price - worst else worst - price),
      et_fee_exit_price = max worst price, et_maker = mk, et_exit = ex, et_funding = fu,
      et_multiplier = (if js_mode (sz_scope i) = Stress_Mode then 2 else 1)\<rparr>" and "0 < et_distance t"
    and "initialJevProtection hash m
        \<lparr>pi_scope = sz_scope i, pi_position_id = sz_order_id i, pi_direction = sz_direction i,
         pi_first_fill_at = sz_decision_at i, pi_first_fill_price = sz_entry_price i, pi_quantity_btc = show_int step,
         pi_atr14 = sz_atr14 i, pi_atr_captured_at = sz_atr_captured_at i, pi_decision_at = sz_decision_at i\<rparr> md = Inr p"
proof -
  let ?long = "sz_direction i = Long"
  from assms obtain p s where p: "initialJevProtection hash m
        \<lparr>pi_scope = sz_scope i, pi_position_id = sz_order_id i, pi_direction = sz_direction i,
         pi_first_fill_at = sz_decision_at i, pi_first_fill_price = sz_entry_price i, pi_quantity_btc = show_int step,
         pi_atr14 = sz_atr14 i, pi_atr_captured_at = sz_atr_captured_at i, pi_decision_at = sz_decision_at i\<rparr> md = Inr p"
    and s: "s = read_int (pr_stop_price p)"
    and rest: "(case gridPrice (s * (if ?long then 9 else 11)) 10 (if ?long then Down else Up) md of
       None \<Rightarrow> Inl STOP_SLIPPAGE_GRID
     | Some worst \<Rightarrow>
         require (worst > 0) STOP_SLIPPAGE_GRID
         (let distance = (if ?long then price - worst else worst - price) in
          require (distance > 0) STOP_DISTANCE
          (Inr (s, worst, \<lparr>et_price = price, et_distance = distance,
             et_fee_exit_price = (if worst > price then worst else price), et_maker = mk, et_exit = ex,
             et_funding = fu, et_multiplier = (if js_mode (sz_scope i) = Stress_Mode then 2 else 1)\<rparr>))))
      = Inr (stop, worst, t)"
    unfolding sizing_terms_def prod.case bind_res_Inr with_error_Inr raw_of_Inr by blast
  have "(if worst > price then worst else price) = max worst price" by simp
  then show thesis
    using rest s p by (cases "gridPrice (s * (if ?long then 9 else 11)) 10 (if ?long then Down else Up) md")
      (auto simp only: option.case require_Inr Let_def Inr_inject prod.inject entry_terms.simps intro!: that)
qed

lemma maximum_lots_bound:
  assumes "0 < e" and "0 < price" and "0 < step"
  shows "0 \<le> maximum_lots e price step"
    and "k \<le> maximum_lots e price step \<longleftrightarrow> k * step * price \<le> e div 2 * 100000000"
proof -
  let ?n = "e div 2 * 100000000"
  have ps: "0 < price * step" using assms by simp
  have "(e * 5000) sdiv 10000 = e div 2" using assms(1) by (simp add: sdiv_nonneg)
  then have m: "maximum_lots e price step = ?n div (price * step)"
    using assms ps by (simp add: maximum_lots_def sdiv_nonneg pos_imp_zdiv_nonneg_iff)
  show "0 \<le> maximum_lots e price step" using assms ps by (simp add: m pos_imp_zdiv_nonneg_iff)
  have "k \<le> ?n div (price * step) \<longleftrightarrow> k * (price * step) \<le> ?n"
    using sizing_floor.down_ge_iff [OF ps, of k ?n] by (simp add: mult.commute)
  also have "k * (price * step) = k * step * price" by (simp add: mult_ac)
  finally show "k \<le> maximum_lots e price step \<longleftrightarrow> k * step * price \<le> ?n" by (simp add: m)
qed

lemma sizeJevEntry_cases:
  assumes "sizeJevEntry hash m md i equity = Inr plan"
  obtains low where "low = lot_search (within_risk (plan_terms plan) (read_int equity) (lot_step md)) 0
      (maximum_lots (read_int equity) (read_int (sz_entry_price i)) (lot_step md))"
    and "ep_quantity plan = low * lot_step md" and "ep_input plan = i" and "0 < read_int equity"
    and "0 < read_int (sz_entry_price i)" and "0 < lot_step md" and "0 < ep_quantity plan"
    and "ep_entry_notional plan = ceil (ep_quantity plan * read_int (sz_entry_price i)) 100000000"
    and "costs (plan_terms plan) (ep_quantity plan) = \<lparr>co_loss = ep_planned_loss plan, co_entry_fee = ep_planned_entry_fee plan,
      co_exit_fee = ep_planned_exit_fee plan, co_funding = ep_planned_funding plan, co_total = ep_total_risk plan\<rparr>"
    and "max (read_int (ta_raw (vm_minimum_order_notional md))) 10000000 * 100000000 \<le> ep_quantity plan * read_int (sz_entry_price i)"
    and "assertInstrumentOrderConstraints (order_metadata md) (amount_of USD_PER_BTC (read_int (sz_entry_price i)))
      (amount_of BTC (ep_quantity plan)) = Inr ()"
    and "\<exists>rates. sizing_rates md i = Inr rates \<and> sizing_terms hash m md i (read_int (sz_entry_price i)) (lot_step md) rates
      = Inr (ep_stop_price plan, ep_worst_exit_price plan, plan_terms plan)"
proof -
  from assms obtain h rates stop worst t low where r: "sizing_rates md i = Inr rates"
    and t: "sizing_terms hash m md i (read_int (sz_entry_price i)) (lot_step md) rates = Inr (stop, worst, t)"
    and low: "low = lot_search (within_risk t (read_int equity) (lot_step md)) 0
      (maximum_lots (read_int equity) (read_int (sz_entry_price i)) (lot_step md))"
    and pos: "0 < read_int equity" "0 < read_int (sz_entry_price i)" "0 < lot_step md" "0 < low * lot_step md"
    and min: "(if 10000000 < read_int (ta_raw (vm_minimum_order_notional md)) then read_int (ta_raw (vm_minimum_order_notional md))
        else 10000000) * 100000000 \<le> low * lot_step md * read_int (sz_entry_price i)"
    and ord: "assertInstrumentOrderConstraints (order_metadata md) (amount_of USD_PER_BTC (read_int (sz_entry_price i)))
      (amount_of BTC (low * lot_step md)) = Inr ()"
    and plan: "plan = \<lparr>ep_version = ''btc.jev-sizing.v1'', ep_policy_version = jev_risk_version, ep_manifest_hash = h, ep_input = i,
            ep_equity = equity, ep_quantity = low * lot_step md,
            ep_entry_notional = ceil (low * lot_step md * read_int (sz_entry_price i)) 100000000, ep_stop_price = stop,
            ep_worst_exit_price = worst, ep_planned_loss = co_loss (costs t (low * lot_step md)),
            ep_planned_entry_fee = co_entry_fee (costs t (low * lot_step md)),
            ep_planned_exit_fee = co_exit_fee (costs t (low * lot_step md)), ep_planned_funding = co_funding (costs t (low * lot_step md)),
            ep_total_risk = co_total (costs t (low * lot_step md))\<rparr>"
    unfolding sizeJevEntry_def Let_def lot_step_def by (auto simp: prod.case_eq_if)
  obtain mk ex fu where fees: "sz_maker_fee i = Some mk" "sz_exit_fee i = Some ex" "sz_funding_debit i = Some fu"
    "rates = (read_int mk, read_int ex, read_int fu)" using r by (rule sizing_rates_Inr)
  have "plan_terms plan = t"
    using t unfolding fees(4) by (rule sizing_terms_Inr) (simp add: plan_terms_def plan fees Let_def)
  moreover have "(if 10000000 < read_int (ta_raw (vm_minimum_order_notional md)) then read_int (ta_raw (vm_minimum_order_notional md))
        else 10000000) = max (read_int (ta_raw (vm_minimum_order_notional md))) 10000000" by auto
  ultimately show thesis
    using that [of low] r t low pos min ord by (simp add: plan)
qed

text \<open>The stop lies beyond the entry, and the worst exit a tenth beyond the stop.\<close>

lemma planned_stop:
  assumes "\<exists>rates. sizing_rates md i = Inr rates \<and> sizing_terms hash m md i (read_int (sz_entry_price i)) (lot_step md) rates
      = Inr (ep_stop_price plan, ep_worst_exit_price plan, plan_terms plan)"
    and i: "ep_input plan = i"
  shows "0 < et_distance (plan_terms plan)"
    and "et_distance (plan_terms plan) = \<bar>read_int (sz_entry_price i) - ep_worst_exit_price plan\<bar>"
    and "if sz_direction i = Long then ep_stop_price plan < read_int (sz_entry_price i) \<and> 10 * ep_worst_exit_price plan \<le> 9 * ep_stop_price plan
      else read_int (sz_entry_price i) < ep_stop_price plan \<and> 11 * ep_stop_price plan \<le> 10 * ep_worst_exit_price plan"
proof -
  let ?price = "read_int (sz_entry_price i)" and ?t = "plan_terms plan"
  from assms(1) obtain rates where t: "sizing_terms hash m md i ?price (lot_step md) rates
      = Inr (ep_stop_price plan, ep_worst_exit_price plan, ?t)" by blast
  obtain mk ex fu where "rates = (mk, ex, fu)" by (metis prod.exhaust)
  with t obtain p where stop: "ep_stop_price plan = read_int (pr_stop_price p)"
    and worst: "gridPrice (ep_stop_price plan * (if sz_direction i = Long then 9 else 11)) 10
      (if sz_direction i = Long then Down else Up) md = Some (ep_worst_exit_price plan)"
    and dist: "0 < et_distance ?t"
    and prot: "initialJevProtection hash m
        \<lparr>pi_scope = sz_scope i, pi_position_id = sz_order_id i, pi_direction = sz_direction i,
         pi_first_fill_at = sz_decision_at i, pi_first_fill_price = sz_entry_price i, pi_quantity_btc = show_int (lot_step md),
         pi_atr14 = sz_atr14 i, pi_atr_captured_at = sz_atr_captured_at i, pi_decision_at = sz_decision_at i\<rparr> md = Inr p"
    by (auto elim: sizing_terms_Inr)
  show "0 < et_distance ?t" by (rule dist)
  show "et_distance ?t = \<bar>?price - ep_worst_exit_price plan\<bar>"
    using dist by (auto simp: plan_terms_def Let_def i split: if_splits)
  have "if sz_direction i = Long then ep_stop_price plan < ?price else ?price < ep_stop_price plan"
    using prot by (rule initialJevProtection_cases) (auto simp: stop stop_beyond_def split: if_splits)
  moreover have "if sz_direction i = Long then 10 * ep_worst_exit_price plan \<le> 9 * ep_stop_price plan
      else 11 * ep_stop_price plan \<le> 10 * ep_worst_exit_price plan"
    using gridPrice_bound [OF worst] by (auto simp: mult.commute split: if_splits)
  ultimately show "if sz_direction i = Long then ep_stop_price plan < ?price \<and> 10 * ep_worst_exit_price plan \<le> 9 * ep_stop_price plan
      else ?price < ep_stop_price plan \<and> 11 * ep_stop_price plan \<le> 10 * ep_worst_exit_price plan" by (auto split: if_splits)
qed

text \<open>C19: A sized entry cannot lose more than one percent of equity nor expose more than half of it: the planned
  costs, with the price loss to an exit ten percent beyond the stop, both fees and the funding each rounded
  up, are within one percent; the notional is within half; the quantity is a positive number of lots,
  above both minimums, and the venue accepts the order.\<close>

theorem sizing_within_budget:
  assumes "sizeJevEntry hash m md i equity = Inr plan"
  shows "100 * ep_total_risk plan \<le> read_int equity \<and> 2 * ep_entry_notional plan \<le> read_int equity
    \<and> ep_total_risk plan = ep_planned_loss plan + ep_planned_entry_fee plan + ep_planned_exit_fee plan + ep_planned_funding plan
    \<and> ep_quantity plan * \<bar>read_int (sz_entry_price i) - ep_worst_exit_price plan\<bar> \<le> 100000000 * ep_planned_loss plan
    \<and> (if sz_direction i = Long then ep_stop_price plan < read_int (sz_entry_price i) \<and> 10 * ep_worst_exit_price plan \<le> 9 * ep_stop_price plan
       else read_int (sz_entry_price i) < ep_stop_price plan \<and> 11 * ep_stop_price plan \<le> 10 * ep_worst_exit_price plan)
    \<and> 0 < ep_quantity plan \<and> lot_step md dvd ep_quantity plan
    \<and> max (read_int (ta_raw (vm_minimum_order_notional md))) 10000000 * 100000000 \<le> ep_quantity plan * read_int (sz_entry_price i)
    \<and> assertInstrumentOrderConstraints (order_metadata md) (amount_of USD_PER_BTC (read_int (sz_entry_price i)))
        (amount_of BTC (ep_quantity plan)) = Inr ()"
  using assms
proof (rule sizeJevEntry_cases)
  fix low
  let ?e = "read_int equity" and ?price = "read_int (sz_entry_price i)" and ?t = "plan_terms plan" and ?q = "ep_quantity plan"
  assume low: "low = lot_search (within_risk ?t ?e (lot_step md)) 0 (maximum_lots ?e ?price (lot_step md))"
    and q: "?q = low * lot_step md" and i: "ep_input plan = i"
    and pos: "0 < ?e" "0 < ?price" "0 < lot_step md" "0 < ?q"
    and notional: "ep_entry_notional plan = ceil (?q * ?price) 100000000"
    and costs: "costs ?t ?q = \<lparr>co_loss = ep_planned_loss plan, co_entry_fee = ep_planned_entry_fee plan,
      co_exit_fee = ep_planned_exit_fee plan, co_funding = ep_planned_funding plan, co_total = ep_total_risk plan\<rparr>"
    and rest: "max (read_int (ta_raw (vm_minimum_order_notional md))) 10000000 * 100000000 \<le> ?q * ?price"
      "assertInstrumentOrderConstraints (order_metadata md) (amount_of USD_PER_BTC ?price) (amount_of BTC ?q) = Inr ()"
    and terms: "\<exists>rates. sizing_rates md i = Inr rates \<and> sizing_terms hash m md i ?price (lot_step md) rates
      = Inr (ep_stop_price plan, ep_worst_exit_price plan, ?t)"
  note bound = maximum_lots_bound [OF pos(1-3)]
  have "low \<noteq> 0" using pos(4) q by auto
  with lot_search_ok [OF bound(1), of "within_risk ?t ?e (lot_step md)"] low
  have le: "low \<le> maximum_lots ?e ?price (lot_step md)" and risk: "within_risk ?t ?e (lot_step md) low" by auto
  have "100 * ep_total_risk plan \<le> ?e" using risk costs by (simp add: within_risk_def q)
  moreover have "?q * ?price \<le> e2 * 100000000" if "e2 = ?e div 2" for e2 using le bound(2) q that by simp
  then have "ep_entry_notional plan \<le> ?e div 2"
    using pos by (simp add: notional sizing.up_le_iff mult.commute)
  then have "2 * ep_entry_notional plan \<le> ?e" by linarith
  moreover note planned_stop [OF terms i]
  moreover have "?q * et_distance ?t \<le> 100000000 * ceil (?q * et_distance ?t) 100000000"
    using pos(4) planned_stop [OF terms i] by (intro sizing.up_ge) simp_all
  moreover have "ceil (?q * et_distance ?t) 100000000 = ep_planned_loss plan"
    and "ep_total_risk plan = ep_planned_loss plan + ep_planned_entry_fee plan + ep_planned_exit_fee plan + ep_planned_funding plan"
    using costs by (auto simp: costs_def Let_def)
  ultimately show ?thesis using pos(4) rest q by (auto split: if_splits)
qed

lemma costs_mono:
  assumes "0 \<le> et_distance t" and "0 \<le> et_price t" and "0 \<le> et_fee_exit_price t" and "0 \<le> et_maker t"
    and "0 \<le> et_exit t" and "0 \<le> et_funding t" and "0 \<le> et_multiplier t" and "0 \<le> a" and "a \<le> b"
  shows "co_total (costs t a) \<le> co_total (costs t b)"
proof -
  have up: "ceil (a * n) d \<le> ceil (b * n) d" if "0 \<le> n" "0 < d" for n d
    using that assms(8,9) by (intro sizing.up_mono) (simp_all add: mult_right_mono)
  note up [of "et_distance t" 100000000]
  moreover note up [of "et_price t * et_maker t * et_multiplier t" 100000000000000000]
  moreover note up [of "et_fee_exit_price t * et_exit t * et_multiplier t" 100000000000000000]
  moreover note up [of "et_fee_exit_price t * et_funding t" 100000000000000000]
  ultimately show ?thesis using assms(1-7) by (simp add: costs_def Let_def mult.assoc)
qed

text \<open>The size is the largest that both limits allow: when the venue charges no negative fees, every larger
  number of lots that still exposes at most half of equity would plan a loss beyond one percent of it.\<close>

theorem sizing_maximal:
  assumes "sizeJevEntry hash m md i equity = Inr plan"
    and "0 \<le> read_int (ta_raw (vm_maker_fee md))" and "0 \<le> read_int (ta_raw (vm_taker_fee md))"
    and "lot_step md dvd q" and "ep_quantity plan < q"
    and "q * read_int (sz_entry_price i) \<le> read_int equity div 2 * 100000000"
  shows "read_int equity < 100 * co_total (costs (plan_terms plan) q)"
  using assms(1)
proof (rule sizeJevEntry_cases)
  fix low
  let ?e = "read_int equity" and ?price = "read_int (sz_entry_price i)" and ?t = "plan_terms plan" and ?step = "lot_step md"
  assume low: "low = lot_search (within_risk ?t ?e ?step) 0 (maximum_lots ?e ?price ?step)"
    and q: "ep_quantity plan = low * ?step" and i: "ep_input plan = i" and pos: "0 < ?e" "0 < ?price" "0 < ?step"
    and terms: "\<exists>rates. sizing_rates md i = Inr rates \<and> sizing_terms hash m md i ?price ?step rates
      = Inr (ep_stop_price plan, ep_worst_exit_price plan, ?t)"
  obtain rates where r: "sizing_rates md i = Inr rates"
    and t: "sizing_terms hash m md i ?price ?step rates = Inr (ep_stop_price plan, ep_worst_exit_price plan, ?t)"
    using terms by blast
  obtain mk ex fu where fees: "rates = (mk, ex, fu)" "0 \<le> mk" "0 \<le> ex" "0 \<le> fu"
    using r assms(2,3) by (auto elim: sizing_rates_Inr)
  have nonneg: "0 \<le> et_distance ?t" "0 \<le> et_price ?t" "0 \<le> et_fee_exit_price ?t" "0 \<le> et_maker ?t"
    "0 \<le> et_exit ?t" "0 \<le> et_funding ?t" "0 \<le> et_multiplier ?t"
    using t [unfolded fees(1)] by (rule sizing_terms_Inr; use fees(2-4) pos(2) in \<open>simp add: le_max_iff_disj\<close>)+
  have anti: "within_risk ?t ?e ?step a" if "0 \<le> a" "a \<le> b" "within_risk ?t ?e ?step b" for a b
  proof -
    have "co_total (costs ?t (a * ?step)) \<le> co_total (costs ?t (b * ?step))"
      using that(1,2) pos(3) by (intro costs_mono nonneg) (simp_all add: mult_right_mono)
    then show ?thesis using that(3) by (simp add: within_risk_def)
  qed
  obtain k where k: "q = ?step * k" using assms(4) by (rule dvdE)
  then have "low < k" using assms(5) pos(3) by (simp add: q mult.commute)
  moreover have "k \<le> maximum_lots ?e ?price ?step"
    using maximum_lots_bound(2) [OF pos, of k] assms(6) by (simp add: k mult.commute)
  ultimately have "\<not> within_risk ?t ?e ?step k"
    unfolding low using lot_search_max [where low = 0 and ok = "within_risk ?t ?e ?step"] anti by blast
  then show ?thesis by (simp add: within_risk_def k mult.commute)
qed

section \<open>A sized entry\<close>

definition sized_md :: "ident \<Rightarrow> trading_data \<Rightarrow> venue_metadata" where
  "sized_md n origin = sample_md\<lparr>vm_instrument := (vm_instrument sample_md)
     \<lparr>tn_quantity_step := amount_of BTC 2000000, tn_instrument_id := n, tn_origin := origin\<rparr>\<rparr>"

definition sized_input :: "jev_scope \<Rightarrow> sizing_input" where
  "sized_input scope = \<lparr>sz_scope = scope, sz_order_id = ''p'', sz_decision_id = ''d'', sz_decision_at = 20,
     sz_entry_price = show_int 900000000, sz_direction = Long, sz_atr14 = show_int 10000000, sz_atr_captured_at = 10,
     sz_maker_fee = Some (show_int 2), sz_exit_fee = Some (show_int 2), sz_funding_debit = Some (show_int 0),
     sz_cost_evidence_id = ''c''\<rparr>"

lemma show_length: "0 \<le> n \<Longrightarrow> n < 10 ^ 39 \<Longrightarrow> length (show_int n) \<le> 39"
proof -
  assume n: "0 \<le> n" "n < 10 ^ 39"
  then have "nat n < 10 ^ 39" by (simp add: nat_less_iff)
  then show ?thesis using n length_show_nat [of 39 "nat n"] by (simp add: show_int_def)
qed

text \<open>The sample is sized for any scope that owns the instrument, so that other theories can use it.\<close>

abbreviation sized_for :: "jev_scope \<Rightarrow> ident \<Rightarrow> trading_data \<Rightarrow> bool" where
  "sized_for scope n origin \<equiv> js_instrument_id scope = n \<and> js_instrument_version scope = ''v'' \<and> js_mode scope \<noteq> Stress_Mode
     \<and> parse_instrument (vm_instrument (sized_md n origin)) = Inr (vm_instrument (sized_md n origin))"

lemma sized_input_fields:
  "sz_scope (sized_input scope) = scope" "sz_order_id (sized_input scope) = ''p''" "sz_decision_id (sized_input scope) = ''d''"
  "sz_decision_at (sized_input scope) = 20" "sz_entry_price (sized_input scope) = show_int 900000000" "sz_direction (sized_input scope) = Long"
  "sz_atr14 (sized_input scope) = show_int 10000000" "sz_atr_captured_at (sized_input scope) = 10" "sz_maker_fee (sized_input scope) = Some (show_int 2)"
  "sz_exit_fee (sized_input scope) = Some (show_int 2)" "sz_funding_debit (sized_input scope) = Some (show_int 0)"
  "sz_cost_evidence_id (sized_input scope) = ''c''"
  by (simp_all add: sized_input_def)

lemma sized_md_fields:
  "tn_tick_size (vm_instrument (sized_md n origin)) = amount_of USD_PER_BTC 1" "tn_quantity_step (vm_instrument (sized_md n origin)) = amount_of BTC 2000000"
  "vm_price_rules (sized_md n origin) = vm_price_rules sample_md" "vm_maker_fee (sized_md n origin) = amount_of RATE 1" "vm_taker_fee (sized_md n origin) = amount_of RATE 2"
  "vm_minimum_order_notional (sized_md n origin) = amount_of USD 10" "tn_instrument_id (vm_instrument (sized_md n origin)) = n"
  "tn_instrument_version (vm_instrument (sized_md n origin)) = ''v''" "gridPrice num den dir (sized_md n origin) = gridPrice num den dir sample_md"
  by (simp_all add: sized_md_def sample_md_def sample_instrument_def gridPrice_def)

lemma sized_sample: "sized_for sample_jev_scope ''i'' (sample_data Metadata_Data 5)"
  by (simp add: parse_instrument_def instrument_shape_def sized_md_def sample_md_def sample_instrument_def sample_contract_id
      sameInstrument_def utc_milliseconds_def sample_jev_scope_def) (simp add: sample_data_def)

lemma sample_md_up: "0 < p \<Longrightarrow> p < 10 ^ 38 \<Longrightarrow> gridPrice p 1 Up sample_md = Some p"
  using gridPrice_up_exists [of sample_md p p] gridPrice_up(2) by (fastforce simp: sample_venue_price sample_md_fields)

lemma sized_worst: "gridPrice (d * p) d Down sample_md = Some p" if "0 < p" "p < 10 ^ 38" "0 < d"
proof -
  have "venue_price sample_md p" using that by (simp add: sample_venue_price)
  then have g: "grid_price 1 (integer_prices_exempt (vm_price_rules sample_md)) 6 38 p"
    by (auto simp: venue_price_def sample_md_fields)
  have ten: "\<exists>j. (1 :: int) = 10 ^ j" by (rule exI [of _ 0]) simp
  note down = grid_down_exact [of "d * p" d 1 "vm_price_rules sample_md" 6 38]
  show ?thesis
  proof (cases "gridPrice (d * p) d Down sample_md")
    case None
    then show ?thesis using down that g ten by (auto simp: gridPrice_def sample_md_fields)
  next
    case (Some q)
    then have "p \<le> q" "d * q \<le> d * p" using down that g ten by (auto simp: gridPrice_def sample_md_fields)
    with that Some show ?thesis by simp
  qed
qed

lemma sized_protection:
  assumes "sized_for scope n origin"
  shows "\<exists>p. initialJevProtection sample_hash_fun sample_manifest
     \<lparr>pi_scope = scope, pi_position_id = ''p'', pi_direction = Long, pi_first_fill_at = 20,
      pi_first_fill_price = show_int 900000000, pi_quantity_btc = show_int 2000000, pi_atr14 = show_int 10000000,
      pi_atr_captured_at = 10, pi_decision_at = 20\<rparr> (sized_md n origin) = Inr p \<and> pr_stop_price p = show_int 880000000"
proof -
  have "xc_maximum_holding_ms (mf_exits sample_manifest) = 21600000" by (simp add: sample_manifest_def initial_exits_def)
  then show ?thesis
    by (simp add: initialJevProtection_def sample_manifest_ok assms sized_md_fields sample_md_up
        parse_raw_Inr canonical_show_int quantum_amount_of stop_beyond_def Let_def)
qed

definition sized_terms :: entry_terms where
  "sized_terms = \<lparr>et_price = 900000000, et_distance = 108000000, et_fee_exit_price = 900000000, et_maker = 2, et_exit = 2,
     et_funding = 0, et_multiplier = 1\<rparr>"

lemma sized_terms_ok:
  assumes "sized_for scope n origin"
  shows "sizing_terms sample_hash_fun sample_manifest (sized_md n origin) (sized_input scope) 900000000 2000000 (2, 2, 0)
     = Inr (880000000, 792000000, sized_terms)"
proof -
  obtain p where p: "initialJevProtection sample_hash_fun sample_manifest
     \<lparr>pi_scope = scope, pi_position_id = ''p'', pi_direction = Long, pi_first_fill_at = 20,
      pi_first_fill_price = show_int 900000000, pi_quantity_btc = show_int 2000000, pi_atr14 = show_int 10000000,
      pi_atr_captured_at = 10, pi_decision_at = 20\<rparr> (sized_md n origin) = Inr p" "pr_stop_price p = show_int 880000000"
    using sized_protection [OF assms] by blast
  have w: "gridPrice 7920000000 10 Down sample_md = Some 792000000" using sized_worst [of 792000000 10] by simp
  show ?thesis
    by (simp add: sizing_terms_def sized_input_fields assms p sized_md_fields w sized_terms_def show_length canonical_show_int Let_def)
qed

lemma sized_lots: "lot_search (within_risk sized_terms 250000000 2000000) 0 (maximum_lots 250000000 900000000 2000000) = 1"
proof -
  have "maximum_lots 250000000 900000000 2000000 = 6" by (simp add: maximum_lots_def)
  then show ?thesis
    by (simp add: lot_search.simps within_risk_def costs_def sized_terms_def ceil_def Let_def)
qed

lemma sized_order_ok:
  "assertInstrumentOrderConstraints (order_metadata (sized_md n origin)) (amount_of USD_PER_BTC 900000000) (amount_of BTC 2000000) = Inr ()"
proof -
  have "sig_digits 900000000 \<le> 38"
    using sig_digits_le_length [of 900000000] length_show_nat [of 38 900000000] by simp
  then have "length (strip_zeros (show_int 900000000)) \<le> 38" by (simp add: sig_digits_def show_int_def)
  moreover have "rule_digits (vm_price_rules sample_md) = Some (6, 38)" "integer_prices_exempt (vm_price_rules sample_md)"
    by (simp_all add: rule_digits_def sample_md_def)
  ultimately show ?thesis
    by (simp add: assertInstrumentOrderConstraints_def order_metadata_def sized_md_fields parse_amount_json_iff unit_range_def
        quantum_amount_of smod_eq_0_iff Let_def)
qed

lemma sized_entry:
  assumes "sized_for scope n origin"
  shows "\<exists>plan. sizeJevEntry sample_hash_fun sample_manifest (sized_md n origin) (sized_input scope) (show_int 250000000) = Inr plan
   \<and> ep_quantity plan = 2000000"
proof -
  have rates: "sizing_rates (sized_md n origin) (sized_input scope) = Inr (2, 2, 0)"
    by (simp add: sizing_rates_def sized_input_fields sized_md_fields canonical_show_int show_length)
      (simp add: amount_of_def canonical_show_int show_length)
  have grid: "gridPrice 900000000 1 Down sample_md = Some 900000000" by (rule sample_md_down) simp_all
  have usd: "raw_of (ta_raw (amount_of USD 10)) = Inr 10" "raw_of (ta_raw (amount_of BTC 2000000)) = Inr 2000000"
    by (simp_all add: amount_of_def canonical_show_int show_length)
  show ?thesis
    by (simp add: sizeJevEntry_def sample_manifest_ok assms sized_input_fields sized_md_fields rates sized_terms_ok [OF assms]
        sized_lots sized_order_ok grid usd canonical_show_int show_length Let_def del: raw_of_Inr)
      (simp add: canonical_show_int show_length grid sized_terms_ok [OF assms] sized_lots sized_order_ok)
qed

theorem sizing_within_budget_witness:
  "\<exists>plan. sizeJevEntry sample_hash_fun sample_manifest (sized_md ''i'' (sample_data Metadata_Data 5)) (sized_input sample_jev_scope) (show_int 250000000) = Inr plan
     \<and> 100 * ep_total_risk plan \<le> 250000000"
proof -
  obtain plan where plan: "sizeJevEntry sample_hash_fun sample_manifest (sized_md ''i'' (sample_data Metadata_Data 5)) (sized_input sample_jev_scope) (show_int 250000000) = Inr plan"
    using sized_entry [OF sized_sample] by blast
  from sizing_within_budget [OF plan] plan show ?thesis by auto
qed

theorem sizing_maximal_witness:
  "\<exists>plan. sizeJevEntry sample_hash_fun sample_manifest (sized_md ''i'' (sample_data Metadata_Data 5)) (sized_input sample_jev_scope) (show_int 250000000) = Inr plan
     \<and> 250000000 < 100 * co_total (costs (plan_terms plan) 4000000)"
proof -
  obtain plan where plan: "sizeJevEntry sample_hash_fun sample_manifest (sized_md ''i'' (sample_data Metadata_Data 5)) (sized_input sample_jev_scope) (show_int 250000000) = Inr plan"
    "ep_quantity plan = 2000000" using sized_entry [OF sized_sample] by blast
  from sizing_maximal [OF plan(1), of 4000000] plan show ?thesis
    by (auto simp: lot_step_def sized_md_fields sized_input_fields)
qed

end
