(* ===== verification/LiveContract.thy ===== *)
theory LiveContract
  imports JevSizing
begin

text \<open>
  The live venue contract, \<open>apps/api/src/venues/hyperliquid/live-contract.ts\<close>: the identity of a live account,
  the decimal strings of the wire, the client order id of an operation, and the last gate before a signature.
  \<open>liveRaw\<close> reads a wire decimal into a raw integer; the strings it returns are canonical, so the model returns
  the integer. \<open>liveDecimal\<close> prints a raw integer for the wire. \<open>jevHash\<close> (SHA-256 of a canonical form) is a
  parameter, one per type of value hashed. An \<open>unknown\<close> field (\<open>action\<close>, \<open>request\<close>) is a type parameter. The
  check of the exact key set and of the JSON shape that opens \<open>validateLiveIdentity\<close> is the record type
  \<open>live_identity\<close>. A generation is stored as the decimal text of a database integer, so the model holds the integer:
  two canonical decimal texts are equal exactly when their integers are.
\<close>

datatype live_error = LiveError string | Live_Amount amount_error | Live_Sizing sizing_error | Live_Policy policy_error | Live_Page_Limit
  | Outside_Error

definition liveCheck :: "bool \<Rightarrow> string \<Rightarrow> live_error + 'a \<Rightarrow> live_error + 'a" where
  "liveCheck ok code k = require ok (LiveError code) k"

lemma liveCheck_Inr [simp, res_simps]: "liveCheck ok c k = Inr x \<longleftrightarrow> ok \<and> k = Inr x"
  by (simp add: liveCheck_def)

lemma liveCheck_simps [simp]: "liveCheck True c k = k" "liveCheck False c k = Inl (LiveError c)"
  by (simp_all add: liveCheck_def)

section \<open>Values from the wire\<close>

definition live_version :: string where
  "live_version = ''hyperliquid.live.v1''"

definition liveRecord :: "json \<Rightarrow> live_error + (string \<times> json) list" where
  "liveRecord value = (case value of JObject kvs \<Rightarrow> Inr kvs | _ \<Rightarrow> Inl (LiveError ''RESPONSE''))"

text \<open>\<open>Number.isSafeInteger\<close>: an integer of magnitude at most \<open>2 ^ 53 - 1\<close>.\<close>

definition liveInteger :: "json option \<Rightarrow> int \<Rightarrow> live_error + int" where
  "liveInteger value least = (case value of
     Some (JNumber (Integral n)) \<Rightarrow> liveCheck (\<bar>n\<bar> \<le> 9007199254740991 \<and> n \<ge> least) ''INTEGER'' (Inr n)
   | _ \<Rightarrow> Inl (LiveError ''INTEGER''))"

text \<open>\<open>/^(0|[1-9][0-9]*)$/\<close> and \<open>/^-?(0|[1-9][0-9]*)(\.[0-9]+)?$/\<close>\<close>

definition unsigned_canonical :: "string \<Rightarrow> bool" where
  "unsigned_canonical s = (s = ''0'' \<or> positive_canonical s)"

definition minus_sign :: "string \<Rightarrow> bool" where
  "minus_sign s = (case s of c # _ \<Rightarrow> c = CHR ''-'' | [] \<Rightarrow> False)"

definition whole_part :: "string \<Rightarrow> string" where
  "whole_part s = takeWhile (\<lambda>c. c \<noteq> CHR ''.'') s"

definition fraction_part :: "string \<Rightarrow> string" where
  "fraction_part s = drop 1 (dropWhile (\<lambda>c. c \<noteq> CHR ''.'') s)"

definition unsigned_part :: "string \<Rightarrow> string" where
  "unsigned_part s = (if minus_sign s then drop 1 s else s)"

definition decimal_syntax :: "string \<Rightarrow> bool" where
  "decimal_syntax s =
     (let t = unsigned_part s
      in unsigned_canonical (whole_part t)
         \<and> (CHR ''.'' \<in> set t \<longrightarrow> fraction_part t \<noteq> [] \<and> list_all is_digit (fraction_part t)))"

definition padEnd :: "string \<Rightarrow> nat \<Rightarrow> string" where
  "padEnd s n = s @ replicate (n - length s) (CHR ''0'')"

definition padStart :: "string \<Rightarrow> nat \<Rightarrow> string" where
  "padStart s n = replicate (n - length s) (CHR ''0'') @ s"

definition liveRaw :: "json option \<Rightarrow> nat \<Rightarrow> live_error + int" where
  "liveRaw value decimals = (case value of
     Some (JString v) \<Rightarrow>
       liveCheck (length v \<le> 80 \<and> decimal_syntax v) ''DECIMAL''
         (let whole = whole_part (unsigned_part v); fraction = fraction_part (unsigned_part v) in
          liveCheck (list_all (\<lambda>n. n = CHR ''0'') (drop decimals fraction)) ''PRECISION''
            (let raw = read_int whole * 10 ^ decimals + read_int (padEnd (take decimals fraction) decimals)
             in Inr (if minus_sign v then - raw else raw)))
   | _ \<Rightarrow> Inl (LiveError ''DECIMAL''))"

text \<open>
  \<open>s.slice(0, -n)\<close> and \<open>s.slice(-n)\<close>: \<open>-0\<close> is \<open>0\<close>, so without decimals the first is empty and the second
  is the whole string. \<open>strip_fraction\<close> is \<open>replace(/\.?0+$/, "")\<close>.
\<close>

definition slice_to :: "string \<Rightarrow> nat \<Rightarrow> string" where
  "slice_to s n = (if n = 0 then [] else take (length s - n) s)"

definition slice_from :: "string \<Rightarrow> nat \<Rightarrow> string" where
  "slice_from s n = (if n = 0 then s else drop (length s - n) s)"

definition strip_fraction :: "string \<Rightarrow> string" where
  "strip_fraction s =
     (let t = strip_zeros s
      in if t = s then s else if t \<noteq> [] \<and> last t = CHR ''.'' then butlast t else t)"

definition liveDecimal :: "string \<Rightarrow> nat \<Rightarrow> live_error + string" where
  "liveDecimal raw decimals =
     liveCheck (unsigned_canonical raw) ''UNSIGNED_AMOUNT''
       (let padded = padStart raw (decimals + 1)
        in Inr (strip_fraction (slice_to padded decimals @ ''.'' @ slice_from padded decimals)))"

section \<open>Identity\<close>

text \<open>\<open>/^[A-Za-z0-9][A-Za-z0-9._:/-]{0,159}$/\<close>\<close>

definition live_id :: "string \<Rightarrow> bool" where
  "live_id s = (contract_id s \<and> length s \<le> 160)"

record live_identity =
  li_version :: string
  li_mode :: string
  li_environment :: string
  li_owner_id :: ident
  li_account_id :: ident
  li_account_address :: string
  li_signer_address :: string
  li_signer_generation :: string
  li_vault_address :: "string option"

definition lower_hex :: "nat \<Rightarrow> string \<Rightarrow> bool" where
  "lower_hex n s = (length s = n \<and> list_all (\<lambda>c. is_digit c \<or> (CHR ''a'' \<le> c \<and> c \<le> CHR ''f'')) s)"

text \<open>\<open>/^0x[a-f0-9]{40}$/\<close> and not the zero address\<close>

definition live_address :: "string \<Rightarrow> bool" where
  "live_address a = (take 2 a = ''0x'' \<and> lower_hex 40 (drop 2 a) \<and> \<not> list_all (\<lambda>c. c = CHR ''0'') (drop 2 a))"

definition validateLiveIdentity :: "(live_identity \<Rightarrow> string) \<Rightarrow> live_identity \<Rightarrow> live_error + string" where
  "validateLiveIdentity hash i =
     liveCheck (li_version i = live_version \<and> li_mode i = ''live'' \<and> li_environment i \<in> {''mainnet'', ''testnet''}) ''MODE_ENVIRONMENT''
     (liveCheck (list_all live_id [li_account_id i, li_owner_id i, li_signer_generation i]) ''IDENTITY_ID''
     (liveCheck (list_all live_address ([li_account_address i, li_signer_address i]
         @ (case li_vault_address i of Some a \<Rightarrow> (if a \<noteq> [] then [a] else []) | None \<Rightarrow> []))) ''ADDRESS''
     (liveCheck (li_vault_address i = None \<or> li_vault_address i = Some (li_account_address i)) ''VAULT_ACCOUNT''
       (Inr (hash i)))))"

definition live_instrument :: "live_identity \<Rightarrow> string" where
  "live_instrument i = ''hyperliquid:'' @ li_environment i @ '':BTC''"

definition liveCloid ::
  "(live_identity \<Rightarrow> string) \<Rightarrow> (live_identity \<Rightarrow> jev_scope \<Rightarrow> string \<Rightarrow> string) \<Rightarrow> live_identity \<Rightarrow> jev_scope \<Rightarrow> string \<Rightarrow> live_error + string" where
  "liveCloid hash operation_hash i scope operation =
     bind_res (validateLiveIdentity hash i) (\<lambda>_.
     liveCheck (js_mode scope = Live_Mode \<and> js_owner_id scope = li_owner_id i \<and> js_account_id scope = li_account_id i
         \<and> js_instrument_id scope = live_instrument i) ''SCOPE''
     (liveCheck (live_id operation) ''OPERATION_ID''
       (Inr (''0x'' @ take 32 (operation_hash i scope operation)))))"

section \<open>Reservations and the gate\<close>

datatype live_kind = Entry_Kind | Close_Kind | Stop_Kind | Cancel_Kind

record ('a, 'r) live_reservation =
  lr_identity :: live_identity
  lr_scope :: jev_scope
  lr_operation_id :: ident
  lr_kind :: live_kind
  lr_generation :: int
  lr_nonce :: int
  lr_expires_after :: int
  lr_cloid :: string
  lr_action :: 'a
  lr_request :: 'r
  lr_request_hash :: string

record live_gate =
  lg_identity_hash :: string
  lg_reservation_hash :: "string option"
  lg_operator_activation_id :: "string option"
  lg_signer_enabled :: bool
  lg_entries_allowed :: bool
  lg_generation :: int
  lg_lease_until :: time

definition assertLiveGate ::
  "(live_identity \<Rightarrow> string) \<Rightarrow> (live_identity \<Rightarrow> jev_scope \<Rightarrow> string \<Rightarrow> string) \<Rightarrow> (('a, 'r) live_reservation \<Rightarrow> string)
     \<Rightarrow> live_identity \<Rightarrow> ('a, 'r) live_reservation \<Rightarrow> live_gate \<Rightarrow> time \<Rightarrow> live_error + unit" where
  "assertLiveGate hash operation_hash reservation_hash i r g now =
     bind_res (validateLiveIdentity hash i) (\<lambda>own.
     bind_res (validateLiveIdentity hash (lr_identity r)) (\<lambda>theirs.
     liveCheck (own = theirs) ''OWNER''
     (liveCheck (lg_identity_hash g = own) ''OWNER''
     (bind_res (liveCloid hash operation_hash i (lr_scope r) (lr_operation_id r)) (\<lambda>cloid.
      liveCheck (lr_cloid r = cloid) ''OWNER''
     (liveCheck (lg_signer_enabled g \<and> (case lg_operator_activation_id g of Some a \<Rightarrow> a \<noteq> [] | None \<Rightarrow> False)) ''SIGNER_DISABLED''
     (liveCheck (lg_reservation_hash g = Some (reservation_hash r)) ''RESERVATION_CHANGED''
     (liveCheck (lg_generation g = lr_generation r \<and> lg_lease_until g > now \<and> lr_expires_after r > now
         \<and> lr_expires_after r \<le> lr_nonce r + 2000 \<and> lr_nonce r \<le> now + 1000 \<and> lr_nonce r \<ge> now - 2000) ''FENCE_OR_CLOCK''
     (liveCheck (lr_kind r \<noteq> Entry_Kind \<or> lg_entries_allowed g) ''ENTRIES_PAUSED'' (Inr ()))))))))))"

section \<open>The wire format\<close>

lemma digit_zero [simp]: "digit_val (CHR ''0'') = 0"
  by (simp add: digit_val_def)

lemma read_nat_replicate [simp]: "read_nat (replicate k (CHR ''0'')) = 0"
  by (induction k) (simp_all add: read_nat_append [of "[CHR ''0'']", simplified])

lemma read_nat_padStart [simp]: "read_nat (padStart s k) = read_nat s"
  by (simp add: padStart_def read_nat_append)

lemma length_padStart [simp]: "length (padStart s k) = max (length s) k"
  by (simp add: padStart_def)

lemma padStart_digits: "list_all is_digit s \<Longrightarrow> list_all is_digit (padStart s k)"
  by (auto simp: padStart_def list_all_iff)

abbreviation zeros :: "string \<Rightarrow> bool" where
  "zeros s \<equiv> list_all (\<lambda>c. c = CHR ''0'') s"

lemma strip_zeros_append: "strip_zeros (a @ b) = (if zeros b then strip_zeros a else a @ strip_zeros b)"
proof (induction b rule: rev_induct)
  case (snoc c b)
  then show ?case using strip_zeros_snoc [of "a @ b" c] by (auto simp: list_all_iff)
qed simp

lemma padEnd_strip: "padEnd (strip_zeros s) (length s) = s"
proof (induction s rule: rev_induct)
  case (snoc c s)
  have "length (strip_zeros s) \<le> length s"
    by (simp add: strip_zeros_def) (metis length_dropWhile_le length_rev)
  with snoc show ?case
    by (auto simp: padEnd_def Suc_diff_le replicate_append_same [symmetric] simp del: replicate.simps)
       (metis append.assoc replicate_Suc replicate_append_same)
qed (simp add: padEnd_def)

lemma strip_zeros_last: "strip_zeros s \<noteq> [] \<Longrightarrow> last (strip_zeros s) \<noteq> CHR ''0''"
  by (induction s rule: rev_induct) auto

lemma strip_zeros_digits: "list_all is_digit s \<Longrightarrow> list_all is_digit (strip_zeros s)"
  by (induction s rule: rev_induct) auto

lemma dot_not_digit: "\<not> is_digit (CHR ''.'')"
  by (simp add: is_digit_def)

lemma digits_no_dot: "list_all is_digit s \<Longrightarrow> CHR ''.'' \<notin> set s"
  using dot_not_digit by (auto simp: list_all_iff)

lemma strip_zeros_eq_Nil: "strip_zeros s = [] \<longleftrightarrow> zeros s"
  by (induction s rule: rev_induct) auto

lemma strip_fraction_eq:
  assumes "f \<noteq> []" and "list_all is_digit f"
  shows "strip_fraction (w @ ''.'' @ f) = (if zeros f then w else w @ ''.'' @ strip_zeros f)"
proof (cases "zeros f")
  case True
  then have "strip_zeros (w @ ''.'' @ f) = w @ ''.''"
    using strip_zeros_append [of "w @ ''.''" f] strip_zeros_snoc [of w "CHR ''.''"] by simp
  with True assms(1) show ?thesis by (auto simp: strip_fraction_def)
next
  case False
  have e: "strip_zeros (w @ ''.'' @ f) = w @ ''.'' @ strip_zeros f"
    using strip_zeros_append [of "w @ ''.''" f] False by simp
  have n: "strip_zeros f \<noteq> []" using False by (simp add: strip_zeros_eq_Nil)
  have "last (strip_zeros f) \<noteq> CHR ''.''"
    using digits_no_dot [OF strip_zeros_digits [OF assms(2)]] n last_in_set by metis
  with n have "last (w @ ''.'' @ strip_zeros f) \<noteq> CHR ''.''" by simp
  with e False show ?thesis by (auto simp: strip_fraction_def Let_def)
qed

lemma whole_fraction [simp]:
  assumes "list_all is_digit w"
  shows "whole_part (w @ CHR ''.'' # f) = w" and "fraction_part (w @ CHR ''.'' # f) = f"
    and "whole_part w = w" and "fraction_part w = []"
proof -
  have w: "\<And>c. c \<in> set w \<Longrightarrow> c \<noteq> CHR ''.''" using digits_no_dot [OF assms] by blast
  then show "whole_part (w @ CHR ''.'' # f) = w" "fraction_part (w @ CHR ''.'' # f) = f"
    "whole_part w = w" "fraction_part w = []"
    using takeWhile_append2 [of w "\<lambda>c. c \<noteq> CHR ''.''", OF w] dropWhile_append2 [of w "\<lambda>c. c \<noteq> CHR ''.''", OF w]
    unfolding whole_part_def fraction_part_def by (simp_all add: takeWhile_eq_all_conv dropWhile_eq_Nil_conv [THEN iffD2] w)
qed

lemma unsigned_digits: "list_all is_digit w \<Longrightarrow> w \<noteq> [] \<Longrightarrow> \<not> minus_sign (w @ s)"
  by (cases w) (auto simp: minus_sign_def)

lemma unsigned_canonical_iff: "unsigned_canonical s \<longleftrightarrow> (\<exists>n. s = show_nat n)"
proof
  assume "unsigned_canonical s"
  then show "\<exists>n. s = show_nat n"
    using show_nat_0 [symmetric] by (fastforce simp: unsigned_canonical_def positive_canonical_iff)
next
  assume "\<exists>n. s = show_nat n"
  then obtain n where "s = show_nat n" by blast
  then show "unsigned_canonical s"
    using show_nat_0 by (cases "n = 0") (auto simp: unsigned_canonical_def positive_canonical_iff)
qed

lemma take_canonical:
  assumes "unsigned_canonical s" and "0 < k" and "k < length s"
  shows "unsigned_canonical (take k s)"
proof -
  have "positive_canonical s" using assms by (auto simp: unsigned_canonical_def)
  with assms(2) show ?thesis
    by (cases s; cases k) (auto simp: unsigned_canonical_def list_all_iff dest: in_set_takeD)
qed

text \<open>The whole and the fraction of a padded value.\<close>

lemma padded_parts:
  assumes "0 < d" and "padStart (show_nat n) (d + 1) = w @ f" and "length f = d"
  shows "unsigned_canonical w" and "list_all is_digit f" and "list_all is_digit w"
    and "n = read_nat w * 10 ^ d + read_nat f" and "w \<noteq> []" and "length w \<le> max 1 (length (show_nat n) - d)"
proof -
  have "list_all is_digit (w @ f)" using padStart_digits [OF show_nat_digits] assms(2) by metis
  then show "list_all is_digit f" "list_all is_digit w" by simp_all
  have "n = read_nat (w @ f)" by (metis assms(2) read_nat_padStart read_show_nat)
  then show "n = read_nat w * 10 ^ d + read_nat f" by (simp add: read_nat_append assms(3))
  have l: "length w + d = max (length (show_nat n)) (d + 1)"
    using length_padStart [of "show_nat n" "d + 1"] unfolding assms(2) length_append assms(3) .
  then show "w \<noteq> []" by auto
  from l show "length w \<le> max 1 (length (show_nat n) - d)" by linarith
  have w: "w = take (length w) (padStart (show_nat n) (d + 1))" using assms(2) by simp
  show "unsigned_canonical w"
  proof (cases "d < length (show_nat n)")
    case True
    then have "w = take (length w) (show_nat n)" using w by (simp add: padStart_def)
    moreover have "0 < length w" "length w < length (show_nat n)" using l True assms(1) by auto
    ultimately show ?thesis
      using take_canonical [of "show_nat n" "length w"] unsigned_canonical_iff [of "show_nat n"] by force
  next
    case False
    with l have "length w = 1" by simp
    with w False have "w = ''0''" by (simp add: padStart_def take_Suc hd_append)
    then show ?thesis by (simp add: unsigned_canonical_def)
  qed
qed

lemma decimal_syntax_digits:
  assumes "unsigned_canonical w" and "w \<noteq> []" and "list_all is_digit w"
  shows "decimal_syntax w" and "g \<noteq> [] \<Longrightarrow> list_all is_digit g \<Longrightarrow> decimal_syntax (w @ CHR ''.'' # g)"
proof -
  have "\<not> minus_sign w" "\<not> minus_sign (w @ CHR ''.'' # g)"
    using unsigned_digits [OF assms(3,2), of "[]"] unsigned_digits [OF assms(3,2)] by simp_all
  with assms digits_no_dot [OF assms(3)]
  show "decimal_syntax w" and "g \<noteq> [] \<Longrightarrow> list_all is_digit g \<Longrightarrow> decimal_syntax (w @ CHR ''.'' # g)"
    by (simp_all add: decimal_syntax_def unsigned_part_def Let_def)
qed

text \<open>What \<open>liveRaw\<close> reads from a whole part and a fraction that fits.\<close>

lemma liveRaw_digits:
  assumes "unsigned_canonical w" and "w \<noteq> []" and "list_all is_digit w"
  shows "length w \<le> 80 \<Longrightarrow> liveRaw (Some (JString w)) d = Inr (int (read_nat w * 10 ^ d))"
    and "length w + length g < 80 \<Longrightarrow> g \<noteq> [] \<Longrightarrow> list_all is_digit g \<Longrightarrow> length g \<le> d \<Longrightarrow>
      liveRaw (Some (JString (w @ CHR ''.'' # g))) d = Inr (int (read_nat w * 10 ^ d + read_nat (padEnd g d)))"
proof -
  have m: "\<not> minus_sign w" "\<not> minus_sign (w @ CHR ''.'' # g)"
    using unsigned_digits [OF assms(3,2), of "[]"] unsigned_digits [OF assms(3,2)] by simp_all
  have w: "read_int w = int (read_nat w)" by (rule read_int_digits [OF assms(2,3)])
  have z: "read_int (padEnd [] d) = 0"
    by (cases "d = 0") (simp_all add: padEnd_def read_int_digits list_all_iff)
  show "length w \<le> 80 \<Longrightarrow> liveRaw (Some (JString w)) d = Inr (int (read_nat w * 10 ^ d))"
    using decimal_syntax_digits(1) [OF assms] m(1) w z whole_fraction(3,4) [OF assms(3)]
    by (simp add: liveRaw_def unsigned_part_def)
  assume g: "length w + length g < 80" "g \<noteq> []" "list_all is_digit g" "length g \<le> d"
  then have "list_all is_digit (padEnd g d)" "padEnd g d \<noteq> []"
    by (auto simp: padEnd_def list_all_iff)
  then have r: "read_int (padEnd g d) = int (read_nat (padEnd g d))" by (simp add: read_int_digits)
  show "liveRaw (Some (JString (w @ CHR ''.'' # g))) d = Inr (int (read_nat w * 10 ^ d + read_nat (padEnd g d)))"
    using decimal_syntax_digits(2) [OF assms g(2,3)] m(2) w r g whole_fraction(1,2) [OF assms(3), of g]
    by (simp add: liveRaw_def unsigned_part_def)
qed

text \<open>C25: A raw integer printed for the wire and read back is the same integer, for every number of decimals
  from 1 on, as long as the printed string fits the eighty characters the reader accepts.\<close>

theorem live_decimal_roundtrip:
  assumes "0 < d" and "d \<le> 78" and "0 \<le> n" and "n < 10 ^ 78"
  shows "bind_res (liveDecimal (show_int n) d) (\<lambda>s. liveRaw (Some (JString s)) d) = Inr n"
proof -
  let ?p = "padStart (show_nat (nat n)) (d + 1)" and ?k = "length (padStart (show_nat (nat n)) (d + 1)) - d"
  define w where "w = take ?k ?p"
  define f where "f = drop ?k ?p"
  have wf: "?p = w @ f" "length f = d" using assms(1) by (simp_all add: w_def f_def)
  note parts = padded_parts [OF assms(1) wf]
  have "nat n < 10 ^ 78" using assms(3,4) by (simp add: nat_less_iff)
  then have "length (show_nat (nat n)) \<le> 78" by (simp add: length_show_nat)
  with parts(6) assms(1,2) have l: "length w + d < 80" by linarith
  have "slice_to ?p d = w" "slice_from ?p d = f" using assms(1) by (simp_all add: slice_to_def slice_from_def w_def f_def)
  moreover have ne: "f \<noteq> []" using wf(2) assms(1) by auto
  ultimately have print: "liveDecimal (show_int n) d = Inr (if zeros f then w else w @ ''.'' @ strip_zeros f)"
    using strip_fraction_eq [OF ne parts(2), of w] assms(3) unsigned_canonical_iff [of "show_nat (nat n)"]
    by (auto simp: liveDecimal_def show_int_def Let_def)
  have n: "n = int (read_nat w * 10 ^ d + read_nat f)" using parts(4) assms(3) by linarith
  show ?thesis
  proof (cases "zeros f")
    case True
    then have "f = replicate d (CHR ''0'')" using wf(2) by (simp add: list_all_iff replicate_eqI)
    then show ?thesis using print True n l liveRaw_digits(1) [OF parts(1,5,3)] by simp
  next
    case False
    have s: "padEnd (strip_zeros f) d = f" using padEnd_strip [of f] wf(2) by simp
    then have "length (strip_zeros f) \<le> d" using wf(2) unfolding padEnd_def by (metis length_append le_add1)
    then show ?thesis
      using print False n l s liveRaw_digits(2) [OF parts(1,5,3) _ _ strip_zeros_digits [OF parts(2)]]
      by (simp add: strip_zeros_eq_Nil)
  qed
qed

theorem live_decimal_roundtrip_witness:
  "bind_res (liveDecimal (show_int 1203400) 8) (\<lambda>s. liveRaw (Some (JString s)) 8) = Inr 1203400"
  by (rule live_decimal_roundtrip) simp_all

lemma validateLiveIdentity_Inr: "validateLiveIdentity hash i = Inr h \<Longrightarrow> h = hash i"
  by (simp add: validateLiveIdentity_def)

lemma liveCloid_cases:
  assumes "liveCloid hash operation_hash i scope operation = Inr c"
  obtains "c = ''0x'' @ take 32 (operation_hash i scope operation)" and "js_mode scope = Live_Mode"
    and "js_owner_id scope = li_owner_id i" and "js_account_id scope = li_account_id i" and "js_instrument_id scope = live_instrument i"
  using assms unfolding liveCloid_def bind_res_Inr liveCheck_Inr by blast

text \<open>The last gate lets a request through to the signer only for its own registered identity and unchanged
  reservation, with the signer enabled by an activation, inside the lease and the two second clock window of its
  nonce, and an entry only while entries are allowed.\<close>

theorem live_gate_safe:
  assumes "assertLiveGate hash operation_hash reservation_hash i r g now = Inr u"
  shows "lg_identity_hash g = hash i \<and> hash (lr_identity r) = hash i
    \<and> lg_reservation_hash g = Some (reservation_hash r)
    \<and> lr_cloid r = ''0x'' @ take 32 (operation_hash i (lr_scope r) (lr_operation_id r))
    \<and> js_mode (lr_scope r) = Live_Mode \<and> js_account_id (lr_scope r) = li_account_id i
    \<and> js_instrument_id (lr_scope r) = live_instrument i
    \<and> lg_signer_enabled g \<and> lg_generation g = lr_generation r \<and> now < lg_lease_until g
    \<and> now < lr_expires_after r \<and> lr_expires_after r \<le> now + 3000 \<and> \<bar>lr_nonce r - now\<bar> \<le> 2000
    \<and> (lr_kind r = Entry_Kind \<longrightarrow> lg_entries_allowed g)"
proof -
  from assms obtain own theirs cloid where h: "validateLiveIdentity hash i = Inr own" "validateLiveIdentity hash (lr_identity r) = Inr theirs"
    "own = theirs" "lg_identity_hash g = own" and c: "liveCloid hash operation_hash i (lr_scope r) (lr_operation_id r) = Inr cloid"
    and rest: "lr_cloid r = cloid" "lg_signer_enabled g" "lg_reservation_hash g = Some (reservation_hash r)"
      "lg_generation g = lr_generation r \<and> lg_lease_until g > now \<and> lr_expires_after r > now
         \<and> lr_expires_after r \<le> lr_nonce r + 2000 \<and> lr_nonce r \<le> now + 1000 \<and> lr_nonce r \<ge> now - 2000"
      "lr_kind r \<noteq> Entry_Kind \<or> lg_entries_allowed g"
    unfolding assertLiveGate_def bind_res_Inr liveCheck_Inr by blast
  from c show ?thesis
    by (rule liveCloid_cases) (use h rest in \<open>auto dest!: validateLiveIdentity_Inr\<close>)
qed

definition sample_address :: string where
  "sample_address = ''0x'' @ replicate 40 (CHR ''a'')"

definition sample_live_identity :: live_identity where
  "sample_live_identity = \<lparr>li_version = live_version, li_mode = ''live'', li_environment = ''testnet'', li_owner_id = ''o'',
     li_account_id = ''a'', li_account_address = sample_address, li_signer_address = sample_address,
     li_signer_generation = ''1'', li_vault_address = None\<rparr>"

definition sample_live_scope :: jev_scope where
  "sample_live_scope = sample_jev_scope\<lparr>js_owner_id := ''o'', js_mode := Live_Mode, js_instrument_id := live_instrument sample_live_identity\<rparr>"

definition sample_reservation :: "(unit, unit) live_reservation" where
  "sample_reservation = \<lparr>lr_identity = sample_live_identity, lr_scope = sample_live_scope, lr_operation_id = ''p'',
     lr_kind = Entry_Kind, lr_generation = 1, lr_nonce = 5000, lr_expires_after = 6500, lr_cloid = ''0xc'',
     lr_action = (), lr_request = (), lr_request_hash = ''q''\<rparr>"

definition sample_gate :: live_gate where
  "sample_gate = \<lparr>lg_identity_hash = ''h'', lg_reservation_hash = Some ''r'', lg_operator_activation_id = Some ''x'',
     lg_signer_enabled = True, lg_entries_allowed = True, lg_generation = 1, lg_lease_until = 7000\<rparr>"

lemma sample_live_address: "live_address sample_address"
  by (simp add: live_address_def sample_address_def lower_hex_def list_all_iff)

lemma sample_live_valid: "validateLiveIdentity h sample_live_identity = Inr (h sample_live_identity)"
  using sample_live_address
  by (simp add: validateLiveIdentity_def sample_live_identity_def live_id_def is_alnum_def is_digit_def)

lemma sample_live_cloid: "liveCloid h (\<lambda>_ _ _. ''c'') sample_live_identity sample_live_scope ''p'' = Inr ''0xc''"
  using sample_live_valid [of h]
  by (simp add: liveCloid_def sample_live_scope_def sample_jev_scope_def live_id_def is_alnum_def is_digit_def)
     (simp add: sample_live_identity_def)

theorem live_gate_safe_witness:
  "assertLiveGate (\<lambda>_. ''h'') (\<lambda>_ _ _. ''c'') (\<lambda>_. ''r'') sample_live_identity sample_reservation sample_gate 5000 = Inr ()
   \<and> lg_entries_allowed sample_gate"
proof -
  have "assertLiveGate (\<lambda>_. ''h'') (\<lambda>_ _ _. ''c'') (\<lambda>_. ''r'') sample_live_identity sample_reservation sample_gate 5000 = Inr ()"
    using sample_live_valid [of "\<lambda>_. ''h''"] sample_live_cloid [of "\<lambda>_. ''h''"]
    by (simp add: assertLiveGate_def sample_reservation_def sample_gate_def)
  with live_gate_safe [OF this] show ?thesis by (simp add: sample_reservation_def)
qed

end
