(* ===== verification/LiveReconcile.thy ===== *)
theory LiveReconcile
  imports LiveContract
begin

text \<open>
  Reading a live account back from the venue, \<open>apps/api/src/venues/hyperliquid/live-reconcile.ts\<close>: the parsers of
  fills, funding, open orders and positions, the inclusive timestamp pagination, the reconstruction of the order of
  the fills from their start positions, and the snapshot all later decisions use. Raw amounts are the integers
  \<open>liveRaw\<close> reads. The venue's answers are inputs; \<open>jevHash\<close> is a parameter per hashed type, and the collation of
  \<open>localeCompare\<close> is the parameter \<open>collate\<close>, the sort key of a string.
\<close>

record live_fill =
  lf_key :: string
  lf_time :: time
  lf_oid :: int
  lf_cloid :: "string option"
  lf_buy :: bool
  lf_quantity :: int
  lf_price :: int
  lf_start_position :: int
  lf_fee :: int
  lf_realized_pnl :: int
  lf_maker :: bool
  lf_original :: "(string \<times> json) list"

record live_funding =
  lu_key :: string
  lu_time :: time
  lu_amount :: int
  lu_position :: int
  lu_rate :: int
  lu_original :: "(string \<times> json) list"

record live_open_order =
  lo_oid :: int
  lo_cloid :: "string option"
  lo_buy :: bool
  lo_quantity :: int
  lo_limit_price :: int
  lo_reduce_only :: bool
  lo_position_stop :: bool
  lo_trigger_price :: "int option"
  lo_original :: "(string \<times> json) list"

section \<open>Parsers\<close>

fun map_res :: "('a \<Rightarrow> 'e + 'b) \<Rightarrow> 'a list \<Rightarrow> 'e + 'b list" where
  "map_res f [] = Inr []"
| "map_res f (x # xs) = bind_res (f x) (\<lambda>y. bind_res (map_res f xs) (\<lambda>ys. Inr (y # ys)))"

definition record_field :: "(string \<times> json) list \<Rightarrow> string \<Rightarrow> live_error + (string \<times> json) list" where
  "record_field x k = (case map_of x k of Some v \<Rightarrow> liveRecord v | None \<Rightarrow> Inl (LiveError ''RESPONSE''))"

definition has_text :: "(string \<times> json) list \<Rightarrow> string \<Rightarrow> string \<Rightarrow> bool" where
  "has_text x k s = (map_of x k = Some (JString s))"

definition is_bool :: "(string \<times> json) list \<Rightarrow> string \<Rightarrow> bool" where
  "is_bool x k = (case map_of x k of Some (JBool _) \<Rightarrow> True | _ \<Rightarrow> False)"

definition optional_text :: "(string \<times> json) list \<Rightarrow> string \<Rightarrow> string option" where
  "optional_text x k = (case map_of x k of Some (JString s) \<Rightarrow> Some s | _ \<Rightarrow> None)"

text \<open>\<open>/^0x[a-f0-9]{64}$/\<close>\<close>

definition venueHash :: "json option \<Rightarrow> live_error + string" where
  "venueHash v = (case v of
     Some (JString s) \<Rightarrow> liveCheck (take 2 s = ''0x'' \<and> lower_hex 64 (drop 2 s)) ''SOURCE_HASH'' (Inr s)
   | _ \<Rightarrow> Inl (LiveError ''SOURCE_HASH''))"

definition parseLiveFill :: "json \<Rightarrow> live_error + live_fill" where
  "parseLiveFill value =
     bind_res (liveRecord value) (\<lambda>x.
     liveCheck (has_text x ''coin'' ''BTC'' \<and> (has_text x ''side'' ''A'' \<or> has_text x ''side'' ''B'')
         \<and> is_bool x ''crossed'' \<and> has_text x ''feeToken'' ''USDC'') ''FILL_CONTRACT''
     (bind_res (liveRaw (map_of x ''sz'') 8) (\<lambda>q.
      bind_res (liveRaw (map_of x ''px'') 6) (\<lambda>px.
      liveCheck (q > 0 \<and> px > 0) ''FILL_AMOUNT''
     (bind_res (if map_of x ''builderFee'' \<noteq> None
         then bind_res (liveRaw (map_of x ''builderFee'') 6) (\<lambda>b. liveCheck (b = 0) ''UNEXPECTED_BUILDER_FEE'' (Inr ()))
         else Inr ()) (\<lambda>_.
      bind_res (venueHash (map_of x ''hash'')) (\<lambda>hash.
      bind_res (liveInteger (map_of x ''tid'') 0) (\<lambda>tid.
      bind_res (liveInteger (map_of x ''time'') 0) (\<lambda>time.
      bind_res (liveInteger (map_of x ''oid'') 1) (\<lambda>oid.
      bind_res (liveRaw (map_of x ''startPosition'') 8) (\<lambda>start.
      bind_res (liveRaw (map_of x ''fee'') 6) (\<lambda>fee.
      bind_res (liveRaw (map_of x ''closedPnl'') 6) (\<lambda>pnl.
        Inr \<lparr>lf_key = ''fill:'' @ hash @ '':'' @ show_int tid, lf_time = time, lf_oid = oid,
             lf_cloid = optional_text x ''cloid'', lf_buy = has_text x ''side'' ''B'', lf_quantity = q, lf_price = px,
             lf_start_position = start, lf_fee = fee, lf_realized_pnl = pnl,
             lf_maker = (map_of x ''crossed'' = Some (JBool False)), lf_original = x\<rparr>)))))))))))))"

definition parseLiveFunding :: "json \<Rightarrow> live_error + live_funding" where
  "parseLiveFunding value =
     bind_res (liveRecord value) (\<lambda>x.
     bind_res (record_field x ''delta'') (\<lambda>d.
     liveCheck (has_text d ''type'' ''funding'' \<and> has_text d ''coin'' ''BTC'') ''FUNDING_CONTRACT''
     (bind_res (venueHash (map_of x ''hash'')) (\<lambda>hash.
      bind_res (liveInteger (map_of x ''time'') 0) (\<lambda>time.
      bind_res (liveRaw (map_of d ''usdc'') 6) (\<lambda>amount.
      bind_res (liveRaw (map_of d ''szi'') 8) (\<lambda>position.
      bind_res (liveRaw (map_of d ''fundingRate'') 18) (\<lambda>rate.
        Inr \<lparr>lu_key = ''funding:'' @ hash @ '':'' @ show_int time, lu_time = time, lu_amount = amount,
             lu_position = position, lu_rate = rate, lu_original = x\<rparr>))))))))"

definition parse_order_row :: "json \<Rightarrow> live_error + live_open_order" where
  "parse_order_row v =
     bind_res (liveRecord v) (\<lambda>x.
     liveCheck (has_text x ''coin'' ''BTC'' \<and> (has_text x ''side'' ''A'' \<or> has_text x ''side'' ''B'')
         \<and> is_bool x ''reduceOnly'' \<and> is_bool x ''isPositionTpsl'' \<and> is_bool x ''isTrigger'') ''ORDER_CONTRACT''
     (bind_res (liveInteger (map_of x ''oid'') 1) (\<lambda>oid.
      bind_res (liveRaw (map_of x ''sz'') 8) (\<lambda>q.
      bind_res (liveRaw (map_of x ''limitPx'') 6) (\<lambda>limit.
      let trigger = (map_of x ''isTrigger'' = Some (JBool True)) in
      bind_res (if trigger then bind_res (liveRaw (map_of x ''triggerPx'') 6) (\<lambda>t. Inr (Some t)) else Inr None) (\<lambda>trigger_price.
        Inr \<lparr>lo_oid = oid, lo_cloid = optional_text x ''cloid'', lo_buy = has_text x ''side'' ''B'', lo_quantity = q,
             lo_limit_price = limit, lo_reduce_only = (map_of x ''reduceOnly'' = Some (JBool True)),
             lo_position_stop = (map_of x ''isPositionTpsl'' = Some (JBool True) \<and> trigger \<and> has_text x ''orderType'' ''Stop Market''),
             lo_trigger_price = trigger_price, lo_original = x\<rparr>))))))"

definition parseLiveOrders :: "json \<Rightarrow> live_error + live_open_order list" where
  "parseLiveOrders value = (case value of
     JArray vs \<Rightarrow> liveCheck (length vs \<le> 2000) ''ORDERS_RESPONSE'' (map_res parse_order_row vs)
   | _ \<Rightarrow> Inl (LiveError ''ORDERS_RESPONSE''))"

record live_position =
  lp_venue_at :: time
  lp_position :: int
  lp_trading_balance :: int
  lp_equity :: int
  lp_open_pnl :: int
  lp_isolated_1x :: bool

fun every_res :: "('a \<Rightarrow> 'e + bool) \<Rightarrow> 'a list \<Rightarrow> 'e + bool" where
  "every_res f [] = Inr True"
| "every_res f (x # xs) = bind_res (f x) (\<lambda>b. if b then every_res f xs else Inr False)"

definition isolated_one :: "(string \<times> json) list \<Rightarrow> bool" where
  "isolated_one leverage = (has_text leverage ''type'' ''isolated'' \<and> map_of leverage ''value'' = Some (JNumber (Integral 1)))"

definition position_rows :: "(string \<times> json) list \<Rightarrow> live_error + (string \<times> json) list list" where
  "position_rows x = (case map_of x ''assetPositions'' of
     Some (JArray vs) \<Rightarrow>
       liveCheck (length vs \<le> 100) ''POSITION_RESPONSE''
         (map_res (\<lambda>v. bind_res (liveRecord v) (\<lambda>p. record_field p ''position'')) vs)
   | _ \<Rightarrow> Inl (LiveError ''POSITION_RESPONSE''))"

definition parseLivePosition :: "json \<Rightarrow> live_error + live_position" where
  "parseLivePosition value =
     bind_res (liveRecord value) (\<lambda>x.
     bind_res (record_field x ''marginSummary'') (\<lambda>margin.
     bind_res (position_rows x) (\<lambda>positions.
     bind_res (every_res (\<lambda>p. if has_text p ''coin'' ''BTC'' then Inr True
         else bind_res (liveRaw (map_of p ''szi'') 8) (\<lambda>q. Inr (q = 0))) positions) (\<lambda>no_extra.
     liveCheck (no_extra \<and> length (filter (\<lambda>p. has_text p ''coin'' ''BTC'') positions) \<le> 1) ''EXTRA_POSITION''
     (let found = find (\<lambda>p. has_text p ''coin'' ''BTC'') positions in
      bind_res (case found of Some p \<Rightarrow> bind_res (record_field p ''leverage'') (\<lambda>l. Inr (Some l)) | None \<Rightarrow> Inr None) (\<lambda>leverage.
      bind_res (case found of Some p \<Rightarrow> liveRaw (map_of p ''szi'') 8 | None \<Rightarrow> Inr 0) (\<lambda>position.
      bind_res (case found of Some p \<Rightarrow> liveRaw (map_of p ''unrealizedPnl'') 6 | None \<Rightarrow> Inr 0) (\<lambda>pnl.
      bind_res (liveRaw (map_of margin ''totalRawUsd'') 6) (\<lambda>balance.
      bind_res (liveRaw (map_of margin ''accountValue'') 6) (\<lambda>equity.
      liveCheck (balance + pnl = equity) ''BALANCE_DIVERGENCE''
     (bind_res (liveInteger (map_of x ''time'') 0) (\<lambda>venue_at.
        Inr \<lparr>lp_venue_at = venue_at, lp_position = position, lp_trading_balance = balance, lp_equity = equity,
             lp_open_pnl = pnl, lp_isolated_1x = (case leverage of Some l \<Rightarrow> isolated_one l | None \<Rightarrow> False)\<rparr>))))))))))))"

section \<open>Pagination\<close>

text \<open>
  One page after another from an inclusive cursor. A page shorter than the cap is the last; a full page moves the
  cursor to its latest time, and a full page inside one millisecond is an error, as are ten thousand rows and
  twenty-four full pages.
\<close>

definition page_row :: "('t \<Rightarrow> string) \<Rightarrow> ('t \<Rightarrow> time) \<Rightarrow> ('t \<Rightarrow> string) \<Rightarrow> time \<Rightarrow> time \<Rightarrow> (string \<times> 't) list \<Rightarrow> 't \<Rightarrow> live_error + (string \<times> 't) list" where
  "page_row key time hash cursor until rows row =
     liveCheck (time row \<ge> cursor \<and> time row \<le> until) ''PAGE_CLOCK''
     (liveCheck (case map_of rows (key row) of None \<Rightarrow> True | Some old \<Rightarrow> hash old = hash row) ''SOURCE_COLLISION''
       (Inr (AList.update (key row) row rows)))"

fun page_loop ::
  "('t \<Rightarrow> string) \<Rightarrow> ('t \<Rightarrow> time) \<Rightarrow> ('t \<Rightarrow> string) \<Rightarrow> (string \<Rightarrow> string) \<Rightarrow> (time \<Rightarrow> time \<Rightarrow> live_error + json) \<Rightarrow> (json \<Rightarrow> live_error + 't)
     \<Rightarrow> nat \<Rightarrow> time \<Rightarrow> nat \<Rightarrow> (string \<times> 't) list \<Rightarrow> time \<Rightarrow> live_error + 't list" where
  "page_loop key time hash collate request parse cap until 0 rows cursor = Inl Live_Page_Limit"
| "page_loop key time hash collate request parse cap until (Suc pages) rows cursor =
     bind_res (request cursor until) (\<lambda>value.
     case value of
       JArray vs \<Rightarrow>
         liveCheck (length vs \<le> cap) ''PAGE_RESPONSE''
         (bind_res (map_res parse vs) (\<lambda>parsed.
          bind_res (fold_res (page_row key time hash cursor until) rows parsed) (\<lambda>rows'.
          liveCheck (length rows' < 10000) ''HISTORY_TRUNCATED''
          (if length vs < cap then Inr (sort_key time (sort_key (\<lambda>r. collate (key r)) (map snd rows')))
           else liveCheck (parsed \<noteq> [] \<and> Max (set (map time parsed)) > cursor) ''PAGE_SATURATED_TIMESTAMP''
             (page_loop key time hash collate request parse cap until pages rows' (Max (set (map time parsed))))))))
     | _ \<Rightarrow> Inl (LiveError ''PAGE_RESPONSE''))"

definition livePages ::
  "('t \<Rightarrow> string) \<Rightarrow> ('t \<Rightarrow> time) \<Rightarrow> ('t \<Rightarrow> string) \<Rightarrow> (string \<Rightarrow> string) \<Rightarrow> (time \<Rightarrow> time \<Rightarrow> live_error + json) \<Rightarrow> (json \<Rightarrow> live_error + 't)
     \<Rightarrow> time \<Rightarrow> time \<Rightarrow> nat \<Rightarrow> live_error + 't list" where
  "livePages key time hash collate request parse start until cap =
     page_loop key time hash collate request parse cap until 24 [] start"

section \<open>The order of the fills\<close>

text \<open>
  Within one timestamp the next fill is the first whose start position is the position reached so far. No such fill,
  or more than one, makes the history incomplete; the fill is taken all the same, so none is lost.
\<close>

definition fill_change :: "live_fill \<Rightarrow> int" where
  "fill_change f = (if lf_buy f then 1 else -1) * lf_quantity f"

fun find_index :: "('a \<Rightarrow> bool) \<Rightarrow> 'a list \<Rightarrow> nat option" where
  "find_index p [] = None"
| "find_index p (x # xs) = (if p x then Some 0 else map_option Suc (find_index p xs))"

fun order_group :: "nat \<Rightarrow> live_fill list \<Rightarrow> int \<times> bool \<times> live_fill list \<Rightarrow> int \<times> bool \<times> live_fill list" where
  "order_group 0 same (q, complete, ordered) = (q, complete, ordered)"
| "order_group (Suc n) same (q, complete, ordered) =
     (let unique = \<not> length (filter (\<lambda>f. lf_start_position f = q) same) > 1;
          found = find_index (\<lambda>f. lf_start_position f = q) same;
          index = (case found of Some k \<Rightarrow> k | None \<Rightarrow> 0);
          f = same ! index
      in order_group n (take index same @ drop (index + 1) same)
           (lf_start_position f + fill_change f, complete \<and> unique \<and> found \<noteq> None, ordered @ [f]))"

definition first_occurrences :: "'a list \<Rightarrow> 'a list" where
  "first_occurrences xs = rev (remdups (rev xs))"

definition order_fills :: "live_fill list \<Rightarrow> int \<times> bool \<times> live_fill list" where
  "order_fills fills =
     fold (\<lambda>t s. let same = filter (\<lambda>f. lf_time f = t) fills in order_group (length same) same s)
       (first_occurrences (map lf_time fills)) (0, True, [])"

section \<open>Snapshots\<close>

record live_snapshot =
  ls_version :: string
  ls_identity_hash :: string
  ls_snapshot_id :: string
  ls_started_at :: time
  ls_received_at :: time
  ls_venue_at :: time
  ls_position :: int
  ls_trading_balance :: int
  ls_equity :: int
  ls_open_pnl :: int
  ls_isolated_1x :: bool
  ls_history_complete :: bool
  ls_consistent :: bool
  ls_flat :: bool
  ls_orders :: "live_open_order list"
  ls_fills :: "live_fill list"
  ls_funding :: "live_funding list"

text \<open>The answers of the venue to one collection, in the order of its calls, with the two clock readings.\<close>

record venue_reads =
  vr_started_at :: time
  vr_before :: "live_error + json"
  vr_orders_before :: "live_error + json"
  vr_fills :: "time \<Rightarrow> time \<Rightarrow> live_error + json"
  vr_funding :: "time \<Rightarrow> time \<Rightarrow> live_error + json"
  vr_active :: "live_error + json"
  vr_after :: "live_error + json"
  vr_orders_after :: "live_error + json"
  vr_received_at :: time

record live_hashes =
  lh_identity :: "live_identity \<Rightarrow> string"
  lh_json :: "json \<Rightarrow> string"
  lh_fill :: "live_fill \<Rightarrow> string"
  lh_funding :: "live_funding \<Rightarrow> string"
  lh_position :: "live_position \<Rightarrow> string"
  lh_original :: "json list \<Rightarrow> string list \<Rightarrow> string list \<Rightarrow> time \<Rightarrow> time \<Rightarrow> string"

definition same_account :: "live_hashes \<Rightarrow> live_position \<Rightarrow> live_position \<Rightarrow> json \<Rightarrow> json \<Rightarrow> time \<Rightarrow> time \<Rightarrow> bool" where
  "same_account h a b orders_before orders_after started received =
     (lh_position h (a\<lparr>lp_venue_at := 0\<rparr>) = lh_position h (b\<lparr>lp_venue_at := 0\<rparr>) \<and> lh_json h orders_before = lh_json h orders_after
      \<and> lp_venue_at b \<ge> lp_venue_at a \<and> lp_venue_at b \<le> received \<and> received - lp_venue_at a \<le> 2000
      \<and> received - started \<le> 2000)"

definition build_snapshot ::
  "live_hashes \<Rightarrow> live_identity \<Rightarrow> venue_reads \<Rightarrow> json list \<Rightarrow> (string \<times> json) list \<Rightarrow> live_position \<Rightarrow> live_open_order list
     \<Rightarrow> live_fill list \<Rightarrow> live_funding list \<Rightarrow> bool \<Rightarrow> live_snapshot" where
  "build_snapshot h i v original leverage b orders fills funding consistent =
     (let (q, chained, ordered) = order_fills fills;
          history_complete = (chained \<and> q = lp_position b)
      in \<lparr>ls_version = live_version, ls_identity_hash = lh_identity h i,
          ls_snapshot_id = lh_original h original (map lf_key ordered) (map lu_key funding) (vr_started_at v) (vr_received_at v),
          ls_started_at = vr_started_at v, ls_received_at = vr_received_at v, ls_venue_at = lp_venue_at b,
          ls_position = lp_position b, ls_trading_balance = lp_trading_balance b, ls_equity = lp_equity b,
          ls_open_pnl = lp_open_pnl b, ls_isolated_1x = (isolated_one leverage \<and> (lp_position b = 0 \<or> lp_isolated_1x b)),
          ls_history_complete = history_complete, ls_consistent = consistent,
          ls_flat = (lp_position b = 0 \<and> orders = [] \<and> consistent \<and> history_complete),
          ls_orders = orders, ls_fills = ordered, ls_funding = funding\<rparr>)"

definition collectLiveSnapshot ::
  "live_hashes \<Rightarrow> (string \<Rightarrow> string) \<Rightarrow> live_identity \<Rightarrow> time \<Rightarrow> venue_reads \<Rightarrow> live_error + live_snapshot" where
  "collectLiveSnapshot h collate i start v =
     liveCheck (start \<le> vr_started_at v) ''HISTORY_START''
     (bind_res (vr_before v) (\<lambda>before.
      bind_res (vr_orders_before v) (\<lambda>orders_before.
      bind_res (livePages lf_key lf_time (lh_fill h) collate (vr_fills v) parseLiveFill start (vr_started_at v) 2000) (\<lambda>fills.
      bind_res (livePages lu_key lu_time (lh_funding h) collate (vr_funding v) parseLiveFunding start (vr_started_at v) 500) (\<lambda>funding.
      bind_res (bind_res (vr_active v) liveRecord) (\<lambda>active.
      liveCheck (has_text active ''user'' (li_account_address i) \<and> has_text active ''coin'' ''BTC'') ''ACTIVE_ASSET_OWNER''
     (bind_res (record_field active ''leverage'') (\<lambda>leverage.
      bind_res (vr_after v) (\<lambda>after.
      bind_res (vr_orders_after v) (\<lambda>orders_after.
      bind_res (parseLivePosition before) (\<lambda>a.
      bind_res (parseLivePosition after) (\<lambda>b.
      bind_res (parseLiveOrders orders_after) (\<lambda>orders.
        Inr (build_snapshot h i v [before, after, JObject active, orders_before, orders_after] leverage b orders fills funding
          (same_account h a b orders_before orders_after (vr_started_at v) (vr_received_at v))))))))))))))))"

definition requireLiveFreshSnapshot :: "live_hashes \<Rightarrow> live_identity \<Rightarrow> live_snapshot \<Rightarrow> time \<Rightarrow> live_error + unit" where
  "requireLiveFreshSnapshot h i s now =
     liveCheck (ls_identity_hash s = lh_identity h i \<and> ls_version s = live_version \<and> ls_received_at s \<le> now
         \<and> ls_started_at s \<le> ls_received_at s \<and> ls_venue_at s \<le> now \<and> now - ls_started_at s \<le> 2000
         \<and> now - ls_venue_at s \<le> 2000 \<and> ls_consistent s) ''RECONCILIATION_REQUIRED'' (Inr ())"

section \<open>Reconstruction of the position\<close>

text \<open>Fills that start where the previous one ended, from \<open>q\<close> to \<open>p\<close>.\<close>

fun fill_chain :: "int \<Rightarrow> live_fill list \<Rightarrow> int \<Rightarrow> bool" where
  "fill_chain q [] p = (p = q)"
| "fill_chain q (f # fs) p = (lf_start_position f = q \<and> fill_chain (q + fill_change f) fs p)"

lemma fill_chain_snoc:
  "fill_chain q fs p \<Longrightarrow> lf_start_position f = p \<Longrightarrow> fill_chain q (fs @ [f]) (p + fill_change f)"
  by (induction fs arbitrary: q) auto

lemma fill_chain_sum: "fill_chain q fs p \<Longrightarrow> p = q + sum_list (map fill_change fs)"
  by (induction fs arbitrary: q) fastforce+

lemma find_index_Some: "find_index p xs = Some k \<Longrightarrow> k < length xs \<and> p (xs ! k)"
  by (induction xs arbitrary: k) (auto split: if_splits)

lemma mset_take_drop: "k < length xs \<Longrightarrow> mset (take k xs @ drop (k + 1) xs) + {# xs ! k #} = mset xs"
  by (metis add.commute add_mset_add_single id_take_nth_drop mset.simps(2) mset_append union_mset_add_mset_right Suc_eq_plus1)

lemma order_group_step:
  assumes "length same = Suc n"
  obtains k u where "k < length same" and "u \<longrightarrow> lf_start_position (same ! k) = q"
    and "order_group (Suc n) same (q, c, ord) =
      order_group n (take k same @ drop (k + 1) same) (lf_start_position (same ! k) + fill_change (same ! k), c \<and> u, ord @ [same ! k])"
proof (cases "find_index (\<lambda>f. lf_start_position f = q) same")
  case None
  show thesis by (rule that [of 0 False]) (use assms None in \<open>simp_all add: Let_def\<close>)
next
  case (Some k)
  show thesis
    by (rule that [of k "\<not> length (filter (\<lambda>f. lf_start_position f = q) same) > 1"])
       (use find_index_Some [OF Some] Some in \<open>simp_all add: Let_def\<close>)
qed

lemma order_group_all:
  "length same = n \<Longrightarrow> order_group n same (q, c, ord) = (q', c', ord') \<Longrightarrow> mset ord' = mset ord + mset same"
proof (induction n arbitrary: same q c ord)
  case (Suc n)
  obtain k u where k: "k < length same" and e: "order_group (Suc n) same (q, c, ord) =
      order_group n (take k same @ drop (k + 1) same) (lf_start_position (same ! k) + fill_change (same ! k), c \<and> u, ord @ [same ! k])"
    using order_group_step [OF Suc.prems(1)] by metis
  have "length (take k same @ drop (k + 1) same) = n" using k Suc.prems(1) by simp
  from Suc.IH [OF this] e Suc.prems(2)
  have "mset ord' = mset (ord @ [same ! k]) + mset (take k same @ drop (k + 1) same)" by metis
  then show ?case using mset_take_drop [OF k] by simp
qed simp

lemma order_group_chain:
  "length same = n \<Longrightarrow> order_group n same (q, c, ord) = (q', c', ord') \<Longrightarrow> (c \<longrightarrow> fill_chain p ord q) \<Longrightarrow>
   c' \<longrightarrow> c \<and> fill_chain p ord' q'"
proof (induction n arbitrary: same q c ord)
  case (Suc n)
  obtain k u where k: "k < length same" "u \<longrightarrow> lf_start_position (same ! k) = q" and e: "order_group (Suc n) same (q, c, ord) =
      order_group n (take k same @ drop (k + 1) same) (lf_start_position (same ! k) + fill_change (same ! k), c \<and> u, ord @ [same ! k])"
    using order_group_step [OF Suc.prems(1)] by metis
  have l: "length (take k same @ drop (k + 1) same) = n" using k Suc.prems(1) by simp
  have "c \<and> u \<longrightarrow> fill_chain p (ord @ [same ! k]) (lf_start_position (same ! k) + fill_change (same ! k))"
    using k(2) Suc.prems(3) fill_chain_snoc by blast
  from Suc.IH [OF l _ this] e Suc.prems(2) show ?case by metis
qed simp

lemma set_first_occurrences [simp]: "set (first_occurrences xs) = set xs" "distinct (first_occurrences xs)"
  by (simp_all add: first_occurrences_def)

lemma order_fold:
  assumes "distinct ts"
    and "fold (\<lambda>t s. let same = filter (\<lambda>f. lf_time f = t) fills in order_group (length same) same s) ts (q, c, ord) = (q', c', ord')"
    and "c \<longrightarrow> fill_chain p ord q"
  shows "mset ord' = mset ord + mset (filter (\<lambda>f. lf_time f \<in> set ts) fills) \<and> (c' \<longrightarrow> fill_chain p ord' q')"
  using assms
proof (induction ts arbitrary: q c ord)
  case (Cons t ts)
  let ?same = "filter (\<lambda>f. lf_time f = t) fills"
  obtain q1 c1 ord1 where g: "order_group (length ?same) ?same (q, c, ord) = (q1, c1, ord1)" by (metis prod_cases3)
  note all = order_group_all [OF refl g]
  have "c1 \<longrightarrow> fill_chain p ord1 q1" using order_group_chain [OF refl g Cons.prems(3)] by blast
  with Cons.IH [of q1 c1 ord1] Cons.prems(1,2) g
  have "mset ord' = mset ord1 + mset (filter (\<lambda>f. lf_time f \<in> set ts) fills) \<and> (c' \<longrightarrow> fill_chain p ord' q')" by simp
  moreover have "mset (filter (\<lambda>f. lf_time f \<in> set (t # ts)) fills)
      = mset ?same + mset (filter (\<lambda>f. lf_time f \<in> set ts) fills)"
    using Cons.prems(1) by (induction fills) auto
  ultimately show ?case using all by (simp add: add.assoc)
qed simp

lemma order_fills_spec:
  assumes "order_fills fills = (q, c, ord)"
  shows "mset ord = mset fills" and "c \<Longrightarrow> fill_chain 0 ord q"
  using order_fold [OF set_first_occurrences(2) assms [unfolded order_fills_def], of 0] by simp_all

lemma collect_cases:
  assumes "collectLiveSnapshot h collate i start v = Inr s"
  obtains before after active leverage orders_before orders_after fills funding a b orders
  where "start \<le> vr_started_at v"
    and "livePages lf_key lf_time (lh_fill h) collate (vr_fills v) parseLiveFill start (vr_started_at v) 2000 = Inr fills"
    and "vr_after v = Inr after" and "parseLivePosition after = Inr b"
    and "vr_orders_after v = Inr orders_after" and "parseLiveOrders orders_after = Inr orders"
    and "s = build_snapshot h i v [before, after, JObject active, orders_before, orders_after] leverage b orders fills funding
          (same_account h a b orders_before orders_after (vr_started_at v) (vr_received_at v))"
  using assms unfolding collectLiveSnapshot_def bind_res_Inr liveCheck_Inr by blast

lemma build_snapshot_fields:
  assumes "order_fills fills = (q, c, ord)"
  shows "ls_fills (build_snapshot h i v original leverage b orders fills funding consistent) = ord"
    and "ls_history_complete (build_snapshot h i v original leverage b orders fills funding consistent) = (c \<and> q = lp_position b)"
    and "ls_position (build_snapshot h i v original leverage b orders fills funding consistent) = lp_position b"
    and "ls_orders (build_snapshot h i v original leverage b orders fills funding consistent) = orders"
    and "ls_consistent (build_snapshot h i v original leverage b orders fills funding consistent) = consistent"
    and "ls_equity (build_snapshot h i v original leverage b orders fills funding consistent) = lp_equity b"
    and "ls_trading_balance (build_snapshot h i v original leverage b orders fills funding consistent) = lp_trading_balance b"
    and "ls_open_pnl (build_snapshot h i v original leverage b orders fills funding consistent) = lp_open_pnl b"
    and "ls_flat (build_snapshot h i v original leverage b orders fills funding consistent)
      = (lp_position b = 0 \<and> orders = [] \<and> consistent \<and> c \<and> q = lp_position b)"
  by (simp_all add: build_snapshot_def assms Let_def)

lemma parseLivePosition_balance: "parseLivePosition x = Inr p \<Longrightarrow> lp_equity p = lp_trading_balance p + lp_open_pnl p"
  unfolding parseLivePosition_def Let_def bind_res_Inr liveCheck_Inr by auto

text \<open>C17: A complete history explains the position: the fills of a snapshot are those read, in an order in which each
  starts at the position the previous one left, from nothing to the venue's position, and the equity is the balance
  and the open profit. A flat snapshot has no position, no order and a history that closes.\<close>

theorem snapshot_history:
  assumes "collectLiveSnapshot h collate i start v = Inr s"
  shows "ls_equity s = ls_trading_balance s + ls_open_pnl s
    \<and> (\<exists>fills. livePages lf_key lf_time (lh_fill h) collate (vr_fills v) parseLiveFill start (vr_started_at v) 2000 = Inr fills
        \<and> mset (ls_fills s) = mset fills)
    \<and> (ls_history_complete s \<longrightarrow> fill_chain 0 (ls_fills s) (ls_position s)
        \<and> ls_position s = sum_list (map fill_change (ls_fills s)))
    \<and> (ls_flat s \<longrightarrow> ls_position s = 0 \<and> ls_orders s = [] \<and> ls_consistent s \<and> ls_history_complete s)"
  using assms
proof (rule collect_cases)
  fix before after active leverage orders_before orders_after fills funding a b orders
  assume p: "livePages lf_key lf_time (lh_fill h) collate (vr_fills v) parseLiveFill start (vr_started_at v) 2000 = Inr fills"
    and b: "parseLivePosition after = Inr b"
    and s: "s = build_snapshot h i v [before, after, JObject active, orders_before, orders_after] leverage b orders fills funding
          (same_account h a b orders_before orders_after (vr_started_at v) (vr_received_at v))"
  obtain q c ord where o: "order_fills fills = (q, c, ord)" by (metis prod_cases3)
  note fields = build_snapshot_fields [OF o]
  show ?thesis
    unfolding s fields using p parseLivePosition_balance [OF b] order_fills_spec [OF o] fill_chain_sum [of 0 ord "lp_position b"]
    by auto
qed

lemmas page_loop_numeral = page_loop.simps(2) [of _ _ _ _ _ _ _ _ "pred_numeral k", folded numeral_eq_Suc] for k

definition sample_hashes :: live_hashes where
  "sample_hashes = \<lparr>lh_identity = (\<lambda>_. ''h''), lh_json = (\<lambda>_. ''j''), lh_fill = lf_key, lh_funding = lu_key, lh_position = (\<lambda>_. ''p''),
     lh_original = (\<lambda>_ _ _ _ _. ''s'')\<rparr>"

definition sample_fill_json :: json where
  "sample_fill_json = JObject [(''coin'', JString ''BTC''), (''side'', JString ''B''), (''crossed'', JBool False),
     (''feeToken'', JString ''USDC''), (''sz'', JString ''0.5''), (''px'', JString ''9''), (''fee'', JString ''0''),
     (''closedPnl'', JString ''0''), (''startPosition'', JString ''0''), (''hash'', JString (''0x'' @ replicate 64 (CHR ''a''))),
     (''tid'', JNumber (Integral 7)), (''time'', JNumber (Integral 40)), (''oid'', JNumber (Integral 3))]"

definition sample_position_json :: json where
  "sample_position_json = JObject [(''marginSummary'', JObject [(''totalRawUsd'', JString ''5''), (''accountValue'', JString ''6'')]),
     (''assetPositions'', JArray [JObject [(''position'', JObject [(''coin'', JString ''BTC''), (''szi'', JString ''0.5''),
        (''unrealizedPnl'', JString ''1''), (''leverage'', JObject [(''type'', JString ''isolated''), (''value'', JNumber (Integral 1))])])]]),
     (''time'', JNumber (Integral 60))]"

definition sample_reads :: venue_reads where
  "sample_reads = \<lparr>vr_started_at = 50, vr_before = Inr sample_position_json, vr_orders_before = Inr (JArray []),
     vr_fills = (\<lambda>_ _. Inr (JArray [sample_fill_json])), vr_funding = (\<lambda>_ _. Inr (JArray [])),
     vr_active = Inr (JObject [(''user'', JString sample_address), (''coin'', JString ''BTC''),
        (''leverage'', JObject [(''type'', JString ''isolated''), (''value'', JNumber (Integral 1))])]),
     vr_after = Inr sample_position_json, vr_orders_after = Inr (JArray []), vr_received_at = 70\<rparr>"

lemma liveRaw_digit:
  "is_digit c \<Longrightarrow> liveRaw (Some (JString [c])) d = Inr (int (digit_val c) * 10 ^ d)"
  using liveRaw_digits(1) [of "[c]" d] by (simp add: unsigned_canonical_def)

lemma liveRaw_half: "liveRaw (Some (JString ''0.5'')) 8 = Inr 50000000"
  using liveRaw_digits(2) [of "''0''" "''5''" 8] read_nat_append [of "''5''" "replicate 7 (CHR ''0'')"]
  by (simp add: unsigned_canonical_def is_digit_def padEnd_def digit_val_def)

lemma sample_position_parsed:
  "parseLivePosition sample_position_json = Inr \<lparr>lp_venue_at = 60, lp_position = 50000000, lp_trading_balance = 5000000,
     lp_equity = 6000000, lp_open_pnl = 1000000, lp_isolated_1x = True\<rparr>"
proof -
  show ?thesis
    by (simp add: liveRaw_half sample_position_json_def parseLivePosition_def position_rows_def record_field_def liveRecord_def has_text_def
        isolated_one_def liveInteger_def liveRaw_digit is_digit_def digit_val_def)
qed

lemma sample_fill_parsed: "\<exists>f. parseLiveFill sample_fill_json = Inr f \<and> lf_time f = 40 \<and> lf_start_position f = 0
    \<and> lf_buy f \<and> lf_quantity f = 50000000"
proof -
  show ?thesis
    by (simp add: liveRaw_half sample_fill_json_def parseLiveFill_def liveRecord_def has_text_def is_bool_def
        venueHash_def lower_hex_def list_all_iff liveInteger_def liveRaw_digit is_digit_def digit_val_def)
qed

theorem snapshot_history_witness:
  "\<exists>s. collectLiveSnapshot sample_hashes id sample_live_identity 0 sample_reads = Inr s \<and> ls_history_complete s
     \<and> ls_position s = sum_list (map fill_change (ls_fills s)) \<and> ls_position s = 50000000"
proof -
  obtain f where f: "parseLiveFill sample_fill_json = Inr f" "lf_time f = 40" "lf_start_position f = 0" "lf_buy f" "lf_quantity f = 50000000"
    using sample_fill_parsed by blast
  have pages: "livePages lf_key lf_time (lh_fill sample_hashes) id (vr_fills sample_reads) parseLiveFill 0 50 2000 = Inr [f]"
    "livePages lu_key lu_time (lh_funding sample_hashes) id (vr_funding sample_reads) parseLiveFunding 0 50 500 = Inr []"
    using f by (simp_all add: livePages_def page_loop_numeral page_row_def sample_reads_def)
  have ordered: "order_fills [f] = (50000000, True, [f])"
    using f by (simp add: order_fills_def first_occurrences_def fill_change_def Let_def)
  obtain s where s: "collectLiveSnapshot sample_hashes id sample_live_identity 0 sample_reads = Inr s"
    "ls_history_complete s" "ls_position s = 50000000"
    using pages sample_position_parsed
    by (simp add: collectLiveSnapshot_def sample_reads_def liveRecord_def has_text_def record_field_def parseLiveOrders_def
        sample_live_identity_def build_snapshot_def ordered Let_def)
  from snapshot_history [OF s(1)] s show ?thesis by blast
qed

section \<open>Complete pages\<close>

text \<open>
  The documented behaviour of a time range query: a page holds rows of the range only; a page shorter than the cap
  holds all of them, and a full page at least those older than its latest row (oldest first).
\<close>

definition window :: "('t \<Rightarrow> time) \<Rightarrow> 't set \<Rightarrow> time \<Rightarrow> time \<Rightarrow> 't set" where
  "window time source a b = {r \<in> source. a \<le> time r \<and> time r \<le> b}"

definition oldest_first ::
  "('t \<Rightarrow> time) \<Rightarrow> 't set \<Rightarrow> (time \<Rightarrow> time \<Rightarrow> live_error + json) \<Rightarrow> (json \<Rightarrow> live_error + 't) \<Rightarrow> nat \<Rightarrow> time \<Rightarrow> bool" where
  "oldest_first time source request parse cap until =
     (\<forall>cursor vs ps. request cursor until = Inr (JArray vs) \<longrightarrow> map_res parse vs = Inr ps \<longrightarrow>
        set ps \<subseteq> window time source cursor until
        \<and> (length vs < cap \<longrightarrow> window time source cursor until \<subseteq> set ps)
        \<and> (ps \<noteq> [] \<longrightarrow> (\<forall>r \<in> window time source cursor until. time r < Max (set (map time ps)) \<longrightarrow> r \<in> set ps)))"

definition rows_of :: "('t \<Rightarrow> string) \<Rightarrow> 't set \<Rightarrow> (string \<times> 't) list \<Rightarrow> bool" where
  "rows_of key allowed rows = (distinct (map fst rows) \<and> (\<forall>k r. map_of rows k = Some r \<longrightarrow> key r = k \<and> r \<in> allowed))"

lemma rows_of_update: "rows_of key allowed rows \<Longrightarrow> r \<in> allowed \<Longrightarrow> rows_of key allowed (AList.update (key r) r rows)"
  by (auto simp: rows_of_def distinct_update update_conv' split: if_splits)

lemma rows_of_keys: "rows_of key allowed rows \<Longrightarrow> key ` set (map snd rows) = dom (map_of rows)"
proof -
  assume rows: "rows_of key allowed rows"
  have "snd ` set rows = ran (map_of rows)" using rows by (simp add: rows_of_def ran_distinct)
  with rows show ?thesis by (force simp: rows_of_def ran_def dom_def)
qed

lemma page_rows:
  "fold_res (page_row key time hash cursor until) rows ps = Inr rows' \<Longrightarrow> rows_of key allowed rows \<Longrightarrow> set ps \<subseteq> allowed \<Longrightarrow>
   rows_of key allowed rows' \<and> dom (map_of rows') = dom (map_of rows) \<union> key ` set ps"
proof (induction ps arbitrary: rows)
  case (Cons r ps)
  then obtain rows1 where r: "page_row key time hash cursor until rows r = Inr rows1"
    and f: "fold_res (page_row key time hash cursor until) rows1 ps = Inr rows'" by auto
  from r have "rows1 = AList.update (key r) r rows" by (simp add: page_row_def)
  with f have "fold_res (page_row key time hash cursor until) (AList.update (key r) r rows) ps = Inr rows'" by simp
  from Cons.IH [OF this rows_of_update [OF Cons.prems(2)]] Cons.prems(3)
  show ?case by (auto simp: update_conv')
qed simp

lemma rows_of_sorted:
  assumes "rows_of key allowed rows" and rs: "rs = sort_key time (sort_key g (map snd rows))"
  shows "set rs \<subseteq> allowed" and "key ` set rs = dom (map_of rows)" and "distinct (map key rs)" and "sorted (map time rs)"
proof -
  have s: "set rs = snd ` set rows" using rs by simp
  have "snd ` set rows = ran (map_of rows)" using assms(1) by (simp add: rows_of_def ran_distinct)
  with s assms(1) show "set rs \<subseteq> allowed" by (auto simp: rows_of_def ran_def)
  show "key ` set rs = dom (map_of rows)" using rows_of_keys [OF assms(1)] s by simp
  have "map key (map snd rows) = map fst rows"
    using assms(1) by (auto simp: rows_of_def)
  then have "distinct (map key (map snd rows))" using assms(1) unfolding rows_of_def by metis
  moreover have "mset (map key rs) = mset (map key (map snd rows))" unfolding mset_map rs mset_sort ..
  ultimately show "distinct (map key rs)" using mset_eq_imp_distinct_iff by blast
  show "sorted (map time rs)" using rs by simp
qed

lemma page_loop_Suc:
  assumes "page_loop key time hash collate request parse cap until (Suc n) rows cursor = Inr rs"
  obtains vs ps rows' where "request cursor until = Inr (JArray vs)" and "map_res parse vs = Inr ps"
    and "fold_res (page_row key time hash cursor until) rows ps = Inr rows'"
    and "(if length vs < cap then Inr (sort_key time (sort_key (\<lambda>r. collate (key r)) (map snd rows')))
           else liveCheck (ps \<noteq> [] \<and> Max (set (map time ps)) > cursor) ''PAGE_SATURATED_TIMESTAMP''
             (page_loop key time hash collate request parse cap until n rows' (Max (set (map time ps))))) = Inr rs"
proof -
  obtain v where v: "request cursor until = Inr v" using assms by auto
  then show thesis using assms that by (cases v) (auto simp del: set_map)
qed

lemma page_loop_complete:
  assumes "oldest_first time source request parse cap until"
    and "page_loop key time hash collate request parse cap until n rows cursor = Inr rs"
    and "rows_of key (window time source start until) rows" and "start \<le> cursor"
    and "key ` {r \<in> window time source start until. time r < cursor} \<subseteq> dom (map_of rows)"
  shows "set rs \<subseteq> window time source start until \<and> key ` set rs = key ` window time source start until
     \<and> distinct (map key rs) \<and> sorted (map time rs)"
  using assms(2-)
proof (induction n arbitrary: rows cursor)
  case (Suc n)
  let ?w = "window time source start until"
  from page_loop_Suc [OF Suc.prems(1)] obtain vs ps rows' where v: "request cursor until = Inr (JArray vs)" "map_res parse vs = Inr ps"
    "fold_res (page_row key time hash cursor until) rows ps = Inr rows'"
    and rest: "(if length vs < cap then Inr (sort_key time (sort_key (\<lambda>r. collate (key r)) (map snd rows')))
           else liveCheck (ps \<noteq> [] \<and> Max (set (map time ps)) > cursor) ''PAGE_SATURATED_TIMESTAMP''
             (page_loop key time hash collate request parse cap until n rows' (Max (set (map time ps))))) = Inr rs"
    by blast
  have w: "window time source cursor until \<subseteq> ?w" using Suc.prems(3) by (auto simp: window_def)
  from assms(1) v have o: "set ps \<subseteq> window time source cursor until" "length vs < cap \<Longrightarrow> window time source cursor until \<subseteq> set ps"
    "\<And>r. ps \<noteq> [] \<Longrightarrow> r \<in> window time source cursor until \<Longrightarrow> time r < Max (set (map time ps)) \<Longrightarrow> r \<in> set ps"
    unfolding oldest_first_def by blast+
  from page_rows [OF v(3) Suc.prems(2)] o(1) w
  have rows': "rows_of key ?w rows'" "dom (map_of rows') = dom (map_of rows) \<union> key ` set ps" by blast+
  show ?case
  proof (cases "length vs < cap")
    case True
    have "r \<in> ?w \<Longrightarrow> key r \<in> dom (map_of rows')" for r
      using Suc.prems(4) o(2) [OF True] rows'(2) by (cases "time r < cursor") (auto simp: window_def)
    moreover have "dom (map_of rows') \<subseteq> key ` ?w" using rows'(1) by (force simp: rows_of_def)
    ultimately have "dom (map_of rows') = key ` ?w" by blast
    moreover have "rs = sort_key time (sort_key (\<lambda>r. collate (key r)) (map snd rows'))" using rest True by simp
    ultimately show ?thesis using rows_of_sorted [OF rows'(1)] by metis
  next
    case False
    with rest have m: "ps \<noteq> []" "Max (set (map time ps)) > cursor"
      and r: "page_loop key time hash collate request parse cap until n rows' (Max (set (map time ps))) = Inr rs" by auto
    have "key ` {r \<in> ?w. time r < Max (set (map time ps))} \<subseteq> dom (map_of rows')"
    proof
      fix k assume "k \<in> key ` {r \<in> ?w. time r < Max (set (map time ps))}"
      then obtain r where "r \<in> ?w" "time r < Max (set (map time ps))" "k = key r" by blast
      then show "k \<in> dom (map_of rows')"
        using Suc.prems(4) o(3) [OF m(1), of r] rows'(2) by (cases "time r < cursor") (auto simp: window_def)
    qed
    from Suc.IH [OF r rows'(1) _ this] m(2) Suc.prems(3) show ?thesis by simp
  qed
qed simp

text \<open>C22: Pagination leaves no gap: when it returns, over a source that answers oldest first, the rows are exactly those
  of the source between the two times (one per key), in time order; rows of the same millisecond are never skipped.\<close>

theorem live_pages_complete:
  assumes "livePages key time hash collate request parse start until cap = Inr rs"
    and "oldest_first time source request parse cap until"
  shows "set rs \<subseteq> window time source start until \<and> key ` set rs = key ` window time source start until
    \<and> distinct (map key rs) \<and> sorted (map time rs)"
  by (rule page_loop_complete [OF assms(2) assms(1) [unfolded livePages_def]]) (auto simp: rows_of_def window_def)

definition sample_times :: "time list" where
  "sample_times = [1, 2, 3]"

definition sample_request :: "time \<Rightarrow> time \<Rightarrow> live_error + json" where
  "sample_request a b = Inr (JArray (map (\<lambda>t. JNumber (Integral t)) (take 2 (filter (\<lambda>t. a \<le> t \<and> t \<le> b) sample_times))))"

definition sample_parse :: "json \<Rightarrow> live_error + time" where
  "sample_parse v = (case v of JNumber (Integral t) \<Rightarrow> Inr t | _ \<Rightarrow> Inl (LiveError ''RESPONSE''))"

lemma sample_parse_map: "map_res sample_parse (map (\<lambda>t. JNumber (Integral t)) ts) = Inr ts"
  by (induction ts) (simp_all add: sample_parse_def)

lemma sample_oldest_first: "oldest_first id (set sample_times) sample_request sample_parse 2 9"
  unfolding oldest_first_def sample_request_def
  by (auto simp: sample_parse_map sample_times_def window_def split: if_splits)

theorem live_pages_complete_witness:
  "\<exists>rs. livePages show_int id show_int id sample_request sample_parse 1 9 2 = Inr rs
     \<and> show_int ` set rs = show_int ` window id (set sample_times) 1 9"
proof -
  obtain rs where rs: "livePages show_int id show_int id sample_request sample_parse 1 9 2 = Inr rs"
    by (simp add: livePages_def page_loop_numeral sample_request_def sample_times_def sample_parse_map [of "[1, 2]", simplified] sample_parse_map [of "[2, 3]", simplified] sample_parse_map [of "[3]", simplified] page_row_def)
  with live_pages_complete [OF this sample_oldest_first] show ?thesis by blast
qed

end
