(* ===== verification/LiveAction.thy ===== *)
theory LiveAction
  imports LiveReconcile
begin

text \<open>
  What is sent to the venue and how its answer is read, the first half of
  \<open>apps/api/src/venues/hyperliquid/live-execution.ts\<close>: commands, \<open>buildLiveAction\<close>, and the receipt vector of a batch.
  A command carries its evidence; the set of its fields, which the source checks by name, is its constructor here.
  The hash comparisons of the source keep \<open>jevHash\<close> as a parameter per type.
\<close>

record live_book =
  bk_bid :: string
  bk_ask :: string
  bk_received_at :: time

datatype live_intent =
    Entry entry_plan manifest live_snapshot live_book
  | Close live_snapshot string string
  | Stop live_snapshot protection
  | Cancel ident string

record live_command =
  lc_version :: string
  lc_scope :: jev_scope
  lc_operation_id :: ident
  lc_metadata :: venue_metadata
  lc_metadata_at :: time
  lc_intent :: live_intent

fun intent_kind :: "live_intent \<Rightarrow> live_kind" where
  "intent_kind (Entry _ _ _ _) = Entry_Kind"
| "intent_kind (Close _ _ _) = Close_Kind"
| "intent_kind (Stop _ _) = Stop_Kind"
| "intent_kind (Cancel _ _) = Cancel_Kind"

datatype order_type = Limit_Order string | Stop_Market string

record wire_order =
  wo_asset :: int
  wo_buy :: bool
  wo_price :: string
  wo_size :: string
  wo_reduce_only :: bool
  wo_type :: order_type
  wo_cloid :: string

datatype live_action = Cancel_By_Cloid int string | Place_Order wire_order string

record action_hashes = live_hashes +
  ah_manifest :: "manifest \<Rightarrow> string"
  ah_scope :: "jev_scope \<Rightarrow> string"
  ah_plan :: "entry_plan \<Rightarrow> string"

definition live_command_version :: string where
  "live_command_version = ''hyperliquid.live-command.v1''"

definition live_amount :: "trading_unit \<Rightarrow> string \<Rightarrow> live_error + trading_amount" where
  "live_amount u raw = with_error Live_Policy (parse_raw u raw)"

text \<open>A reduction obeys the venue's precision but not its entry minimum.\<close>

definition reducedConstraints :: "venue_metadata \<Rightarrow> string \<Rightarrow> string \<Rightarrow> live_error + unit" where
  "reducedConstraints md price quantity =
     bind_res (live_amount USD_PER_BTC price) (\<lambda>p.
     bind_res (live_amount BTC quantity) (\<lambda>q.
     with_error Live_Amount (assertInstrumentOrderConstraints
       ((order_metadata md)\<lparr>im_minimum_order_notional := (vm_minimum_order_notional md)\<lparr>ta_raw := ''1''\<rparr>\<rparr>) p q)))"

text \<open>Each intent gives a side, a price, a quantity and an order type.\<close>

definition entry_order ::
  "'a action_hashes_scheme \<Rightarrow> live_command \<Rightarrow> time \<Rightarrow> entry_plan \<Rightarrow> manifest \<Rightarrow> live_snapshot \<Rightarrow> live_book \<Rightarrow> live_error + (bool \<times> string \<times> string \<times> order_type)" where
  "entry_order h c now p m s book =
     (let i = ep_input p; decision_at = sz_decision_at i; buy = (sz_direction i = Long); quantity = show_int (ep_quantity p) in
      liveCheck (ls_flat s \<and> ls_history_complete s \<and> ls_isolated_1x s \<and> ls_position s = 0 \<and> length (ls_orders s) = 0) ''ENTRY_RECONCILIATION''
     (liveCheck (ah_scope h (sz_scope i) = ah_scope h (lc_scope c) \<and> decision_at \<le> now
         \<and> now - decision_at \<le> fr_decision_ttl_ms (mf_freshness m) \<and> bk_received_at book \<le> now \<and> now - bk_received_at book \<le> 2000)
        ''DECISION_OR_BOOK_STALE''
     (liveCheck (ep_equity p = show_int (ls_equity s)) ''ENTRY_PLAN''
     (bind_res (with_error Live_Sizing (sizeJevEntry (ah_manifest h) m (lc_metadata c) i (ep_equity p))) (\<lambda>sized.
      liveCheck (ah_plan h sized = ah_plan h p) ''ENTRY_PLAN''
     (bind_res (with_error Live_Policy (quoteJevMaker (if buy then Buy else Sell) (bk_bid book) (bk_ask book) (lc_metadata c))) (\<lambda>price.
      liveCheck (price = sz_entry_price i) ''ENTRY_PRICE_CHANGED''
     (bind_res (live_amount USD_PER_BTC price) (\<lambda>pa.
      bind_res (live_amount BTC quantity) (\<lambda>qa.
      bind_res (with_error Live_Amount (assertInstrumentOrderConstraints (order_metadata (lc_metadata c)) pa qa)) (\<lambda>_.
      Inr (buy, price, quantity, Limit_Order ''Alo''))))))))))))"

definition close_order :: "live_command \<Rightarrow> live_snapshot \<Rightarrow> string \<Rightarrow> string \<Rightarrow> live_error + (bool \<times> string \<times> string \<times> order_type)" where
  "close_order c s limit cause =
     (let pos = ls_position s; quantity = show_int \<bar>pos\<bar> in
      liveCheck (pos \<noteq> 0) ''NO_POSITION''
     (liveCheck (length cause > 0 \<and> length cause \<le> 160) ''CLOSE_CAUSE''
     (bind_res (reducedConstraints (lc_metadata c) limit quantity) (\<lambda>_.
      Inr (pos < 0, limit, quantity, Limit_Order ''Ioc'')))))"

definition stop_order ::
  "'a action_hashes_scheme \<Rightarrow> live_command \<Rightarrow> live_snapshot \<Rightarrow> protection \<Rightarrow> live_error + (bool \<times> string \<times> string \<times> order_type)" where
  "stop_order h c s p =
     (let pos = ls_position s; buy = (pos < 0); quantity = show_int \<bar>pos\<bar>; stop = read_int (pr_stop_price p) in
      liveCheck (pos \<noteq> 0) ''NO_POSITION''
     (liveCheck (ah_scope h (pr_scope p) = ah_scope h (lc_scope c) \<and> (pr_direction p = Short) = buy \<and> pr_quantity_btc p = quantity)
        ''STOP_OWNER_OR_QUANTITY''
     (case gridPrice (stop * (if buy then 11 else 9)) 10 (if buy then Up else Down) (lc_metadata c) of
        None \<Rightarrow> Inl (LiveError ''STOP_GRID'')
      | Some worst \<Rightarrow>
          liveCheck (worst > 0) ''STOP_GRID''
          (bind_res (reducedConstraints (lc_metadata c) (pr_stop_price p) quantity) (\<lambda>_.
           bind_res (liveDecimal (pr_stop_price p) 6) (\<lambda>trigger.
           bind_res (reducedConstraints (lc_metadata c) (show_int worst) quantity) (\<lambda>_.
           Inr (buy, show_int worst, quantity, Stop_Market trigger))))))))"

definition place :: "live_command \<Rightarrow> int \<Rightarrow> string \<Rightarrow> bool \<times> string \<times> string \<times> order_type \<Rightarrow> live_error + live_action" where
  "place c asset cloid = (\<lambda>(buy, price, quantity, kind).
     bind_res (liveDecimal price 6) (\<lambda>p.
     bind_res (liveDecimal quantity 8) (\<lambda>s.
     Inr (Place_Order \<lparr>wo_asset = asset, wo_buy = buy, wo_price = p, wo_size = s,
         wo_reduce_only = (intent_kind (lc_intent c) \<noteq> Entry_Kind), wo_type = kind, wo_cloid = cloid\<rparr>
       (if intent_kind (lc_intent c) = Stop_Kind then ''positionTpsl'' else ''na'')))))"

text \<open>\<open>/^0x[a-f0-9]{32}$/\<close>\<close>

definition cloid_syntax :: "string \<Rightarrow> bool" where
  "cloid_syntax s = (take 2 s = ''0x'' \<and> lower_hex 32 (drop 2 s))"

definition safe_index :: "venue_metadata \<Rightarrow> int option" where
  "safe_index md = (case vm_asset_index md of Integral n \<Rightarrow> (if \<bar>n\<bar> \<le> 9007199254740991 then Some n else None) | _ \<Rightarrow> None)"

definition command_guards :: "live_identity \<Rightarrow> live_command \<Rightarrow> time \<Rightarrow> live_error + int" where
  "command_guards i c now =
     (let n = vm_instrument (lc_metadata c) in
      liveCheck (lc_version c = live_command_version \<and> js_mode (lc_scope c) = Live_Mode \<and> js_owner_id (lc_scope c) = li_owner_id i
         \<and> js_account_id (lc_scope c) = li_account_id i \<and> js_instrument_id (lc_scope c) = live_instrument i) ''COMMAND_OWNER''
     (liveCheck (tn_instrument_id n = js_instrument_id (lc_scope c) \<and> tn_instrument_version n = js_instrument_version (lc_scope c)
         \<and> safe_index (lc_metadata c) \<noteq> None) ''METADATA_OWNER''
     (liveCheck (the (safe_index (lc_metadata c)) \<ge> 0
         \<and> td_source_id (tn_origin n) = ''hyperliquid:'' @ li_environment i @ '':meta-observation''
         \<and> td_received_at (tn_origin n) = lc_metadata_at c) ''METADATA_PROVENANCE''
     (liveCheck (lc_metadata_at c \<le> now \<and> now - lc_metadata_at c \<le> 2000) ''METADATA_STALE''
       (Inr (the (safe_index (lc_metadata c))))))))"

definition buildLiveAction :: "'a action_hashes_scheme \<Rightarrow> live_identity \<Rightarrow> live_command \<Rightarrow> string \<Rightarrow> time \<Rightarrow> live_error + live_action" where
  "buildLiveAction h i c cloid now =
     bind_res (command_guards i c now) (\<lambda>asset.
     case lc_intent c of
       Cancel target target_cloid \<Rightarrow>
         liveCheck (cloid_syntax target_cloid) ''CANCEL_TARGET'' (Inr (Cancel_By_Cloid asset target_cloid))
     | Entry p m s book \<Rightarrow>
         bind_res (requireLiveFreshSnapshot (live_hashes.truncate h) i s now) (\<lambda>_.
         bind_res (entry_order h c now p m s book) (place c asset cloid))
     | Close s limit cause \<Rightarrow>
         bind_res (requireLiveFreshSnapshot (live_hashes.truncate h) i s now) (\<lambda>_.
         bind_res (close_order c s limit cause) (place c asset cloid))
     | Stop s p \<Rightarrow>
         bind_res (requireLiveFreshSnapshot (live_hashes.truncate h) i s now) (\<lambda>_.
         bind_res (stop_order h c s p) (place c asset cloid)))"

section \<open>Receipts\<close>

datatype receipt_state = Acknowledged | Rejected | Uncertain | Open | Filled | Cancelled | Triggered

record receipt_item =
  ri_state :: receipt_state
  ri_oid :: "int option"
  ri_original :: json

definition json_truthy :: "json option \<Rightarrow> bool" where
  "json_truthy v = (case v of None \<Rightarrow> False | Some JNull \<Rightarrow> False | Some (JBool b) \<Rightarrow> b
     | Some (JNumber n) \<Rightarrow> n \<noteq> Integral 0 | Some (JString s) \<Rightarrow> s \<noteq> [] | Some _ \<Rightarrow> True)"

definition receipt_status :: "json \<Rightarrow> live_error + receipt_item" where
  "receipt_status x =
     (if x \<in> {JString ''success'', JString ''waitingForTrigger'', JString ''waitingForFill''}
      then Inr \<lparr>ri_state = Acknowledged, ri_oid = None, ri_original = x\<rparr>
      else bind_res (liveRecord x) (\<lambda>r.
        if optional_text r ''error'' \<noteq> None \<and> length r = 1 then Inr \<lparr>ri_state = Rejected, ri_oid = None, ri_original = x\<rparr>
        else liveCheck (length r = 1 \<and> (json_truthy (map_of r ''resting'') \<or> json_truthy (map_of r ''filled''))) ''RECEIPT_ORDER''
          (bind_res (record_field r (if map_of r ''resting'' \<notin> {None, Some JNull} then ''resting'' else ''filled'')) (\<lambda>order.
           bind_res (liveInteger (map_of order ''oid'') 1) (\<lambda>oid.
             Inr \<lparr>ri_state = Acknowledged, ri_oid = Some oid, ri_original = x\<rparr>)))))"

definition parseLiveBatchReceipt :: "json \<Rightarrow> nat \<Rightarrow> live_error + receipt_item list" where
  "parseLiveBatchReceipt value expected =
     liveCheck (expected \<ge> 1) ''INTEGER''
     (bind_res (liveRecord value) (\<lambda>outer.
      if has_text outer ''status'' ''err''
      then Inr (replicate expected \<lparr>ri_state = Rejected, ri_oid = None, ri_original = value\<rparr>)
      else liveCheck (has_text outer ''status'' ''ok'') ''RECEIPT_STATUS''
        (bind_res (record_field outer ''response'') (\<lambda>response.
         bind_res (record_field response ''data'') (\<lambda>data.
         case map_of data ''statuses'' of
           Some (JArray statuses) \<Rightarrow>
             liveCheck ((has_text response ''type'' ''order'' \<or> has_text response ''type'' ''cancel'') \<and> length statuses = expected)
               ''RECEIPT_VECTOR'' (map_res receipt_status statuses)
         | _ \<Rightarrow> Inl (LiveError ''RECEIPT_VECTOR''))))))"

section \<open>What an order can be\<close>

lemma place_cases:
  assumes "place c asset cloid (buy, price, quantity, kind) = Inr a"
  obtains p s where "liveDecimal price 6 = Inr p" and "liveDecimal quantity 8 = Inr s"
    and "a = Place_Order \<lparr>wo_asset = asset, wo_buy = buy, wo_price = p, wo_size = s,
         wo_reduce_only = (intent_kind (lc_intent c) \<noteq> Entry_Kind), wo_type = kind, wo_cloid = cloid\<rparr>
       (if intent_kind (lc_intent c) = Stop_Kind then ''positionTpsl'' else ''na'')"
  using assms unfolding place_def prod.case bind_res_Inr by blast

lemma printed_size:
  assumes "liveDecimal (show_int n) d = Inr s" and "0 < d" and "d \<le> 78" and "0 \<le> n" and "n < 10 ^ 78"
  shows "liveRaw (Some (JString s)) d = Inr n"
  using live_decimal_roundtrip [OF assms(2-5)] assms(1) by simp

lemma fresh_snapshot:
  "requireLiveFreshSnapshot h i s now = Inr u \<Longrightarrow>
   ls_identity_hash s = lh_identity h i \<and> ls_consistent s \<and> ls_started_at s \<le> now \<and> now \<le> ls_started_at s + 2000
     \<and> ls_venue_at s \<le> now \<and> now \<le> ls_venue_at s + 2000"
  by (auto simp: requireLiveFreshSnapshot_def)

lemma close_order_Inr:
  "close_order c s limit cause = Inr (buy, price, quantity, kind) \<Longrightarrow>
   ls_position s \<noteq> 0 \<and> buy = (ls_position s < 0) \<and> quantity = show_int \<bar>ls_position s\<bar> \<and> price = limit \<and> kind = Limit_Order ''Ioc''"
  unfolding close_order_def Let_def liveCheck_Inr bind_res_Inr by auto

lemma stop_order_cases:
  assumes "stop_order h c s p = Inr (buy, price, quantity, kind)"
  obtains worst trigger where "ls_position s \<noteq> 0" and "buy = (ls_position s < 0)" and "quantity = show_int \<bar>ls_position s\<bar>"
    and "pr_quantity_btc p = quantity" and "(pr_direction p = Short) = buy" and "price = show_int worst" and "worst > 0"
    and "gridPrice (read_int (pr_stop_price p) * (if buy then 11 else 9)) 10 (if buy then Up else Down) (lc_metadata c) = Some worst"
    and "liveDecimal (pr_stop_price p) 6 = Inr trigger" and "kind = Stop_Market trigger"
  using assms unfolding stop_order_def Let_def liveCheck_Inr bind_res_Inr
  by (auto split: option.splits)

fun reduces :: "live_intent \<Rightarrow> live_snapshot option" where
  "reduces (Close s _ _) = Some s"
| "reduces (Stop s _) = Some s"
| "reduces _ = None"

lemma build_order:
  assumes "buildLiveAction h i c cloid now = Inr a" and "reduces (lc_intent c) = Some s"
  obtains asset buy price quantity kind where "place c asset cloid (buy, price, quantity, kind) = Inr a"
    and "requireLiveFreshSnapshot (live_hashes.truncate h) i s now = Inr ()" and "ls_position s \<noteq> 0"
    and "buy = (ls_position s < 0)" and "quantity = show_int \<bar>ls_position s\<bar>"
proof (cases "lc_intent c")
  case (Close s' limit cause)
  with assms(2) have [simp]: "s' = s" by simp
  from assms(1) Close obtain asset t where "place c asset cloid t = Inr a" "close_order c s limit cause = Inr t"
    "requireLiveFreshSnapshot (live_hashes.truncate h) i s now = Inr ()"
    unfolding buildLiveAction_def bind_res_Inr by auto
  then show thesis by (cases t) (use that close_order_Inr in blast)
next
  case (Stop s' p)
  with assms(2) have [simp]: "s' = s" by simp
  from assms(1) Stop obtain asset t where t: "place c asset cloid t = Inr a" "stop_order h c s p = Inr t"
    "requireLiveFreshSnapshot (live_hashes.truncate h) i s now = Inr ()"
    unfolding buildLiveAction_def bind_res_Inr by auto
  obtain buy price quantity kind where [simp]: "t = (buy, price, quantity, kind)" by (cases t)
  from t(2) show thesis
    unfolding \<open>t = _\<close> by (rule stop_order_cases) (use that t in auto)
qed (use assms(2) in simp_all)

text \<open>C11: A close or a stop is a reduce-only order on the side against the position, for exactly the position of a snapshot
  that is consistent, owned and at most two seconds old.\<close>

theorem live_reduction_exact:
  assumes "buildLiveAction h i c cloid now = Inr a" and "reduces (lc_intent c) = Some s" and "\<bar>ls_position s\<bar> < 10 ^ 78"
  shows "\<exists>order grouping. a = Place_Order order grouping \<and> wo_reduce_only order \<and> wo_cloid order = cloid
    \<and> ls_position s \<noteq> 0 \<and> wo_buy order = (ls_position s < 0)
    \<and> liveRaw (Some (JString (wo_size order))) 8 = Inr \<bar>ls_position s\<bar>
    \<and> ls_identity_hash s = lh_identity h i \<and> ls_consistent s \<and> now - ls_started_at s \<le> 2000"
proof -
  obtain asset buy price quantity kind where o: "place c asset cloid (buy, price, quantity, kind) = Inr a"
    and f: "requireLiveFreshSnapshot (live_hashes.truncate h) i s now = Inr ()" and p: "ls_position s \<noteq> 0"
    and q: "buy = (ls_position s < 0)" "quantity = show_int \<bar>ls_position s\<bar>"
    using build_order [OF assms(1,2)] by blast
  from o obtain pr sz where sz: "liveDecimal quantity 8 = Inr sz"
    and a: "a = Place_Order \<lparr>wo_asset = asset, wo_buy = buy, wo_price = pr, wo_size = sz,
         wo_reduce_only = (intent_kind (lc_intent c) \<noteq> Entry_Kind), wo_type = kind, wo_cloid = cloid\<rparr>
       (if intent_kind (lc_intent c) = Stop_Kind then ''positionTpsl'' else ''na'')" by (rule place_cases)
  have "intent_kind (lc_intent c) \<noteq> Entry_Kind" using assms(2) by (cases "lc_intent c") auto
  moreover have "liveRaw (Some (JString sz)) 8 = Inr \<bar>ls_position s\<bar>"
    using printed_size [OF sz [unfolded q(2)]] assms(3) by simp
  ultimately show ?thesis using a p q(1) fresh_snapshot [OF f] by (auto simp: live_hashes.defs)
qed

lemma entry_order_cases:
  assumes "entry_order h c now p m s book = Inr (buy, price, quantity, kind)"
  obtains sized where "ls_flat s" and "ls_isolated_1x s" and "ls_position s = 0" and "ls_orders s = []"
    and "now \<le> sz_decision_at (ep_input p) + fr_decision_ttl_ms (mf_freshness m)"
    and "sizeJevEntry (ah_manifest h) m (lc_metadata c) (ep_input p) (show_int (ls_equity s)) = Inr sized" and "ah_plan h sized = ah_plan h p"
    and "quoteJevMaker (if sz_direction (ep_input p) = Long then Buy else Sell) (bk_bid book) (bk_ask book) (lc_metadata c) = Inr price"
    and "price = sz_entry_price (ep_input p)" and "buy = (sz_direction (ep_input p) = Long)" and "quantity = show_int (ep_quantity p)"
    and "kind = Limit_Order ''Alo''"
  using assms unfolding entry_order_def Let_def liveCheck_Inr bind_res_Inr with_error_Inr by auto

text \<open>C16: An entry goes out only from a flat account with no orders, as a post-only order that is not reduce-only, at the
  maker quote of a book at most two seconds old and for the quantity of the plan, which is the size the equity of the
  snapshot gives when it is computed again.\<close>

theorem live_entry_exact:
  assumes "buildLiveAction h i c cloid now = Inr a" and "lc_intent c = Entry p m s book"
    and "0 \<le> ep_quantity p" and "ep_quantity p < 10 ^ 78"
  shows "\<exists>order sized. a = Place_Order order ''na'' \<and> \<not> wo_reduce_only order \<and> wo_type order = Limit_Order ''Alo''
    \<and> ls_position s = 0 \<and> ls_orders s = [] \<and> now - ls_started_at s \<le> 2000
    \<and> wo_buy order = (sz_direction (ep_input p) = Long) \<and> liveRaw (Some (JString (wo_size order))) 8 = Inr (ep_quantity p)
    \<and> liveDecimal (sz_entry_price (ep_input p)) 6 = Inr (wo_price order)
    \<and> quoteJevMaker (if wo_buy order then Buy else Sell) (bk_bid book) (bk_ask book) (lc_metadata c) = Inr (sz_entry_price (ep_input p))
    \<and> sizeJevEntry (ah_manifest h) m (lc_metadata c) (ep_input p) (show_int (ls_equity s)) = Inr sized \<and> ah_plan h sized = ah_plan h p"
proof -
  from assms(1,2) obtain asset t where t: "place c asset cloid t = Inr a" "entry_order h c now p m s book = Inr t"
    and f: "requireLiveFreshSnapshot (live_hashes.truncate h) i s now = Inr ()"
    unfolding buildLiveAction_def bind_res_Inr by auto
  obtain buy price quantity kind where q: "t = (buy, price, quantity, kind)" by (cases t)
  note e = t(2) [unfolded q]
  from t(1) [unfolded q] obtain pr sz where pr: "liveDecimal price 6 = Inr pr" and sz: "liveDecimal quantity 8 = Inr sz"
    and a: "a = Place_Order \<lparr>wo_asset = asset, wo_buy = buy, wo_price = pr, wo_size = sz,
         wo_reduce_only = (intent_kind (lc_intent c) \<noteq> Entry_Kind), wo_type = kind, wo_cloid = cloid\<rparr>
       (if intent_kind (lc_intent c) = Stop_Kind then ''positionTpsl'' else ''na'')" by (rule place_cases)
  show ?thesis
    by (rule entry_order_cases [OF e])
       (use a pr sz assms(2-4) fresh_snapshot [OF f] printed_size [of "ep_quantity p" 8 sz] in auto)
qed

definition live_origin :: trading_data where
  "live_origin = (sample_data Metadata_Data 90)\<lparr>td_source_id := ''hyperliquid:testnet:meta-observation'',
     td_instrument_id := ''hyperliquid:testnet:BTC''\<rparr>"

definition live_md :: venue_metadata where
  "live_md = sized_md ''hyperliquid:testnet:BTC'' live_origin"

definition sample_action_hashes :: action_hashes where
  "sample_action_hashes = live_hashes.extend sample_hashes
     \<lparr>ah_manifest = sample_hash_fun, ah_scope = (\<lambda>_. ''s''), ah_plan = (\<lambda>p. show_int (ep_quantity p))\<rparr>"

definition sample_snapshot :: "int \<Rightarrow> live_snapshot" where
  "sample_snapshot pos = \<lparr>ls_version = live_version, ls_identity_hash = ''h'', ls_snapshot_id = ''s'', ls_started_at = 50,
     ls_received_at = 70, ls_venue_at = 60, ls_position = pos, ls_trading_balance = 250000000, ls_equity = 250000000,
     ls_open_pnl = 0, ls_isolated_1x = True, ls_history_complete = True, ls_consistent = True, ls_flat = (pos = 0),
     ls_orders = [], ls_fills = [], ls_funding = []\<rparr>"

definition sample_command :: "live_intent \<Rightarrow> live_command" where
  "sample_command intent = \<lparr>lc_version = live_command_version, lc_scope = sample_live_scope, lc_operation_id = ''p'',
     lc_metadata = live_md, lc_metadata_at = 90, lc_intent = intent\<rparr>"

lemma sample_command_fields [simp]: "lc_metadata (sample_command x) = live_md" "lc_intent (sample_command x) = x"
  by (simp_all add: sample_command_def)

lemma liveDecimal_show: "0 \<le> n \<Longrightarrow> \<exists>s. liveDecimal (show_int n) d = Inr s"
  using unsigned_canonical_iff [of "show_nat (nat n)"] by (auto simp: liveDecimal_def show_int_def Let_def)

lemma sample_live_instrument: "live_instrument sample_live_identity = ''hyperliquid:testnet:BTC''"
  by (simp add: live_instrument_def sample_live_identity_def)

lemma live_sized: "sized_for sample_live_scope ''hyperliquid:testnet:BTC'' live_origin"
  by (simp add: parse_instrument_def instrument_shape_def sized_md_def sample_md_def sample_instrument_def sample_contract_id
      sameInstrument_def utc_milliseconds_def sample_live_scope_def sample_jev_scope_def sample_live_instrument
      live_origin_def is_alnum_def id_char_def is_digit_def)
    (simp add: sample_data_def data_shape_def sample_contract_id is_alnum_def id_char_def is_digit_def sha256_hex_def list_all_iff
      utc_milliseconds_def)

lemma sample_guards: "command_guards sample_live_identity (sample_command intent) 100 = Inr 0"
  by (simp add: command_guards_def sample_command_def sample_live_scope_def sample_jev_scope_def sample_live_instrument
      live_md_def sized_md_def sample_md_def safe_index_def live_origin_def sample_data_def sample_instrument_def)
    (simp add: sample_live_identity_def)

lemma sample_command_fresh: "requireLiveFreshSnapshot (live_hashes.truncate sample_action_hashes) sample_live_identity (sample_snapshot pos) 100 = Inr ()"
  by (simp add: requireLiveFreshSnapshot_def sample_snapshot_def sample_action_hashes_def sample_hashes_def live_hashes.defs)

lemma sample_reduced: "reducedConstraints live_md (show_int 900000000) (show_int 2000000) = Inr ()"
proof -
  have "sig_digits 900000000 \<le> 38"
    using sig_digits_le_length [of 900000000] length_show_nat [of 38 900000000] by simp
  then have "length (strip_zeros (show_int 900000000)) \<le> 38" by (simp add: sig_digits_def show_int_def)
  moreover have "rule_digits (vm_price_rules sample_md) = Some (6, 38)" "integer_prices_exempt (vm_price_rules sample_md)"
    by (simp_all add: rule_digits_def sample_md_def)
  moreover have "(amount_of USD 10)\<lparr>ta_raw := ''1''\<rparr> = amount_of USD 1"
    using canonical_show_read [of "''1''"] by (simp add: amount_of_def canonical_integer_def is_digit_def digit_val_def read_nat_def)
  ultimately show ?thesis
    by (simp add: reducedConstraints_def live_amount_def parse_raw_Inr canonical_show_int assertInstrumentOrderConstraints_def
        order_metadata_def live_md_def sized_md_fields parse_amount_json_iff unit_range_def quantum_amount_of smod_eq_0_iff Let_def)
qed

lemma sample_position: "ls_position (sample_snapshot p) = p"
  by (simp add: sample_snapshot_def)

lemma sample_close_built:
  "\<exists>order grouping. buildLiveAction sample_action_hashes sample_live_identity
     (sample_command (Close (sample_snapshot 2000000) (show_int 900000000) ''exit'')) ''0xc'' 100 = Inr (Place_Order order grouping)"
proof -
  obtain pr sz where "liveDecimal (show_int 900000000) 6 = Inr pr" "liveDecimal (show_int 2000000) 8 = Inr sz"
    using liveDecimal_show [of 900000000 6] liveDecimal_show [of 2000000 8] by auto
  then show ?thesis
    using sample_command_fresh sample_reduced by (simp add: buildLiveAction_def sample_guards close_order_def sample_position place_def)
qed

theorem live_reduction_exact_witness:
  "\<exists>order grouping. buildLiveAction sample_action_hashes sample_live_identity
     (sample_command (Close (sample_snapshot 2000000) (show_int 900000000) ''exit'')) ''0xc'' 100 = Inr (Place_Order order grouping)
     \<and> wo_reduce_only order \<and> \<not> wo_buy order \<and> liveRaw (Some (JString (wo_size order))) 8 = Inr 2000000"
proof -
  obtain order grouping where a: "buildLiveAction sample_action_hashes sample_live_identity
     (sample_command (Close (sample_snapshot 2000000) (show_int 900000000) ''exit'')) ''0xc'' 100 = Inr (Place_Order order grouping)"
    using sample_close_built by blast
  from live_reduction_exact [OF a, of "sample_snapshot 2000000"] a show ?thesis by (auto simp: sample_position)
qed

theorem live_entry_exact_witness:
  "\<exists>p order. buildLiveAction sample_action_hashes sample_live_identity
     (sample_command (Entry p sample_manifest (sample_snapshot 0) \<lparr>bk_bid = show_int 899999999, bk_ask = show_int 900000005, bk_received_at = 95\<rparr>))
     ''0xc'' 100 = Inr (Place_Order order ''na'') \<and> \<not> wo_reduce_only order \<and> wo_buy order
     \<and> liveRaw (Some (JString (wo_size order))) 8 = Inr 2000000"
proof -
  obtain p where p: "sizeJevEntry sample_hash_fun sample_manifest live_md (sized_input sample_live_scope) (show_int 250000000) = Inr p"
    "ep_quantity p = 2000000" using sized_entry [OF live_sized] unfolding live_md_def by blast
  then have pi: "ep_input p = sized_input sample_live_scope" "ep_equity p = show_int 250000000"
    by (auto simp: sizeJevEntry_def Let_def split: option.splits)
  let ?book = "\<lparr>bk_bid = show_int 899999999, bk_ask = show_int 900000005, bk_received_at = 95\<rparr>"
  let ?c = "sample_command (Entry p sample_manifest (sample_snapshot 0) ?book)"
  have quote: "quoteJevMaker Buy (show_int 899999999) (show_int 900000005) live_md = Inr (show_int 900000000)"
    using sample_md_down [of 899999999] sample_md_down [of 900000005] sample_md_up [of 900000000] live_sized
    by (simp add: quoteJevMaker_def live_md_def sized_md_fields canonical_show_int Let_def)
  have order: "entry_order sample_action_hashes ?c 100 p sample_manifest (sample_snapshot 0) ?book
      = Inr (True, show_int 900000000, show_int 2000000, Limit_Order ''Alo'')"
    using p pi quote sized_order_ok [of "''hyperliquid:testnet:BTC''" live_origin, folded live_md_def]
    by (simp add: entry_order_def sample_snapshot_def sized_input_fields sample_action_hashes_def live_hashes.defs
        sample_freshness initial_freshness_def live_amount_def parse_raw_Inr canonical_show_int Let_def)
  obtain pr sz where "liveDecimal (show_int 900000000) 6 = Inr pr" "liveDecimal (show_int 2000000) 8 = Inr sz"
    using liveDecimal_show [of 900000000 6] liveDecimal_show [of 2000000 8] by auto
  then obtain a where a: "buildLiveAction sample_action_hashes sample_live_identity ?c ''0xc'' 100 = Inr a"
    using sample_command_fresh order by (simp add: buildLiveAction_def sample_guards place_def)
  from live_entry_exact [OF a] a p(2) pi(1) show ?thesis by (auto simp: sized_input_fields)
qed

end
