(* ===== verification/LiveStore.thy ===== *)
theory LiveStore
  imports LiveAction
begin

text \<open>
  The durable journal of a live account, \<open>apps/api/src/storage/jev-live-store.ts\<close>. The tables the class writes are
  lists of rows in the order of insertion (\<open>jev_live_requests\<close>, \<open>jev_live_events\<close>, \<open>jev_live_owners\<close>), a query is a
  filter over them, and a transaction is a function of the journal: an error leaves the journal as it was. The
  database clock is an argument. Rows of tables other modules own (promotion, pilot, JEV entries, profiles) are the
  record \<open>other_reads\<close>. \<open>collate\<close> orders event keys of one instant.
\<close>

record live_receipt =
  rc_operation_id :: ident
  rc_kind :: live_kind
  rc_observed_at :: time
  rc_state :: receipt_state
  rc_oid :: "int option"
  rc_original :: json

datatype protection_state = Confirmed | Pending | Flat

record protection_record =
  lpr_position_id :: ident
  lpr_observed_at :: time
  lpr_snapshot_id :: string
  lpr_state :: protection_state
  lpr_protection :: "protection option"
  lpr_native_cloid :: "string option"
  lpr_reasons :: "string list"
  lpr_urgent_close_requested :: bool

datatype proof_reason = RECONCILED | INITIAL_CAPITAL_UNKNOWN | BALANCE_UNEXPLAINED

record balance_proof =
  bp_identity_hash :: string
  bp_snapshot_id :: string
  bp_opening_evidence_id :: "string option"
  bp_expected :: "int option"
  bp_observed :: int
  bp_reconciled :: bool
  bp_reason :: proof_reason

datatype event_kind = Snapshot_Event | Fill_Event | Funding_Event | Receipt_Event | Gap_Event | Protection_Event
  | Balance_Event | Metadata_Event | Intervention_Event

datatype live_payload = Snapshot_Payload live_snapshot | Fill_Payload live_fill | Funding_Payload live_funding
  | Receipt_Payload live_receipt | Protection_Payload protection_record | Balance_Payload balance_proof | Other_Payload json

type_synonym reservation = "(live_action, live_command) live_reservation"

record request_row =
  rq_identity_hash :: string
  rq_operation_id :: ident
  rq_request_hash :: string
  rq_reservation :: reservation
  rq_environment :: string
  rq_signer_address :: string
  rq_nonce :: int
  rq_generation :: int

record event_row =
  ev_identity_hash :: string
  ev_key :: string
  ev_kind :: event_kind
  ev_hash :: string
  ev_payload :: live_payload
  ev_recorded_at :: time

record owner_row =
  ow_process_id :: ident
  ow_generation :: int
  ow_lease_until :: time

record live_journal =
  jn_requests :: "request_row list"
  jn_events :: "event_row list"
  jn_owners :: "(string \<times> owner_row) list"

record live_lease =
  ll_process_id :: ident
  ll_generation :: int
  ll_lease_until :: time

record store_hashes = action_hashes +
  sh_reservation :: "reservation \<Rightarrow> string"
  sh_request :: "jev_scope \<Rightarrow> live_kind \<Rightarrow> ident \<Rightarrow> live_command \<Rightarrow> string"
  sh_action :: "live_action \<Rightarrow> string"
  sh_payload :: "live_payload \<Rightarrow> string"
  sh_protection :: "protection \<Rightarrow> string"
  sh_operation :: "live_identity \<Rightarrow> jev_scope \<Rightarrow> string \<Rightarrow> string"
  sh_snapshot_state :: "live_snapshot \<Rightarrow> string"
  sh_command :: "live_command \<Rightarrow> string"
  sh_text :: "string \<Rightarrow> string"
  sh_pair :: "string \<Rightarrow> string \<Rightarrow> string"

datatype entry_status = Entry_Reserved | Entry_Cancel_Requested | Entry_Released

record account_entry =
  ae_order_id :: ident
  ae_status :: entry_status
  ae_plan_hash :: string
  ae_plan :: entry_plan

text \<open>What the class reads from tables it does not write: whether the account and the identity rows exist, the promoted
  experiment, the JEV entries, and the manifest of the profile.\<close>

record other_reads =
  or_account_exists :: bool
  or_registered :: bool
  or_promoted_experiment :: "ident option"
  or_entries :: "account_entry list"
  or_profile_manifest :: "jev_scope \<Rightarrow> string option"

record store_env =
  se_identity :: live_identity
  se_hash :: store_hashes
  se_collate :: "string \<Rightarrow> string"

definition identityHash :: "store_env \<Rightarrow> string" where
  "identityHash e = lh_identity (se_hash e) (se_identity e)"

definition store_lock :: "other_reads \<Rightarrow> live_error + 'a \<Rightarrow> live_error + 'a" where
  "store_lock r k = liveCheck (or_account_exists r) ''ACCOUNT_OWNER'' (liveCheck (or_registered r) ''IDENTITY_UNREGISTERED'' k)"

section \<open>Queries\<close>

definition own_events :: "store_env \<Rightarrow> live_journal \<Rightarrow> event_row list" where
  "own_events e j = filter (\<lambda>v. ev_identity_hash v = identityHash e) (jn_events j)"

definition event_at :: "store_env \<Rightarrow> live_journal \<Rightarrow> string \<Rightarrow> event_row option" where
  "event_at e j key = find (\<lambda>v. ev_key v = key) (own_events e j)"

text \<open>\<open>ORDER BY recorded_at, event_key\<close>, and the last of it\<close>

definition events_of :: "store_env \<Rightarrow> live_journal \<Rightarrow> event_kind \<Rightarrow> event_row list" where
  "events_of e j kind = sort_key ev_recorded_at (sort_key (\<lambda>v. se_collate e (ev_key v)) (filter (\<lambda>v. ev_kind v = kind) (own_events e j)))"

definition latest_of :: "store_env \<Rightarrow> live_journal \<Rightarrow> event_kind \<Rightarrow> event_row option" where
  "latest_of e j kind = (let rows = events_of e j kind in if rows = [] then None else Some (last rows))"

definition own_requests :: "store_env \<Rightarrow> live_journal \<Rightarrow> request_row list" where
  "own_requests e j = filter (\<lambda>q. rq_identity_hash q = identityHash e) (jn_requests j)"

definition request_of :: "store_env \<Rightarrow> live_journal \<Rightarrow> ident \<Rightarrow> reservation option" where
  "request_of e j operation = map_option rq_reservation (find (\<lambda>q. rq_operation_id q = operation) (own_requests e j))"

definition operations :: "store_env \<Rightarrow> live_journal \<Rightarrow> reservation list" where
  "operations e j = map rq_reservation (sort_key rq_nonce (own_requests e j))"

definition receipts_of :: "store_env \<Rightarrow> live_journal \<Rightarrow> live_receipt list" where
  "receipts_of e j = List.map_filter (\<lambda>v. case ev_payload v of Receipt_Payload r \<Rightarrow> Some r | _ \<Rightarrow> None) (events_of e j Receipt_Event)"

definition snapshot_of :: "event_row option \<Rightarrow> live_snapshot option" where
  "snapshot_of v = (case v of Some w \<Rightarrow> (case ev_payload w of Snapshot_Payload s \<Rightarrow> Some s | _ \<Rightarrow> None) | None \<Rightarrow> None)"

section \<open>Leases\<close>

definition claim :: "store_env \<Rightarrow> other_reads \<Rightarrow> time \<Rightarrow> live_journal \<Rightarrow> ident \<Rightarrow> int \<Rightarrow> live_error + (live_lease \<times> live_journal)" where
  "claim e r now j process_id ttl =
     liveCheck (live_id process_id \<and> ttl \<ge> 2000 \<and> ttl \<le> 10000) ''LEASE_REQUEST''
     (store_lock r
     (let old = map_of (jn_owners j) (identityHash e) in
      liveCheck (case old of None \<Rightarrow> True | Some w \<Rightarrow> ow_process_id w = process_id \<or> ow_lease_until w \<le> now) ''OWNERSHIP_BUSY''
     (let generation = (case old of
            Some w \<Rightarrow> (if ow_process_id w = process_id \<and> ow_lease_until w > now then ow_generation w else ow_generation w + 1)
          | None \<Rightarrow> 1)
      in Inr (\<lparr>ll_process_id = process_id, ll_generation = generation, ll_lease_until = now + ttl\<rparr>,
              j\<lparr>jn_owners := AList.update (identityHash e)
                  \<lparr>ow_process_id = process_id, ow_generation = generation, ow_lease_until = now + ttl\<rparr> (jn_owners j)\<rparr>))))"

definition release :: "store_env \<Rightarrow> other_reads \<Rightarrow> time \<Rightarrow> live_journal \<Rightarrow> ident \<Rightarrow> live_error + live_journal" where
  "release e r now j process_id =
     store_lock r (Inr (case map_of (jn_owners j) (identityHash e) of
         Some w \<Rightarrow> (if ow_process_id w = process_id
            then j\<lparr>jn_owners := AList.update (identityHash e) (w\<lparr>ow_lease_until := now\<rparr>) (jn_owners j)\<rparr> else j)
       | None \<Rightarrow> j))"

section \<open>Events\<close>

text \<open>An event key is written once: the same payload again is accepted and changes nothing, another is refused.\<close>

definition eventTx :: "store_env \<Rightarrow> time \<Rightarrow> event_kind \<Rightarrow> string \<Rightarrow> live_payload \<Rightarrow> live_journal \<Rightarrow> live_error + live_journal" where
  "eventTx e now kind key content j =
     (let hash = sh_payload (se_hash e) content in
      case event_at e j key of
        Some previous \<Rightarrow> liveCheck (ev_hash previous = hash \<and> ev_kind previous = kind) ''SOURCE_COLLISION'' (Inr j)
      | None \<Rightarrow> Inr (j\<lparr>jn_events := jn_events j @ [\<lparr>ev_identity_hash = identityHash e, ev_key = key, ev_kind = kind,
          ev_hash = hash, ev_payload = content, ev_recorded_at = now\<rparr>]\<rparr>))"

definition append_event :: "store_env \<Rightarrow> other_reads \<Rightarrow> time \<Rightarrow> event_kind \<Rightarrow> string \<Rightarrow> live_payload \<Rightarrow> live_journal \<Rightarrow> live_error + live_journal" where
  "append_event e r now kind key content j = store_lock r (eventTx e now kind key content j)"

section \<open>Snapshots and balance\<close>

text \<open>The funded opening observation of the pilot: the only anchor of the expected trading balance.\<close>

record pilot_opening =
  og_observed_at :: time
  og_source :: string
  og_reconciled :: bool
  og_flat :: bool
  og_trading_balance :: int
  og_open_pnl :: int
  og_evidence_id :: string
  og_original :: live_snapshot

definition anchored :: "store_env \<Rightarrow> pilot_opening option \<Rightarrow> live_snapshot \<Rightarrow> bool" where
  "anchored e opened s = (li_environment (se_identity e) = ''mainnet'' \<and> (case opened of
     None \<Rightarrow> False
   | Some o' \<Rightarrow> let source = og_original o' in
       og_source o' = ''hyperliquid:mainnet:reconciliation'' \<and> og_reconciled o' \<and> og_flat o' \<and> og_trading_balance o' = 250000000
       \<and> og_open_pnl o' = 0 \<and> ls_version source = live_version \<and> ls_identity_hash source = identityHash e
       \<and> ls_snapshot_id source = og_evidence_id o' \<and> ls_flat source \<and> ls_consistent source \<and> ls_history_complete source
       \<and> ls_position source = 0 \<and> ls_trading_balance source = og_trading_balance o' \<and> ls_open_pnl source = 0
       \<and> ls_venue_at source = og_observed_at o' \<and> og_observed_at o' \<le> ls_venue_at s))"

text \<open>The \<open>SUM\<close> over fills and funding between two venue times.\<close>

definition money_change :: "store_env \<Rightarrow> live_journal \<Rightarrow> time \<Rightarrow> time \<Rightarrow> int" where
  "money_change e j a b = sum_list (map (\<lambda>v. case ev_payload v of
       Fill_Payload f \<Rightarrow> (if a \<le> lf_time f \<and> lf_time f \<le> b then lf_realized_pnl f - lf_fee f else 0)
     | Funding_Payload f \<Rightarrow> (if a \<le> lu_time f \<and> lu_time f \<le> b then lu_amount f else 0)
     | _ \<Rightarrow> 0) (filter (\<lambda>v. ev_kind v \<in> {Fill_Event, Funding_Event}) (own_events e j)))"

definition balance_proof_of :: "store_env \<Rightarrow> pilot_opening option \<Rightarrow> live_snapshot \<Rightarrow> live_journal \<Rightarrow> balance_proof" where
  "balance_proof_of e opened s j =
     (let ok = anchored e opened s;
          expected = (if ok then Some (og_trading_balance (the opened) + money_change e j (og_observed_at (the opened)) (ls_venue_at s)) else None);
          reconciled = (expected = Some (ls_trading_balance s) \<and> ls_consistent s \<and> ls_history_complete s)
      in \<lparr>bp_identity_hash = identityHash e, bp_snapshot_id = ls_snapshot_id s,
          bp_opening_evidence_id = (if ok then Some (og_evidence_id (the opened)) else None), bp_expected = expected,
          bp_observed = ls_trading_balance s, bp_reconciled = reconciled,
          bp_reason = (if reconciled then RECONCILED else if expected = None then INITIAL_CAPITAL_UNKNOWN else BALANCE_UNEXPLAINED)\<rparr>)"

definition proveBalanceTx :: "store_env \<Rightarrow> time \<Rightarrow> pilot_opening option \<Rightarrow> live_snapshot \<Rightarrow> live_journal \<Rightarrow> live_error + live_journal" where
  "proveBalanceTx e now opened s j =
     (let proof = Balance_Payload (balance_proof_of e opened s j)
      in eventTx e now Balance_Event (''balance:'' @ sh_payload (se_hash e) proof) proof j)"

text \<open>Saving without the pilot observation (\<open>observe_pilot\<close> is false by default).\<close>

definition save :: "store_env \<Rightarrow> other_reads \<Rightarrow> time \<Rightarrow> pilot_opening option \<Rightarrow> live_snapshot \<Rightarrow> live_journal \<Rightarrow> live_error + live_journal" where
  "save e r now opened s j =
     liveCheck (ls_identity_hash s = identityHash e) ''SNAPSHOT_OWNER''
     (store_lock r
     (liveCheck (case snapshot_of (latest_of e j Snapshot_Event) of None \<Rightarrow> True | Some old \<Rightarrow> ls_received_at s \<ge> ls_received_at old)
        ''SNAPSHOT_OUT_OF_ORDER''
     (bind_res (fold_res (\<lambda>j f. eventTx e now Fill_Event (lf_key f) (Fill_Payload f) j) j (ls_fills s)) (\<lambda>j.
      bind_res (fold_res (\<lambda>j f. eventTx e now Funding_Event (lu_key f) (Funding_Payload f) j) j (ls_funding s)) (\<lambda>j.
      bind_res (eventTx e now Snapshot_Event (''snapshot:'' @ ls_snapshot_id s) (Snapshot_Payload s) j) (\<lambda>j.
      proveBalanceTx e now opened s j))))))"

definition balanceTx :: "store_env \<Rightarrow> live_journal \<Rightarrow> live_snapshot option \<Rightarrow> balance_proof option" where
  "balanceTx e j s = (case s of
     None \<Rightarrow> None
   | Some s \<Rightarrow>
       (let proofs = List.map_filter (\<lambda>v. case ev_payload v of Balance_Payload p \<Rightarrow> Some p | _ \<Rightarrow> None) (events_of e j Balance_Event);
            own = filter (\<lambda>p. bp_snapshot_id p = ls_snapshot_id s) proofs
        in if own = [] then None else Some (last own)))"

text \<open>A gap recorded at or after the last snapshot keeps the account pending.\<close>

definition gap_after :: "event_row option \<Rightarrow> event_row \<Rightarrow> bool" where
  "gap_after gap v = (case gap of Some g \<Rightarrow> ev_recorded_at g \<ge> ev_recorded_at v | None \<Rightarrow> False)"

definition latest :: "store_env \<Rightarrow> live_journal \<Rightarrow> live_snapshot option \<times> bool" where
  "latest e j =
     (let row = latest_of e j Snapshot_Event; s = snapshot_of row; balance = balanceTx e j s
      in (s, case (row, s) of
           (Some v, Some s) \<Rightarrow> \<not> ls_consistent s \<or> \<not> ls_history_complete s
             \<or> \<not> (case balance of Some p \<Rightarrow> bp_reconciled p | None \<Rightarrow> False) \<or> gap_after (latest_of e j Gap_Event) v
         | _ \<Rightarrow> True))"

section \<open>Removing a native stop\<close>

definition terminal_receipt :: "live_receipt option \<Rightarrow> time \<Rightarrow> bool" where
  "terminal_receipt receipt venue_at = (case receipt of
     Some r \<Rightarrow> rc_state r \<in> {Filled, Cancelled, Rejected} \<and> rc_observed_at r \<le> venue_at
   | None \<Rightarrow> False)"

definition last_receipt :: "store_env \<Rightarrow> live_journal \<Rightarrow> ident \<Rightarrow> live_receipt option" where
  "last_receipt e j operation = (let rs = filter (\<lambda>r. rc_operation_id r = operation) (receipts_of e j) in if rs = [] then None else Some (last rs))"

definition canRemoveStop :: "store_env \<Rightarrow> other_reads \<Rightarrow> time \<Rightarrow> live_journal \<Rightarrow> bool" where
  "canRemoveStop e r clock j = (case latest_of e j Snapshot_Event of
     None \<Rightarrow> False
   | Some row \<Rightarrow> (case snapshot_of (Some row) of
       None \<Rightarrow> False
     | Some s \<Rightarrow>
         ls_position s = 0 \<and> ls_consistent s \<and> ls_history_complete s
         \<and> (case balanceTx e j (Some s) of Some p \<Rightarrow> bp_reconciled p | None \<Rightarrow> False)
         \<and> \<not> gap_after (latest_of e j Gap_Event) row
         \<and> list_all (\<lambda>o'. lo_reduce_only o' \<and> lo_position_stop o'
              \<and> lo_cloid o' \<in> (\<lambda>q. Some (lr_cloid q)) ` set (filter (\<lambda>q. lr_kind q = Stop_Kind) (operations e j))) (ls_orders s)
         \<and> requireLiveFreshSnapshot (live_hashes.truncate (se_hash e)) (se_identity e) s clock = Inr ()
         \<and> list_all (\<lambda>a. ae_status a = Entry_Released) (or_entries r)
         \<and> list_all (\<lambda>q. terminal_receipt (last_receipt e j (lr_operation_id q)) (ls_venue_at s))
              (filter (\<lambda>q. lr_kind q \<in> {Entry_Kind, Close_Kind}) (operations e j))))"

section \<open>Reservations\<close>

record reserve_input =
  rv_scope :: jev_scope
  rv_operation_id :: ident
  rv_kind :: live_kind
  rv_action :: "string \<Rightarrow> live_error + live_action"
  rv_request :: live_command
  rv_lease :: live_lease

text \<open>The anchor a stop is checked against: the protection of the position's latest record. A record stored with a JSON null
  protection passes the query's \<open>IS NOT NULL\<close>, so it is the latest record that decides.\<close>

definition stop_anchor :: "store_env \<Rightarrow> live_journal \<Rightarrow> ident \<Rightarrow> protection option" where
  "stop_anchor e j position =
     (let records = List.map_filter (\<lambda>v. case ev_payload v of
            Protection_Payload p \<Rightarrow> (if lpr_position_id p = position then Some (lpr_protection p) else None) | _ \<Rightarrow> None) (events_of e j Protection_Event)
      in if records = [] then None else last records)"

definition cancel_allowed :: "store_env \<Rightarrow> other_reads \<Rightarrow> time \<Rightarrow> live_journal \<Rightarrow> jev_scope \<Rightarrow> ident \<Rightarrow> string \<Rightarrow> live_error + unit" where
  "cancel_allowed e r clock j scope target cloid = (case request_of e j target of
     None \<Rightarrow> Inl (LiveError ''CANCEL_OWNER'')
   | Some t \<Rightarrow>
       liveCheck (lr_kind t \<in> {Entry_Kind, Stop_Kind} \<and> lr_cloid t = cloid \<and> ah_scope (se_hash e) (lr_scope t) = ah_scope (se_hash e) scope)
         ''CANCEL_OWNER''
       (liveCheck (lr_kind t = Stop_Kind \<longrightarrow> canRemoveStop e r clock j) ''STOP_REMOVAL_PENDING'' (Inr ())))"

definition entry_allowed :: "store_env \<Rightarrow> other_reads \<Rightarrow> live_journal \<Rightarrow> jev_scope \<Rightarrow> entry_plan \<Rightarrow> live_error + unit" where
  "entry_allowed e r j scope p =
     (let h = se_hash e; order = sz_order_id (ep_input p) in
      liveCheck (case find (\<lambda>a. ae_order_id a = order) (or_entries r) of
          None \<Rightarrow> False
        | Some a \<Rightarrow> ae_status a = Entry_Reserved \<and> ae_plan_hash a = ah_plan h p \<and> ah_plan h (ae_plan a) = ae_plan_hash a
            \<and> ah_scope h (sz_scope (ep_input (ae_plan a))) = ah_scope h scope
            \<and> or_profile_manifest r scope = Some (ep_manifest_hash p)) ''FINANCIAL_RESERVATION''
     (liveCheck (\<not> list_ex (\<lambda>q. case lc_intent (lr_request q) of
          Entry p' _ _ _ \<Rightarrow> lr_kind q = Entry_Kind \<and> sz_order_id (ep_input p') = order | _ \<Rightarrow> False) (operations e j)) ''ENTRY_ALREADY_SENT''
       (Inr ())))"

definition intent_allowed :: "store_env \<Rightarrow> other_reads \<Rightarrow> time \<Rightarrow> live_journal \<Rightarrow> jev_scope \<Rightarrow> live_intent \<Rightarrow> live_error + unit" where
  "intent_allowed e r clock j scope intent = (case intent of
     Cancel target cloid \<Rightarrow> cancel_allowed e r clock j scope target cloid
   | Stop _ p \<Rightarrow> liveCheck (case stop_anchor e j (pr_position_id p) of
         None \<Rightarrow> False
       | Some a \<Rightarrow> sh_protection (se_hash e) (a\<lparr>pr_quantity_btc := pr_quantity_btc p\<rparr>) = sh_protection (se_hash e) p) ''STOP_ANCHOR'' (Inr ())
   | Entry p _ _ _ \<Rightarrow> entry_allowed e r j scope p
   | Close _ _ _ \<Rightarrow> Inr ())"

text \<open>The next nonce of the signer: the clock, or one more than its last.\<close>

definition previous_nonces :: "store_env \<Rightarrow> live_journal \<Rightarrow> int list" where
  "previous_nonces e j = map rq_nonce (filter (\<lambda>q. rq_environment q = li_environment (se_identity e)
     \<and> rq_signer_address q = li_signer_address (se_identity e)) (jn_requests j))"

definition next_nonce :: "store_env \<Rightarrow> time \<Rightarrow> live_journal \<Rightarrow> int" where
  "next_nonce e now j = max now (fold max (previous_nonces e j) 0 + 1)"

definition build_reservation :: "store_env \<Rightarrow> reserve_input \<Rightarrow> string \<Rightarrow> string \<Rightarrow> int \<Rightarrow> int \<Rightarrow> live_action \<Rightarrow> reservation" where
  "build_reservation e inp cloid request_hash generation nonce action =
     \<lparr>lr_identity = se_identity e, lr_scope = rv_scope inp, lr_operation_id = rv_operation_id inp, lr_kind = rv_kind inp,
      lr_generation = generation, lr_nonce = nonce, lr_expires_after = nonce + 1500, lr_cloid = cloid, lr_action = action,
      lr_request = rv_request inp, lr_request_hash = request_hash\<rparr>"

definition insert_request :: "store_env \<Rightarrow> reservation \<Rightarrow> live_journal \<Rightarrow> live_journal" where
  "insert_request e q j = j\<lparr>jn_requests := jn_requests j @ [\<lparr>rq_identity_hash = identityHash e, rq_operation_id = lr_operation_id q,
     rq_request_hash = lr_request_hash q, rq_reservation = q, rq_environment = li_environment (se_identity e),
     rq_signer_address = li_signer_address (se_identity e), rq_nonce = lr_nonce q, rq_generation = lr_generation q\<rparr>]\<rparr>"

definition reserve ::
  "store_env \<Rightarrow> other_reads \<Rightarrow> time \<Rightarrow> time \<Rightarrow> reserve_input \<Rightarrow> live_journal \<Rightarrow> live_error + (bool \<times> reservation \<times> live_journal)" where
  "reserve e r now clock inp j =
     (let h = se_hash e; i = se_identity e; c = rv_request inp in
      bind_res (liveCloid (lh_identity h) (sh_operation h) i (rv_scope inp) (rv_operation_id inp)) (\<lambda>cloid.
      let request_hash = sh_request h (rv_scope inp) (rv_kind inp) (rv_operation_id inp) c in
      store_lock r (case request_of e j (rv_operation_id inp) of
        Some existing \<Rightarrow>
          liveCheck (lr_request_hash existing = request_hash) ''IDEMPOTENCY_COLLISION'' (Inr (False, existing, j))
      | None \<Rightarrow>
          liveCheck (case or_promoted_experiment r of None \<Rightarrow> True | Some x \<Rightarrow> x = js_experiment_id (rv_scope inp)) ''PROFILE_FENCE''
          (case map_of (jn_owners j) (identityHash e) of
             None \<Rightarrow> Inl (LiveError ''FENCE'')
           | Some owner \<Rightarrow>
               liveCheck (ow_process_id owner = ll_process_id (rv_lease inp) \<and> ow_generation owner = ll_generation (rv_lease inp)
                   \<and> ow_lease_until owner > now) ''FENCE''
               (let nonce = next_nonce e now j in
                liveCheck (nonce \<le> now + 1000) ''NONCE_CLOCK''
               (liveCheck (lc_version c = live_command_version \<and> intent_kind (lc_intent c) = rv_kind inp
                   \<and> lc_operation_id c = rv_operation_id inp \<and> ah_scope h (lc_scope c) = ah_scope h (rv_scope inp)) ''COMMAND_CONTRACT''
               (bind_res (buildLiveAction (action_hashes.truncate h) i c cloid now) (\<lambda>action.
                bind_res (rv_action inp cloid) (\<lambda>asked.
                liveCheck (sh_action h action = sh_action h asked) ''ACTION_INTENT''
               (bind_res (intent_allowed e r clock j (rv_scope inp) (lc_intent c)) (\<lambda>_.
                let q = build_reservation e inp cloid request_hash (ow_generation owner) nonce action
                in Inr (True, q, insert_request e q j))))))))))))"

section \<open>Sending once\<close>

definition attempt_key :: "ident \<Rightarrow> string" where
  "attempt_key operation = ''receipt:attempt:'' @ operation"

definition unsent_key :: "ident \<Rightarrow> string" where
  "unsent_key operation = ''receipt:unsent:'' @ operation"

definition reason_json :: "string \<Rightarrow> json" where
  "reason_json reason = JObject [(''reason'', JString reason)]"

definition plain_receipt :: "reservation \<Rightarrow> time \<Rightarrow> receipt_state \<Rightarrow> string \<Rightarrow> live_receipt" where
  "plain_receipt q now state reason = \<lparr>rc_operation_id = lr_operation_id q, rc_kind = lr_kind q, rc_observed_at = now,
     rc_state = state, rc_oid = None, rc_original = reason_json reason\<rparr>"

definition same_reservation :: "store_env \<Rightarrow> live_journal \<Rightarrow> reservation \<Rightarrow> bool" where
  "same_reservation e j q = (case request_of e j (lr_operation_id q) of
     Some stored \<Rightarrow> sh_reservation (se_hash e) stored = sh_reservation (se_hash e) q | None \<Rightarrow> False)"

definition claimSubmission :: "store_env \<Rightarrow> other_reads \<Rightarrow> time \<Rightarrow> reservation \<Rightarrow> live_journal \<Rightarrow> live_error + (bool \<times> live_journal)" where
  "claimSubmission e r now q j =
     store_lock r
     (liveCheck (case map_of (jn_owners j) (identityHash e) of
          Some owner \<Rightarrow> ow_generation owner = lr_generation q \<and> ow_lease_until owner > now
        | None \<Rightarrow> False) ''SEND_FENCE''
     (liveCheck (lr_expires_after q > now \<and> same_reservation e j q) ''SEND_FENCE''
     (if event_at e j (attempt_key (lr_operation_id q)) \<noteq> None then Inr (False, j)
      else bind_res (eventTx e now Receipt_Event (attempt_key (lr_operation_id q))
          (Receipt_Payload (plain_receipt q now Uncertain ''SEND_RESERVED'')) j) (\<lambda>j. Inr (True, j)))))"

definition expiredUnsent :: "store_env \<Rightarrow> other_reads \<Rightarrow> time \<Rightarrow> reservation \<Rightarrow> live_journal \<Rightarrow> live_error + (live_receipt option \<times> live_journal)" where
  "expiredUnsent e r now q j =
     store_lock r
     (liveCheck (same_reservation e j q) ''RECEIPT_OWNER''
     (if now < lr_expires_after q \<or> event_at e j (attempt_key (lr_operation_id q)) \<noteq> None then Inr (None, j)
      else case event_at e j (unsent_key (lr_operation_id q)) of
        Some v \<Rightarrow> Inr (case ev_payload v of Receipt_Payload p \<Rightarrow> Some p | _ \<Rightarrow> None, j)
      | None \<Rightarrow>
          (let receipt = plain_receipt q now Rejected ''INTENT_EXPIRED_WITHOUT_SEND'' in
           bind_res (eventTx e now Receipt_Event (unsent_key (lr_operation_id q)) (Receipt_Payload receipt) j) (\<lambda>j.
             Inr (Some receipt, j)))))"

section \<open>The gate of a send\<close>

record pilot_view =
  pv_supervisor_authorized :: bool
  pv_global_blocked :: bool
  pv_entries_paused :: bool
  pv_active_experiment :: ident
  pv_evidence_id :: string
  pv_reconciled :: bool

record gate_reads =
  gr_activation_id :: "ident option"
  gr_authority_entries :: bool
  gr_pilot :: "pilot_view option"

definition entry_reconciled :: "store_env \<Rightarrow> time \<Rightarrow> live_journal \<Rightarrow> live_snapshot \<Rightarrow> pilot_view option \<Rightarrow> bool" where
  "entry_reconciled e clock j asked pilot = (case latest_of e j Snapshot_Event of
     None \<Rightarrow> False
   | Some row \<Rightarrow> (case snapshot_of (Some row) of
       None \<Rightarrow> False
     | Some s \<Rightarrow>
         requireLiveFreshSnapshot (live_hashes.truncate (se_hash e)) (se_identity e) s clock = Inr ()
         \<and> sh_snapshot_state (se_hash e) s = sh_snapshot_state (se_hash e) asked
         \<and> ls_flat s \<and> ls_consistent s \<and> ls_history_complete s
         \<and> (case balanceTx e j (Some s) of Some p \<Rightarrow> bp_reconciled p | None \<Rightarrow> False)
         \<and> (case pilot of Some v \<Rightarrow> pv_evidence_id v = ls_snapshot_id s \<and> pv_reconciled v | None \<Rightarrow> False)
         \<and> \<not> gap_after (latest_of e j Gap_Event) row))"

definition gate :: "store_env \<Rightarrow> other_reads \<Rightarrow> gate_reads \<Rightarrow> time \<Rightarrow> reservation \<Rightarrow> live_journal \<Rightarrow> live_error + live_gate" where
  "gate e r g clock q j =
     store_lock r
     (let owner = map_of (jn_owners j) (identityHash e); stored = request_of e j (lr_operation_id q);
          activated = (gr_activation_id g \<noteq> None);
          removalAllowed = (case lc_intent (lr_request q) of
              Cancel target _ \<Rightarrow> (case request_of e j target of
                  Some t \<Rightarrow> lr_kind t \<noteq> Stop_Kind \<or> canRemoveStop e r clock j | None \<Rightarrow> True)
            | _ \<Rightarrow> True);
          entryReady = (case lc_intent (lr_request q) of
              Entry p _ _ _ \<Rightarrow> lr_kind q = Entry_Kind \<and> list_ex (\<lambda>a. ae_status a = Entry_Reserved \<and> ae_order_id a = sz_order_id (ep_input p)
                \<and> ae_plan_hash a = ah_plan (se_hash e) p) (or_entries r)
            | _ \<Rightarrow> False);
          reconciled = (case lc_intent (lr_request q) of
              Entry _ _ s _ \<Rightarrow> entry_reconciled e clock j s (gr_pilot g) | _ \<Rightarrow> False)
      in Inr \<lparr>lg_identity_hash = identityHash e,
             lg_reservation_hash = map_option (sh_reservation (se_hash e)) stored,
             lg_operator_activation_id = gr_activation_id g,
             lg_signer_enabled = (activated \<and> removalAllowed),
             lg_entries_allowed = (activated \<and> gr_authority_entries g \<and> (case gr_pilot g of
                 None \<Rightarrow> False
               | Some v \<Rightarrow> pv_supervisor_authorized v \<and> \<not> pv_global_blocked v \<and> \<not> pv_entries_paused v
                   \<and> pv_active_experiment v = js_experiment_id (lr_scope q)) \<and> entryReady \<and> reconciled),
             lg_generation = (case owner of Some w \<Rightarrow> ow_generation w | None \<Rightarrow> 0),
             lg_lease_until = (case owner of Some w \<Rightarrow> ow_lease_until w | None \<Rightarrow> 0)\<rparr>)"

section \<open>Runs of the journal\<close>

text \<open>A transaction of the store, with the rows it reads elsewhere and the two clocks. An error rolls back.\<close>

datatype store_op = Do_Claim ident int | Do_Release ident | Do_Append event_kind string live_payload
  | Do_Save "pilot_opening option" live_snapshot | Do_Reserve reserve_input | Do_Submit reservation | Do_Expire reservation

datatype store_result = Failed live_error | Finished | Leased live_lease | Reserved bool reservation | Claimed bool
  | Unsent "live_receipt option"

definition settle :: "live_journal \<Rightarrow> live_error + (store_result \<times> live_journal) \<Rightarrow> store_result \<times> live_journal" where
  "settle j m = (case m of Inl x \<Rightarrow> (Failed x, j) | Inr y \<Rightarrow> y)"

fun transact :: "store_env \<Rightarrow> other_reads \<Rightarrow> time \<Rightarrow> time \<Rightarrow> store_op \<Rightarrow> live_journal \<Rightarrow> store_result \<times> live_journal" where
  "transact e r now clock (Do_Claim p ttl) j = settle j (bind_res (claim e r now j p ttl) (\<lambda>(l, j'). Inr (Leased l, j')))"
| "transact e r now clock (Do_Release p) j = settle j (bind_res (release e r now j p) (\<lambda>j'. Inr (Finished, j')))"
| "transact e r now clock (Do_Append kind key content) j =
     settle j (bind_res (append_event e r now kind key content j) (\<lambda>j'. Inr (Finished, j')))"
| "transact e r now clock (Do_Save opened s) j = settle j (bind_res (save e r now opened s j) (\<lambda>j'. Inr (Finished, j')))"
| "transact e r now clock (Do_Reserve inp) j =
     settle j (bind_res (reserve e r now clock inp j) (\<lambda>(fresh, q, j'). Inr (Reserved fresh q, j')))"
| "transact e r now clock (Do_Submit q) j = settle j (bind_res (claimSubmission e r now q j) (\<lambda>(b, j'). Inr (Claimed b, j')))"
| "transact e r now clock (Do_Expire q) j = settle j (bind_res (expiredUnsent e r now q j) (\<lambda>(x, j'). Inr (Unsent x, j')))"

text \<open>Transactions are serialized by the account row, in the order of the database clock.\<close>

inductive store_run :: "store_env \<Rightarrow> live_journal \<Rightarrow> (time \<times> store_op \<times> store_result) list \<Rightarrow> live_journal \<Rightarrow> bool" for e where
  start: "store_run e j [] j"
| step: "store_run e j es j' \<Longrightarrow> transact e r now clock op j' = (out, j'') \<Longrightarrow> (\<forall>x \<in> set es. fst x \<le> now) \<Longrightarrow>
    store_run e j (es @ [(now, op, out)]) j''"

definition empty_journal :: live_journal where
  "empty_journal = \<lparr>jn_requests = [], jn_events = [], jn_owners = []\<rparr>"

section \<open>What a transaction changes\<close>

definition grows :: "live_journal \<Rightarrow> live_journal \<Rightarrow> bool" where
  "grows j j' = ((\<exists>qs. jn_requests j' = jn_requests j @ qs) \<and> (\<exists>vs. jn_events j' = jn_events j @ vs))"

lemma grows_refl [simp]: "grows j j"
  by (simp add: grows_def)

lemma grows_trans: "grows j j' \<Longrightarrow> grows j' j'' \<Longrightarrow> grows j j''"
  by (auto simp: grows_def)

lemma event_at_iff: "event_at e j key \<noteq> None \<longleftrightarrow> (\<exists>v \<in> set (jn_events j). ev_identity_hash v = identityHash e \<and> ev_key v = key)"
  by (auto simp: event_at_def own_events_def find_None_iff simp del: not_None_eq)

lemma event_at_grows: "event_at e j key \<noteq> None \<Longrightarrow> grows j j' \<Longrightarrow> event_at e j' key \<noteq> None"
  unfolding event_at_iff grows_def by auto

text \<open>Only the events change in an event transaction, by at most one new row under a new key.\<close>

definition keys_distinct :: "store_env \<Rightarrow> live_journal \<Rightarrow> bool" where
  "keys_distinct e j = distinct (map ev_key (own_events e j))"

lemma eventTx_cases:
  assumes "eventTx e now kind key content j = Inr j'"
  shows "grows j j' \<and> jn_requests j' = jn_requests j \<and> jn_owners j' = jn_owners j \<and> event_at e j' key \<noteq> None
    \<and> (keys_distinct e j \<longrightarrow> keys_distinct e j')"
proof (cases "event_at e j key")
  case None
  then have n: "\<And>v. v \<in> set (own_events e j) \<Longrightarrow> ev_key v \<noteq> key" by (auto simp: event_at_def find_None_iff)
  have j': "j' = j\<lparr>jn_events := jn_events j @ [\<lparr>ev_identity_hash = identityHash e, ev_key = key, ev_kind = kind,
          ev_hash = sh_payload (se_hash e) content, ev_payload = content, ev_recorded_at = now\<rparr>]\<rparr>"
    using assms None by (simp add: eventTx_def Let_def)
  have "event_at e j' key \<noteq> None" unfolding event_at_iff by (simp add: j')
  then show ?thesis using n by (auto simp: j' grows_def keys_distinct_def own_events_def)
next
  case (Some v)
  then show ?thesis using assms by (simp add: eventTx_def Let_def)
qed

abbreviation event_step :: "store_env \<Rightarrow> live_journal \<Rightarrow> live_journal \<Rightarrow> bool" where
  "event_step e j j' \<equiv> grows j j' \<and> jn_requests j' = jn_requests j \<and> jn_owners j' = jn_owners j \<and> (keys_distinct e j \<longrightarrow> keys_distinct e j')"

lemma fold_eventTx:
  "fold_res (\<lambda>j x. eventTx e now kind (key x) (content x) j) j xs = Inr j' \<Longrightarrow> event_step e j j'"
proof (induction xs arbitrary: j)
  case (Cons x xs)
  then obtain j1 where "eventTx e now kind (key x) (content x) j = Inr j1"
    and f: "fold_res (\<lambda>j x. eventTx e now kind (key x) (content x) j) j1 xs = Inr j'" by auto
  with eventTx_cases have "event_step e j j1" by blast
  with Cons.IH [OF f] show ?case using grows_trans by auto
qed simp

lemma store_lock_Inr [simp]: "store_lock r k = Inr x \<longleftrightarrow> or_account_exists r \<and> or_registered r \<and> k = Inr x"
  by (simp add: store_lock_def)

lemma save_step: "save e r now opened s j = Inr j' \<Longrightarrow> event_step e j j'"
proof -
  assume "save e r now opened s j = Inr j'"
  then obtain j1 j2 j3 where "fold_res (\<lambda>j f. eventTx e now Fill_Event (lf_key f) (Fill_Payload f) j) j (ls_fills s) = Inr j1"
    "fold_res (\<lambda>j f. eventTx e now Funding_Event (lu_key f) (Funding_Payload f) j) j1 (ls_funding s) = Inr j2"
    "eventTx e now Snapshot_Event (''snapshot:'' @ ls_snapshot_id s) (Snapshot_Payload s) j2 = Inr j3"
    "proveBalanceTx e now opened s j3 = Inr j'"
    unfolding save_def liveCheck_Inr store_lock_Inr bind_res_Inr by blast
  then have "event_step e j j1" "event_step e j1 j2" "event_step e j2 j3" "event_step e j3 j'"
    using fold_eventTx eventTx_cases unfolding proveBalanceTx_def Let_def by blast+
  then show ?thesis using grows_trans by metis
qed

lemma claimSubmission_cases:
  assumes "claimSubmission e r now q j = Inr (b, j')"
  shows "event_step e j j' \<and> lr_expires_after q > now \<and> same_reservation e j q \<and> event_at e j' (attempt_key (lr_operation_id q)) \<noteq> None
    \<and> b = (event_at e j (attempt_key (lr_operation_id q)) = None)"
proof (cases "event_at e j (attempt_key (lr_operation_id q)) = None")
  case True
  with assms obtain "lr_expires_after q > now" "same_reservation e j q" b
    "eventTx e now Receipt_Event (attempt_key (lr_operation_id q)) (Receipt_Payload (plain_receipt q now Uncertain ''SEND_RESERVED'')) j = Inr j'"
    by (auto simp: claimSubmission_def)
  with eventTx_cases True show ?thesis by metis
next
  case False
  with assms show ?thesis by (auto simp: claimSubmission_def)
qed

lemma expiredUnsent_cases:
  assumes "expiredUnsent e r now q j = Inr (x, j')"
  shows "event_step e j j' \<and> (x \<noteq> None \<longrightarrow> lr_expires_after q \<le> now \<and> event_at e j (attempt_key (lr_operation_id q)) = None)"
proof (cases "now < lr_expires_after q \<or> event_at e j (attempt_key (lr_operation_id q)) \<noteq> None")
  case True
  with assms show ?thesis by (auto simp: expiredUnsent_def)
next
  case False
  show ?thesis
  proof (cases "event_at e j (unsent_key (lr_operation_id q))")
    case None
    with assms False have "eventTx e now Receipt_Event (unsent_key (lr_operation_id q))
        (Receipt_Payload (plain_receipt q now Rejected ''INTENT_EXPIRED_WITHOUT_SEND'')) j = Inr j'"
      by (auto simp: expiredUnsent_def Let_def)
    with eventTx_cases False show ?thesis by auto
  next
    case (Some v)
    with assms False show ?thesis by (auto simp: expiredUnsent_def)
  qed
qed

lemma reserve_cases:
  assumes "reserve e r now clock inp j = Inr (fresh, q, j')"
  shows "lr_operation_id q = rv_operation_id inp \<or> \<not> fresh"
    and "fresh \<Longrightarrow> request_of e j (rv_operation_id inp) = None \<and> j' = insert_request e q j \<and> lr_nonce q = next_nonce e now j
       \<and> lr_nonce q \<le> now + 1000 \<and> lr_expires_after q = lr_nonce q + 1500
       \<and> (\<exists>w. map_of (jn_owners j) (identityHash e) = Some w \<and> ow_generation w = lr_generation q \<and> ow_lease_until w > now)"
    and "\<not> fresh \<Longrightarrow> request_of e j (rv_operation_id inp) = Some q \<and> j' = j"
  using assms unfolding reserve_def Let_def bind_res_Inr store_lock_Inr
  by (auto split: option.splits simp: build_reservation_def)

lemma claim_step: "claim e r now j p ttl = Inr (l, j') \<Longrightarrow> jn_requests j' = jn_requests j \<and> jn_events j' = jn_events j"
  by (auto simp: claim_def Let_def)

lemma release_step: "release e r now j p = Inr j' \<Longrightarrow> jn_requests j' = jn_requests j \<and> jn_events j' = jn_events j"
  by (auto simp: release_def split: option.splits if_splits)

text \<open>Every transaction leaves the requests alone, or inserts the one fresh reservation it returns.\<close>

lemma settle_cases: "settle j m = (out, j') \<Longrightarrow> (\<And>x. m = Inr (out, j') \<Longrightarrow> P) \<Longrightarrow> (j' = j \<Longrightarrow> P) \<Longrightarrow> P"
  by (cases m) (auto simp: settle_def)

lemma transact_cases:
  assumes "transact e r now clock op j = (out, j')"
  shows "(event_step e j j' \<or> jn_requests j' = jn_requests j \<and> jn_events j' = jn_events j)
    \<or> (\<exists>inp q. op = Do_Reserve inp \<and> out = Reserved True q \<and> reserve e r now clock inp j = Inr (True, q, j'))"
proof (cases op)
  case (Do_Claim p ttl)
  with assms show ?thesis using claim_step by (auto elim!: settle_cases)
next
  case (Do_Release p)
  with assms show ?thesis using release_step by (auto elim!: settle_cases)
next
  case (Do_Append kind key content)
  with assms show ?thesis using eventTx_cases by (fastforce simp: append_event_def elim!: settle_cases)
next
  case (Do_Save opened s)
  with assms show ?thesis using save_step by (auto elim!: settle_cases)
next
  case (Do_Reserve inp)
  with assms have "settle j (bind_res (reserve e r now clock inp j) (\<lambda>(fresh, q, j'). Inr (Reserved fresh q, j'))) = (out, j')" by simp
  then show ?thesis
  proof (rule settle_cases)
    assume "bind_res (reserve e r now clock inp j) (\<lambda>(fresh, q, j'). Inr (Reserved fresh q, j')) = Inr (out, j')"
    then obtain fresh q where q: "reserve e r now clock inp j = Inr (fresh, q, j')" "out = Reserved fresh q" by auto
    show ?thesis
    proof (cases fresh)
      case False
      with reserve_cases(3) [OF q(1)] show ?thesis by simp
    qed (use q Do_Reserve in auto)
  qed simp
next
  case (Do_Submit q)
  with assms show ?thesis using claimSubmission_cases by (auto elim!: settle_cases)
next
  case (Do_Expire q)
  with assms show ?thesis using expiredUnsent_cases by (auto elim!: settle_cases)
qed

lemma insert_request_rows:
  "own_requests e (insert_request e q j) = own_requests e j @ [\<lparr>rq_identity_hash = identityHash e, rq_operation_id = lr_operation_id q,
     rq_request_hash = lr_request_hash q, rq_reservation = q, rq_environment = li_environment (se_identity e),
     rq_signer_address = li_signer_address (se_identity e), rq_nonce = lr_nonce q, rq_generation = lr_generation q\<rparr>]"
  "previous_nonces e (insert_request e q j) = previous_nonces e j @ [lr_nonce q]"
  "jn_events (insert_request e q j) = jn_events j" "own_events e (insert_request e q j) = own_events e j"
  by (simp_all add: own_requests_def previous_nonces_def insert_request_def own_events_def)

lemma transact_grows: "transact e r now clock op j = (out, j') \<Longrightarrow> grows j j'"
  using transact_cases [of e r now clock op j out j'] reserve_cases(2)
  by (fastforce simp: grows_def insert_request_def)

lemma fold_max_ge: "(x :: int) \<in> set xs \<Longrightarrow> x \<le> fold max xs a" "a \<le> fold max xs a"
proof -
  have "a \<le> fold max xs a \<and> (\<forall>x \<in> set xs. x \<le> fold max xs a)" for a :: int and xs
    by (induction xs arbitrary: a) (auto, (meson max.boundedE)+)
  then show "x \<in> set xs \<Longrightarrow> x \<le> fold max xs a" "a \<le> fold max xs a" by auto
qed

text \<open>The invariant of the journal: one reservation per operation, strictly increasing nonces, one event per key, and
  every row is the row of its reservation.\<close>

definition journal_ok :: "store_env \<Rightarrow> live_journal \<Rightarrow> bool" where
  "journal_ok e j = (keys_distinct e j \<and> distinct (map rq_operation_id (own_requests e j)) \<and> sorted_wrt (<) (previous_nonces e j)
     \<and> (\<forall>q \<in> set (own_requests e j). rq_operation_id q = lr_operation_id (rq_reservation q)
          \<and> rq_nonce q = lr_nonce (rq_reservation q) \<and> lr_expires_after (rq_reservation q) = rq_nonce q + 1500))"

lemma transact_ok: "journal_ok e j \<Longrightarrow> transact e r now clock op j = (out, j') \<Longrightarrow> journal_ok e j'"
proof -
  assume ok: "journal_ok e j" and t: "transact e r now clock op j = (out, j')"
  from transact_cases [OF t] consider
      (same) "jn_requests j' = jn_requests j" "keys_distinct e j'"
    | (fresh) inp q where "reserve e r now clock inp j = Inr (True, q, j')"
    using ok by (auto simp: journal_ok_def keys_distinct_def own_events_def)
  then show ?thesis
  proof cases
    case same
    then show ?thesis using ok by (simp add: journal_ok_def own_requests_def previous_nonces_def)
  next
    case fresh
    note f = reserve_cases(2) [OF fresh TrueI] and op = reserve_cases(1) [OF fresh]
    have "lr_operation_id q \<notin> rq_operation_id ` set (own_requests e j)"
      using f op by (auto simp: request_of_def find_None_iff)
    moreover have "\<forall>n \<in> set (previous_nonces e j). n < lr_nonce q"
      using f fold_max_ge(1) [of _ "previous_nonces e j" 0] by (fastforce simp: next_nonce_def)
    ultimately show ?thesis
      using ok f by (auto simp: journal_ok_def insert_request_rows keys_distinct_def sorted_wrt_append)
  qed
qed

text \<open>C8: However the transactions of an account interleave, its journal keeps one immutable reservation per operation,
  the signer's nonces strictly increase, and an event key is written once; rows are only ever appended.\<close>

theorem live_journal_invariant:
  assumes "store_run e j es j'" and "journal_ok e j"
  shows "journal_ok e j' \<and> grows j j'"
  using assms
proof (induction rule: store_run.induct)
  case (step j es j' r now clock op out j'')
  then show ?case using transact_ok transact_grows grows_trans by blast
qed simp

definition claims :: "(time \<times> store_op \<times> store_result) list \<Rightarrow> reservation list" where
  "claims es = List.map_filter (\<lambda>(t, op, out). case (op, out) of (Do_Submit q, Claimed True) \<Rightarrow> Some q | _ \<Rightarrow> None) es"

definition expirations :: "(time \<times> store_op \<times> store_result) list \<Rightarrow> reservation list" where
  "expirations es = List.map_filter (\<lambda>(t, op, out). case (op, out) of (Do_Expire q, Unsent (Some _)) \<Rightarrow> Some q | _ \<Rightarrow> None) es"

lemma map_filter_snoc: "List.map_filter f (xs @ [x]) = List.map_filter f xs @ (case f x of Some y \<Rightarrow> [y] | None \<Rightarrow> [])"
  by (simp add: List.map_filter_def split: option.splits)

lemma transact_submit: "transact e r now clock (Do_Submit q) j = (Claimed True, j') \<Longrightarrow>
   now < lr_expires_after q \<and> event_at e j (attempt_key (lr_operation_id q)) = None \<and> event_at e j' (attempt_key (lr_operation_id q)) \<noteq> None"
  using claimSubmission_cases [of e r now q j True j']
  by (auto simp: settle_def split: sum.splits prod.splits)

lemma transact_expire: "transact e r now clock (Do_Expire q) j = (Unsent (Some x), j') \<Longrightarrow>
   lr_expires_after q \<le> now \<and> event_at e j (attempt_key (lr_operation_id q)) = None"
  using expiredUnsent_cases [of e r now q j "Some x" j']
  by (auto simp: settle_def split: sum.splits prod.splits)

text \<open>The attempt of every granted claim stays in the journal, and whatever expired unsent had expired by then.\<close>

lemma run_claims:
  "store_run e j es j' \<Longrightarrow>
   (\<forall>q \<in> set (claims es). event_at e j' (attempt_key (lr_operation_id q)) \<noteq> None)
   \<and> (\<forall>q \<in> set (expirations es). \<exists>x \<in> set es. lr_expires_after q \<le> fst x)
   \<and> distinct (map lr_operation_id (claims es)) \<and> set (claims es) \<inter> set (expirations es) = {}"
proof (induction rule: store_run.induct)
  case (start j)
  then show ?case by (simp add: claims_def expirations_def List.map_filter_def)
next
  case (step j es j' r now clock op out j'')
  note grow = event_at_grows [OF _ transact_grows [OF step.hyps(2)]]
  have "(\<exists>q. op = Do_Submit q \<and> out = Claimed True) \<or> (\<exists>q x. op = Do_Expire q \<and> out = Unsent (Some x))
      \<or> claims (es @ [(now, op, out)]) = claims es \<and> expirations (es @ [(now, op, out)]) = expirations es"
    by (cases op; cases out) (auto simp: claims_def expirations_def map_filter_snoc split: bool.splits option.splits)
  then consider (submit) q where "op = Do_Submit q" "out = Claimed True" | (expire) q x where "op = Do_Expire q" "out = Unsent (Some x)"
    | (other) "claims (es @ [(now, op, out)]) = claims es" "expirations (es @ [(now, op, out)]) = expirations es" by blast
  then show ?case
  proof cases
    case submit
    then have c: "claims (es @ [(now, op, out)]) = claims es @ [q]" "expirations (es @ [(now, op, out)]) = expirations es"
      by (simp_all add: claims_def expirations_def map_filter_snoc)
    note s = transact_submit [OF step.hyps(2) [unfolded submit]]
    have "q \<notin> set (expirations es)" using s step.IH step.hyps(3) by fastforce
    moreover have "lr_operation_id q \<notin> lr_operation_id ` set (claims es)" using s step.IH by auto
    ultimately show ?thesis using s step.IH grow by (auto simp: c)
  next
    case expire
    then have c: "claims (es @ [(now, op, out)]) = claims es" "expirations (es @ [(now, op, out)]) = expirations es @ [q]"
      by (simp_all add: claims_def expirations_def map_filter_snoc)
    note s = transact_expire [OF step.hyps(2) [unfolded expire]]
    have "q \<notin> set (claims es)" using s step.IH by auto
    then show ?thesis using s step.IH grow by (auto simp: c)
  next
    case other
    then show ?thesis using step.IH grow by auto
  qed
qed

text \<open>C5: Whatever the order of the transactions, an operation is granted at most one signing attempt, and a reservation
  declared expired without a send has not been and will not be granted one.\<close>

theorem live_send_once:
  assumes "store_run e j es j'"
  shows "distinct (map lr_operation_id (claims es)) \<and> set (claims es) \<inter> set (expirations es) = {}"
  using run_claims [OF assms] by blast

section \<open>A run\<close>

definition sample_store_hashes :: store_hashes where
  "sample_store_hashes = action_hashes.extend sample_action_hashes
     \<lparr>sh_reservation = lr_operation_id, sh_request = (\<lambda>_ _ operation _. operation), sh_action = (\<lambda>_. ''a''), sh_payload = (\<lambda>_. ''e''),
      sh_protection = (\<lambda>_. ''p''), sh_operation = (\<lambda>_ _ _. ''c''), sh_snapshot_state = (\<lambda>_. ''s''),
      sh_command = lc_operation_id, sh_text = id, sh_pair = (\<lambda>a b. a @ b)\<rparr>"

definition sample_env :: store_env where
  "sample_env = \<lparr>se_identity = sample_live_identity, se_hash = sample_store_hashes, se_collate = id\<rparr>"

definition sample_other :: other_reads where
  "sample_other = \<lparr>or_account_exists = True, or_registered = True, or_promoted_experiment = None, or_entries = [],
     or_profile_manifest = (\<lambda>_. None)\<rparr>"

definition stored :: "reservation" where
  "stored = \<lparr>lr_identity = sample_live_identity, lr_scope = sample_live_scope, lr_operation_id = ''p'', lr_kind = Close_Kind,
     lr_generation = 1, lr_nonce = 100, lr_expires_after = 1600, lr_cloid = ''0xc'', lr_action = Cancel_By_Cloid 0 ''0xc'',
     lr_request = sample_command (Close (sample_snapshot 2000000) (show_int 900000000) ''exit''), lr_request_hash = ''p''\<rparr>"

definition stored_journal :: live_journal where
  "stored_journal = (insert_request sample_env stored empty_journal)
     \<lparr>jn_owners := [(''h'', \<lparr>ow_process_id = ''w'', ow_generation = 1, ow_lease_until = 5000\<rparr>)]\<rparr>"

lemma sample_env_hash: "identityHash sample_env = ''h''"
  by (simp add: identityHash_def sample_env_def sample_store_hashes_def sample_action_hashes_def sample_hashes_def action_hashes.defs live_hashes.defs)

lemma stored_request: "request_of sample_env stored_journal ''p'' = Some stored" "own_events sample_env stored_journal = []"
  by (simp_all add: request_of_def own_requests_def own_events_def stored_journal_def insert_request_def empty_journal_def sample_env_hash stored_def)

lemma stored_ok: "journal_ok sample_env stored_journal"
  by (simp add: journal_ok_def keys_distinct_def own_events_def previous_nonces_def own_requests_def stored_journal_def
      insert_request_def empty_journal_def stored_def)

lemma empty_ok: "journal_ok e empty_journal"
  by (simp add: journal_ok_def keys_distinct_def own_events_def previous_nonces_def own_requests_def empty_journal_def)

lemma stored_claim: "\<exists>j. transact sample_env sample_other 200 200 (Do_Submit stored) stored_journal = (Claimed True, j)
    \<and> transact sample_env sample_other 300 300 (Do_Submit stored) j = (Claimed False, j)"
proof -
  have [simp]: "lr_operation_id stored = ''p''" "lr_generation stored = 1" "lr_expires_after stored = 1600" by (simp_all add: stored_def)
  have absent: "event_at sample_env stored_journal (attempt_key ''p'') = None" by (simp add: event_at_def stored_request)
  have owner: "map_of (jn_owners stored_journal) ''h'' = Some \<lparr>ow_process_id = ''w'', ow_generation = 1, ow_lease_until = 5000\<rparr>"
    by (simp add: stored_journal_def)
  obtain j where j: "claimSubmission sample_env sample_other 200 stored stored_journal = Inr (True, j)"
    using absent by (simp add: claimSubmission_def store_lock_def sample_other_def sample_env_hash owner same_reservation_def stored_request eventTx_def Let_def)
  note s = claimSubmission_cases [OF j]
  have "request_of sample_env j ''p'' = Some stored" using s stored_request by (simp add: request_of_def own_requests_def)
  then have "claimSubmission sample_env sample_other 300 stored j = Inr (False, j)"
    using s owner by (simp add: claimSubmission_def store_lock_def sample_other_def sample_env_hash same_reservation_def)
  with j show ?thesis by (auto simp: settle_def)
qed

lemma stored_run: "\<exists>j. store_run sample_env stored_journal [(200, Do_Submit stored, Claimed True), (300, Do_Submit stored, Claimed False)] j"
proof -
  obtain j where "transact sample_env sample_other 200 200 (Do_Submit stored) stored_journal = (Claimed True, j)"
    "transact sample_env sample_other 300 300 (Do_Submit stored) j = (Claimed False, j)" using stored_claim by blast
  then show ?thesis
    using store_run.step [OF store_run.step [OF store_run.start]] by fastforce
qed

theorem live_journal_invariant_witness:
  "\<exists>j. store_run sample_env stored_journal [(200, Do_Submit stored, Claimed True), (300, Do_Submit stored, Claimed False)] j
     \<and> journal_ok sample_env j \<and> grows stored_journal j"
  using stored_run live_journal_invariant [OF _ stored_ok] by blast

theorem live_send_once_witness:
  "\<exists>j es. store_run sample_env stored_journal es j \<and> claims es = [stored] \<and> distinct (map lr_operation_id (claims es))
     \<and> set (claims es) \<inter> set (expirations es) = {}"
proof -
  obtain j where r: "store_run sample_env stored_journal [(200, Do_Submit stored, Claimed True), (300, Do_Submit stored, Claimed False)] j"
    using stored_run by blast
  have "claims [(200, Do_Submit stored, Claimed True), (300, Do_Submit stored, Claimed False)] = [stored]"
    by (simp add: claims_def List.map_filter_def)
  with r live_send_once [OF r] show ?thesis by blast
qed

end
