(* ===== verification/LiveExecution.thy ===== *)
theory LiveExecution
  imports LiveStore
begin

text \<open>
  Carrying out live commands: the signing boundary \<open>submit\<close> and \<open>info\<close> of
  \<open>apps/api/src/venues/hyperliquid/live-auth.ts\<close> and the class \<open>LiveExecution\<close> of \<open>live-execution.ts\<close> over the
  journal. An asynchronous method is a function of a world that holds the journal, the requests sent on the wire and
  a counter of external calls; what each external call returns (clocks, rows of other tables, the database, the wallet,
  the venue's answer) is an arbitrary function of the counter. A throw keeps the effects made before it. A call to the
  database is answered, fails without effect, or commits with its answer lost; \<open>Outside_Error\<close> is an error thrown by code
  that is not the program's own (the database client, the encoder of the wire format).
\<close>

datatype db_answer = Db_Answered | Db_Failed | Db_Lost

record moment =
  mo_clock :: time
  mo_db :: time
  mo_database :: db_answer
  mo_reads :: other_reads
  mo_gate :: gate_reads
  mo_address :: "string option"
  mo_canonical :: bool
  mo_signed :: bool
  mo_wire :: "json option"
  mo_entries_ready :: bool
  mo_venue :: venue_reads
  mo_opening :: "pilot_opening option"

record live_world =
  lw_env :: store_env
  lw_enabled :: bool
  lw_moments :: "nat \<Rightarrow> moment"
  lw_tick :: nat
  lw_journal :: live_journal
  lw_sent :: "reservation list"

type_synonym 'a live_io = "live_world \<Rightarrow> (live_error + 'a) \<times> live_world"

section \<open>Effects\<close>

definition pure_io :: "live_error + 'a \<Rightarrow> 'a live_io" where
  "pure_io r w = (r, w)"

definition bind_io :: "'a live_io \<Rightarrow> ('a \<Rightarrow> 'b live_io) \<Rightarrow> 'b live_io" where
  "bind_io m f w = (case m w of (Inl x, w') \<Rightarrow> (Inl x, w') | (Inr a, w') \<Rightarrow> f a w')"

text \<open>\<open>try { m } catch (e) { h(e) }\<close>\<close>

definition catch_io :: "'a live_io \<Rightarrow> (live_error \<Rightarrow> 'a live_io) \<Rightarrow> 'a live_io" where
  "catch_io m h w = (case m w of (Inl x, w') \<Rightarrow> h x w' | (Inr a, w') \<Rightarrow> (Inr a, w'))"

definition ask :: "(live_world \<Rightarrow> 'a) \<Rightarrow> 'a live_io" where
  "ask f w = (Inr (f w), w)"

definition external :: "(moment \<Rightarrow> 'a) \<Rightarrow> 'a live_io" where
  "external f w = (Inr (f (lw_moments w (lw_tick w))), w\<lparr>lw_tick := Suc (lw_tick w)\<rparr>)"

definition check_io :: "bool \<Rightarrow> string \<Rightarrow> unit live_io" where
  "check_io ok code = pure_io (liveCheck ok code (Inr ()))"

definition transaction_io :: "(store_env \<Rightarrow> moment \<Rightarrow> live_journal \<Rightarrow> live_error + ('a \<times> live_journal)) \<Rightarrow> 'a live_io" where
  "transaction_io f w = (let w' = w\<lparr>lw_tick := Suc (lw_tick w)\<rparr>; m = lw_moments w (lw_tick w) in
     if mo_database m = Db_Failed then (Inl Outside_Error, w')
     else case f (lw_env w) m (lw_journal w) of
       Inl x \<Rightarrow> (Inl x, w')
     | Inr (a, j) \<Rightarrow> (if mo_database m = Db_Lost then Inl Outside_Error else Inr a, w'\<lparr>lw_journal := j\<rparr>))"

lemma transaction_io_Inr:
  "transaction_io f w = (Inr a, w') \<longleftrightarrow> mo_database (lw_moments w (lw_tick w)) = Db_Answered
     \<and> (\<exists>j. f (lw_env w) (lw_moments w (lw_tick w)) (lw_journal w) = Inr (a, j) \<and> w' = w\<lparr>lw_tick := Suc (lw_tick w), lw_journal := j\<rparr>)"
  by (cases "mo_database (lw_moments w (lw_tick w))") (auto simp: transaction_io_def Let_def split: sum.splits)

definition append_io :: "event_kind \<Rightarrow> string \<Rightarrow> live_payload \<Rightarrow> unit live_io" where
  "append_io kind key content =
     transaction_io (\<lambda>e m j. bind_res (append_event e (mo_reads m) (mo_db m) kind key content j) (\<lambda>j. Inr ((), j)))"

definition operations_io :: "reservation list live_io" where
  "operations_io = transaction_io (\<lambda>e m j. Inr (operations e j, j))"

definition receipts_io :: "live_receipt list live_io" where
  "receipts_io = transaction_io (\<lambda>e m j. Inr (receipts_of e j, j))"

definition gate_io :: "reservation \<Rightarrow> live_gate live_io" where
  "gate_io q = transaction_io (\<lambda>e m j. bind_res (gate e (mo_reads m) (mo_gate m) (mo_clock m) q j) (\<lambda>g.
     Inr (g\<lparr>lg_entries_allowed := (lg_entries_allowed g \<and> mo_entries_ready m)\<rparr>, j)))"

definition info_io :: "json live_io" where
  "info_io = bind_io (external mo_wire) (\<lambda>v. case v of Some x \<Rightarrow> pure_io (Inr x) | None \<Rightarrow> pure_io (Inl (LiveError ''READ_UNAVAILABLE'')))"

section \<open>The signing boundary\<close>

text \<open>The gate, and the action built again from the reserved request at this instant.\<close>

definition assert_gate_io :: "reservation \<Rightarrow> unit live_io" where
  "assert_gate_io q =
     bind_io (gate_io q) (\<lambda>g.
     bind_io (external mo_clock) (\<lambda>now.
     bind_io (ask lw_env) (\<lambda>e.
     pure_io (assertLiveGate (lh_identity (se_hash e)) (sh_operation (se_hash e)) (sh_reservation (se_hash e)) (se_identity e) q g now))))"

definition current_action_io :: "reservation \<Rightarrow> unit live_io" where
  "current_action_io q =
     bind_io (external mo_clock) (\<lambda>now.
     bind_io (ask lw_env) (\<lambda>e.
     bind_io (pure_io (buildLiveAction (action_hashes.truncate (se_hash e)) (se_identity e) (lr_request q) (lr_cloid q) now)) (\<lambda>action.
     check_io (sh_action (se_hash e) action = sh_action (se_hash e) (lr_action q)) ''ACTION_INTENT'')))"

definition action_matches :: "reservation \<Rightarrow> bool" where
  "action_matches q = (case lr_action q of Cancel_By_Cloid _ _ \<Rightarrow> lr_kind q = Cancel_Kind | Place_Order _ _ \<Rightarrow> lr_kind q \<noteq> Cancel_Kind)"

definition claim_io :: "reservation \<Rightarrow> bool live_io" where
  "claim_io q = transaction_io (\<lambda>e m j. claimSubmission e (mo_reads m) (mo_db m) q j)"

text \<open>The wire encoding of the action; its throw is not a \<open>LiveError\<close> and leaves the claimed attempt unsent.\<close>

definition canonicalize_io :: "unit live_io" where
  "canonicalize_io = bind_io (external mo_canonical) (\<lambda>ok. pure_io (if ok then Inr () else Inl Outside_Error))"

text \<open>The request leaves on the wire, whatever comes back.\<close>

definition send_io :: "reservation \<Rightarrow> json live_io" where
  "send_io q w = (let m = lw_moments w (lw_tick w); w' = w\<lparr>lw_tick := Suc (lw_tick w), lw_sent := lw_sent w @ [q]\<rparr> in
     case mo_wire m of Some x \<Rightarrow> (Inr x, w') | None \<Rightarrow> (Inl (LiveError ''SUBMISSION_UNCERTAIN''), w'))"

text \<open>After the claim, every error that is not a \<open>LiveError\<close> becomes an uncertain submission.\<close>

definition uncertain_io :: "'a live_io \<Rightarrow> 'a live_io" where
  "uncertain_io m = catch_io m (\<lambda>x. pure_io (Inl (case x of LiveError c \<Rightarrow> LiveError c | _ \<Rightarrow> LiveError ''SUBMISSION_UNCERTAIN'')))"

definition sign_and_send :: "reservation \<Rightarrow> json live_io" where
  "sign_and_send q = uncertain_io
     (bind_io (assert_gate_io q) (\<lambda>_.
      bind_io (current_action_io q) (\<lambda>_.
      bind_io (external mo_signed) (\<lambda>signed.
      bind_io (check_io signed ''SUBMISSION_UNCERTAIN'') (\<lambda>_.
      bind_io (assert_gate_io q) (\<lambda>_.
      bind_io (current_action_io q) (\<lambda>_.
      send_io q)))))))"

definition submit :: "reservation \<Rightarrow> json live_io" where
  "submit q =
     bind_io (ask lw_enabled) (\<lambda>enabled.
     bind_io (check_io enabled ''EXECUTOR_DISABLED'') (\<lambda>_.
     bind_io (assert_gate_io q) (\<lambda>_.
     bind_io (current_action_io q) (\<lambda>_.
     bind_io (external mo_address) (\<lambda>address.
     bind_io (check_io (address \<noteq> None) ''SIGNER_UNAVAILABLE'') (\<lambda>_.
     bind_io (ask (\<lambda>w. li_signer_address (se_identity (lw_env w)))) (\<lambda>signer.
     bind_io (check_io (address = Some signer) ''SIGNER_IDENTITY'') (\<lambda>_.
     bind_io (check_io (action_matches q) ''ACTION_TYPE'') (\<lambda>_.
     bind_io (claim_io q) (\<lambda>claimed.
     bind_io (check_io claimed ''SEND_ALREADY_CLAIMED'') (\<lambda>_.
     bind_io canonicalize_io (\<lambda>_.
     sign_and_send q))))))))))))"

section \<open>Recovery\<close>

definition ends_with :: "string \<Rightarrow> string \<Rightarrow> bool" where
  "ends_with tail s = (length tail \<le> length s \<and> drop (length s - length tail) s = tail)"

definition order_state :: "json option \<Rightarrow> receipt_state" where
  "order_state status = (case status of
     Some (JString s) \<Rightarrow>
       (if s = ''open'' then Open else if s = ''filled'' then Filled else if s = ''triggered'' then Triggered
        else if ends_with ''Canceled'' s \<or> s = ''canceled'' then Cancelled
        else if ends_with ''Rejected'' s \<or> s = ''rejected'' then Rejected else Uncertain)
   | _ \<Rightarrow> Uncertain)"

definition status_oid :: "reservation \<Rightarrow> string" where
  "status_oid q = (case lc_intent (lr_request q) of Cancel _ target_cloid \<Rightarrow> (if lr_kind q = Cancel_Kind then target_cloid else lr_cloid q) | _ \<Rightarrow> lr_cloid q)"

definition read_status :: "reservation \<Rightarrow> time \<Rightarrow> json \<Rightarrow> live_error + live_receipt" where
  "read_status q now result =
     bind_res (liveRecord result) (\<lambda>x.
     liveCheck (has_text x ''status'' ''order'') ''ORDER_UNKNOWN''
     (bind_res (record_field x ''order'') (\<lambda>order.
      bind_res (record_field order ''order'') (\<lambda>inner.
      liveCheck (has_text inner ''cloid'' (status_oid q) \<and> has_text inner ''coin'' ''BTC'') ''RECEIPT_OWNER''
     (bind_res (liveInteger (map_of inner ''oid'') 1) (\<lambda>oid.
      Inr \<lparr>rc_operation_id = lr_operation_id q, rc_kind = lr_kind q, rc_observed_at = now,
           rc_state = order_state (map_of order ''status''), rc_oid = Some oid, rc_original = result\<rparr>))))))"

definition query_io :: "reservation \<Rightarrow> live_receipt live_io" where
  "query_io q = catch_io
     (bind_io info_io (\<lambda>result. bind_io (external mo_clock) (\<lambda>now. pure_io (read_status q now result))))
     (\<lambda>_. bind_io (external mo_clock) (\<lambda>now. pure_io (Inr (plain_receipt q now Uncertain ''ORDER_STATUS_UNKNOWN''))))"

definition recover :: "reservation \<Rightarrow> live_receipt live_io" where
  "recover q =
     bind_io (external mo_clock) (\<lambda>now.
     bind_io (if lr_expires_after q \<le> now
        then transaction_io (\<lambda>e m j. expiredUnsent e (mo_reads m) (mo_db m) q j) else pure_io (Inr None)) (\<lambda>unsent.
     case unsent of
       Some receipt \<Rightarrow> pure_io (Inr receipt)
     | None \<Rightarrow>
         bind_io (query_io q) (\<lambda>receipt.
         bind_io (ask lw_env) (\<lambda>e.
         bind_io (append_io Receipt_Event (''receipt:query:'' @ lr_operation_id q @ '':'' @ sh_payload (se_hash e) (Receipt_Payload receipt))
             (Receipt_Payload receipt)) (\<lambda>_.
         pure_io (Inr receipt))))))"

section \<open>Execution\<close>

definition error_code :: "live_error \<Rightarrow> string" where
  "error_code x = (case x of LiveError code \<Rightarrow> code | _ \<Rightarrow> ''RECEIPT_UNKNOWN'')"

text \<open>A submission and its receipt; an error leaves an uncertain receipt.\<close>

definition submit_receipt :: "reservation \<Rightarrow> live_receipt live_io" where
  "submit_receipt q = catch_io
     (bind_io (submit q) (\<lambda>original.
      bind_io (pure_io (parseLiveBatchReceipt original 1)) (\<lambda>items.
      bind_io (external mo_clock) (\<lambda>now.
      pure_io (Inr \<lparr>rc_operation_id = lr_operation_id q, rc_kind = lr_kind q, rc_observed_at = now,
        rc_state = ri_state (hd items), rc_oid = ri_oid (hd items), rc_original = original\<rparr>)))))
     (\<lambda>x. bind_io (external mo_clock) (\<lambda>now. pure_io (Inr (plain_receipt q now Uncertain (error_code x)))))"

definition cancel_target_ok :: "store_env \<Rightarrow> reservation list \<Rightarrow> live_command \<Rightarrow> bool" where
  "cancel_target_ok e ops c = (case lc_intent c of
     Cancel target cloid \<Rightarrow> (case find (\<lambda>q. lr_operation_id q = target) ops of
        None \<Rightarrow> False
      | Some t \<Rightarrow> lr_kind t \<in> {Entry_Kind, Stop_Kind} \<and> lr_cloid t = cloid \<and> ah_scope (se_hash e) (lr_scope t) = ah_scope (se_hash e) (lc_scope c))
   | _ \<Rightarrow> True)"

definition execute :: "live_command \<Rightarrow> live_lease \<Rightarrow> live_receipt live_io" where
  "execute c lease =
     bind_io (ask lw_env) (\<lambda>e.
     bind_io operations_io (\<lambda>ops.
     case find (\<lambda>q. lr_operation_id q = lc_operation_id c) ops of
       Some previous \<Rightarrow>
         bind_io (check_io (sh_command (se_hash e) (lr_request previous) = sh_command (se_hash e) c) ''IDEMPOTENCY_COLLISION'') (\<lambda>_.
         recover previous)
     | None \<Rightarrow>
         bind_io (external mo_clock) (\<lambda>now.
         bind_io (if intent_kind (lc_intent c) = Cancel_Kind then operations_io else pure_io (Inr [])) (\<lambda>ops.
         bind_io (check_io (cancel_target_ok e ops c) ''CANCEL_OWNER'') (\<lambda>_.
         bind_io (transaction_io (\<lambda>e m j. bind_res (reserve e (mo_reads m) (mo_db m) (mo_clock m)
             \<lparr>rv_scope = lc_scope c, rv_operation_id = lc_operation_id c, rv_kind = intent_kind (lc_intent c),
              rv_action = (\<lambda>cloid. buildLiveAction (action_hashes.truncate (se_hash e)) (se_identity e) c cloid now),
              rv_request = c, rv_lease = lease\<rparr> j) (\<lambda>(fresh, q, j). Inr ((fresh, q), j)))) (\<lambda>(fresh, q).
         if \<not> fresh then recover q
         else
           bind_io (submit_receipt q) (\<lambda>receipt.
           bind_io (append_io Receipt_Event (''receipt:send:'' @ lc_operation_id c) (Receipt_Payload receipt)) (\<lambda>_.
           pure_io (Inr receipt)))))))))"

definition protectOnce :: "live_command \<Rightarrow> live_lease \<Rightarrow> live_receipt live_io" where
  "protectOnce c lease =
     bind_io (ask lw_env) (\<lambda>e.
     bind_io operations_io (\<lambda>ops.
     case find (\<lambda>q. lr_operation_id q = lc_operation_id c) ops of
       Some previous \<Rightarrow>
         bind_io (check_io (lr_kind previous = intent_kind (lc_intent c)
             \<and> ah_scope (se_hash e) (lr_scope previous) = ah_scope (se_hash e) (lc_scope c)) ''IDEMPOTENCY_COLLISION'') (\<lambda>_.
         recover previous)
     | None \<Rightarrow> execute c lease))"

definition last_of :: "live_receipt list \<Rightarrow> ident \<Rightarrow> live_receipt option" where
  "last_of receipts operation = (let rs = filter (\<lambda>r. rc_operation_id r = operation) receipts in if rs = [] then None else Some (last rs))"

definition unresolved :: "live_receipt list \<Rightarrow> reservation \<Rightarrow> bool" where
  "unresolved receipts q = ((case last_of receipts (lr_operation_id q) of Some r \<Rightarrow> rc_state r | None \<Rightarrow> Uncertain) \<notin> {Filled, Cancelled, Rejected})"

definition command_snapshot :: "live_command \<Rightarrow> live_snapshot option" where
  "command_snapshot c = (case lc_intent c of Close s _ _ \<Rightarrow> Some s | Entry _ _ s _ \<Rightarrow> Some s | Stop s _ \<Rightarrow> Some s | Cancel _ _ \<Rightarrow> None)"

definition executeResidual :: "live_command \<Rightarrow> live_lease \<Rightarrow> live_receipt live_io" where
  "executeResidual c lease =
     bind_io (ask lw_env) (\<lambda>e.
     bind_io receipts_io (\<lambda>receipts.
     bind_io operations_io (\<lambda>ops.
     let requests = filter (\<lambda>q. lr_kind q = Close_Kind \<and> ah_scope (se_hash e) (lr_scope q) = ah_scope (se_hash e) (lc_scope c)) ops in
     case find (unresolved receipts) requests of
       Some q \<Rightarrow> recover q
     | None \<Rightarrow>
         (case (if requests = [] then None else last_of receipts (lr_operation_id (last requests)), command_snapshot c) of
            (Some terminal, Some s) \<Rightarrow>
              (if map_option ls_snapshot_id (command_snapshot (lr_request (last requests))) = Some (ls_snapshot_id s)
                  \<or> rc_observed_at terminal > ls_venue_at s
               then pure_io (Inr terminal) else protectOnce c lease)
          | _ \<Rightarrow> protectOnce c lease))))"

definition cancel_command :: "reservation \<Rightarrow> ident \<Rightarrow> venue_metadata \<Rightarrow> time \<Rightarrow> live_command" where
  "cancel_command q operation md at = \<lparr>lc_version = live_command_version, lc_scope = lr_scope q, lc_operation_id = operation,
     lc_metadata = md, lc_metadata_at = at, lc_intent = Cancel (lr_operation_id q) (lr_cloid q)\<rparr>"

definition still_open :: "live_snapshot \<Rightarrow> reservation \<Rightarrow> live_receipt list \<Rightarrow> bool" where
  "still_open s q receipts =
     (let oids = List.map_filter (\<lambda>r. if rc_operation_id r = lr_operation_id q then rc_oid r else None) receipts
      in list_ex (\<lambda>o'. lo_cloid o' = Some (lr_cloid q) \<or> lo_oid o' \<in> set oids) (ls_orders s))"

definition cancelOrder :: "reservation \<Rightarrow> live_lease \<Rightarrow> venue_metadata \<Rightarrow> time \<Rightarrow> live_receipt live_io" where
  "cancelOrder q lease md at =
     bind_io (check_io (lr_kind q \<in> {Entry_Kind, Stop_Kind}) ''CANCEL_OWNER'') (\<lambda>_.
     bind_io (ask lw_env) (\<lambda>e.
     bind_io operations_io (\<lambda>ops.
     let h = se_hash e; base = ''cancel:'' @ sh_text h (lr_operation_id q);
         own = filter (\<lambda>p. lr_kind p = Cancel_Kind \<and> (case lc_intent (lr_request p) of Cancel t _ \<Rightarrow> t = lr_operation_id q | _ \<Rightarrow> False)
           \<and> ah_scope h (lr_scope p) = ah_scope h (lr_scope q)) ops in
     if own = [] then protectOnce (cancel_command q base md at) lease
     else
       bind_io (transaction_io (\<lambda>e m j. Inr (fst (latest e j), j))) (\<lambda>s.
       bind_io receipts_io (\<lambda>receipts.
       case s of
         Some s \<Rightarrow>
           (if ls_venue_at s \<le> lr_expires_after (last own) \<or> \<not> still_open s q receipts then recover (last own)
            else
              bind_io (external mo_clock) (\<lambda>now.
              bind_io (pure_io (requireLiveFreshSnapshot (live_hashes.truncate h) (se_identity e) s now)) (\<lambda>_.
              protectOnce (cancel_command q (base @ '':'' @ sh_pair h (lr_operation_id (last own)) (ls_snapshot_id s)) md at) lease)))
       | None \<Rightarrow> recover (last own))))))"

definition cancelEntry :: "reservation \<Rightarrow> live_lease \<Rightarrow> venue_metadata \<Rightarrow> time \<Rightarrow> live_receipt live_io" where
  "cancelEntry q lease md at = bind_io (check_io (lr_kind q = Entry_Kind) ''MAKER_OWNER'') (\<lambda>_. cancelOrder q lease md at)"

definition cancelExpired :: "reservation \<Rightarrow> live_receipt list \<Rightarrow> live_lease \<Rightarrow> venue_metadata \<Rightarrow> time \<Rightarrow> live_receipt option live_io" where
  "cancelExpired q receipts lease md at =
     bind_io (check_io (lr_kind q = Entry_Kind) ''MAKER_OWNER'') (\<lambda>_.
     case find (\<lambda>r. rc_operation_id r = lr_operation_id q \<and> rc_kind r = Entry_Kind \<and> rc_state r \<in> {Acknowledged, Open}) receipts of
       None \<Rightarrow> bind_io (recover q) (\<lambda>_. pure_io (Inr None))
     | Some acknowledged \<Rightarrow>
         bind_io (external mo_clock) (\<lambda>now.
         if now < rc_observed_at acknowledged + 2000 then pure_io (Inr None)
         else bind_io (cancelEntry q lease md at) (\<lambda>r. pure_io (Inr (Some r)))))"

section \<open>Relations a method respects\<close>

text \<open>
  \<open>follows R m\<close>: running \<open>m\<close> relates every world to the world it leaves. An effect relation holds of quiet steps,
  which send nothing and only append to the journal, and composes; a send relation holds of submissions too. Every
  method of the class respects every send relation.
\<close>

definition follows :: "(live_world \<Rightarrow> live_world \<Rightarrow> bool) \<Rightarrow> 'a live_io \<Rightarrow> bool" where
  "follows R m = (\<forall>w. R w (snd (m w)))"

definition later :: "live_world \<Rightarrow> live_world \<Rightarrow> bool" where
  "later w w' = (lw_env w' = lw_env w \<and> lw_moments w' = lw_moments w \<and> lw_tick w \<le> lw_tick w' \<and> grows (lw_journal w) (lw_journal w'))"

definition quiet :: "live_world \<Rightarrow> live_world \<Rightarrow> bool" where
  "quiet w w' = (later w w' \<and> lw_sent w' = lw_sent w)"

locale effect_relation =
  fixes R :: "live_world \<Rightarrow> live_world \<Rightarrow> bool"
  assumes R_quiet: "quiet w w' \<Longrightarrow> R w w'"
    and R_trans: "R w w' \<Longrightarrow> R w' w'' \<Longrightarrow> R w w''"
begin

lemma follows_quiet: "follows quiet m \<Longrightarrow> follows R m"
  using R_quiet by (simp add: follows_def)

lemma follows_bind: "follows R m \<Longrightarrow> (\<And>a. follows R (f a)) \<Longrightarrow> follows R (bind_io m f)"
  unfolding follows_def bind_io_def by (auto split: prod.splits sum.splits) (metis R_trans snd_conv)+

lemma follows_catch: "follows R m \<Longrightarrow> (\<And>x. follows R (h x)) \<Longrightarrow> follows R (catch_io m h)"
  unfolding follows_def catch_io_def by (auto split: prod.splits sum.splits) (metis R_trans snd_conv)+

lemma follows_if: "follows R m \<Longrightarrow> follows R n \<Longrightarrow> follows R (if b then m else n)"
  by simp

lemma follows_option: "follows R m \<Longrightarrow> (\<And>x. follows R (f x)) \<Longrightarrow> follows R (case y of None \<Rightarrow> m | Some x \<Rightarrow> f x)"
  by (simp split: option.splits)

lemma follows_pair: "(\<And>x y. follows R (f x y)) \<Longrightarrow> follows R (case p of (x, y) \<Rightarrow> f x y)"
  by (cases p) simp

lemmas follows_rules = follows_bind follows_catch follows_if follows_option follows_pair

end

lemma quiet_refl [simp]: "quiet w w"
  by (simp add: quiet_def later_def)

interpretation quiet_effects: effect_relation quiet
  by unfold_locales (auto simp: quiet_def later_def intro: grows_trans)

named_theorems quiet_io \<open>effects that send nothing\<close>

lemma quiet_pure [quiet_io]: "follows quiet (pure_io r)"
  by (simp add: follows_def pure_io_def)

lemma quiet_ask [quiet_io]: "follows quiet (ask f)"
  by (simp add: follows_def ask_def)

lemma quiet_external [quiet_io]: "follows quiet (external f)"
  by (simp add: follows_def external_def quiet_def later_def)

lemma quiet_check [quiet_io]: "follows quiet (check_io ok c)"
  by (simp add: check_io_def quiet_io)

lemma quiet_canonicalize [quiet_io]: "follows quiet canonicalize_io"
  unfolding canonicalize_io_def by (intro quiet_effects.follows_rules quiet_io)

lemma quiet_transaction: "(\<And>e m j a j'. f e m j = Inr (a, j') \<Longrightarrow> grows j j') \<Longrightarrow> follows quiet (transaction_io f)"
  by (auto simp: follows_def transaction_io_def quiet_def later_def Let_def split: sum.splits)

lemma quiet_append [quiet_io]: "follows quiet (append_io kind key content)"
  unfolding append_io_def
  by (rule quiet_transaction) (auto simp: append_event_def dest: eventTx_cases)

lemma quiet_reads [quiet_io]: "follows quiet operations_io" "follows quiet receipts_io" "follows quiet (gate_io q)"
  unfolding operations_io_def receipts_io_def gate_io_def by (auto intro!: quiet_transaction)

lemma quiet_claim [quiet_io]: "follows quiet (claim_io q)"
  unfolding claim_io_def by (rule quiet_transaction) (auto dest: claimSubmission_cases)

lemma quiet_expire [quiet_io]: "follows quiet (transaction_io (\<lambda>e m j. expiredUnsent e (mo_reads m) (mo_db m) q j))"
  by (rule quiet_transaction) (auto dest: expiredUnsent_cases)

lemma quiet_latest [quiet_io]: "follows quiet (transaction_io (\<lambda>e m j. Inr (f e j, j)))"
  by (rule quiet_transaction) simp

lemma quiet_reserve [quiet_io]: "follows quiet (transaction_io (\<lambda>e m j. bind_res (reserve e (r m) (d m) (k m) (inp e m) j) (\<lambda>(fresh, q, j). Inr ((fresh, q), j))))"
  by (rule quiet_transaction) (use reserve_cases(2,3) in \<open>fastforce simp: grows_def insert_request_def\<close>)

lemma quiet_info [quiet_io]: "follows quiet info_io"
  unfolding info_io_def by (intro quiet_effects.follows_rules quiet_io)

lemma quiet_gate_check [quiet_io]: "follows quiet (assert_gate_io q)" "follows quiet (current_action_io q)"
  unfolding assert_gate_io_def current_action_io_def by (intro quiet_effects.follows_rules quiet_io)+

locale send_relation = effect_relation +
  assumes R_submit: "R w (snd (submit q w))"
begin

lemma follows_submit: "follows R (submit q)"
  using R_submit by (simp add: follows_def)

lemmas rules = follows_rules follows_submit quiet_io [THEN follows_quiet]

lemma follows_query: "follows R (query_io q)"
  unfolding query_io_def by (intro rules)

lemma follows_recover: "follows R (recover q)"
  unfolding recover_def by (intro rules follows_query)

lemma follows_submit_receipt: "follows R (submit_receipt q)"
  unfolding submit_receipt_def by (intro rules)

lemma follows_execute: "follows R (execute c lease)"
  unfolding execute_def by (intro rules follows_recover follows_submit_receipt)

lemma follows_protectOnce: "follows R (protectOnce c lease)"
  unfolding protectOnce_def by (intro rules follows_recover follows_execute)

lemma follows_executeResidual: "follows R (executeResidual c lease)"
  unfolding executeResidual_def Let_def by (intro rules follows_recover follows_protectOnce)

lemma follows_cancelOrder: "follows R (cancelOrder q lease md at)"
  unfolding cancelOrder_def Let_def by (intro rules follows_recover follows_protectOnce)

lemma follows_cancelEntry: "follows R (cancelEntry q lease md at)"
  unfolding cancelEntry_def by (intro rules follows_cancelOrder)

lemma follows_cancelExpired: "follows R (cancelExpired q receipts lease md at)"
  unfolding cancelExpired_def by (intro rules follows_recover follows_cancelEntry)

end

section \<open>A submission\<close>

definition attempted :: "live_world \<Rightarrow> ident \<Rightarrow> bool" where
  "attempted w operation = (event_at (lw_env w) (lw_journal w) (attempt_key operation) \<noteq> None)"

text \<open>
  What holds of a request when it leaves, in terms of what the database, the journal and the clocks said at three
  consecutive external calls just before the send: the operator's activation, the reservation as the journal holds it,
  the lease of the process, the clock window of the nonce, the owner and the client id, that a cancellation does not
  remove a needed stop, that an entry is authorized, reserved and not paused, and that the action built again from the
  reserved request hashes to the reserved action.
  (The lease of an account no process owns is read as \<open>0\<close>, which only a clock before 1970 would find running.)
\<close>

definition entry_open :: "store_env \<Rightarrow> moment \<Rightarrow> reservation \<Rightarrow> bool" where
  "entry_open e m q = (gr_authority_entries (mo_gate m) \<and> mo_entries_ready m
     \<and> (\<exists>v. gr_pilot (mo_gate m) = Some v \<and> pv_supervisor_authorized v \<and> \<not> pv_global_blocked v \<and> \<not> pv_entries_paused v
         \<and> pv_active_experiment v = js_experiment_id (lr_scope q))
     \<and> (\<exists>p md s b. lc_intent (lr_request q) = Entry p md s b
         \<and> (\<exists>a \<in> set (or_entries (mo_reads m)). ae_status a = Entry_Reserved \<and> ae_order_id a = sz_order_id (ep_input p) \<and> ae_plan_hash a = ah_plan (se_hash e) p)))"

definition authorised :: "store_env \<Rightarrow> moment \<Rightarrow> time \<Rightarrow> live_journal \<Rightarrow> reservation \<Rightarrow> bool" where
  "authorised e m now j q = (
     (\<exists>a. gr_activation_id (mo_gate m) = Some a \<and> a \<noteq> [])
     \<and> (\<exists>s. request_of e j (lr_operation_id q) = Some s \<and> sh_reservation (se_hash e) s = sh_reservation (se_hash e) q)
     \<and> (0 \<le> now \<longrightarrow> (\<exists>l. map_of (jn_owners j) (identityHash e) = Some l \<and> ow_generation l = lr_generation q \<and> now < ow_lease_until l))
     \<and> now < lr_expires_after q \<and> lr_expires_after q \<le> lr_nonce q + 2000 \<and> lr_nonce q \<le> now + 1000 \<and> now - 2000 \<le> lr_nonce q
     \<and> lh_identity (se_hash e) (lr_identity q) = lh_identity (se_hash e) (se_identity e)
     \<and> lr_cloid q = ''0x'' @ take 32 (sh_operation (se_hash e) (se_identity e) (lr_scope q) (lr_operation_id q))
     \<and> (\<forall>target cloid t. lc_intent (lr_request q) = Cancel target cloid \<and> request_of e j target = Some t \<and> lr_kind t = Stop_Kind
          \<longrightarrow> canRemoveStop e (mo_reads m) (mo_clock m) j)
     \<and> (lr_kind q = Entry_Kind \<longrightarrow> entry_open e m q))"

definition rebuilt :: "store_env \<Rightarrow> time \<Rightarrow> reservation \<Rightarrow> bool" where
  "rebuilt e now q = (action_matches q
     \<and> (\<exists>a. buildLiveAction (action_hashes.truncate (se_hash e)) (se_identity e) (lr_request q) (lr_cloid q) now = Inr a
          \<and> sh_action (se_hash e) a = sh_action (se_hash e) (lr_action q)))"

text \<open>\<open>n\<close> is the call at which the last gate was read, over the journal of that moment, which already held the single attempt.\<close>

definition gate_passed :: "live_world \<Rightarrow> reservation \<Rightarrow> bool" where
  "gate_passed w q = (\<exists>n j. n + 3 < lw_tick w \<and> grows j (lw_journal w) \<and> event_at (lw_env w) j (attempt_key (lr_operation_id q)) \<noteq> None
     \<and> authorised (lw_env w) (lw_moments w n) (mo_clock (lw_moments w (n + 1))) j q
     \<and> rebuilt (lw_env w) (mo_clock (lw_moments w (n + 2))) q)"

lemma gate_passed_later:
  assumes "gate_passed w q" and "later w w'"
  shows "gate_passed w' q"
proof -
  from assms(1) obtain n j where n: "n + 3 < lw_tick w" "grows j (lw_journal w)" "event_at (lw_env w) j (attempt_key (lr_operation_id q)) \<noteq> None"
    "authorised (lw_env w) (lw_moments w n) (mo_clock (lw_moments w (n + 1))) j q" "rebuilt (lw_env w) (mo_clock (lw_moments w (n + 2))) q"
    unfolding gate_passed_def by blast
  from assms(2) have w: "lw_env w' = lw_env w" "lw_moments w' = lw_moments w" "lw_tick w \<le> lw_tick w'" "grows (lw_journal w) (lw_journal w')"
    by (simp_all add: later_def)
  have "n + 3 < lw_tick w'" "grows j (lw_journal w')" using n(1,2) w(3,4) grows_trans by auto
  then show ?thesis unfolding gate_passed_def w(1,2) using n(3-5) by blast
qed

definition may_send :: "reservation \<Rightarrow> live_world \<Rightarrow> live_world \<Rightarrow> bool" where
  "may_send q w w' = (later w w' \<and> (lw_sent w' = lw_sent w \<or> lw_sent w' = lw_sent w @ [q] \<and> gate_passed w' q))"

definition claimed_send :: "reservation \<Rightarrow> live_world \<Rightarrow> live_world \<Rightarrow> bool" where
  "claimed_send q w w' = (attempted w (lr_operation_id q) \<longrightarrow> may_send q w w')"

definition sends_once :: "reservation \<Rightarrow> live_world \<Rightarrow> live_world \<Rightarrow> bool" where
  "sends_once q w w' = (may_send q w w'
     \<and> (lw_sent w' \<noteq> lw_sent w \<longrightarrow> \<not> attempted w (lr_operation_id q) \<and> attempted w' (lr_operation_id q)))"

lemma attempted_later: "attempted w operation \<Longrightarrow> later w w' \<Longrightarrow> attempted w' operation"
  using event_at_grows by (simp add: attempted_def later_def)

lemma bind_io_Inr: "m w = (Inr a, w') \<Longrightarrow> bind_io m f w = f a w'"
  by (simp add: bind_io_def)

lemma bind_io_Inl: "m w = (Inl x, w') \<Longrightarrow> bind_io m f w = (Inl x, w')"
  by (simp add: bind_io_def)

lemma follows_bind_res:
  assumes "follows quiet m" and "\<And>a w'. m w = (Inr a, w') \<Longrightarrow> quiet w w' \<Longrightarrow> S w' (snd (f a w'))"
    and "\<And>w w' w''. quiet w w' \<Longrightarrow> S w' w'' \<Longrightarrow> S w w''" and "\<And>w. S w w"
  shows "S w (snd (bind_io m f w))"
proof -
  obtain r w' where m: "m w = (r, w')" by (cases "m w")
  then have q: "quiet w w'" using assms(1) unfolding follows_def by (metis snd_conv)
  show ?thesis
  proof (cases r)
    case (Inl x)
    then show ?thesis using assms(3) [OF q assms(4)] m by (simp add: bind_io_def)
  next
    case (Inr a)
    then show ?thesis using assms(3) [OF q assms(2) [OF _ q]] m by (simp add: bind_io_def)
  qed
qed

lemma may_send_quiet: "quiet w w' \<Longrightarrow> may_send q w' w'' \<Longrightarrow> may_send q w w''"
  by (auto simp: may_send_def quiet_def later_def intro: grows_trans)

lemma claimed_send_quiet: "quiet w w' \<Longrightarrow> claimed_send q w' w'' \<Longrightarrow> claimed_send q w w''"
  using may_send_quiet attempted_later by (auto simp: claimed_send_def quiet_def)

lemma may_send_refl: "may_send q w w"
  by (simp add: may_send_def later_def)

lemma sends_once_quiet: "quiet w w' \<Longrightarrow> sends_once q w' w'' \<Longrightarrow> sends_once q w w''"
  using may_send_quiet attempted_later by (fastforce simp: sends_once_def quiet_def)

lemma sends_once_refl: "sends_once q w w"
  by (simp add: sends_once_def may_send_refl)

lemma claimed_send_refl: "claimed_send q w w"
  by (simp add: claimed_send_def may_send_refl)

lemma claimed_send_bind: "follows quiet m \<Longrightarrow> (\<And>a w. claimed_send q w (snd (f a w))) \<Longrightarrow> claimed_send q w (snd (bind_io m f w))"
  by (rule follows_bind_res [where S = "claimed_send q"]) (auto intro: claimed_send_quiet claimed_send_refl)

lemma sends_once_bind: "follows quiet m \<Longrightarrow> (\<And>a w. sends_once q w (snd (f a w))) \<Longrightarrow> sends_once q w (snd (bind_io m f w))"
  by (rule follows_bind_res [where S = "sends_once q"]) (auto intro: sends_once_quiet sends_once_refl)

lemma check_io_Inr: "check_io ok c w = (Inr u, w') \<longleftrightarrow> ok \<and> w' = w"
  by (auto simp: check_io_def pure_io_def liveCheck_def require_def)

lemma assert_gate_steps:
  assumes "assert_gate_io q w = (Inr u, w')"
  obtains g where "w' = w\<lparr>lw_tick := lw_tick w + 2\<rparr>"
    and "gate (lw_env w) (mo_reads (lw_moments w (lw_tick w))) (mo_gate (lw_moments w (lw_tick w))) (mo_clock (lw_moments w (lw_tick w))) q (lw_journal w) = Inr g"
    and "assertLiveGate (lh_identity (se_hash (lw_env w))) (sh_operation (se_hash (lw_env w))) (sh_reservation (se_hash (lw_env w))) (se_identity (lw_env w)) q
      (g\<lparr>lg_entries_allowed := (lg_entries_allowed g \<and> mo_entries_ready (lw_moments w (lw_tick w)))\<rparr>) (mo_clock (lw_moments w (lw_tick w + 1))) = Inr ()"
  using assms
  unfolding assert_gate_io_def gate_io_def
  by (auto simp: bind_io_def transaction_io_Inr external_def ask_def pure_io_def split: prod.splits sum.splits)

text \<open>What the two functions of the gate mean together.\<close>

lemma gate_authorised:
  assumes "gate e (mo_reads m) (mo_gate m) (mo_clock m) q j = Inr g"
    and "assertLiveGate (lh_identity (se_hash e)) (sh_operation (se_hash e)) (sh_reservation (se_hash e)) (se_identity e) q
      (g\<lparr>lg_entries_allowed := (lg_entries_allowed g \<and> mo_entries_ready m)\<rparr>) now = Inr ()"
  shows "authorised e m now j q"
proof -
  from assms(2) obtain own theirs cloid where ids: "validateLiveIdentity (lh_identity (se_hash e)) (se_identity e) = Inr own"
    "validateLiveIdentity (lh_identity (se_hash e)) (lr_identity q) = Inr theirs" "own = theirs"
    and cloid: "liveCloid (lh_identity (se_hash e)) (sh_operation (se_hash e)) (se_identity e) (lr_scope q) (lr_operation_id q) = Inr cloid" "lr_cloid q = cloid"
    and signer: "lg_signer_enabled g" "\<exists>a. lg_operator_activation_id g = Some a \<and> a \<noteq> []"
    and stored: "lg_reservation_hash g = Some (sh_reservation (se_hash e) q)"
    and fence: "lg_generation g = lr_generation q" "lg_lease_until g > now" "lr_expires_after q > now" "lr_expires_after q \<le> lr_nonce q + 2000"
      "lr_nonce q \<le> now + 1000" "lr_nonce q \<ge> now - 2000"
    and entry: "lr_kind q \<noteq> Entry_Kind \<or> lg_entries_allowed g \<and> mo_entries_ready m"
    unfolding assertLiveGate_def bind_res_Inr liveCheck_Inr by (auto split: option.splits)
  from assms(1) signer stored fence(1,2) entry have
    "\<exists>a. gr_activation_id (mo_gate m) = Some a \<and> a \<noteq> []"
    "\<exists>s. request_of e j (lr_operation_id q) = Some s \<and> sh_reservation (se_hash e) s = sh_reservation (se_hash e) q"
    "0 \<le> now \<longrightarrow> (\<exists>l. map_of (jn_owners j) (identityHash e) = Some l \<and> ow_generation l = lr_generation q \<and> now < ow_lease_until l)"
    "\<forall>target cloid t. lc_intent (lr_request q) = Cancel target cloid \<and> request_of e j target = Some t \<and> lr_kind t = Stop_Kind
          \<longrightarrow> canRemoveStop e (mo_reads m) (mo_clock m) j"
    "lr_kind q = Entry_Kind \<longrightarrow> entry_open e m q"
    by (auto simp: gate_def store_lock_def entry_open_def list_ex_iff Let_def split: option.splits if_splits live_intent.splits)
  moreover have "lr_cloid q = ''0x'' @ take 32 (sh_operation (se_hash e) (se_identity e) (lr_scope q) (lr_operation_id q))"
    using cloid by (auto elim: liveCloid_cases)
  moreover have "lh_identity (se_hash e) (lr_identity q) = lh_identity (se_hash e) (se_identity e)"
    using ids by (auto dest!: validateLiveIdentity_Inr)
  ultimately show ?thesis using fence by (simp add: authorised_def)
qed

lemma current_action_steps:
  assumes "current_action_io q w = (Inr u, w')" and "action_matches q"
  shows "w' = w\<lparr>lw_tick := lw_tick w + 1\<rparr> \<and> rebuilt (lw_env w) (mo_clock (lw_moments w (lw_tick w))) q"
  using assms
  by (auto simp: current_action_io_def bind_io_def external_def ask_def pure_io_def check_io_def liveCheck_def require_def rebuilt_def
      split: prod.splits sum.splits if_splits)

text \<open>The last gate, the last rebuilt action, and the send.\<close>

lemma gate_then_send:
  assumes "action_matches q"
  shows "claimed_send q w (snd (bind_io (assert_gate_io q) (\<lambda>_. bind_io (current_action_io q) (\<lambda>_. send_io q)) w))"
proof (rule follows_bind_res [OF quiet_gate_check(1) _ claimed_send_quiet claimed_send_refl])
  fix u w1
  assume "assert_gate_io q w = (Inr u, w1)"
  then have w1: "w1 = w\<lparr>lw_tick := lw_tick w + 2\<rparr>"
    and gate: "authorised (lw_env w) (lw_moments w (lw_tick w)) (mo_clock (lw_moments w (lw_tick w + 1))) (lw_journal w) q"
    by (auto elim!: assert_gate_steps intro: gate_authorised)
  show "claimed_send q w1 (snd (bind_io (current_action_io q) (\<lambda>_. send_io q) w1))"
  proof (rule follows_bind_res [OF quiet_gate_check(2) _ claimed_send_quiet claimed_send_refl])
    fix v w2
    assume "current_action_io q w1 = (Inr v, w2)"
    from current_action_steps [OF this assms] have w2: "w2 = w\<lparr>lw_tick := lw_tick w + 3\<rparr>" and built: "rebuilt (lw_env w) (mo_clock (lw_moments w (lw_tick w + 2))) q"
      by (simp_all add: w1 numeral_3_eq_3)
    show "claimed_send q w2 (snd (send_io q w2))"
      using gate built
      by (auto simp: claimed_send_def send_io_def may_send_def later_def gate_passed_def attempted_def w2 Let_def split: option.splits
          intro!: exI [of _ "lw_tick w"] exI [of _ "lw_journal w"])
  qed
qed

lemma sign_and_send_may: "action_matches q \<Longrightarrow> claimed_send q w (snd (sign_and_send q w))"
proof -
  assume m: "action_matches q"
  let ?m = "bind_io (assert_gate_io q) (\<lambda>_. bind_io (current_action_io q) (\<lambda>_. bind_io (external mo_signed) (\<lambda>signed.
      bind_io (check_io signed ''SUBMISSION_UNCERTAIN'') (\<lambda>_. bind_io (assert_gate_io q) (\<lambda>_. bind_io (current_action_io q) (\<lambda>_. send_io q))))))"
  have "claimed_send q w (snd (?m w))"
    by (intro claimed_send_bind gate_then_send [OF m] quiet_io)
  moreover have "snd (sign_and_send q w) = snd (?m w)"
    by (auto simp: sign_and_send_def uncertain_io_def catch_io_def pure_io_def split: prod.splits sum.splits)
  ultimately show ?thesis by simp
qed

lemma claim_io_cases:
  assumes "claim_io q w = (Inr True, w')"
  shows "\<not> attempted w (lr_operation_id q) \<and> attempted w' (lr_operation_id q)"
  using assms claimSubmission_cases [of "lw_env w" "mo_reads (lw_moments w (lw_tick w))" "mo_db (lw_moments w (lw_tick w))" q "lw_journal w" True "lw_journal w'"]
  by (auto simp: claim_io_def transaction_io_Inr attempted_def)

lemma claim_then_send:
  assumes "action_matches q"
  shows "sends_once q w (snd (bind_io (claim_io q) (\<lambda>claimed. bind_io (check_io claimed ''SEND_ALREADY_CLAIMED'')
    (\<lambda>_. bind_io canonicalize_io (\<lambda>_. sign_and_send q))) w))"
proof -
  obtain r w1 where c: "claim_io q w = (r, w1)" by (cases "claim_io q w")
  then have q: "quiet w w1" using quiet_claim unfolding follows_def by (metis snd_conv)
  show ?thesis
  proof (cases "r = Inr True")
    case True
    note c1 = c [unfolded True]
    let ?w = "snd (bind_io canonicalize_io (\<lambda>_. sign_and_send q) w1)"
    have "claimed_send q w1 ?w" by (intro claimed_send_bind sign_and_send_may [OF assms] quiet_io)
    then have "may_send q w1 ?w" using claim_io_cases [OF c1] by (simp add: claimed_send_def)
    then have "may_send q w ?w" "later w1 ?w" using may_send_quiet [OF q] by (auto simp: may_send_def)
    then have "sends_once q w ?w" using claim_io_cases [OF c1] attempted_later by (auto simp: sends_once_def)
    then show ?thesis using c1 by (simp add: bind_io_def check_io_def pure_io_def)
  next
    case False
    then have "snd (bind_io (claim_io q) (\<lambda>claimed. bind_io (check_io claimed ''SEND_ALREADY_CLAIMED'')
        (\<lambda>_. bind_io canonicalize_io (\<lambda>_. sign_and_send q))) w) = w1"
      using c by (cases r) (auto simp: bind_io_def check_io_def pure_io_def)
    then show ?thesis using sends_once_quiet [OF q sends_once_refl] by simp
  qed
qed

text \<open>A submission sends at most its own request, once, after an attempt no one had recorded and through the gate.\<close>

lemma submit_sends_once: "sends_once q w (snd (submit q w))"
proof -
  have m: "sends_once q w (snd (bind_io (check_io (action_matches q) ''ACTION_TYPE'') (\<lambda>_. bind_io (claim_io q)
      (\<lambda>claimed. bind_io (check_io claimed ''SEND_ALREADY_CLAIMED'') (\<lambda>_. bind_io canonicalize_io (\<lambda>_. sign_and_send q)))) w))" for w
    by (rule follows_bind_res [OF quiet_check _ sends_once_quiet sends_once_refl])
      (use claim_then_send in \<open>auto simp: check_io_Inr\<close>)
  show ?thesis unfolding submit_def by (intro sends_once_bind m quiet_io)
qed

section \<open>Sending once, and only through the gate\<close>

definition sent_ok :: "live_world \<Rightarrow> bool" where
  "sent_ok w = (distinct (map lr_operation_id (lw_sent w)) \<and> (\<forall>q \<in> set (lw_sent w). attempted w (lr_operation_id q)))"

definition keeps_sent_ok :: "live_world \<Rightarrow> live_world \<Rightarrow> bool" where
  "keeps_sent_ok w w' = (later w w' \<and> (sent_ok w \<longrightarrow> sent_ok w'))"

definition sends_gated :: "live_world \<Rightarrow> live_world \<Rightarrow> bool" where
  "sends_gated w w' = (later w w' \<and> (\<exists>new. lw_sent w' = lw_sent w @ new \<and> (\<forall>q \<in> set new. gate_passed w' q)))"

lemma later_trans: "later w w' \<Longrightarrow> later w' w'' \<Longrightarrow> later w w''"
  by (auto simp: later_def intro: grows_trans)

interpretation forward: send_relation later
proof
  show "later w w'" if "quiet w w'" for w w' using that by (simp add: quiet_def)
  show "later w w''" if "later w w'" "later w' w''" for w w' w'' using that by (rule later_trans)
  show "later w (snd (submit q w))" for w q using submit_sends_once [of q w] by (simp add: sends_once_def may_send_def)
qed

interpretation once: send_relation keeps_sent_ok
proof
  show "keeps_sent_ok w w'" if "quiet w w'" for w w'
    using that attempted_later by (auto simp: keeps_sent_ok_def sent_ok_def quiet_def)
  show "keeps_sent_ok w w''" if "keeps_sent_ok w w'" "keeps_sent_ok w' w''" for w w' w''
    using that later_trans by (auto simp: keeps_sent_ok_def)
  show "keeps_sent_ok w (snd (submit q w))" for w q
    using submit_sends_once [of q w] attempted_later [of w _ "snd (submit q w)"]
    by (auto simp: sends_once_def may_send_def keeps_sent_ok_def sent_ok_def)
qed

interpretation gated: send_relation sends_gated
proof
  show "sends_gated w w'" if "quiet w w'" for w w'
    using that by (auto simp: sends_gated_def quiet_def)
  show "sends_gated w w''" if "sends_gated w w'" "sends_gated w' w''" for w w' w''
  proof -
    from that(1) obtain xs where xs: "later w w'" "lw_sent w' = lw_sent w @ xs" "\<forall>q \<in> set xs. gate_passed w' q" by (auto simp: sends_gated_def)
    from that(2) obtain ys where ys: "later w' w''" "lw_sent w'' = lw_sent w' @ ys" "\<forall>q \<in> set ys. gate_passed w'' q" by (auto simp: sends_gated_def)
    have "\<forall>q \<in> set (xs @ ys). gate_passed w'' q" using xs(3) ys(3) gate_passed_later [OF _ ys(1)] by auto
    then show ?thesis using xs ys later_trans by (auto simp: sends_gated_def)
  qed
  show "sends_gated w (snd (submit q w))" for w q
    using submit_sends_once [of q w] by (auto simp: sends_once_def may_send_def sends_gated_def)
qed

datatype live_call = Run_Execute live_command live_lease | Run_Protect live_command live_lease | Run_Residual live_command live_lease
  | Run_Cancel_Order reservation live_lease venue_metadata time | Run_Cancel_Entry reservation live_lease venue_metadata time
  | Run_Cancel_Expired reservation "live_receipt list" live_lease venue_metadata time | Run_Recover reservation

fun perform :: "live_world \<Rightarrow> live_call \<Rightarrow> live_world" where
  "perform w (Run_Execute c lease) = snd (execute c lease w)"
| "perform w (Run_Protect c lease) = snd (protectOnce c lease w)"
| "perform w (Run_Residual c lease) = snd (executeResidual c lease w)"
| "perform w (Run_Cancel_Order q lease md at) = snd (cancelOrder q lease md at w)"
| "perform w (Run_Cancel_Entry q lease md at) = snd (cancelEntry q lease md at w)"
| "perform w (Run_Cancel_Expired q receipts lease md at) = snd (cancelExpired q receipts lease md at w)"
| "perform w (Run_Recover q) = snd (recover q w)"

context send_relation
begin

lemma follows_perform: "R w (perform w c)"
  using follows_execute follows_protectOnce follows_executeResidual follows_cancelOrder follows_cancelEntry
    follows_cancelExpired follows_recover
  by (cases c) (simp_all add: follows_def)

lemma follows_run: "R w (foldl perform w cs)"
proof (induction cs arbitrary: w)
  case Nil
  show ?case by (simp add: R_quiet)
next
  case (Cons c cs)
  show ?case using R_trans [OF follows_perform [of w c] Cons.IH] by simp
qed

end

text \<open>Whatever methods are called, in any order and however the venue, the clocks, the database and the wallet answer,
  the requests that leave on the wire have distinct operations, and each passed the gate for an action rebuilt from its
  reserved request.\<close>

theorem live_wire_once:
  assumes "lw_sent w = []"
  shows "distinct (map lr_operation_id (lw_sent (foldl perform w cs)))
    \<and> (\<forall>q \<in> set (lw_sent (foldl perform w cs)). gate_passed (foldl perform w cs) q)"
proof -
  have "sent_ok w" using assms by (simp add: sent_ok_def)
  then have "sent_ok (foldl perform w cs)" using once.follows_run [of w cs] by (simp add: keeps_sent_ok_def)
  moreover have "\<forall>q \<in> set (lw_sent (foldl perform w cs)). gate_passed (foldl perform w cs) q"
    using gated.follows_run [of w cs] assms by (auto simp: sends_gated_def)
  ultimately show ?thesis by (simp add: sent_ok_def)
qed

section \<open>A request that is sent\<close>

abbreviation close_command :: live_command where
  "close_command \<equiv> sample_command (Close (sample_snapshot 2000000) (show_int 900000000) ''exit'')"

definition sample_moment :: moment where
  "sample_moment = \<lparr>mo_clock = 100, mo_db = 100, mo_database = Db_Answered, mo_reads = sample_other,
     mo_gate = \<lparr>gr_activation_id = Some ''x'', gr_authority_entries = False, gr_pilot = None\<rparr>,
     mo_address = Some sample_address, mo_canonical = True, mo_signed = True, mo_wire = Some (JObject [(''status'', JString ''err'')]), mo_entries_ready = True,
     mo_venue = sample_reads, mo_opening = None\<rparr>"

definition sample_world :: live_world where
  "sample_world = \<lparr>lw_env = sample_env, lw_enabled = True, lw_moments = (\<lambda>_. sample_moment), lw_tick = 0,
     lw_journal = empty_journal\<lparr>jn_owners := [(''h'', \<lparr>ow_process_id = ''w'', ow_generation = 1, ow_lease_until = 5000\<rparr>)]\<rparr>, lw_sent = []\<rparr>"

definition sample_lease :: live_lease where
  "sample_lease = \<lparr>ll_process_id = ''w'', ll_generation = 1, ll_lease_until = 5000\<rparr>"

lemma sample_hash_parts: "action_hashes.truncate sample_store_hashes = sample_action_hashes"
  "lh_identity sample_store_hashes = (\<lambda>_. ''h'')" "sh_operation sample_store_hashes = (\<lambda>_ _ _. ''c'')"
  "sh_reservation sample_store_hashes = lr_operation_id" "sh_action sample_store_hashes = (\<lambda>_. ''a'')"
  "ah_scope sample_store_hashes = (\<lambda>_. ''s'')" "sh_payload sample_store_hashes = (\<lambda>_. ''e'')"
  "sh_request sample_store_hashes = (\<lambda>_ _ operation _. operation)"
  by (simp_all add: sample_store_hashes_def sample_action_hashes_def sample_hashes_def action_hashes.defs live_hashes.defs)

lemma sample_env_parts [simp]: "se_hash sample_env = sample_store_hashes" "se_identity sample_env = sample_live_identity"
  by (simp_all add: sample_env_def)

lemma sample_reserved:
  "\<exists>q. reserve sample_env sample_other 100 100
     \<lparr>rv_scope = sample_live_scope, rv_operation_id = ''p'', rv_kind = Close_Kind,
      rv_action = (\<lambda>cloid. buildLiveAction sample_action_hashes sample_live_identity close_command cloid 100),
      rv_request = close_command, rv_lease = sample_lease\<rparr> (lw_journal sample_world) = Inr (True, q, insert_request sample_env q (lw_journal sample_world))
   \<and> lr_operation_id q = ''p'' \<and> lr_kind q = Close_Kind \<and> lr_identity q = sample_live_identity \<and> lr_scope q = sample_live_scope
   \<and> lr_generation q = 1 \<and> lr_nonce q = 100 \<and> lr_expires_after q = 1600 \<and> lr_cloid q = ''0xc'' \<and> lr_request q = close_command
   \<and> action_matches q"
proof -
  obtain order grouping where a: "buildLiveAction sample_action_hashes sample_live_identity close_command ''0xc'' 100 = Inr (Place_Order order grouping)"
    using sample_close_built by blast
  have c: "lc_version close_command = live_command_version" "lc_operation_id close_command = ''p''" "lc_scope close_command = sample_live_scope"
    by (simp_all add: sample_command_def)
  show ?thesis
    by (simp add: reserve_def sample_hash_parts sample_live_cloid store_lock_def sample_other_def request_of_def own_requests_def
        sample_world_def empty_journal_def sample_env_hash sample_lease_def next_nonce_def previous_nonces_def c a
        intent_allowed_def build_reservation_def action_matches_def Let_def)
qed

definition ready :: "reservation \<Rightarrow> live_world \<Rightarrow> bool" where
  "ready q w = (lw_env w = sample_env \<and> lw_moments w = (\<lambda>_. sample_moment) \<and> lw_enabled w
     \<and> request_of sample_env (lw_journal w) ''p'' = Some q
     \<and> map_of (jn_owners (lw_journal w)) ''h'' = Some \<lparr>ow_process_id = ''w'', ow_generation = 1, ow_lease_until = 5000\<rparr>)"

abbreviation sample_fields :: "reservation \<Rightarrow> bool" where
  "sample_fields q \<equiv> lr_operation_id q = ''p'' \<and> lr_kind q = Close_Kind \<and> lr_identity q = sample_live_identity \<and> lr_scope q = sample_live_scope
   \<and> lr_generation q = 1 \<and> lr_nonce q = 100 \<and> lr_expires_after q = 1600 \<and> lr_cloid q = ''0xc'' \<and> lr_request q = close_command
   \<and> action_matches q"

lemma ready_tick [simp]: "ready q (w\<lparr>lw_tick := n\<rparr>) = ready q w"
  by (simp add: ready_def)

lemma ready_gate: "ready q w \<Longrightarrow> sample_fields q \<Longrightarrow> \<exists>n. assert_gate_io q w = (Inr (), w\<lparr>lw_tick := n\<rparr>)"
  by (rule exI [of _ "Suc (Suc (lw_tick w))"])
    (simp add: assert_gate_io_def gate_io_def bind_io_def transaction_io_def external_def ask_def pure_io_def ready_def gate_def
      store_lock_def sample_moment_def sample_other_def sample_env_hash assertLiveGate_def sample_hash_parts sample_live_valid sample_live_cloid
      liveCheck_def Let_def)

lemma ready_action: "ready q w \<Longrightarrow> sample_fields q \<Longrightarrow> \<exists>n. current_action_io q w = (Inr (), w\<lparr>lw_tick := n\<rparr>)"
  using sample_close_built
  by (auto simp: current_action_io_def bind_io_def external_def ask_def pure_io_def check_io_def ready_def sample_moment_def sample_hash_parts)

lemma ready_send: "ready q w \<Longrightarrow> sample_fields q \<Longrightarrow> lw_sent (snd (sign_and_send q w)) = lw_sent w @ [q]"
proof -
  assume w: "ready q w" and q: "sample_fields q"
  obtain n1 where g1: "assert_gate_io q w = (Inr (), w\<lparr>lw_tick := n1\<rparr>)" using ready_gate [OF w q] by blast
  obtain n2 where a1: "current_action_io q (w\<lparr>lw_tick := n1\<rparr>) = (Inr (), w\<lparr>lw_tick := n2\<rparr>)"
    using ready_action [of q "w\<lparr>lw_tick := n1\<rparr>"] w q by auto
  obtain n3 where g2: "assert_gate_io q (w\<lparr>lw_tick := Suc n2\<rparr>) = (Inr (), w\<lparr>lw_tick := n3\<rparr>)"
    using ready_gate [of q "w\<lparr>lw_tick := Suc n2\<rparr>"] w q by auto
  obtain n4 where a2: "current_action_io q (w\<lparr>lw_tick := n3\<rparr>) = (Inr (), w\<lparr>lw_tick := n4\<rparr>)"
    using ready_action [of q "w\<lparr>lw_tick := n3\<rparr>"] w q by auto
  have "lw_moments w = (\<lambda>_. sample_moment)" using w by (simp add: ready_def)
  then show ?thesis
    by (simp add: sign_and_send_def uncertain_io_def catch_io_def bind_io_def g1 a1 g2 a2 external_def check_io_def pure_io_def
        sample_moment_def send_io_def)
qed

lemma ready_claim:
  assumes w: "ready q w" and q: "sample_fields q" and e: "jn_events (lw_journal w) = []"
  shows "\<exists>w'. claim_io q w = (Inr True, w') \<and> ready q w' \<and> lw_sent w' = lw_sent w"
proof -
  have absent: "event_at sample_env (lw_journal w) key = None" for key using e by (simp add: event_at_def own_events_def)
  obtain j where j: "claimSubmission sample_env sample_other 100 q (lw_journal w) = Inr (True, j)"
    using w q absent
    by (simp add: claimSubmission_def store_lock_def sample_other_def sample_env_hash same_reservation_def eventTx_def ready_def Let_def)
  then have "jn_requests j = jn_requests (lw_journal w)" "jn_owners j = jn_owners (lw_journal w)" using claimSubmission_cases by blast+
  then show ?thesis using j w
    by (auto simp: claim_io_def transaction_io_def ready_def sample_moment_def request_of_def own_requests_def Let_def)
qed

lemma ready_submit:
  assumes w: "ready q w" and q: "sample_fields q" and e: "jn_events (lw_journal w) = []"
  shows "lw_sent (snd (submit q w)) = lw_sent w @ [q]"
proof -
  obtain n1 where g1: "assert_gate_io q w = (Inr (), w\<lparr>lw_tick := n1\<rparr>)" using ready_gate [OF w q] by blast
  obtain n2 where a1: "current_action_io q (w\<lparr>lw_tick := n1\<rparr>) = (Inr (), w\<lparr>lw_tick := n2\<rparr>)"
    using ready_action [of q "w\<lparr>lw_tick := n1\<rparr>"] w q by auto
  obtain w1 where c: "claim_io q (w\<lparr>lw_tick := Suc n2\<rparr>) = (Inr True, w1)" "ready q w1" "lw_sent w1 = lw_sent w"
    using ready_claim [of q "w\<lparr>lw_tick := Suc n2\<rparr>"] w q e by auto
  have "lw_moments w = (\<lambda>_. sample_moment)" "lw_enabled w" "lw_env w = sample_env" using w by (simp_all add: ready_def)
  moreover have signer: "li_signer_address sample_live_identity = sample_address" by (simp add: sample_live_identity_def)
  ultimately have "snd (submit q w) = snd (sign_and_send q (w1\<lparr>lw_tick := Suc (lw_tick w1)\<rparr>))"
    using q signer c(2) by (simp add: submit_def canonicalize_io_def ready_def bind_io_def ask_def g1 a1 c external_def check_io_def pure_io_def sample_moment_def)
  then show ?thesis using ready_send [of q "w1\<lparr>lw_tick := Suc (lw_tick w1)\<rparr>"] c(2,3) q by simp
qed

lemma sample_executes: "\<exists>q. lr_operation_id q = ''p'' \<and> lw_sent (perform sample_world (Run_Execute close_command sample_lease)) = [q]"
proof -
  obtain q where r: "reserve sample_env sample_other 100 100
     \<lparr>rv_scope = sample_live_scope, rv_operation_id = ''p'', rv_kind = Close_Kind,
      rv_action = (\<lambda>cloid. buildLiveAction sample_action_hashes sample_live_identity close_command cloid 100),
      rv_request = close_command, rv_lease = sample_lease\<rparr> (lw_journal sample_world) = Inr (True, q, insert_request sample_env q (lw_journal sample_world))"
    and q: "sample_fields q" using sample_reserved by blast
  let ?w = "sample_world\<lparr>lw_tick := 3, lw_journal := insert_request sample_env q (lw_journal sample_world)\<rparr>"
  have w: "ready q ?w" "jn_events (lw_journal ?w) = []" "lw_sent ?w = []"
    using q by (simp_all add: ready_def sample_world_def insert_request_def request_of_def own_requests_def sample_env_hash empty_journal_def)
  have "lw_sent (snd (submit_receipt q ?w)) = lw_sent (snd (submit q ?w))"
    by (auto simp: submit_receipt_def catch_io_def bind_io_def pure_io_def external_def split: prod.splits sum.splits)
  then have sent: "lw_sent (snd (submit_receipt q ?w)) = [q]" using ready_submit [OF w(1) q w(2)] w(3) by simp
  have c: "lc_operation_id close_command = ''p''" "lc_scope close_command = sample_live_scope"
    by (simp_all add: sample_command_def)
  have "execute close_command sample_lease sample_world = bind_io (submit_receipt q) (\<lambda>receipt.
        bind_io (append_io Receipt_Event ''receipt:send:p'' (Receipt_Payload receipt)) (\<lambda>_. pure_io (Inr receipt))) ?w"
    using r
    by (simp add: execute_def bind_io_def ask_def operations_io_def transaction_io_def operations_def own_requests_def
        sample_world_def empty_journal_def c external_def pure_io_def check_io_def cancel_target_ok_def sample_moment_def
        sample_hash_parts liveCheck_def numeral_eq_Suc Let_def)
  moreover have "lw_sent (snd (append_io k key v w')) = lw_sent w'" for k key v w'
    using quiet_append [of k key v] by (simp add: follows_def quiet_def)
  ultimately have "lw_sent (snd (execute close_command sample_lease sample_world)) = [q]"
    using sent by (auto simp: bind_io_def pure_io_def split: prod.splits sum.splits) (metis snd_conv)+
  with q show ?thesis by auto
qed

theorem live_wire_once_witness:
  "\<exists>q. lw_sent sample_world = [] \<and> lw_sent (foldl perform sample_world [Run_Execute close_command sample_lease]) = [q]
     \<and> gate_passed (foldl perform sample_world [Run_Execute close_command sample_lease]) q"
proof -
  obtain q where q: "lw_sent (foldl perform sample_world [Run_Execute close_command sample_lease]) = [q]"
    using sample_executes by auto
  have e: "lw_sent sample_world = []" "lw_env sample_world = sample_env" by (simp_all add: sample_world_def)
  from live_wire_once [OF e(1), of "[Run_Execute close_command sample_lease]"] q e show ?thesis by simp
qed

end
