(* ===== verification/LiveProtection.thy ===== *)
theory LiveProtection
  imports LiveExecution
begin

text \<open>
  Reconciling a live position with its native stop, \<open>apps/api/src/venues/hyperliquid/live-protection.ts\<close>, and the
  restart recovery \<open>recoverLiveAccount\<close> of \<open>live-reconcile.ts\<close>. The local variables the source mutates are the
  record \<open>guard_state\<close>; a \<open>try\<close> block whose assignments survive its \<open>catch\<close> uses \<open>try_io\<close>. \<open>save\<close> runs without
  the pilot observation.
\<close>

definition try_io :: "'a live_io \<Rightarrow> (live_error + 'a) live_io" where
  "try_io m w = (Inr (fst (m w)), snd (m w))"

definition save_io :: "live_snapshot \<Rightarrow> unit live_io" where
  "save_io s = transaction_io (\<lambda>e m j. bind_res (save e (mo_reads m) (mo_db m) (mo_opening m) s j) (\<lambda>j. Inr ((), j)))"

definition pending_io :: "bool live_io" where
  "pending_io = transaction_io (\<lambda>e m j. Inr (snd (latest e j), j))"

definition collect_io :: "time \<Rightarrow> live_snapshot live_io" where
  "collect_io start =
     bind_io (ask lw_env) (\<lambda>e.
     bind_io (external mo_venue) (\<lambda>v.
     pure_io (collectLiveSnapshot (live_hashes.truncate (se_hash e)) (se_collate e) (se_identity e) start v)))"

definition gap_json :: "string option \<Rightarrow> string list option \<Rightarrow> string \<Rightarrow> json" where
  "gap_json reason reasons snapshot_id = JObject ((case reason of Some r \<Rightarrow> [(''reason'', JString r)] | None \<Rightarrow> [])
     @ (case reasons of Some rs \<Rightarrow> [(''reasons'', JArray (map JString rs))] | None \<Rightarrow> []) @ [(''snapshot_id'', JString snapshot_id)])"

section \<open>Ownership and reasons\<close>

record guard_input =
  gi_entry :: reservation
  gi_snapshot :: live_snapshot
  gi_manifest :: manifest
  gi_metadata :: venue_metadata
  gi_metadata_at :: time
  gi_lease :: live_lease
  gi_mark_price :: "string option"
  gi_mark_at :: "time option"
  gi_risk_blocked :: bool
  gi_history_from :: time

record guard_state =
  gs_snapshot :: live_snapshot
  gs_protection :: "protection option"
  gs_native :: "string option"
  gs_reasons :: "string list"
  gs_urgent :: bool

definition push :: "string \<Rightarrow> guard_state \<Rightarrow> guard_state" where
  "push reason st = st\<lparr>gs_reasons := gs_reasons st @ [reason]\<rparr>"

definition push_if :: "bool \<Rightarrow> string \<Rightarrow> guard_state \<Rightarrow> guard_state" where
  "push_if b reason st = (if b then push reason st else st)"

text \<open>The fills of the entry, in time order.\<close>

definition entry_fills :: "(string \<Rightarrow> string) \<Rightarrow> reservation \<Rightarrow> live_receipt list \<Rightarrow> live_snapshot \<Rightarrow> live_fill list" where
  "entry_fills collate entry receipts s =
     (let oids = List.map_filter (\<lambda>r. if rc_operation_id r = lr_operation_id entry then rc_oid r else None) receipts
      in sort_key lf_time (sort_key (\<lambda>f. collate (lf_key f))
           (filter (\<lambda>f. lf_cloid f = Some (lr_cloid entry) \<or> lf_oid f \<in> set oids) (ls_fills s))))"

definition direction_of :: "int \<Rightarrow> position_direction" where
  "direction_of pos = (if pos > 0 then Long else Short)"

definition filled_quantity :: "live_fill list \<Rightarrow> int" where
  "filled_quantity fills = sum_list (map lf_quantity fills)"

definition owns_position :: "entry_plan \<Rightarrow> live_fill list \<Rightarrow> int \<Rightarrow> bool" where
  "owns_position plan fills pos =
     (let direction = direction_of pos; i = ep_input plan in
      length fills > 0 \<and> lf_start_position (hd fills) = 0 \<and> direction = sz_direction i
      \<and> list_all (\<lambda>f. lf_maker f \<and> lf_buy f = (direction = Long) \<and> show_int (lf_price f) = sz_entry_price i
           \<and> lf_time f \<ge> sz_decision_at i) fills
      \<and> filled_quantity fills \<le> ep_quantity plan \<and> \<bar>pos\<bar> \<le> filled_quantity fills)"

definition first_fill_input :: "guard_input \<Rightarrow> entry_plan \<Rightarrow> live_fill \<Rightarrow> int \<Rightarrow> protection_input" where
  "first_fill_input inp plan first pos = \<lparr>pi_scope = lr_scope (gi_entry inp), pi_position_id = sz_order_id (ep_input plan),
     pi_direction = direction_of pos, pi_first_fill_at = lf_time first, pi_first_fill_price = show_int (lf_price first),
     pi_quantity_btc = show_int \<bar>pos\<bar>, pi_atr14 = sz_atr14 (ep_input plan), pi_atr_captured_at = sz_atr_captured_at (ep_input plan),
     pi_decision_at = sz_decision_at (ep_input plan)\<rparr>"

definition stop_crossed :: "int \<Rightarrow> string \<Rightarrow> protection \<Rightarrow> bool" where
  "stop_crossed pos mark p = (if direction_of pos = Long then read_int mark \<le> read_int (pr_stop_price p)
     else read_int mark \<ge> read_int (pr_stop_price p))"

text \<open>The exit reads the clock once for each comparison.\<close>

definition mark_fresh :: "guard_input \<Rightarrow> time \<Rightarrow> time \<Rightarrow> bool" where
  "mark_fresh inp now after = (case (gi_mark_at inp, gi_mark_price inp) of
     (Some at, Some _) \<Rightarrow> at \<le> now \<and> after - at \<le> fr_mark_funding_ms (mf_freshness (gi_manifest inp)) | _ \<Rightarrow> False)"

definition market_reasons :: "guard_input \<Rightarrow> time \<Rightarrow> int \<Rightarrow> guard_state \<Rightarrow> guard_state" where
  "market_reasons inp now pos st =
     (let st = push_if (\<not> ls_history_complete (gs_snapshot st)) ''HISTORY_GAP'' st;
          st = push_if (gi_risk_blocked inp) ''RISK_BLOCKED'' st;
          st = push_if (case gs_protection st of Some p \<Rightarrow> now \<ge> pr_maximum_exit_at p | None \<Rightarrow> False) ''MAXIMUM_HOLDING_TIME'' st
      in if \<not> mark_fresh inp now now then push ''MARK_UNKNOWN'' st
         else push_if (case (gs_protection st, gi_mark_price inp) of (Some p, Some mark) \<Rightarrow> stop_crossed pos mark p | _ \<Rightarrow> False)
           ''STOP_TRIGGERED'' st)"

text \<open>The native stop of the position among the open orders.\<close>

definition native_stop :: "store_env \<Rightarrow> reservation list \<Rightarrow> reservation \<Rightarrow> ident \<Rightarrow> int \<Rightarrow> protection \<Rightarrow> live_snapshot \<Rightarrow> live_open_order option" where
  "native_stop e ops entry position pos p s =
     (let stops = filter (\<lambda>q. lr_kind q = Stop_Kind \<and> ah_scope (se_hash e) (lr_scope q) = ah_scope (se_hash e) (lr_scope entry)
            \<and> (case lc_intent (lr_request q) of Stop _ p' \<Rightarrow> pr_position_id p' = position | _ \<Rightarrow> False)) ops
      in find (\<lambda>o'. lo_cloid o' \<in> (\<lambda>q. Some (lr_cloid q)) ` set stops \<and> lo_reduce_only o' \<and> lo_position_stop o'
           \<and> lo_buy o' = (direction_of pos = Short)
           \<and> map_option show_int (lo_trigger_price o') = Some (pr_stop_price p) \<and> lo_quantity o' \<ge> \<bar>pos\<bar>) (ls_orders s))"

definition confirm_io :: "guard_input \<Rightarrow> ident \<Rightarrow> int \<Rightarrow> guard_state \<Rightarrow> (bool \<times> guard_state) live_io" where
  "confirm_io inp position pos st = (case gs_protection st of
     None \<Rightarrow> pure_io (Inr (False, st))
   | Some p \<Rightarrow>
       bind_io (ask lw_env) (\<lambda>e.
       bind_io operations_io (\<lambda>ops.
       case native_stop e ops (gi_entry inp) position pos p (gs_snapshot st) of
         Some o' \<Rightarrow> pure_io (Inr (True, st\<lparr>gs_native := lo_cloid o'\<rparr>))
       | None \<Rightarrow> pure_io (Inr (False, st)))))"

section \<open>Reconciliation\<close>

definition persist :: "ident \<Rightarrow> protection_state \<Rightarrow> guard_state \<Rightarrow> protection_record live_io" where
  "persist position state st =
     bind_io (external mo_clock) (\<lambda>now.
     bind_io (ask lw_env) (\<lambda>e.
     let r = \<lparr>lpr_position_id = position, lpr_observed_at = now, lpr_snapshot_id = ls_snapshot_id (gs_snapshot st), lpr_state = state,
              lpr_protection = gs_protection st, lpr_native_cloid = gs_native st, lpr_reasons = first_occurrences (gs_reasons st),
              lpr_urgent_close_requested = gs_urgent st\<rparr>
     in bind_io (append_io Protection_Event (''protection:'' @ sh_payload (se_hash e) (Protection_Payload r)) (Protection_Payload r)) (\<lambda>_.
        pure_io (Inr r))))"

definition gap_key :: "store_env \<Rightarrow> guard_state \<Rightarrow> string" where
  "gap_key e st = ''gap:protection:'' @ sh_payload (se_hash e) (Other_Payload (gap_json None (Some (gs_reasons st)) (ls_snapshot_id (gs_snapshot st))))"

definition take_snapshot_io :: "live_snapshot \<Rightarrow> time \<Rightarrow> bool live_io" where
  "take_snapshot_io s now =
     bind_io (ask lw_env) (\<lambda>e.
     bind_io (pure_io (requireLiveFreshSnapshot (live_hashes.truncate (se_hash e)) (se_identity e) s now)) (\<lambda>_.
     bind_io (save_io s) (\<lambda>_. pending_io)))"

text \<open>The anchor: the frozen first-fill protection, made once and stored before anything is sent.\<close>

definition anchor_io :: "guard_input \<Rightarrow> entry_plan \<Rightarrow> live_fill list \<Rightarrow> int \<Rightarrow> guard_state \<Rightarrow> guard_state live_io" where
  "anchor_io inp plan fills pos st =
     bind_io (ask lw_env) (\<lambda>e.
     if \<not> owns_position plan fills pos then pure_io (Inr (push ''POSITION_OR_FILL_ATTRIBUTION_UNKNOWN'' st))
     else case gs_protection st of
       None \<Rightarrow>
         bind_io (pure_io (with_error Live_Policy (initialJevProtection (ah_manifest (se_hash e)) (gi_manifest inp)
             (first_fill_input inp plan (hd fills) pos) (gi_metadata inp)))) (\<lambda>p.
         bind_io (persist (sz_order_id (ep_input plan)) Pending (st\<lparr>gs_protection := Some p\<rparr>)) (\<lambda>_.
         pure_io (Inr (st\<lparr>gs_protection := Some p\<rparr>))))
     | Some p \<Rightarrow>
         pure_io (Inr ((push_if (pr_direction p \<noteq> direction_of pos
             \<or> ah_scope (se_hash e) (pr_scope p) \<noteq> ah_scope (se_hash e) (lr_scope (gi_entry inp))) ''POSITION_REVERSED'' st)
           \<lparr>gs_protection := Some (p\<lparr>pr_quantity_btc := show_int \<bar>pos\<bar>\<rparr>)\<rparr>)))"

text \<open>After an acknowledged stop: a new snapshot must show it, for the same position.\<close>

definition unavailable :: "guard_state \<Rightarrow> (bool \<times> guard_state) live_io" where
  "unavailable st = pure_io (Inr (False, push ''STOP_CONFIRMATION_UNAVAILABLE'' st))"

definition confirm_refreshed :: "guard_input \<Rightarrow> ident \<Rightarrow> int \<Rightarrow> bool \<Rightarrow> guard_state \<Rightarrow> (bool \<times> guard_state) live_io" where
  "confirm_refreshed inp position pos pending st =
     (let s = gs_snapshot st; st = push_if pending ''FINANCIAL_RECONCILIATION_PENDING'' st in
      if ls_position s \<noteq> pos then unavailable st
      else confirm_io inp position pos (push_if (\<not> ls_history_complete s) ''HISTORY_GAP'' st))"

definition store_refreshed :: "guard_input \<Rightarrow> ident \<Rightarrow> int \<Rightarrow> guard_state \<Rightarrow> (bool \<times> guard_state) live_io" where
  "store_refreshed inp position pos st =
     bind_io (external mo_clock) (\<lambda>now.
     bind_io (try_io (take_snapshot_io (gs_snapshot st) now)) (\<lambda>taken.
     case taken of Inl _ \<Rightarrow> unavailable st | Inr pending \<Rightarrow> confirm_refreshed inp position pos pending st))"

definition refresh_io :: "guard_input \<Rightarrow> ident \<Rightarrow> int \<Rightarrow> guard_state \<Rightarrow> (bool \<times> guard_state) live_io" where
  "refresh_io inp position pos st =
     bind_io (try_io (collect_io (gi_history_from inp))) (\<lambda>fresh.
     case fresh of Inl _ \<Rightarrow> unavailable st | Inr s \<Rightarrow> store_refreshed inp position pos (st\<lparr>gs_snapshot := s\<rparr>))"

definition stop_command :: "store_env \<Rightarrow> guard_input \<Rightarrow> ident \<Rightarrow> int \<Rightarrow> guard_state \<Rightarrow> protection \<Rightarrow> live_command" where
  "stop_command e inp position pos st p = \<lparr>lc_version = live_command_version, lc_scope = lr_scope (gi_entry inp),
     lc_operation_id = ''stop:'' @ sh_pair (se_hash e) position (show_int \<bar>pos\<bar>), lc_metadata = gi_metadata inp,
     lc_metadata_at = gi_metadata_at inp, lc_intent = Stop (gs_snapshot st) p\<rparr>"

definition stop_io :: "guard_input \<Rightarrow> ident \<Rightarrow> int \<Rightarrow> bool \<Rightarrow> guard_state \<Rightarrow> (bool \<times> guard_state) live_io" where
  "stop_io inp position pos owned st =
     bind_io (if owned then confirm_io inp position pos st else pure_io (Inr (False, st))) (\<lambda>(confirmed, st).
     case gs_protection st of
       Some p \<Rightarrow>
         (if owned \<and> \<not> confirmed then
            bind_io (ask lw_env) (\<lambda>e.
            bind_io (protectOnce (stop_command e inp position pos st p) (gi_lease inp)) (\<lambda>receipt.
            if rc_state receipt \<in> {Acknowledged, Open} then refresh_io inp position pos st else pure_io (Inr (False, st))))
          else pure_io (Inr (confirmed, st)))
     | None \<Rightarrow> pure_io (Inr (confirmed, st)))"

text \<open>The urgent exit: cancel the entry and close at a limit ten percent through the mark, independently.\<close>

definition close_limit :: "guard_input \<Rightarrow> entry_plan \<Rightarrow> int \<Rightarrow> time \<Rightarrow> time \<Rightarrow> int option" where
  "close_limit inp plan pos now after =
     gridPrice (case gi_mark_price inp of
         Some mark \<Rightarrow> (if mark_fresh inp now after then (read_int mark * (if direction_of pos = Long then 9 else 11)) sdiv 10 else ep_worst_exit_price plan)
       | None \<Rightarrow> ep_worst_exit_price plan)
       1 (if direction_of pos = Long then Down else Up) (gi_metadata inp)"

definition close_cause :: "string list \<Rightarrow> string" where
  "close_cause reasons = take 160 (concat (case reasons of [] \<Rightarrow> [] | r # rs \<Rightarrow> r # map (\<lambda>x. '','' @ x) rs))"

definition urgent_exit_io :: "guard_input \<Rightarrow> entry_plan \<Rightarrow> int \<Rightarrow> guard_state \<Rightarrow> guard_state live_io" where
  "urgent_exit_io inp plan pos st =
     (let entry = gi_entry inp; s = gs_snapshot st in
      bind_io (ask lw_env) (\<lambda>e.
      bind_io (append_io Gap_Event (gap_key e st) (Other_Payload (gap_json (Some ''PROTECTION_UNCONFIRMED'') (Some (gs_reasons st)) (ls_snapshot_id s)))) (\<lambda>_.
      bind_io (try_io (protectOnce (cancel_command entry (''cancel:'' @ sh_text (se_hash e) (lr_operation_id entry)) (gi_metadata inp) (gi_metadata_at inp))
          (gi_lease inp))) (\<lambda>cancelled.
      let st = push_if (isl cancelled) ''ENTRY_CANCEL_PENDING'' st in
      bind_io (try_io
          (bind_io (external mo_clock) (\<lambda>now.
           bind_io (external mo_clock) (\<lambda>after.
           case close_limit inp plan pos now after of
             None \<Rightarrow> pure_io (Inl (LiveError ''CLOSE_PRICE''))
           | Some limit \<Rightarrow>
               bind_io (check_io (limit > 0) ''CLOSE_PRICE'') (\<lambda>_.
               executeResidual \<lparr>lc_version = live_command_version, lc_scope = lr_scope entry,
                   lc_operation_id = ''close:'' @ sh_pair (se_hash e) (lr_operation_id entry) (ls_snapshot_id s), lc_metadata = gi_metadata inp,
                   lc_metadata_at = gi_metadata_at inp, lc_intent = Close s (show_int limit) (close_cause (gs_reasons st))\<rparr> (gi_lease inp)))))) (\<lambda>closed.
      pure_io (Inr (case closed of
          Inl (LiveError code) \<Rightarrow> push code st | Inl _ \<Rightarrow> push ''URGENT_CLOSE_PENDING'' st | Inr _ \<Rightarrow> st)))))))"

definition guard_position :: "guard_input \<Rightarrow> entry_plan \<Rightarrow> time \<Rightarrow> guard_state \<Rightarrow> protection_record live_io" where
  "guard_position inp plan now st =
     (let s = gs_snapshot st; pos = ls_position s; position = sz_order_id (ep_input plan) in
      bind_io receipts_io (\<lambda>receipts.
      bind_io (ask lw_env) (\<lambda>e.
      let fills = entry_fills (se_collate e) (gi_entry inp) receipts s in
      bind_io (anchor_io inp plan fills pos st) (\<lambda>st.
      bind_io (stop_io inp position pos (owns_position plan fills pos) (market_reasons inp now pos st)) (\<lambda>(confirmed, st).
      let st = push_if (\<not> confirmed) ''PROTECTION_UNCONFIRMED'' st in
      if gs_reasons st \<noteq> [] then
        bind_io (urgent_exit_io inp plan pos (st\<lparr>gs_urgent := True\<rparr>)) (\<lambda>st. persist position Pending st)
      else persist position Confirmed st)))))"

text \<open>The last stored protection of the position; records without one are skipped.\<close>

definition previous_protection :: "store_env \<Rightarrow> live_journal \<Rightarrow> ident \<Rightarrow> protection option" where
  "previous_protection e j position =
     (let records = List.map_filter (\<lambda>v. case ev_payload v of
            Protection_Payload p \<Rightarrow> (if lpr_position_id p = position then lpr_protection p else None) | _ \<Rightarrow> None) (events_of e j Protection_Event)
      in if records = [] then None else Some (last records))"

definition reconcile :: "guard_input \<Rightarrow> protection_record live_io" where
  "reconcile inp =
     bind_io (ask lw_env) (\<lambda>e.
     let entry = gi_entry inp; h = se_hash e; s = gi_snapshot inp in
     bind_io (check_io (lr_kind entry = Entry_Kind \<and> lh_identity h (lr_identity entry) = identityHash e) ''PROTECTION_OWNER'') (\<lambda>_.
     case lc_intent (lr_request entry) of
       Entry plan _ _ _ \<Rightarrow>
         bind_io (check_io (ep_manifest_hash plan = ah_manifest h (gi_manifest inp)) ''PROTECTION_MANIFEST'') (\<lambda>_.
         let position = sz_order_id (ep_input plan) in
         bind_io (transaction_io (\<lambda>e m j. Inr (previous_protection e j position, j))) (\<lambda>previous.
         bind_io (external mo_clock) (\<lambda>now.
         let st = \<lparr>gs_snapshot = s, gs_protection = previous, gs_native = None, gs_reasons = [], gs_urgent = False\<rparr> in
         bind_io (try_io (take_snapshot_io s now)) (\<lambda>taken. case taken of
           Inl _ \<Rightarrow>
             (let st = (push ''RECONCILIATION_REQUIRED'' st)\<lparr>gs_urgent := True\<rparr> in
              bind_io (append_io Gap_Event (gap_key e st) (Other_Payload (gap_json (Some ''RECONCILIATION_REQUIRED'') None (ls_snapshot_id s)))) (\<lambda>_.
              persist position Pending st))
         | Inr pending \<Rightarrow>
             (let st = push_if pending ''FINANCIAL_RECONCILIATION_PENDING'' st in
              if ls_position s = 0 then
                (if ls_flat s \<and> ls_history_complete s \<and> gs_reasons st = [] then persist position Flat st
                 else persist position Pending (push ''CANCEL_OR_HISTORY_PENDING'' st))
              else guard_position inp plan now st)))))
     | _ \<Rightarrow> pure_io (Inl (LiveError ''PROTECTION_MANIFEST''))))"

section \<open>Restart\<close>

definition finished :: "live_receipt list \<Rightarrow> reservation \<Rightarrow> bool" where
  "finished receipts q = ((case last_of receipts (lr_operation_id q) of Some r \<Rightarrow> rc_state r | None \<Rightarrow> Uncertain)
     \<in> {Filled, Cancelled, Rejected, Triggered})"

fun recover_each :: "live_receipt list \<Rightarrow> reservation list \<Rightarrow> unit live_io" where
  "recover_each receipts [] = pure_io (Inr ())"
| "recover_each receipts (q # qs) =
     bind_io (if finished receipts q then pure_io (Inr ()) else bind_io (recover q) (\<lambda>_. pure_io (Inr ()))) (\<lambda>_. recover_each receipts qs)"

definition owned_source :: "reservation list \<Rightarrow> live_receipt list \<Rightarrow> string option \<Rightarrow> int \<Rightarrow> bool" where
  "owned_source requests receipts cloid oid = list_ex (\<lambda>q. Some (lr_cloid q) = cloid
     \<or> list_ex (\<lambda>r. rc_operation_id r = lr_operation_id q \<and> rc_oid r = Some oid) receipts) requests"

definition recover_account_body :: "time \<Rightarrow> (live_snapshot \<times> bool) live_io" where
  "recover_account_body start =
     bind_io operations_io (\<lambda>requests.
     bind_io receipts_io (\<lambda>receipts.
     bind_io (recover_each receipts requests) (\<lambda>_.
     bind_io (collect_io start) (\<lambda>s.
     bind_io (save_io s) (\<lambda>_.
     bind_io receipts_io (\<lambda>observed.
     let unknown = (list_ex (\<lambda>o'. \<not> owned_source requests observed (lo_cloid o') (lo_oid o')) (ls_orders s)
       \<or> list_ex (\<lambda>f. \<not> owned_source requests observed (lf_cloid f) (lf_oid f)) (ls_fills s)) in
     bind_io pending_io (\<lambda>stored_pending.
     let pending = (\<not> ls_history_complete s \<or> \<not> ls_consistent s \<or> unknown \<or> stored_pending) in
     bind_io (if pending then append_io Gap_Event (''gap:recovery:'' @ ls_snapshot_id s) (Other_Payload
           (gap_json (Some (if unknown then ''VENUE_OWNERSHIP_UNKNOWN'' else ''RECONCILIATION_REQUIRED'')) None (ls_snapshot_id s)))
         else pure_io (Inr ())) (\<lambda>_.
     pure_io (Inr (s, pending))))))))))"

definition recoverLiveAccount :: "time \<Rightarrow> (live_snapshot option \<times> bool) live_io" where
  "recoverLiveAccount start = catch_io
     (bind_io (recover_account_body start) (\<lambda>(s, pending). pure_io (Inr (Some s, pending))))
     (\<lambda>_. bind_io (external mo_clock) (\<lambda>now.
       bind_io (append_io Gap_Event (''gap:recovery:'' @ show_int now) (Other_Payload (reason_json ''RECONCILIATION_UNAVAILABLE''))) (\<lambda>_.
       pure_io (Inr (None, True)))))"

section \<open>Every method sends once\<close>

lemma follows_try: "follows R m \<Longrightarrow> follows R (try_io m)"
  by (simp add: follows_def try_io_def)

lemma quiet_save [quiet_io]: "follows quiet (save_io s)"
  unfolding save_io_def by (rule quiet_transaction) (auto dest: save_step)

lemma quiet_pending [quiet_io]: "follows quiet pending_io"
  unfolding pending_io_def by (rule quiet_transaction) simp

lemma quiet_collect [quiet_io]: "follows quiet (collect_io start)"
  unfolding collect_io_def by (intro quiet_effects.follows_rules quiet_io)

lemma quiet_confirm [quiet_io]: "follows quiet (confirm_io inp position pos st)"
  unfolding confirm_io_def by (intro quiet_effects.follows_rules quiet_io)

lemma quiet_persist [quiet_io]: "follows quiet (persist position state st)"
  unfolding persist_def Let_def by (intro quiet_effects.follows_rules quiet_io)

lemma quiet_take [quiet_io]: "follows quiet (take_snapshot_io s now)"
  unfolding take_snapshot_io_def by (intro quiet_effects.follows_rules quiet_io)

lemma quiet_try [quiet_io]: "follows quiet m \<Longrightarrow> follows quiet (try_io m)"
  by (rule follows_try)

lemma quiet_anchor [quiet_io]: "follows quiet (anchor_io inp plan fills pos st)"
  unfolding anchor_io_def by (intro quiet_effects.follows_rules quiet_io)

context effect_relation
begin

lemma follows_sum: "(\<And>x. follows R (f x)) \<Longrightarrow> (\<And>y. follows R (g y)) \<Longrightarrow> follows R (case s of Inl x \<Rightarrow> f x | Inr y \<Rightarrow> g y)"
  by (simp split: sum.splits)

end

lemma quiet_refresh [quiet_io]: "follows quiet (refresh_io inp position pos st)"
  unfolding refresh_io_def store_refreshed_def confirm_refreshed_def unavailable_def Let_def
  by (intro quiet_effects.follows_rules quiet_effects.follows_sum quiet_io)

context send_relation
begin

lemma follows_stop: "follows R (stop_io inp position pos owned st)"
  unfolding stop_io_def by (intro rules follows_protectOnce quiet_io [THEN follows_quiet])

lemma follows_urgent: "follows R (urgent_exit_io inp plan pos st)"
  unfolding urgent_exit_io_def Let_def
  by (intro rules follows_try follows_protectOnce follows_executeResidual quiet_io [THEN follows_quiet])

lemma follows_guard: "follows R (guard_position inp plan now st)"
  unfolding guard_position_def Let_def by (intro rules follows_stop follows_urgent quiet_io [THEN follows_quiet])

lemma follows_reconcile: "follows R (reconcile inp)"
proof (cases "lc_intent (lr_request (gi_entry inp))")
  case (Entry plan m s book)
  then show ?thesis
    unfolding reconcile_def Let_def
    by (simp only: live_intent.case) (intro rules follows_sum follows_guard quiet_io [THEN follows_quiet] quiet_io)
qed (auto simp: reconcile_def Let_def intro!: rules)

lemma follows_recover_each: "follows R (recover_each receipts qs)"
  by (induction qs) (auto intro!: rules follows_recover)

lemma follows_recoverLiveAccount: "follows R (recoverLiveAccount start)"
  unfolding recoverLiveAccount_def recover_account_body_def Let_def
  by (intro rules follows_recover_each quiet_io [THEN follows_quiet])

end

datatype supervised_call = Command live_call | Guard guard_input | Restart time

fun supervise :: "live_world \<Rightarrow> supervised_call \<Rightarrow> live_world" where
  "supervise w (Command c) = perform w c"
| "supervise w (Guard inp) = snd (reconcile inp w)"
| "supervise w (Restart start) = snd (recoverLiveAccount start w)"

context send_relation
begin

lemma follows_supervise: "R w (foldl supervise w cs)"
proof (induction cs arbitrary: w)
  case (Cons c cs)
  have "R w (supervise w c)"
    using follows_perform follows_reconcile follows_recoverLiveAccount by (cases c) (simp_all add: follows_def)
  then show ?case using R_trans [OF _ Cons.IH] by simp
qed (simp add: R_quiet)

end



section \<open>A confirmed protection\<close>

lemma bind_io_cases:
  assumes "bind_io m f w = (Inr x, w')"
  obtains a w1 where "m w = (Inr a, w1)" and "f a w1 = (Inr x, w')"
  using assms by (auto simp: bind_io_def split: prod.splits sum.splits)

lemma pure_io_Inr [simp]: "pure_io r w = (Inr x, w') \<longleftrightarrow> r = Inr x \<and> w' = w"
  by (auto simp: pure_io_def)

lemma try_io_Inr: "try_io m w = (Inr x, w') \<Longrightarrow> m w = (x, w')"
  by (auto simp: try_io_def)

lemma ask_Inr [simp]: "ask f w = (Inr x, w') \<longleftrightarrow> x = f w \<and> w' = w"
  by (auto simp: ask_def)

lemma persist_record:
  assumes "persist position state st w = (Inr r, w')"
  shows "lpr_state r = state \<and> lpr_position_id r = position \<and> lpr_protection r = gs_protection st \<and> lpr_native_cloid r = gs_native st
    \<and> lpr_reasons r = first_occurrences (gs_reasons st) \<and> lpr_urgent_close_requested r = gs_urgent st
    \<and> lpr_snapshot_id r = ls_snapshot_id (gs_snapshot st)"
  using assms unfolding persist_def Let_def
  by (elim bind_io_cases) auto

text \<open>A stop order of the position, as the source looks for it: reduce-only, on the other side, at the frozen stop
  price, for at least the whole position.\<close>

definition protects :: "protection \<Rightarrow> int \<Rightarrow> live_open_order \<Rightarrow> bool" where
  "protects p pos o' = (lo_reduce_only o' \<and> lo_position_stop o' \<and> lo_buy o' = (pos \<le> 0)
     \<and> map_option show_int (lo_trigger_price o') = Some (pr_stop_price p) \<and> \<bar>pos\<bar> \<le> lo_quantity o')"

text \<open>The order is one of this account's own: its client id is the one of a stop reserved in the journal for the entry's
  scope and position.\<close>

definition reserved_stop :: "store_env \<Rightarrow> live_journal \<Rightarrow> reservation \<Rightarrow> ident \<Rightarrow> live_open_order \<Rightarrow> bool" where
  "reserved_stop e j entry position o' = (\<exists>q s p. q \<in> set (operations e j) \<and> lr_kind q = Stop_Kind
     \<and> ah_scope (se_hash e) (lr_scope q) = ah_scope (se_hash e) (lr_scope entry) \<and> lc_intent (lr_request q) = Stop s p
     \<and> pr_position_id p = position \<and> lo_cloid o' = Some (lr_cloid q))"

definition protected_by :: "live_world \<Rightarrow> reservation \<Rightarrow> ident \<Rightarrow> int \<Rightarrow> guard_state \<Rightarrow> bool" where
  "protected_by w entry position pos st = (\<exists>p o'. gs_protection st = Some p \<and> o' \<in> set (ls_orders (gs_snapshot st)) \<and> lo_cloid o' = gs_native st
     \<and> reserved_stop (lw_env w) (lw_journal w) entry position o' \<and> protects p pos o' \<and> ls_position (gs_snapshot st) = pos)"

lemma operations_grow: "grows j j' \<Longrightarrow> set (operations e j) \<subseteq> set (operations e j')"
  by (auto simp: operations_def own_requests_def grows_def)

lemma reserved_stop_grows: "reserved_stop e j entry position o' \<Longrightarrow> grows j j' \<Longrightarrow> reserved_stop e j' entry position o'"
  using operations_grow unfolding reserved_stop_def by blast

lemma protected_by_later: "protected_by w entry position pos st \<Longrightarrow> later w w' \<Longrightarrow> protected_by w' entry position pos st"
  using reserved_stop_grows unfolding protected_by_def later_def by metis

lemma native_stop_Some:
  assumes "native_stop e (operations e j) entry position pos p s = Some o'"
  shows "o' \<in> set (ls_orders s) \<and> protects p pos o' \<and> reserved_stop e j entry position o'"
proof -
  let ?stops = "filter (\<lambda>q. lr_kind q = Stop_Kind \<and> ah_scope (se_hash e) (lr_scope q) = ah_scope (se_hash e) (lr_scope entry)
            \<and> (case lc_intent (lr_request q) of Stop _ p' \<Rightarrow> pr_position_id p' = position | _ \<Rightarrow> False)) (operations e j)"
  from assms have o': "o' \<in> set (ls_orders s)" "protects p pos o'" and "lo_cloid o' \<in> (\<lambda>q. Some (lr_cloid q)) ` set ?stops"
    unfolding native_stop_def Let_def find_Some_iff by (auto simp: protects_def direction_of_def split: if_splits)
  then obtain q where q: "q \<in> set ?stops" "lo_cloid o' = Some (lr_cloid q)" by blast
  then obtain s' p' where "lc_intent (lr_request q) = Stop s' p'" "pr_position_id p' = position" by (auto split: live_intent.splits)
  with q have "reserved_stop e j entry position o'" unfolding reserved_stop_def by auto
  with o' show ?thesis by blast
qed

text \<open>What happened between two worlds of one run.\<close>

definition during :: "live_world \<Rightarrow> live_world \<Rightarrow> (moment \<Rightarrow> bool) \<Rightarrow> bool" where
  "during w w' P = (\<exists>n. lw_tick w \<le> n \<and> n < lw_tick w' \<and> P (lw_moments w n))"

lemma during_mono: "during w1 w2 P \<Longrightarrow> later w w1 \<Longrightarrow> later w2 w' \<Longrightarrow> during w w' P"
  unfolding during_def later_def by (metis le_trans less_le_trans)

lemma external_during: "external f w = (Inr x, w') \<Longrightarrow> during w w' (\<lambda>m. x = f m)"
  by (auto simp: external_def during_def intro!: exI [of _ "lw_tick w"])

lemma follows_result: "follows R m \<Longrightarrow> m w = (r, w') \<Longrightarrow> R w w'"
  unfolding follows_def by (metis snd_conv)

lemma follows_later: "follows quiet m \<Longrightarrow> m w = (r, w') \<Longrightarrow> later w w'"
  by (drule (1) follows_result) (simp add: quiet_def)

lemma operations_io_Inr [simp]: "operations_io w = (Inr ops, w') \<longleftrightarrow> mo_database (lw_moments w (lw_tick w)) = Db_Answered
    \<and> ops = operations (lw_env w) (lw_journal w) \<and> w' = w\<lparr>lw_tick := Suc (lw_tick w)\<rparr>"
  by (auto simp: operations_io_def transaction_io_Inr)

lemma confirm_io_cases:
  assumes "confirm_io inp position pos st w = (Inr (b, st'), w')" and "ls_position (gs_snapshot st) = pos"
  shows "(b \<longrightarrow> protected_by w' (gi_entry inp) position pos st') \<and> gs_protection st' = gs_protection st \<and> gs_snapshot st' = gs_snapshot st
    \<and> gs_reasons st' = gs_reasons st \<and> gs_urgent st' = gs_urgent st"
proof (cases "gs_protection st")
  case None
  with assms show ?thesis by (simp add: confirm_io_def)
next
  case (Some p)
  let ?e = "lw_env w" and ?j = "lw_journal w"
  from assms(1) have
    "(case native_stop ?e (operations ?e ?j) (gi_entry inp) position pos p (gs_snapshot st) of
         Some o' \<Rightarrow> pure_io (Inr (True, st\<lparr>gs_native := lo_cloid o'\<rparr>))
       | None \<Rightarrow> pure_io (Inr (False, st))) (w\<lparr>lw_tick := Suc (lw_tick w)\<rparr>) = (Inr (b, st'), w')"
    unfolding confirm_io_def Some option.case by (elim bind_io_cases) simp
  then show ?thesis
    using native_stop_Some [of ?e ?j "gi_entry inp" position pos p "gs_snapshot st"] Some assms(2)
    by (auto simp: protected_by_def split: option.splits)
qed

lemma later_refl: "later w w"
  by (simp add: later_def)

lemma push_if_fields [simp]:
  "gs_snapshot (push_if b x st) = gs_snapshot st" "gs_protection (push_if b x st) = gs_protection st"
  "gs_urgent (push_if b x st) = gs_urgent st" "gs_native (push_if b x st) = gs_native st"
  "gs_reasons (push_if b x st) = [] \<longleftrightarrow> \<not> b \<and> gs_reasons st = []"
  "gs_snapshot (push x st) = gs_snapshot st" "gs_protection (push x st) = gs_protection st" "gs_reasons (push x st) \<noteq> []"
  by (auto simp: push_if_def push_def)

text \<open>From one state to a later one: nothing pushed is taken back, and if nothing was pushed a new snapshot has a
  complete history.\<close>

definition refreshed :: "live_world \<Rightarrow> guard_input \<Rightarrow> ident \<Rightarrow> int \<Rightarrow> guard_state \<Rightarrow> bool \<Rightarrow> guard_state \<Rightarrow> bool" where
  "refreshed w' inp position pos st b st' = ((b \<longrightarrow> protected_by w' (gi_entry inp) position pos st')
     \<and> gs_protection st' = gs_protection st \<and> gs_urgent st' = gs_urgent st
     \<and> (gs_reasons st' = [] \<longrightarrow> gs_reasons st = [] \<and> ls_history_complete (gs_snapshot st')))"

text \<open>The snapshot was read from the venue between the two worlds, or was fresh at a clock reading between them.\<close>

definition venue_shows :: "guard_input \<Rightarrow> live_world \<Rightarrow> live_world \<Rightarrow> live_snapshot \<Rightarrow> bool" where
  "venue_shows inp w w' s = during w w' (\<lambda>m. collectLiveSnapshot (live_hashes.truncate (se_hash (lw_env w))) (se_collate (lw_env w))
     (se_identity (lw_env w)) (gi_history_from inp) (mo_venue m) = Inr s)"

definition found_fresh :: "live_world \<Rightarrow> live_world \<Rightarrow> live_snapshot \<Rightarrow> bool" where
  "found_fresh w w' s = during w w' (\<lambda>m. requireLiveFreshSnapshot (live_hashes.truncate (se_hash (lw_env w))) (se_identity (lw_env w)) s (mo_clock m) = Inr ())"

lemma shown_mono:
  assumes "later w w1" and "later w2 w'"
  shows "venue_shows inp w1 w2 s \<Longrightarrow> venue_shows inp w w' s" and "found_fresh w1 w2 s \<Longrightarrow> found_fresh w w' s"
  using assms during_mono [OF _ assms] by (auto simp: venue_shows_def found_fresh_def later_def)

lemma unavailable_step: "unavailable st w = (Inr (b, st'), w') \<Longrightarrow> \<not> b \<and> gs_reasons st' \<noteq> [] \<and> gs_protection st' = gs_protection st \<and> gs_urgent st' = gs_urgent st"
  by (auto simp: unavailable_def push_def)

lemma confirm_refreshed_cases:
  assumes "confirm_refreshed inp position pos pending st w = (Inr (b, st'), w')"
  shows "refreshed w' inp position pos st b st' \<and> (b \<longrightarrow> gs_snapshot st' = gs_snapshot st)"
proof (cases "ls_position (gs_snapshot st) = pos")
  case True
  let ?st = "push_if (\<not> ls_history_complete (gs_snapshot st)) ''HISTORY_GAP'' (push_if pending ''FINANCIAL_RECONCILIATION_PENDING'' st)"
  have c: "confirm_io inp position pos ?st w = (Inr (b, st'), w')" using assms True by (simp add: confirm_refreshed_def Let_def)
  have pos: "ls_position (gs_snapshot ?st) = pos" using True by simp
  note d = confirm_io_cases [OF c pos]
  have "gs_reasons st' = [] \<longleftrightarrow> gs_reasons ?st = []" using d by simp
  then show ?thesis using d by (simp add: refreshed_def)
next
  case False
  with assms show ?thesis by (auto simp: confirm_refreshed_def refreshed_def Let_def dest!: unavailable_step)
qed

lemma take_snapshot_fresh:
  assumes "take_snapshot_io s now w = (Inr pending, w')"
  shows "requireLiveFreshSnapshot (live_hashes.truncate (se_hash (lw_env w))) (se_identity (lw_env w)) s now = Inr ()"
  using assms unfolding take_snapshot_io_def by (elim bind_io_cases) simp

lemma follows_confirm_refreshed: "follows quiet (confirm_refreshed inp position pos pending st)"
  unfolding confirm_refreshed_def unavailable_def Let_def by (intro quiet_effects.follows_rules quiet_io)

lemma follows_unavailable: "follows quiet (unavailable st)"
  unfolding unavailable_def by (intro quiet_io)

lemma store_refreshed_cases:
  assumes "store_refreshed inp position pos st w = (Inr (b, st'), w')"
  shows "refreshed w' inp position pos st b st' \<and> later w w' \<and> (b \<longrightarrow> gs_snapshot st' = gs_snapshot st \<and> found_fresh w w' (gs_snapshot st))"
proof -
  obtain now w0 taken w1 where now: "external mo_clock w = (Inr now, w0)" and taken: "take_snapshot_io (gs_snapshot st) now w0 = (taken, w1)"
    and k: "(case taken of Inl _ \<Rightarrow> unavailable st | Inr pending \<Rightarrow> confirm_refreshed inp position pos pending st) w1 = (Inr (b, st'), w')"
    using assms unfolding store_refreshed_def by (elim bind_io_cases) (erule that, erule try_io_Inr)
  have steps: "later w w0" "later w0 w1" "later w1 w'"
    using follows_later [OF quiet_external now] follows_later [OF quiet_take taken] k
      follows_later [OF follows_confirm_refreshed] follows_later [OF follows_unavailable]
    by (auto split: sum.splits)
  have fresh: "found_fresh w w' (gs_snapshot st)" if "taken = Inr pending" for pending
  proof -
    have "requireLiveFreshSnapshot (live_hashes.truncate (se_hash (lw_env w))) (se_identity (lw_env w)) (gs_snapshot st) now = Inr ()"
      using take_snapshot_fresh [OF taken [unfolded that]] steps(1) by (simp add: later_def)
    then have "during w w0 (\<lambda>m. requireLiveFreshSnapshot (live_hashes.truncate (se_hash (lw_env w))) (se_identity (lw_env w)) (gs_snapshot st) (mo_clock m) = Inr ())"
      using external_during [OF now] unfolding during_def by metis
    then have "found_fresh w w0 (gs_snapshot st)" unfolding found_fresh_def .
    then show ?thesis using shown_mono(2) [OF later_refl later_trans [OF steps(2,3)]] by blast
  qed
  show ?thesis
  proof (cases taken)
    case (Inl x)
    then have "\<not> b" "refreshed w' inp position pos st b st'" using k by (auto simp: refreshed_def dest!: unavailable_step)
    then show ?thesis using later_trans [OF steps(1) later_trans [OF steps(2,3)]] by blast
  next
    case (Inr pending)
    then have "confirm_refreshed inp position pos pending st w1 = (Inr (b, st'), w')" using k by simp
    from confirm_refreshed_cases [OF this] show ?thesis
      using fresh [OF Inr] later_trans [OF steps(1) later_trans [OF steps(2,3)]] by simp
  qed
qed

lemma collect_io_shows:
  assumes "collect_io (gi_history_from inp) w = (Inr s, w')"
  shows "venue_shows inp w w' s"
proof -
  from assms obtain v w1 where v: "external mo_venue w = (Inr v, w1)"
    and s: "collectLiveSnapshot (live_hashes.truncate (se_hash (lw_env w))) (se_collate (lw_env w)) (se_identity (lw_env w)) (gi_history_from inp) v = Inr s" "w' = w1"
    unfolding collect_io_def by (elim bind_io_cases) simp
  then show ?thesis using external_during [OF v] unfolding venue_shows_def during_def by metis
qed

lemma refresh_io_cases:
  assumes "refresh_io inp position pos st w = (Inr (b, st'), w')"
  shows "refreshed w' inp position pos st b st' \<and> (b \<longrightarrow> venue_shows inp w w' (gs_snapshot st') \<and> found_fresh w w' (gs_snapshot st'))"
proof -
  obtain fresh w1 where fresh: "collect_io (gi_history_from inp) w = (fresh, w1)"
    and k: "(case fresh of Inl _ \<Rightarrow> unavailable st | Inr s \<Rightarrow> store_refreshed inp position pos (st\<lparr>gs_snapshot := s\<rparr>)) w1 = (Inr (b, st'), w')"
    using assms unfolding refresh_io_def by (elim bind_io_cases) (drule try_io_Inr, erule that)
  note l = follows_later [OF quiet_collect fresh]
  show ?thesis
  proof (cases fresh)
    case (Inl x)
    then show ?thesis using k by (auto simp: refreshed_def dest!: unavailable_step)
  next
    case (Inr s)
    then have "store_refreshed inp position pos (st\<lparr>gs_snapshot := s\<rparr>) w1 = (Inr (b, st'), w')" using k by simp
    note d = store_refreshed_cases [OF this]
    have "refreshed w' inp position pos st b st'" using d by (simp add: refreshed_def)
    moreover have "venue_shows inp w w' s" using shown_mono(1) [OF later_refl _ collect_io_shows] d fresh Inr by blast
    moreover have "b \<longrightarrow> found_fresh w w' s" using shown_mono(2) [OF l later_refl] d by simp
    ultimately show ?thesis using d by auto
  qed
qed

text \<open>The snapshot a run ends with: the one it was given, or one it read itself and found fresh.\<close>

definition trusted :: "guard_input \<Rightarrow> live_world \<Rightarrow> live_world \<Rightarrow> live_snapshot \<Rightarrow> live_snapshot \<Rightarrow> bool" where
  "trusted inp w w' old s = (s = old \<or> venue_shows inp w w' s \<and> found_fresh w w' s)"

lemma stop_io_cases:
  assumes "stop_io inp position pos owned st w = (Inr (b, st'), w')" and "ls_position (gs_snapshot st) = pos"
  shows "(b \<longrightarrow> owned \<and> protected_by w' (gi_entry inp) position pos st' \<and> trusted inp w w' (gs_snapshot st) (gs_snapshot st'))
    \<and> gs_protection st' = gs_protection st \<and> gs_urgent st' = gs_urgent st
    \<and> (gs_reasons st' = [] \<longrightarrow> gs_reasons st = [] \<and> (ls_history_complete (gs_snapshot st') \<or> gs_snapshot st' = gs_snapshot st))"
proof -
  from assms(1) obtain c st1 w1 where c: "(if owned then confirm_io inp position pos st else pure_io (Inr (False, st))) w = (Inr (c, st1), w1)"
    and k: "(case gs_protection st1 of
       Some p \<Rightarrow>
         (if owned \<and> \<not> c then
            bind_io (ask lw_env) (\<lambda>e.
            bind_io (protectOnce (stop_command e inp position pos st1 p) (gi_lease inp)) (\<lambda>receipt.
            if rc_state receipt \<in> {Acknowledged, Open} then refresh_io inp position pos st1 else pure_io (Inr (False, st1))))
          else pure_io (Inr (c, st1)))
     | None \<Rightarrow> pure_io (Inr (c, st1))) w1 = (Inr (b, st'), w')"
    unfolding stop_io_def by (elim bind_io_cases) auto
  have st1: "(c \<longrightarrow> owned \<and> protected_by w1 (gi_entry inp) position pos st1) \<and> gs_protection st1 = gs_protection st \<and> gs_urgent st1 = gs_urgent st
      \<and> gs_snapshot st1 = gs_snapshot st \<and> gs_reasons st1 = gs_reasons st"
    using c confirm_io_cases [OF _ assms(2), of inp position w c st1 w1] by (auto split: if_splits)
  have l1: "later w w1" using c later_refl by (auto split: if_splits intro: follows_later [OF quiet_confirm])
  show ?thesis
  proof (cases "gs_protection st1 = None \<or> \<not> (owned \<and> \<not> c)")
    case True
    then have "b = c" "st' = st1" "w' = w1" using k by (auto split: option.splits)
    with st1 show ?thesis by (simp add: trusted_def)
  next
    case False
    then obtain p where p: "gs_protection st1 = Some p" "owned" "\<not> c" by auto
    then have k': "bind_io (ask lw_env) (\<lambda>e. bind_io (protectOnce (stop_command e inp position pos st1 p) (gi_lease inp)) (\<lambda>receipt.
            if rc_state receipt \<in> {Acknowledged, Open} then refresh_io inp position pos st1 else pure_io (Inr (False, st1)))) w1 = (Inr (b, st'), w')"
      using k by simp
    obtain receipt :: live_receipt and w2
      where r: "protectOnce (stop_command (lw_env w1) inp position pos st1 p) (gi_lease inp) w1 = (Inr receipt, w2)"
        and k2: "(if rc_state receipt \<in> {Acknowledged, Open} then refresh_io inp position pos st1 else pure_io (Inr (False, st1))) w2 = (Inr (b, st'), w')"
      using k' by (elim bind_io_cases) simp
    have "later w1 w2" by (rule follows_result [OF forward.follows_protectOnce r])
    then have l2: "later w w2" by (rule later_trans [OF l1])
    have "refreshed w' inp position pos st1 b st' \<and> (b \<longrightarrow> venue_shows inp w2 w' (gs_snapshot st') \<and> found_fresh w2 w' (gs_snapshot st')) \<or> \<not> b \<and> st' = st1"
      using refresh_io_cases k2 by (auto split: if_splits)
    then show ?thesis using st1 p(2) shown_mono [OF l2 later_refl] by (auto simp: refreshed_def trusted_def)
  qed
qed

text \<open>The frozen protection belongs to this position: its direction, its scope and its whole size.\<close>

definition fits_position :: "store_env \<Rightarrow> guard_input \<Rightarrow> int \<Rightarrow> protection \<Rightarrow> bool" where
  "fits_position e inp pos p = (pr_direction p = direction_of pos \<and> ah_scope (se_hash e) (pr_scope p) = ah_scope (se_hash e) (lr_scope (gi_entry inp))
     \<and> pr_quantity_btc p = show_int \<bar>pos\<bar>)"

lemma initial_fits:
  assumes "initialJevProtection hash m (first_fill_input inp plan fill pos) md = Inr p"
  shows "fits_position e inp pos p"
proof (rule initialJevProtection_cases [OF assms])
  let ?i = "first_fill_input inp plan fill pos"
  fix stop
  assume p: "p = \<lparr>pr_schema_version = ''btc.jev-protection.v1'', pr_manifest_hash = pr_manifest_hash p, pr_scope = pi_scope ?i,
             pr_position_id = pi_position_id ?i, pr_direction = pi_direction ?i, pr_first_fill_at = pi_first_fill_at ?i,
             pr_first_fill_price = pi_first_fill_price ?i, pr_entry_atr14 = pi_atr14 ?i,
             pr_stop_price = show_int stop, pr_quantity_btc = pi_quantity_btc ?i,
             pr_maximum_exit_at = pi_first_fill_at ?i + 21600000\<rparr>"
  have "pr_scope p = pi_scope ?i" "pr_direction p = pi_direction ?i" "pr_quantity_btc p = pi_quantity_btc ?i" by (subst p, simp)+
  then show ?thesis by (simp add: fits_position_def first_fill_input_def)
qed

lemma anchor_io_cases:
  assumes "anchor_io inp plan fills pos st w = (Inr st', w')"
  shows "gs_snapshot st' = gs_snapshot st \<and> gs_urgent st' = gs_urgent st
    \<and> (gs_reasons st' = [] \<longrightarrow> gs_reasons st = [] \<and> owns_position plan fills pos
         \<and> (\<exists>p. gs_protection st' = Some p \<and> fits_position (lw_env w) inp pos p))"
proof (cases "gs_protection st")
  case None
  show ?thesis
  proof (cases "owns_position plan fills pos")
    case False
    then show ?thesis using assms unfolding anchor_io_def by (elim bind_io_cases) (auto simp: push_def)
  next
    case True
    with None assms obtain p where "initialJevProtection (ah_manifest (se_hash (lw_env w))) (gi_manifest inp)
        (first_fill_input inp plan (hd fills) pos) (gi_metadata inp) = Inr p" "st' = st\<lparr>gs_protection := Some p\<rparr>"
      unfolding anchor_io_def by (elim bind_io_cases) (auto elim!: bind_io_cases)
    with True initial_fits show ?thesis by fastforce
  qed
next
  case (Some p)
  then show ?thesis using assms unfolding anchor_io_def
    by (elim bind_io_cases) (auto simp: fits_position_def push_def push_if_def split: if_splits)
qed

lemma market_reasons_clean:
  assumes "gs_reasons (market_reasons inp now pos st) = []"
  shows "gs_reasons st = []" and "ls_history_complete (gs_snapshot st)" and "\<not> gi_risk_blocked inp" and "mark_fresh inp now now"
    and "\<And>p. gs_protection st = Some p \<Longrightarrow> now < pr_maximum_exit_at p \<and> (\<exists>mark. gi_mark_price inp = Some mark \<and> \<not> stop_crossed pos mark p)"
  using assms by (auto simp: market_reasons_def Let_def mark_fresh_def split: if_splits option.splits)

lemma market_reasons_fields [simp]:
  "gs_snapshot (market_reasons inp now pos st) = gs_snapshot st" "gs_protection (market_reasons inp now pos st) = gs_protection st"
  "gs_urgent (market_reasons inp now pos st) = gs_urgent st"
  by (auto simp: market_reasons_def Let_def push_def)

text \<open>What a confirmed record says of a run from \<open>w\<close> to \<open>w'\<close>: of the position, of the stop, and of the market.\<close>

definition position_owned :: "guard_input \<Rightarrow> live_world \<Rightarrow> live_world \<Rightarrow> entry_plan \<Rightarrow> bool" where
  "position_owned inp w w' plan = (let pos = ls_position (gi_snapshot inp) in pos \<noteq> 0
     \<and> (\<exists>j. grows j (lw_journal w') \<and> owns_position plan (entry_fills (se_collate (lw_env w)) (gi_entry inp) (receipts_of (lw_env w) j) (gi_snapshot inp)) pos))"

definition stop_in_place :: "guard_input \<Rightarrow> live_world \<Rightarrow> live_world \<Rightarrow> protection_record \<Rightarrow> protection \<Rightarrow> bool" where
  "stop_in_place inp w w' r p = (let pos = ls_position (gi_snapshot inp) in
     \<exists>s o'. trusted inp w w' (gi_snapshot inp) s \<and> lpr_snapshot_id r = ls_snapshot_id s \<and> ls_position s = pos \<and> ls_history_complete s
       \<and> o' \<in> set (ls_orders s) \<and> lpr_native_cloid r = lo_cloid o'
       \<and> reserved_stop (lw_env w) (lw_journal w') (gi_entry inp) (lpr_position_id r) o' \<and> protects p pos o')"

definition market_safe :: "guard_input \<Rightarrow> time \<Rightarrow> protection \<Rightarrow> bool" where
  "market_safe inp now p = (\<not> gi_risk_blocked inp \<and> mark_fresh inp now now \<and> now < pr_maximum_exit_at p
     \<and> (\<exists>mark. gi_mark_price inp = Some mark \<and> \<not> stop_crossed (ls_position (gi_snapshot inp)) mark p))"

definition confirmed_safe :: "guard_input \<Rightarrow> live_world \<Rightarrow> live_world \<Rightarrow> protection_record \<Rightarrow> bool" where
  "confirmed_safe inp w w' r = (\<exists>plan md s book p.
     lc_intent (lr_request (gi_entry inp)) = Entry plan md s book \<and> lpr_position_id r = sz_order_id (ep_input plan)
     \<and> position_owned inp w w' plan \<and> lpr_protection r = Some p \<and> fits_position (lw_env w) inp (ls_position (gi_snapshot inp)) p
     \<and> stop_in_place inp w w' r p \<and> during w w' (\<lambda>m. market_safe inp (mo_clock m) p)
     \<and> lpr_reasons r = [] \<and> \<not> lpr_urgent_close_requested r)"

text \<open>The part of it that \<open>guard_position\<close> answers for, started with a clock reading \<open>now\<close>.\<close>

lemma receipts_io_Inr [simp]: "receipts_io w = (Inr rs, w') \<longleftrightarrow> mo_database (lw_moments w (lw_tick w)) = Db_Answered
    \<and> rs = receipts_of (lw_env w) (lw_journal w) \<and> w' = w\<lparr>lw_tick := Suc (lw_tick w)\<rparr>"
  by (auto simp: receipts_io_def transaction_io_Inr)

lemma trusted_mono: "trusted inp w1 w2 old s \<Longrightarrow> later w w1 \<Longrightarrow> later w2 w' \<Longrightarrow> trusted inp w w' old s"
  using shown_mono by (auto simp: trusted_def)

lemma guard_position_confirmed:
  assumes "guard_position inp plan now st w = (Inr r, w')" and "lpr_state r = Confirmed"
    and "gs_snapshot st = gi_snapshot inp" and "ls_position (gi_snapshot inp) \<noteq> 0" and "\<not> gs_urgent st"
  shows "\<exists>p. lpr_position_id r = sz_order_id (ep_input plan) \<and> position_owned inp w w' plan \<and> lpr_protection r = Some p
    \<and> fits_position (lw_env w) inp (ls_position (gi_snapshot inp)) p \<and> stop_in_place inp w w' r p \<and> market_safe inp now p
    \<and> lpr_reasons r = [] \<and> \<not> lpr_urgent_close_requested r"
proof -
  let ?pos = "ls_position (gi_snapshot inp)" and ?e = "lw_env w"
  let ?fills = "entry_fills (se_collate ?e) (gi_entry inp) (receipts_of ?e (lw_journal w)) (gi_snapshot inp)"
  let ?w1 = "w\<lparr>lw_tick := Suc (lw_tick w)\<rparr>"
  from assms(1) obtain st1 w2 b st2 w3 where
    anchor: "anchor_io inp plan ?fills ?pos st ?w1 = (Inr st1, w2)"
    and stop: "stop_io inp (sz_order_id (ep_input plan)) ?pos (owns_position plan ?fills ?pos) (market_reasons inp now ?pos st1) w2 = (Inr (b, st2), w3)"
    and fin: "(if gs_reasons (push_if (\<not> b) ''PROTECTION_UNCONFIRMED'' st2) \<noteq> [] then
        bind_io (urgent_exit_io inp plan ?pos ((push_if (\<not> b) ''PROTECTION_UNCONFIRMED'' st2)\<lparr>gs_urgent := True\<rparr>))
          (\<lambda>st. persist (sz_order_id (ep_input plan)) Pending st)
      else persist (sz_order_id (ep_input plan)) Confirmed (push_if (\<not> b) ''PROTECTION_UNCONFIRMED'' st2)) w3 = (Inr r, w')"
    unfolding guard_position_def Let_def assms(3) by (elim bind_io_cases) auto
  have clean: "b" "gs_reasons st2 = []" "persist (sz_order_id (ep_input plan)) Confirmed st2 w3 = (Inr r, w')"
    using fin assms(2) by (auto elim!: bind_io_cases simp: push_if_def split: if_splits dest: persist_record)
  have w1: "later w ?w1" by (simp add: later_def)
  have w2: "later ?w1 w2" using follows_later [OF quiet_anchor anchor] .
  have w3: "later w2 w3" by (rule follows_result [OF forward.follows_stop stop])
  have w': "later w3 w'" using follows_later [OF quiet_persist clean(3)] .
  have all: "later w w2" "later w w3" "later w w'" using later_trans w1 w2 w3 w' by blast+
  have env: "lw_env w3 = ?e" "grows (lw_journal w) (lw_journal w')" using all by (auto simp: later_def)
  note a = anchor_io_cases [OF anchor]
  have pos: "ls_position (gs_snapshot (market_reasons inp now ?pos st1)) = ?pos" using a assms(3) by simp
  note s = stop_io_cases [OF stop pos]
  have m0: "gs_reasons (market_reasons inp now ?pos st1) = []" using s clean(2) by blast
  note m = market_reasons_clean [OF m0]
  obtain p where p: "gs_protection st1 = Some p" "fits_position ?e inp ?pos p" "owns_position plan ?fills ?pos" using a m(1) by auto
  have "protected_by w3 (gi_entry inp) (sz_order_id (ep_input plan)) ?pos st2" using s clean(1) by blast
  then have "protected_by w' (gi_entry inp) (sz_order_id (ep_input plan)) ?pos st2" using protected_by_later w' by blast
  moreover have "lw_env w' = ?e" using all(3) by (simp add: later_def)
  moreover have "gs_protection st2 = Some p" using s p(1) by simp
  ultimately obtain o' where stop2: "o' \<in> set (ls_orders (gs_snapshot st2))" "lo_cloid o' = gs_native st2" "protects p ?pos o'"
    "reserved_stop ?e (lw_journal w') (gi_entry inp) (sz_order_id (ep_input plan)) o'" "ls_position (gs_snapshot st2) = ?pos"
    unfolding protected_by_def by auto
  note stored_as = persist_record [OF clean(3)]
  have "trusted inp w2 w3 (gi_snapshot inp) (gs_snapshot st2)" using s clean(1) a assms(3) by simp
  then have "trusted inp w w' (gi_snapshot inp) (gs_snapshot st2)" using trusted_mono all(1) w' by blast
  moreover have "ls_history_complete (gs_snapshot st2)" using s clean(2) m(2) by auto
  ultimately have "stop_in_place inp w w' r p" unfolding stop_in_place_def Let_def using stop2 stored_as
    by (intro exI [of _ "gs_snapshot st2"] exI [of _ o']) simp
  moreover have "position_owned inp w w' plan" unfolding position_owned_def Let_def using p(3) assms(4) env(2) by blast
  moreover have "market_safe inp now p" unfolding market_safe_def using m p(1) by blast
  moreover have "\<not> gs_urgent st2" using s a assms(5) by simp
  ultimately show ?thesis using stored_as p(2) \<open>gs_protection st2 = Some p\<close> clean(2) by (simp add: first_occurrences_def)
qed

text \<open>C4: Protection is never reported confirmed without a native stop. A confirmed record means that the position is not
  zero and owned: maker fills of this entry alone, as the journal's receipts and the snapshot show them, account for it;
  that the frozen protection has its direction, scope and size; that the given snapshot, or one this run read from the
  venue itself and found fresh, shows the same position with a complete history and, under the client id of a stop the
  journal reserved for this scope and position, a reduce-only position stop on the other side, at the frozen stop price,
  for at least the whole position; and that at a clock reading of this run the mark was fresh and short of the stop, the
  holding time was not over and risk was free. An account is reported flat only for a flat snapshot with a complete history.
  Either way the given snapshot was found fresh at a clock reading of this run.\<close>

theorem protection_confirmed:
  assumes "reconcile inp w = (Inr r, w')"
  shows "(lpr_state r = Confirmed \<longrightarrow> confirmed_safe inp w w' r)
    \<and> (lpr_state r = Flat \<longrightarrow> ls_flat (gi_snapshot inp) \<and> ls_position (gi_snapshot inp) = 0 \<and> ls_history_complete (gi_snapshot inp))
    \<and> (lpr_state r \<noteq> Pending \<longrightarrow> found_fresh w w' (gi_snapshot inp))"
proof (cases "lc_intent (lr_request (gi_entry inp))")
  case (Entry plan m s book)
  let ?st = "\<lambda>previous. \<lparr>gs_snapshot = gi_snapshot inp, gs_protection = previous, gs_native = None, gs_reasons = [], gs_urgent = False\<rparr>"
  let ?position = "sz_order_id (ep_input plan)"
  let ?tail = "\<lambda>e previous now taken. case taken of
        Inl _ \<Rightarrow> bind_io (append_io Gap_Event (gap_key e ((push ''RECONCILIATION_REQUIRED'' (?st previous))\<lparr>gs_urgent := True\<rparr>))
              (Other_Payload (gap_json (Some ''RECONCILIATION_REQUIRED'') None (ls_snapshot_id (gi_snapshot inp))))) (\<lambda>_.
            persist ?position Pending ((push ''RECONCILIATION_REQUIRED'' (?st previous))\<lparr>gs_urgent := True\<rparr>))
      | Inr pending \<Rightarrow>
          (if ls_position (gi_snapshot inp) = 0 then
             (if ls_flat (gi_snapshot inp) \<and> ls_history_complete (gi_snapshot inp)
                \<and> gs_reasons (push_if pending ''FINANCIAL_RECONCILIATION_PENDING'' (?st previous)) = []
              then persist ?position Flat (push_if pending ''FINANCIAL_RECONCILIATION_PENDING'' (?st previous))
              else persist ?position Pending (push ''CANCEL_OR_HISTORY_PENDING'' (push_if pending ''FINANCIAL_RECONCILIATION_PENDING'' (?st previous))))
           else guard_position inp plan now (push_if pending ''FINANCIAL_RECONCILIATION_PENDING'' (?st previous)))"
  from assms obtain previous taken now w0 w1 w2 where
    first: "transaction_io (\<lambda>e m j. Inr (previous_protection e j ?position, j)) w = (Inr previous, w0)"
    and now: "external mo_clock w0 = (Inr now, w1)" and taken: "take_snapshot_io (gi_snapshot inp) now w1 = (taken, w2)"
    and k: "?tail (lw_env w) previous now taken w2 = (Inr r, w')"
    unfolding reconcile_def Let_def Entry live_intent.case check_io_def
    by (elim bind_io_cases) (drule try_io_Inr, auto)
  have w0: "w0 = w\<lparr>lw_tick := Suc (lw_tick w)\<rparr>" using first by (simp add: transaction_io_Inr)
  have l1: "later w w1" using w0 now by (auto simp: external_def later_def)
  have l2: "later w1 w2" using follows_later [OF quiet_take taken] .
  have "follows later (?tail e previous now taken)" for e previous now taken
    by (intro forward.rules forward.follows_sum forward.follows_guard quiet_io [THEN forward.follows_quiet] quiet_io)
  then have "later w2 (snd (?tail (lw_env w) previous now taken w2))" unfolding follows_def by blast
  then have l3: "later w2 w'" unfolding k by simp
  show ?thesis
  proof (cases taken)
    case (Inl x)
    then have "lpr_state r = Pending" using k by (auto elim!: bind_io_cases dest: persist_record)
    then show ?thesis by simp
  next
    case (Inr pending)
    let ?st1 = "push_if pending ''FINANCIAL_RECONCILIATION_PENDING'' (?st previous)"
    have clock: "during w w1 (\<lambda>m. now = mo_clock m)" using during_mono [OF external_during [OF now]] w0 later_refl by (simp add: later_def)
    have "requireLiveFreshSnapshot (live_hashes.truncate (se_hash (lw_env w))) (se_identity (lw_env w)) (gi_snapshot inp) now = Inr ()"
      using take_snapshot_fresh [OF taken [unfolded Inr]] l1 by (simp add: later_def)
    then have "found_fresh w w1 (gi_snapshot inp)" using clock unfolding found_fresh_def during_def by metis
    then have fresh: "found_fresh w w' (gi_snapshot inp)" using shown_mono(2) [OF later_refl later_trans [OF l2 l3]] by blast
    show ?thesis
    proof (cases "ls_position (gi_snapshot inp) = 0")
      case True
      then show ?thesis using k Inr fresh by (auto split: if_splits dest!: persist_record)
    next
      case False
      then have g: "guard_position inp plan now ?st1 w2 = (Inr r, w')" using k Inr by simp
      have "lpr_state r \<noteq> Flat"
        using g unfolding guard_position_def Let_def by (auto elim!: bind_io_cases split: if_splits dest!: persist_record)
      moreover have "confirmed_safe inp w w' r" if c: "lpr_state r = Confirmed"
      proof -
        obtain p where p: "lpr_position_id r = ?position" "position_owned inp w2 w' plan" "lpr_protection r = Some p"
          "fits_position (lw_env w2) inp (ls_position (gi_snapshot inp)) p" "stop_in_place inp w2 w' r p" "market_safe inp now p"
          "lpr_reasons r = []" "\<not> lpr_urgent_close_requested r"
          using guard_position_confirmed [OF g c _ False] by auto
        have "lw_env w2 = lw_env w" using l1 l2 by (simp add: later_def)
        with p(2,4) have q: "position_owned inp w w' plan" "fits_position (lw_env w) inp (ls_position (gi_snapshot inp)) p"
          by (simp_all add: position_owned_def)
        have t: "trusted inp w w' (gi_snapshot inp) s" if "trusted inp w2 w' (gi_snapshot inp) s" for s
          using trusted_mono [OF that later_trans [OF l1 l2] later_refl] .
        have q3: "stop_in_place inp w w' r p" using p(5) t unfolding stop_in_place_def Let_def \<open>lw_env w2 = lw_env w\<close> by blast
        have "during w w1 (\<lambda>m. market_safe inp (mo_clock m) p)" using clock p(6) unfolding during_def by metis
        then have "during w w' (\<lambda>m. market_safe inp (mo_clock m) p)" using during_mono later_refl later_trans [OF l2 l3] by blast
        then show ?thesis unfolding confirmed_safe_def using p(1,3,7,8) q q3 Entry by blast
      qed
      ultimately show ?thesis using fresh by simp
    qed
  qed
qed (use assms in \<open>auto simp: reconcile_def Let_def elim!: bind_io_cases\<close>)

section \<open>A flat account\<close>

definition main_env :: store_env where
  "main_env = sample_env\<lparr>se_identity := sample_live_identity\<lparr>li_environment := ''mainnet''\<rparr>\<rparr>"

definition flat_opening :: pilot_opening where
  "flat_opening = \<lparr>og_observed_at = 60, og_source = ''hyperliquid:mainnet:reconciliation'', og_reconciled = True, og_flat = True,
     og_trading_balance = 250000000, og_open_pnl = 0, og_evidence_id = ''s'', og_original = sample_snapshot 0\<rparr>"

definition flat_plan :: entry_plan where
  "flat_plan = \<lparr>ep_version = ''v'', ep_policy_version = ''v'', ep_manifest_hash = ''h'', ep_input = sized_input sample_live_scope,
     ep_equity = ''0'', ep_quantity = 2000000, ep_entry_notional = 18000000, ep_stop_price = 880000000,
     ep_worst_exit_price = 792000000, ep_planned_loss = 0, ep_planned_entry_fee = 0, ep_planned_exit_fee = 0,
     ep_planned_funding = 0, ep_total_risk = 0\<rparr>"

definition flat_entry :: reservation where
  "flat_entry = stored\<lparr>lr_kind := Entry_Kind, lr_request := sample_command (Entry flat_plan sample_manifest (sample_snapshot 0)
     \<lparr>bk_bid = ''1'', bk_ask = ''2'', bk_received_at = 95\<rparr>)\<rparr>"

definition flat_world :: live_world where
  "flat_world = sample_world\<lparr>lw_env := main_env, lw_moments := (\<lambda>_. sample_moment\<lparr>mo_opening := Some flat_opening\<rparr>)\<rparr>"

definition flat_input :: guard_input where
  "flat_input = \<lparr>gi_entry = flat_entry, gi_snapshot = sample_snapshot 0, gi_manifest = sample_manifest, gi_metadata = live_md,
     gi_metadata_at = 90, gi_lease = sample_lease, gi_mark_price = None, gi_mark_at = None, gi_risk_blocked = False, gi_history_from = 0\<rparr>"

lemma main_env_parts: "identityHash main_env = ''h''" "se_hash main_env = sample_store_hashes"
  "li_environment (se_identity main_env) = ''mainnet''" "se_collate main_env = id"
  by (simp_all add: identityHash_def main_env_def sample_hash_parts) (simp add: sample_env_def)

lemma flat_snapshot: "ls_identity_hash (sample_snapshot p) = ''h''" "ls_snapshot_id (sample_snapshot p) = ''s''" "ls_fills (sample_snapshot p) = []"
  "ls_funding (sample_snapshot p) = []" "ls_version (sample_snapshot p) = live_version" "ls_consistent (sample_snapshot p)"
  "ls_history_complete (sample_snapshot p)" "ls_flat (sample_snapshot p) = (p = 0)" "ls_trading_balance (sample_snapshot p) = 250000000"
  "ls_open_pnl (sample_snapshot p) = 0" "ls_venue_at (sample_snapshot p) = 60"
  by (simp_all add: sample_snapshot_def)

definition flat_events :: "event_row list" where
  "flat_events = [\<lparr>ev_identity_hash = ''h'', ev_key = ''snapshot:s'', ev_kind = Snapshot_Event, ev_hash = ''e'',
       ev_payload = Snapshot_Payload (sample_snapshot 0), ev_recorded_at = 100\<rparr>,
     \<lparr>ev_identity_hash = ''h'', ev_key = ''balance:e'', ev_kind = Balance_Event, ev_hash = ''e'',
       ev_payload = Balance_Payload \<lparr>bp_identity_hash = ''h'', bp_snapshot_id = ''s'', bp_opening_evidence_id = Some ''s'',
         bp_expected = Some 250000000, bp_observed = 250000000, bp_reconciled = True, bp_reason = RECONCILED\<rparr>, ev_recorded_at = 100\<rparr>]"

lemma flat_save: "save main_env sample_other 100 (Some flat_opening) (sample_snapshot 0) (lw_journal flat_world)
    = Inr ((lw_journal flat_world)\<lparr>jn_events := flat_events\<rparr>)"
proof -
  have e: "jn_events (lw_journal flat_world) = []" by (simp add: flat_world_def sample_world_def empty_journal_def)
  have anchor: "anchored main_env (Some flat_opening) (sample_snapshot 0)"
    by (simp add: anchored_def flat_opening_def main_env_parts flat_snapshot sample_position Let_def)
  have o': "og_trading_balance flat_opening = 250000000" "og_evidence_id flat_opening = ''s''" by (simp_all add: flat_opening_def)
  show ?thesis
    using e
    by (simp add: save_def store_lock_def sample_other_def main_env_parts flat_snapshot latest_of_def events_of_def own_events_def snapshot_of_def
        eventTx_def event_at_def proveBalanceTx_def balance_proof_of_def anchor o' money_change_def sample_hash_parts flat_events_def Let_def)
qed

lemma flat_latest: "snd (latest main_env ((lw_journal flat_world)\<lparr>jn_events := flat_events\<rparr>)) = False"
  by (simp add: latest_def latest_of_def events_of_def own_events_def flat_events_def main_env_parts snapshot_of_def balanceTx_def
      List.map_filter_def flat_snapshot gap_after_def Let_def)

text \<open>A held position: its entry filled, its stop reserved, open at the venue and anchored.\<close>

definition held_fill :: live_fill where
  "held_fill = \<lparr>lf_key = ''fill'', lf_time = 40, lf_oid = 7, lf_cloid = Some ''0xc'', lf_buy = True, lf_quantity = 2000000,
     lf_price = 900000000, lf_start_position = 0, lf_fee = 0, lf_realized_pnl = 0, lf_maker = True, lf_original = []\<rparr>"

definition held_order :: live_open_order where
  "held_order = \<lparr>lo_oid = 8, lo_cloid = Some ''0xd'', lo_buy = False, lo_quantity = 2000000, lo_limit_price = 792000000,
     lo_reduce_only = True, lo_position_stop = True, lo_trigger_price = Some 880000000, lo_original = []\<rparr>"

definition held_snapshot :: live_snapshot where
  "held_snapshot = (sample_snapshot 2000000)\<lparr>ls_orders := [held_order], ls_fills := [held_fill]\<rparr>"

definition held_protection :: protection where
  "held_protection = \<lparr>pr_schema_version = ''btc.jev-protection.v1'', pr_manifest_hash = ''h'', pr_scope = sample_live_scope,
     pr_position_id = ''p'', pr_direction = Long, pr_first_fill_at = 40, pr_first_fill_price = show_int 900000000,
     pr_entry_atr14 = show_int 10000000, pr_stop_price = show_int 880000000, pr_quantity_btc = show_int 2000000, pr_maximum_exit_at = 21600040\<rparr>"

definition held_stop :: reservation where
  "held_stop = stored\<lparr>lr_operation_id := ''t'', lr_kind := Stop_Kind, lr_cloid := ''0xd'',
     lr_request := sample_command (Stop (sample_snapshot 2000000) held_protection)\<rparr>"

definition held_anchor :: event_row where
  "held_anchor = \<lparr>ev_identity_hash = ''h'', ev_key = ''protection:a'', ev_kind = Protection_Event, ev_hash = ''e'',
     ev_payload = Protection_Payload \<lparr>lpr_position_id = ''p'', lpr_observed_at = 50, lpr_snapshot_id = ''a'', lpr_state = Pending,
       lpr_protection = Some held_protection, lpr_native_cloid = None, lpr_reasons = [], lpr_urgent_close_requested = False\<rparr>, ev_recorded_at = 50\<rparr>"

definition held_journal :: live_journal where
  "held_journal = (insert_request main_env held_stop empty_journal)\<lparr>jn_events := [held_anchor]\<rparr>"

definition held_world :: live_world where
  "held_world = flat_world\<lparr>lw_journal := held_journal\<rparr>"

definition held_input :: guard_input where
  "held_input = flat_input\<lparr>gi_snapshot := held_snapshot, gi_mark_price := Some (show_int 900000000), gi_mark_at := Some 95\<rparr>"

definition held_events :: "event_row list" where
  "held_events = [held_anchor,
     \<lparr>ev_identity_hash = ''h'', ev_key = ''fill'', ev_kind = Fill_Event, ev_hash = ''e'', ev_payload = Fill_Payload held_fill, ev_recorded_at = 100\<rparr>,
     \<lparr>ev_identity_hash = ''h'', ev_key = ''snapshot:s'', ev_kind = Snapshot_Event, ev_hash = ''e'', ev_payload = Snapshot_Payload held_snapshot,
       ev_recorded_at = 100\<rparr>,
     \<lparr>ev_identity_hash = ''h'', ev_key = ''balance:e'', ev_kind = Balance_Event, ev_hash = ''e'',
       ev_payload = Balance_Payload \<lparr>bp_identity_hash = ''h'', bp_snapshot_id = ''s'', bp_opening_evidence_id = Some ''s'',
         bp_expected = Some 250000000, bp_observed = 250000000, bp_reconciled = True, bp_reason = RECONCILED\<rparr>, ev_recorded_at = 100\<rparr>]"

lemma held_snapshot_parts: "ls_identity_hash held_snapshot = ''h''" "ls_snapshot_id held_snapshot = ''s''" "ls_fills held_snapshot = [held_fill]"
  "ls_funding held_snapshot = []" "ls_consistent held_snapshot" "ls_history_complete held_snapshot" "ls_trading_balance held_snapshot = 250000000"
  "ls_venue_at held_snapshot = 60" "ls_position held_snapshot = 2000000" "ls_orders held_snapshot = [held_order]"
  by (simp_all add: held_snapshot_def sample_snapshot_def)

lemma held_save: "save main_env sample_other 100 (Some flat_opening) held_snapshot held_journal = Inr (held_journal\<lparr>jn_events := held_events\<rparr>)"
proof -
  have e: "jn_events held_journal = [held_anchor]" by (simp add: held_journal_def)
  have anchor: "anchored main_env (Some flat_opening) held_snapshot"
    by (simp add: anchored_def flat_opening_def main_env_parts flat_snapshot held_snapshot_parts sample_position Let_def)
  have o': "og_trading_balance flat_opening = 250000000" "og_evidence_id flat_opening = ''s''" by (simp_all add: flat_opening_def)
  have f: "lf_key held_fill = ''fill''" "lf_realized_pnl held_fill = 0" "lf_fee held_fill = 0" by (simp_all add: held_fill_def)
  show ?thesis
    using e
    by (simp add: save_def store_lock_def sample_other_def main_env_parts held_snapshot_parts latest_of_def events_of_def own_events_def snapshot_of_def
        eventTx_def event_at_def proveBalanceTx_def balance_proof_of_def anchor o' f money_change_def sample_hash_parts held_events_def
        held_anchor_def Let_def)
qed

abbreviation held_saved :: live_journal where
  "held_saved \<equiv> held_journal\<lparr>jn_events := held_events\<rparr>"

lemma held_latest: "snd (latest main_env held_saved) = False"
  by (simp add: latest_def latest_of_def events_of_def own_events_def held_events_def held_anchor_def main_env_parts snapshot_of_def balanceTx_def
      List.map_filter_def held_snapshot_parts gap_after_def Let_def)

lemma held_reads: "operations main_env held_saved = [held_stop]" "receipts_of main_env held_saved = []"
  "previous_protection main_env held_journal ''p'' = Some held_protection" "event_at main_env held_saved ''protection:e'' = None"
  by (simp_all add: operations_def own_requests_def receipts_of_def previous_protection_def events_of_def own_events_def event_at_def held_journal_def
      insert_request_def empty_journal_def main_env_parts held_events_def held_anchor_def List.map_filter_def)

lemma held_owned: "owns_position flat_plan (entry_fills id flat_entry [] held_snapshot) 2000000"
  by (simp add: owns_position_def entry_fills_def held_snapshot_parts held_fill_def flat_entry_def stored_def flat_plan_def sized_input_fields
      direction_of_def filled_quantity_def List.map_filter_def Let_def)

lemma held_native: "native_stop main_env [held_stop] flat_entry ''p'' 2000000 (held_protection\<lparr>pr_quantity_btc := q\<rparr>) held_snapshot = Some held_order"
  by (simp add: native_stop_def held_snapshot_parts held_order_def held_stop_def held_protection_def main_env_parts sample_hash_parts
      direction_of_def Let_def)

lemma held_confirms: "\<exists>r w. reconcile held_input held_world = (Inr r, w) \<and> lpr_state r = Confirmed"
proof -
  have entry: "lc_intent (lr_request flat_entry) = Entry flat_plan sample_manifest (sample_snapshot 0) \<lparr>bk_bid = ''1'', bk_ask = ''2'', bk_received_at = 95\<rparr>"
    "lr_kind flat_entry = Entry_Kind" by (simp_all add: flat_entry_def)
  have plan: "ep_manifest_hash flat_plan = ''h''" "sz_order_id (ep_input flat_plan) = ''p''" by (simp_all add: flat_plan_def sized_input_fields)
  have hash: "ah_manifest sample_store_hashes = sample_hash_fun" "live_hashes.truncate sample_store_hashes = sample_hashes"
    by (simp_all add: sample_store_hashes_def sample_action_hashes_def sample_hashes_def action_hashes.defs live_hashes.defs)
  have fresh: "requireLiveFreshSnapshot sample_hashes i held_snapshot 100 = Inr ()" for i
    by (simp add: requireLiveFreshSnapshot_def held_snapshot_def sample_snapshot_def sample_hashes_def)
  define m where "m = sample_moment\<lparr>mo_opening := Some flat_opening\<rparr>"
  have m: "mo_clock m = 100" "mo_db m = 100" "mo_database m = Db_Answered" "mo_reads m = sample_other" "mo_opening m = Some flat_opening"
    by (simp_all add: m_def sample_moment_def)
  have w: "lw_env held_world = main_env" "lw_moments held_world = (\<lambda>_. m)" "lw_journal held_world = held_journal"
    by (simp_all add: held_world_def flat_world_def m_def)
  have i: "gi_entry held_input = flat_entry" "gi_snapshot held_input = held_snapshot" "gi_manifest held_input = sample_manifest"
    "gi_mark_price held_input = Some (show_int 900000000)" "gi_mark_at held_input = Some 95" "\<not> gi_risk_blocked held_input"
    by (simp_all add: held_input_def flat_input_def)
  let ?w1 = "held_world\<lparr>lw_tick := lw_tick held_world + 4, lw_journal := held_saved\<rparr>"
  let ?st = "\<lparr>gs_snapshot = held_snapshot, gs_protection = Some held_protection, gs_native = None, gs_reasons = [], gs_urgent = False\<rparr>"
  let ?p = "held_protection\<lparr>pr_quantity_btc := show_int 2000000\<rparr>"
  have "reconcile held_input held_world = guard_position held_input flat_plan 100 ?st ?w1"
    using entry plan hash fresh held_save held_latest held_reads(3)
    by (simp add: reconcile_def bind_io_def ask_def check_io_def pure_io_def i main_env_parts sample_hash_parts sample_hash_fun_def w m
        transaction_io_def external_def try_io_def take_snapshot_io_def save_io_def pending_io_def held_snapshot_parts push_if_def numeral_eq_Suc Let_def)
  moreover have "anchor_io held_input flat_plan (entry_fills id flat_entry [] held_snapshot) 2000000 ?st w = (Inr (?st\<lparr>gs_protection := Some ?p\<rparr>), w)"
    if "lw_env w = main_env" for w
    using that held_owned
    by (simp add: anchor_io_def bind_io_def ask_def pure_io_def push_if_def i main_env_parts sample_hash_parts direction_of_def held_protection_def)
  moreover have "market_reasons held_input 100 2000000 (?st\<lparr>gs_protection := Some ?p\<rparr>) = ?st\<lparr>gs_protection := Some ?p\<rparr>"
    by (simp add: market_reasons_def push_if_def held_snapshot_parts i mark_fresh_def sample_freshness initial_freshness_def stop_crossed_def
        direction_of_def held_protection_def Let_def)
  moreover have "stop_io held_input ''p'' 2000000 True (?st\<lparr>gs_protection := Some ?p\<rparr>) w
      = (Inr (True, ?st\<lparr>gs_protection := Some ?p, gs_native := Some ''0xd''\<rparr>), w\<lparr>lw_tick := Suc (lw_tick w)\<rparr>)"
    if "lw_env w = main_env" "lw_journal w = held_saved" "lw_moments w = (\<lambda>_. m)" for w
    using that held_native held_reads(1) m(3)
    by (simp add: stop_io_def confirm_io_def bind_io_def ask_def pure_io_def operations_io_def transaction_io_def i held_order_def)
  ultimately have "reconcile held_input held_world
      = persist ''p'' Confirmed (?st\<lparr>gs_protection := Some ?p, gs_native := Some ''0xd''\<rparr>) (?w1\<lparr>lw_tick := lw_tick held_world + 6\<rparr>)"
    using held_owned held_reads(2) m(3)
    by (simp add: guard_position_def bind_io_def ask_def receipts_io_def transaction_io_def w main_env_parts held_snapshot_parts i plan push_if_def
        numeral_eq_Suc Let_def)
  then show ?thesis
    using held_reads(4) w m
    by (simp add: persist_def bind_io_def external_def ask_def append_io_def transaction_io_def append_event_def eventTx_def store_lock_def
        sample_other_def main_env_parts sample_hash_parts pure_io_def Let_def)
qed

lemma flat_reports: "\<exists>r w. reconcile flat_input flat_world = (Inr r, w) \<and> lpr_state r = Flat \<and> ls_position (gi_snapshot flat_input) = 0"
proof -
  have entry: "lc_intent (lr_request flat_entry) = Entry flat_plan sample_manifest (sample_snapshot 0) \<lparr>bk_bid = ''1'', bk_ask = ''2'', bk_received_at = 95\<rparr>"
    "lr_kind flat_entry = Entry_Kind" by (simp_all add: flat_entry_def)
  have plan: "ep_manifest_hash flat_plan = ''h''" by (simp add: flat_plan_def)
  have hash: "ah_manifest sample_store_hashes = sample_hash_fun" "live_hashes.truncate sample_store_hashes = sample_hashes"
    by (simp_all add: sample_store_hashes_def sample_action_hashes_def sample_hashes_def action_hashes.defs live_hashes.defs)
  have fresh: "requireLiveFreshSnapshot sample_hashes i (sample_snapshot 0) 100 = Inr ()" for i
    by (simp add: requireLiveFreshSnapshot_def sample_snapshot_def sample_hashes_def)
  define m where "m = sample_moment\<lparr>mo_opening := Some flat_opening\<rparr>"
  have m: "mo_clock m = 100" "mo_db m = 100" "mo_database m = Db_Answered" "mo_reads m = sample_other" "mo_opening m = Some flat_opening"
    by (simp_all add: m_def sample_moment_def)
  define j where "j = (lw_journal flat_world)\<lparr>jn_events := flat_events\<rparr>"
  have w: "lw_env flat_world = main_env" "lw_moments flat_world = (\<lambda>_. m)"
    by (simp_all add: flat_world_def m_def)
  have saved: "save main_env sample_other 100 (Some flat_opening) (sample_snapshot 0) (lw_journal flat_world) = Inr j"
    using flat_save by (simp add: j_def)
  have free: "event_at main_env j ''protection:e'' = None" by (simp add: event_at_def own_events_def j_def flat_events_def)
  have i: "gi_entry flat_input = flat_entry" "gi_snapshot flat_input = sample_snapshot 0" "gi_manifest flat_input = sample_manifest"
    by (simp_all add: flat_input_def)
  have none: "previous_protection main_env (lw_journal flat_world) position = None" for position
    by (simp add: previous_protection_def events_of_def own_events_def flat_world_def sample_world_def empty_journal_def List.map_filter_def)
  obtain r w where r: "reconcile flat_input flat_world = (Inr r, w)"
    using entry plan hash fresh saved flat_latest [folded j_def] free
    by (simp add: reconcile_def bind_io_def ask_def check_io_def pure_io_def i main_env_parts sample_hash_parts sample_hash_fun_def w m
        transaction_io_def external_def try_io_def take_snapshot_io_def save_io_def pending_io_def sample_position flat_snapshot
        push_if_def persist_def append_io_def append_event_def eventTx_def store_lock_def sample_other_def none Let_def)
  have "lpr_state r = Flat"
    using r entry plan hash fresh saved flat_latest [folded j_def]
    by (auto simp: reconcile_def bind_io_def ask_def check_io_def pure_io_def i main_env_parts sample_hash_parts sample_hash_fun_def w m
        transaction_io_def external_def try_io_def take_snapshot_io_def save_io_def pending_io_def sample_position flat_snapshot
        push_if_def Let_def dest!: persist_record)
  with r show ?thesis by (simp add: i sample_position)
qed


theorem protection_confirmed_witness:
  "(\<exists>r w. reconcile held_input held_world = (Inr r, w) \<and> lpr_state r = Confirmed \<and> confirmed_safe held_input held_world w r)
   \<and> (\<exists>r w. reconcile flat_input flat_world = (Inr r, w) \<and> lpr_state r = Flat \<and> ls_position (gi_snapshot flat_input) = 0)"
proof (rule conjI)
  from held_confirms obtain r w where h: "reconcile held_input held_world = (Inr r, w)" "lpr_state r = Confirmed" by blast
  from protection_confirmed [OF h(1)] h show "\<exists>r w. reconcile held_input held_world = (Inr r, w) \<and> lpr_state r = Confirmed \<and> confirmed_safe held_input held_world w r"
    by blast
next
  show "\<exists>r w. reconcile flat_input flat_world = (Inr r, w) \<and> lpr_state r = Flat \<and> ls_position (gi_snapshot flat_input) = 0"
    by (rule flat_reports)
qed

end
