(* ===== verification/Commands.thy ===== *)
theory Commands
  imports Reservations Contracts
begin

text \<open>
  The checks of desk commands before any state is read: \<open>apps/api/src/storage/reservation-contract.ts\<close> and
  \<open>broker-contract.ts\<close>. The exact key sets are the datatypes, and \<open>assertEvidenceJson\<close> accepts every value of them.
  Raw amounts are the integers of their strings.
\<close>

datatype reservation_command =
    Reserve_Command (rm_operation_id: ident) reservation_order
  | Consume_Command (rm_operation_id: ident) ident int int int
  | Release_Command (rm_operation_id: ident) ident reservation_status

datatype command_error = Reservation_Command | Reservation_Order | Reservation_Plan | Reservation_Time | Ioc_Command | Ioc_Intent

text \<open>\<open>/^[A-Za-z0-9][A-Za-z0-9._:/-]{0,n}$/\<close>\<close>

definition command_id :: "nat \<Rightarrow> string \<Rightarrow> bool" where
  "command_id n s = (case s of [] \<Rightarrow> False
     | c # cs \<Rightarrow> is_alnum c \<and> length cs \<le> n \<and> list_all id_char cs)"

definition command_raw :: "int \<Rightarrow> bool" where
  "command_raw n = (1 \<le> n \<and> n < 10 ^ 38)"

definition command_time :: "time \<Rightarrow> bool" where
  "command_time n = (0 \<le> n \<and> n \<le> 8640000000000000)"

definition order_fields :: "reservation_order \<Rightarrow> bool" where
  "order_fields r = (command_id 159 (ro_order_id r) \<and> command_id 159 (ro_position_id r) \<and> command_raw (ro_quantity_btc r)
     \<and> command_raw (ro_price_cap_usd r) \<and> 0 \<le> ro_fee_bps r \<and> ro_fee_bps r \<le> 10000)"

definition plan_fields :: "risk_plan option \<Rightarrow> bool" where
  "plan_fields p = (case p of None \<Rightarrow> True | Some plan \<Rightarrow> command_raw (stop_price_usd plan) \<and> command_raw (entry_floor_usd plan))"

definition validateReservationCommand :: "reservation_command \<Rightarrow> command_error + unit" where
  "validateReservationCommand c =
     require (command_id 159 (rm_operation_id c)) Reservation_Command
     (case c of
        Reserve_Command _ r \<Rightarrow>
          require (order_fields r) Reservation_Order
          (require (plan_fields (ro_risk_plan r)) Reservation_Plan
          (require (command_time (ro_valid_until r)) Reservation_Time (Inr ())))
      | Consume_Command _ order_id quantity price fee \<Rightarrow>
          require (command_id 159 order_id \<and> command_raw quantity \<and> command_raw price \<and> 0 \<le> fee \<and> fee < 10 ^ 38)
            Reservation_Command (Inr ())
      | Release_Command _ order_id reason \<Rightarrow>
          require (command_id 159 order_id \<and> reason \<in> {Cancelled, Expired}) Reservation_Command (Inr ()))"

record ioc_terms =
  io_decision_at :: time
  io_latency_ms :: int
  io_limit_price :: int
  io_fee_metadata_id :: ident

datatype ioc_command =
    Ioc_Submit (ic_operation_id: ident) reservation_order ioc_terms
  | Ioc_Execute (ic_operation_id: ident) ident
  | Ioc_Cancel (ic_operation_id: ident) ident

definition terms_fields :: "ioc_terms \<Rightarrow> bool" where
  "terms_fields i = (command_time (io_decision_at i) \<and> 0 \<le> io_latency_ms i \<and> io_latency_ms i \<le> 60000
     \<and> command_raw (io_limit_price i) \<and> io_fee_metadata_id i \<noteq> [] \<and> length (io_fee_metadata_id i) \<le> 512)"

definition validateIocCommand :: "ioc_command \<Rightarrow> command_error + unit" where
  "validateIocCommand c =
     require (command_id 79 (ic_operation_id c)) Ioc_Command
     (case c of
        Ioc_Submit operation r i \<Rightarrow>
          bind_res (validateReservationCommand (Reserve_Command operation r)) (\<lambda>_.
          require (terms_fields i) Ioc_Intent (Inr ()))
      | Ioc_Execute _ order_id \<Rightarrow> require (command_id 159 order_id) Ioc_Command (Inr ())
      | Ioc_Cancel _ order_id \<Rightarrow> require (command_id 159 order_id) Ioc_Command (Inr ()))"

end
