(* ===== verification/BaselineInputs.thy ===== *)
theory BaselineInputs
  imports Commands Bars Funding Baseline JevSizing
begin

text \<open>
  What the baseline strategy may know at an instant, \<open>apps/api/src/storage/baseline-inputs.ts\<close>, and the check of a
  further period, \<open>validateBaselinePeriod\<close> of \<open>baseline-periods.ts\<close>. Retained objects carry the hash of their payload;
  the hash functions are parameters. Instants are integers, ordered as their ISO strings, and an instant is accepted
  when JavaScript can print it and it is not before 1970. Raw market amounts are canonical integers.
\<close>

record baseline_ref =
  br_object_id :: ident
  br_payload_hash :: string
  br_recorded_at :: time

record 'a baseline_record = baseline_ref +
  br_payload :: 'a

record baseline_registration =
  bg_schema_version :: "string option"
  bg_scope :: ledger_scope
  bg_policy_version :: string
  bg_manifest_fingerprint :: string
  bg_code_sha :: string
  bg_metadata_hash :: string
  bg_registered_at :: time
  bg_start_at :: time

record baseline_account =
  ba_projection :: financial_projection
  ba_risk :: risk_checkpoint
  ba_reservations :: "Reservations.reservation list"
  ba_funding_usable :: bool
  ba_recovery_ready :: bool
  ba_accounting_consistent :: bool
  ba_entries_paused :: bool
  ba_hold :: bool
  ba_exit_pending :: bool
  ba_last_closed_bar :: "time option"

record baseline_period =
  bq_version :: string
  bq_operation_id :: string
  bq_registration_hash :: string
  bq_code_sha :: string
  bq_previous_evidence_id :: string
  bq_registered_by :: string
  bq_reason :: string
  bq_registered_at :: time
  bq_start_at :: time
  bq_end_at :: time
  bq_purpose :: string

text \<open>The envelope fields of a retained bar that \<open>closed_bar\<close> leaves to its type.\<close>

record retained_bar = closed_bar +
  rb_schema_version :: string
  rb_instrument_id :: ident
  rb_source_id :: string
  rb_continuity :: string
  rb_price_unit :: "string \<times> int"
  rb_volume_unit :: "string \<times> int"

record baseline_metadata = venue_metadata +
  bm_schema_version :: string
  bm_fee_basis :: string
  bm_account_effective :: "trading_amount option"
  bm_reference_version :: string

record baseline_environment =
  be_period :: "baseline_period baseline_record option"
  be_enabled :: bool
  be_registration :: baseline_registration
  be_metadata :: "baseline_metadata baseline_record option"
  be_account :: "baseline_account baseline_record"
  be_book :: "market_data baseline_record option"
  be_context :: "market_data baseline_record option"
  be_capture :: "valuation_capture baseline_record option"
  be_funding :: "funding_receipt baseline_record list"

record dependency = baseline_ref +
  dp_received_at :: time

record baseline_bars_input =
  bi_records :: "retained_bar baseline_record list"
  bi_first_complete_start :: "time option"
  bi_dependencies :: "dependency list"

text \<open>\<open>baselineHash\<close> at every type it is used at.\<close>

record baseline_hashes =
  bh_registration :: "baseline_registration \<Rightarrow> string"
  bh_account :: "baseline_account \<Rightarrow> string"
  bh_metadata :: "baseline_metadata \<Rightarrow> string"
  bh_market :: "market_data \<Rightarrow> string"
  bh_capture :: "valuation_capture \<Rightarrow> string"
  bh_funding :: "funding_receipt \<Rightarrow> string"
  bh_bar :: "retained_bar \<Rightarrow> string"
  bh_period :: "baseline_period \<Rightarrow> string"
  bh_period_record :: "baseline_period baseline_record option \<Rightarrow> string"
  bh_order :: "reservation_order \<Rightarrow> string"
  bh_key :: "string list \<Rightarrow> time \<Rightarrow> string"
  bh_book :: "ident \<Rightarrow> time \<Rightarrow> market_payload \<Rightarrow> string"

datatype strategy_error = BASELINE_TIME | REGISTRATION | INPUT_COLLISION | ACCOUNT_EVIDENCE | BASELINE_SCOPE | PERIOD_INVALID
  | PERIOD_EVIDENCE | BAR_BOUNDARY | REPLAY_SCOPE | CHALLENGER_SOURCE_MISMATCH | NOT_CANDIDATE | REGISTRATION_CHANGED
  | ENTRY_FILLS | POSITION_CHANGED | EXIT_MEMORY | EXIT_POSITION_DIRECTION | EXIT_PROPOSAL | MISSING_INPUT | DATE_RANGE
  | From_Command command_error | From_Reservation reservation_error | From_Amount amount_error | From_Valuation valuation_error | From_Bars bar_error | From_Indicator baseline_error
  | From_Risk risk_error | From_Contract contract_error

section \<open>Guards\<close>

definition time_ok :: "time \<Rightarrow> bool" where
  "time_ok n = (0 \<le> n \<and> n \<le> 8640000000000000)"

definition baselineTime :: "time \<Rightarrow> strategy_error + time" where
  "baselineTime n = require (time_ok n) BASELINE_TIME (Inr n)"

definition baselineIso :: "time \<Rightarrow> strategy_error + time" where
  "baselineIso n = require (\<bar>n\<bar> \<le> 8640000000000000) DATE_RANGE (Inr n)"

definition lower_hex_of :: "nat \<Rightarrow> string \<Rightarrow> bool" where
  "lower_hex_of n s = (length s = n \<and> list_all (\<lambda>c. c \<in> set ''0123456789abcdef'') s)"

text \<open>The characters \<open>trim\<close> removes.\<close>

definition js_space :: "char \<Rightarrow> bool" where
  "js_space c = (of_char c \<in> set [9, 10, 11, 12, 13, 32, 160 :: nat])"

definition baseline_policy :: string where
  "baseline_policy = ''btc.baseline.trend.v1''"

definition baseline_fingerprint :: string where
  "baseline_fingerprint = ''sha256:1d9ebd2cd94246077f3a0f5eca826f028adc08896668ea364812aaeecb0b1b81''"

definition validateBaselineRegistration :: "baseline_registration \<Rightarrow> strategy_error + unit" where
  "validateBaselineRegistration r =
     bind_res (baselineTime (bg_registered_at r)) (\<lambda>registered.
     bind_res (baselineTime (bg_start_at r)) (\<lambda>start.
     require (instrument_id (bg_scope r) = ''hyperliquid:mainnet:BTC'' \<and> account_id (bg_scope r) \<noteq> [] \<and> experiment_id (bg_scope r) \<noteq> []
         \<and> instrument_version (bg_scope r) \<noteq> [] \<and> bg_policy_version r = baseline_policy
         \<and> bg_manifest_fingerprint r = baseline_fingerprint \<and> lower_hex_of 40 (bg_code_sha r) \<and> lower_hex_of 64 (bg_metadata_hash r)
         \<and> (case bg_schema_version r of
              None \<Rightarrow> start = (registered div 900000 + 1) * 900000
            | Some v \<Rightarrow> v = ''btc.baseline-registration.v2'' \<and> account_id (bg_scope r) = ''challenger'' \<and> start > registered
                \<and> start mod 900000 = 0)) REGISTRATION (Inr ())))"

definition knownRecord :: "('a \<Rightarrow> string) \<Rightarrow> 'a baseline_record option \<Rightarrow> time \<Rightarrow> bool" where
  "knownRecord hash r at = (case r of
     None \<Rightarrow> False
   | Some r \<Rightarrow> br_object_id r \<noteq> [] \<and> length (br_object_id r) \<le> 512 \<and> lower_hex_of 64 (br_payload_hash r)
       \<and> time_ok (br_recorded_at r) \<and> br_recorded_at r \<le> at \<and> hash (br_payload r) = br_payload_hash r)"

definition known :: "('a \<Rightarrow> string) \<Rightarrow> 'a baseline_record option \<Rightarrow> time \<Rightarrow> 'a baseline_record option" where
  "known hash r at = (if knownRecord hash r at then r else None)"

definition ref_of :: "'a baseline_ref_scheme \<Rightarrow> baseline_ref" where
  "ref_of r = \<lparr>br_object_id = br_object_id r, br_payload_hash = br_payload_hash r, br_recorded_at = br_recorded_at r\<rparr>"

text \<open>One reference per object; two different ones collide.\<close>

definition add_ref :: "(ident \<times> baseline_ref) list \<Rightarrow> baseline_ref \<Rightarrow> strategy_error + (ident \<times> baseline_ref) list" where
  "add_ref seen ref = (case map_of seen (br_object_id ref) of
     Some previous \<Rightarrow> require (previous = ref) INPUT_COLLISION (Inr (AList.update (br_object_id ref) ref seen))
   | None \<Rightarrow> Inr (AList.update (br_object_id ref) ref seen))"

definition baselineRefs :: "baseline_ref list \<Rightarrow> strategy_error + baseline_ref list" where
  "baselineRefs refs = bind_res (fold_res add_ref [] refs) (\<lambda>seen. Inr (sort_key br_object_id (map snd seen)))"

definition validateBaselinePeriod :: "baseline_hashes \<Rightarrow> baseline_period \<Rightarrow> baseline_registration \<Rightarrow> strategy_error + unit" where
  "validateBaselinePeriod h p r =
     require (bq_version p = ''btc.baseline-period.v1'' \<and> bq_registration_hash p = bh_registration h r
         \<and> 1 \<le> length (bq_operation_id p) \<and> length (bq_operation_id p) \<le> 120
         \<and> list_all (\<lambda>c. is_alnum c \<or> c \<in> set '':._-'') (bq_operation_id p)
         \<and> lower_hex_of 40 (bq_code_sha p) \<and> bq_previous_evidence_id p \<noteq> [] \<and> bq_registered_by p \<noteq> []
         \<and> list_ex (\<lambda>c. \<not> js_space c) (bq_reason p)
         \<and> bq_purpose p \<in> set [''operational_pilot'', ''economic_evaluation'']) PERIOD_INVALID
     (bind_res (baselineTime (bq_start_at p)) (\<lambda>start.
      require (start mod 900000 = 0) PERIOD_INVALID
      (bind_res (baselineTime (bq_registered_at p)) (\<lambda>registered.
       require (registered < start) PERIOD_INVALID
       (bind_res (baselineTime (bg_start_at r)) (\<lambda>first.
        require (start \<ge> first + 30 * 86400000) PERIOD_INVALID
        (bind_res (baselineTime (bq_end_at p)) (\<lambda>stop.
         require (stop = start + 30 * 86400000) PERIOD_INVALID (Inr ())))))))))"

section \<open>Closed bars\<close>

text \<open>The retained dependencies of one bar, in the order of its input ids; an instant that is not one stops the bar.\<close>

fun pin_inputs :: "dependency list \<Rightarrow> time \<Rightarrow> ident list \<Rightarrow> bool \<times> baseline_ref list \<Rightarrow> bool \<times> baseline_ref list" where
  "pin_inputs deps closed [] st = st"
| "pin_inputs deps closed (k # ks) (invalid, refs) = (case filter (\<lambda>d. br_object_id d = k) deps of
     [] \<Rightarrow> pin_inputs deps closed ks (True, refs)
   | d # others \<Rightarrow>
       (let bad = (others \<noteq> [] \<or> \<not> lower_hex_of 64 (br_payload_hash d)) in
        if \<not> bad \<and> \<not> time_ok (dp_received_at d) then (True, refs)
        else if \<not> bad \<and> dp_received_at d \<le> closed \<and> \<not> time_ok (br_recorded_at d) then (True, refs)
        else pin_inputs deps closed ks
          (invalid \<or> bad \<or> dp_received_at d > closed \<or> br_recorded_at d > closed, refs @ [ref_of d])))"

definition raw38 :: "int \<Rightarrow> bool" where
  "raw38 n = (1 \<le> n \<and> n < 10 ^ 38)"

definition prices_ok :: "ohlc \<Rightarrow> bool" where
  "prices_ok o' = (raw38 (oh_open o') \<and> raw38 (oh_high o') \<and> raw38 (oh_low o') \<and> raw38 (oh_close o')
     \<and> oh_low o' \<le> oh_high o' \<and> oh_low o' \<le> oh_open o' \<and> oh_open o' \<le> oh_high o'
     \<and> oh_low o' \<le> oh_close o' \<and> oh_close o' \<le> oh_high o')"

text \<open>The conditions on a bar whose instants are instants.\<close>

definition bar_ok :: "baseline_hashes \<Rightarrow> int \<Rightarrow> time \<Rightarrow> string \<Rightarrow> retained_bar baseline_record \<Rightarrow> bool" where
  "bar_ok h interval at version r = (let b = br_payload r; start = cb_start_at b; stop = cb_end_at b; closed = cb_closed_at b in
     knownRecord (bh_bar h) (Some r) at \<and> rb_schema_version b = ''trading.closed-bar.v1'' \<and> cb_build_version b = bar_build_version
     \<and> rb_instrument_id b = ''hyperliquid:mainnet:BTC'' \<and> cb_instrument_version b = version \<and> rb_source_id b = ''hyperliquid:mainnet:ws''
     \<and> cb_interval_ms b = interval \<and> start mod interval = 0 \<and> stop = start + interval \<and> closed \<ge> stop + 10000 \<and> closed \<le> at
     \<and> br_recorded_at r \<ge> closed \<and> cb_complete b \<and> cb_reasons b = [] \<and> rb_continuity b = ''unproven''
     \<and> (case cb_ohlc b of None \<Rightarrow> False | Some o' \<Rightarrow> rb_price_unit b = (''USD_PER_BTC'', 6) \<and> prices_ok o')
     \<and> cb_trade_count b > 0 \<and> int (cb_trade_count b) \<le> 9007199254740991 \<and> rb_volume_unit b = (''BTC'', 8) \<and> raw38 (cb_volume b)
     \<and> cb_input_ids b \<noteq> [] \<and> distinct (cb_input_ids b))"

definition check_bar ::
  "baseline_hashes \<Rightarrow> dependency list \<Rightarrow> int \<Rightarrow> time \<Rightarrow> string \<Rightarrow> bool \<times> baseline_ref list \<Rightarrow> retained_bar baseline_record \<Rightarrow> bool \<times> baseline_ref list" where
  "check_bar h deps interval at version st r = (let b = br_payload r in
     if \<not> (time_ok (cb_start_at b) \<and> time_ok (cb_end_at b) \<and> time_ok (cb_closed_at b)) then (True, snd st)
     else pin_inputs deps (cb_closed_at b) (cb_input_ids b) (fst st \<or> \<not> bar_ok h interval at version r, snd st))"

fun first_by :: "('a \<Rightarrow> 'k) \<Rightarrow> 'a list \<Rightarrow> 'a list" where
  "first_by key [] = []"
| "first_by key (x # xs) = x # filter (\<lambda>y. key y \<noteq> key x) (first_by key xs)"

text \<open>Newest first, and of the revisions of one bar the first recorded.\<close>

definition chosen_bars :: "retained_bar baseline_record list \<Rightarrow> nat \<Rightarrow> time \<Rightarrow> time \<Rightarrow> retained_bar baseline_record list" where
  "chosen_bars records required stop at =
     take required (first_by (\<lambda>r. cb_end_at (br_payload r))
       (sort_key (\<lambda>r. (- cb_end_at (br_payload r), br_recorded_at r, br_object_id r))
         (filter (\<lambda>r. time_ok (br_recorded_at r) \<and> br_recorded_at r \<le> at \<and> time_ok (cb_end_at (br_payload r)) \<and> cb_end_at (br_payload r) \<le> stop) records)))"

datatype bars_state = Bars_Ready | Bars_Warmup | Bars_Unavailable

record baseline_bars_view =
  bw_state :: bars_state
  bw_bars :: "retained_bar list"
  bw_refs :: "baseline_ref list"

definition baselineBars ::
  "baseline_hashes \<Rightarrow> baseline_bars_input \<Rightarrow> int \<Rightarrow> nat \<Rightarrow> time \<Rightarrow> time \<Rightarrow> string \<Rightarrow> strategy_error + baseline_bars_view" where
  "baselineBars h inp interval required stop at version =
     (let chosen = chosen_bars (bi_records inp) required stop at; bars = map br_payload chosen;
          (invalid, refs) = foldl (check_bar h (bi_dependencies inp) interval at version) (False, map ref_of chosen) chosen
      in bind_res (with_error From_Bars (barWarmup (map closed_bar.truncate bars) (Integral (int required)) (stop + 10000) interval)) (\<lambda>(ready, reason).
         bind_res (baselineRefs refs) (\<lambda>refs.
         Inr \<lparr>bw_state = (if chosen = [] \<or> invalid \<or> reason = Incomplete_Or_Discontinuous then Bars_Unavailable
                 else if \<not> ready then (if bi_first_complete_start inp = Some (cb_start_at (last bars)) then Bars_Warmup else Bars_Unavailable)
                 else Bars_Ready),
              bw_bars = bars, bw_refs = refs\<rparr>)))"

section \<open>The environment\<close>

record strategy_env =
  sv_causes :: "string list"
  sv_refs :: "baseline_ref list"
  sv_metadata :: "baseline_metadata option"
  sv_finance :: valuation
  sv_rate :: "int option"
  sv_book :: "market_data baseline_record option"
  sv_account :: baseline_account

definition evidence_of :: "market_data baseline_record option \<Rightarrow> market_evidence option" where
  "evidence_of r = map_option (\<lambda>r. \<lparr>me_object_id = br_object_id r, me_payload = br_payload r\<rparr>) r"

definition metadata_unavailable :: "baseline_registration \<Rightarrow> baseline_metadata baseline_record option \<Rightarrow> time \<Rightarrow> strategy_error + bool" where
  "metadata_unavailable r known_md at = (case known_md of
     None \<Rightarrow> Inr True
   | Some row \<Rightarrow> (let md = br_payload row; ins = vm_instrument md in
       if br_payload_hash row \<noteq> bg_metadata_hash r \<or> bm_schema_version md \<noteq> ''trading.instrument-metadata.v1''
          \<or> tn_instrument_version ins \<noteq> instrument_version (bg_scope r) \<or> tn_instrument_id ins \<noteq> instrument_id (bg_scope r)
       then Inr True
       else bind_res (baselineTime (td_received_at (tn_origin ins))) (\<lambda>received.
         Inr (received > at \<or> vm_taker_fee md \<noteq> \<lparr>ta_unit = RATE, ta_decimals = 9, ta_raw = ''450000''\<rparr>
           \<or> bm_fee_basis md \<noteq> ''public_base_tier_no_discounts'' \<or> bm_account_effective md \<noteq> None
           \<or> bm_reference_version md \<noteq> ''hyperliquid-mainnet-btc.2026-09-23.1''))))"

definition context_unavailable :: "valuation \<Rightarrow> market_data baseline_record option \<Rightarrow> bool" where
  "context_unavailable finance context = (\<not> mt_usable_for_risk (va_maintenance finance)
     \<or> (case context of None \<Rightarrow> True | Some r \<Rightarrow> md_parser_version (br_payload r) \<noteq> ''hyperliquid.context-snapshot.v1''))"

definition snapshot_unavailable :: "baseline_account \<Rightarrow> valuation \<Rightarrow> time \<Rightarrow> bool" where
  "snapshot_unavailable a finance at = (rc_observed_at (ba_risk a) \<noteq> at
     \<or> rc_ledger_sequence (ba_risk a) \<noteq> last_sequence (fp_ledger (ba_projection a))
     \<or> rc_equity (ba_risk a) \<noteq> mt_equity_usd (va_maintenance finance))"

text \<open>The receipts of the current hour, latest cutoff and receipt first; the rate is the larger of its size and one basis
  point, and nothing when it is not settled, conflicting or above four percent.\<close>

definition current_receipts :: "funding_receipt baseline_record list \<Rightarrow> time \<Rightarrow> funding_receipt baseline_record list" where
  "current_receipts receipts hour = sort_key (\<lambda>f. (case fr_cutoff (br_payload f) of None \<Rightarrow> 1 | Some c \<Rightarrow> - c, - br_recorded_at f, br_object_id f))
     (filter (\<lambda>f. fr_period_hour (br_payload f) = hour) receipts)"

definition paper_rate :: "int \<Rightarrow> int option" where
  "paper_rate v = (if \<bar>v\<bar> \<le> 40000000000000000 then Some (if \<bar>v\<bar> > 100000000000000 then \<bar>v\<bar> else 100000000000000) else None)"

definition funding_rate :: "baseline_account \<Rightarrow> funding_receipt baseline_record list \<Rightarrow> time \<Rightarrow> strategy_error + int option" where
  "funding_rate a receipts at =
     (let hour = at div 3600000 * 3600000; current = current_receipts receipts hour in
      case current of
        [] \<Rightarrow> Inr None
      | row # _ \<Rightarrow> (let f = br_payload row in
          if ba_funding_usable a \<and> fr_model_version f = Some ''btc.funding.paper-precut.v2'' \<and> fr_status f = Settled
          then (case fr_cutoff f of
              None \<Rightarrow> Inr None
            | Some cutoff \<Rightarrow> bind_res (baselineTime cutoff) (\<lambda>c.
                Inr (if c \<le> at \<and> cutoff \<le> br_recorded_at row \<and> cutoff \<ge> hour
                       \<and> \<not> list_ex (\<lambda>f. fr_status (br_payload f) = funding_status.Conflict) current
                     then (case fr_rate18 f of Some v \<Rightarrow> (if \<bar>v\<bar> < 10 ^ 17 then paper_rate v else None) | None \<Rightarrow> None)
                     else None)))
          else Inr None))"

definition baselineEnvironment :: "baseline_hashes \<Rightarrow> baseline_environment \<Rightarrow> time \<Rightarrow> strategy_error + strategy_env" where
  "baselineEnvironment h e at =
     require (knownRecord (bh_account h) (Some (be_account e)) at) ACCOUNT_EVIDENCE
     (let a = br_payload (be_account e); r = be_registration e;
          md = known (bh_metadata h) (be_metadata e) at; book = known (bh_market h) (be_book e) at;
          context = known (bh_market h) (be_context e) at; capture = known (bh_capture h) (be_capture e) at;
          receipts = filter (\<lambda>f. knownRecord (bh_funding h) (Some f) at) (be_funding e)
      in require (lp_scope (fp_ledger (ba_projection a)) = bg_scope r) BASELINE_SCOPE
      (bind_res (metadata_unavailable r md at) (\<lambda>no_metadata.
       bind_res (with_error From_Valuation (valueFinancials (ba_projection a)
          \<lparr>vm_as_of = at, vm_context = evidence_of context, vm_book = evidence_of book, vm_capture = map_option br_payload capture\<rparr>)) (\<lambda>finance.
       bind_res (funding_rate a receipts at) (\<lambda>rate.
       bind_res (baselineRefs (ref_of (be_account e) # map ref_of (List.map_filter id [md]) @ map ref_of (List.map_filter id [book, context])
           @ map ref_of (List.map_filter id [capture]) @ map ref_of receipts)) (\<lambda>refs.
       Inr \<lparr>sv_causes = (if no_metadata then [''metadata_unavailable''] else [])
              @ (if cl_quality (va_closing finance) \<noteq> valuation_quality.Fresh \<or> book = None then [''book_unavailable''] else [])
              @ (if context_unavailable finance context then [''context_unavailable''] else [])
              @ (if snapshot_unavailable a finance at then [''account_snapshot_unavailable''] else [])
              @ (if \<not> ba_recovery_ready a then [''recovery_unavailable''] else [])
              @ (if rate = None then [''funding_unavailable''] else []),
            sv_refs = refs, sv_metadata = map_option br_payload md, sv_finance = finance, sv_rate = rate, sv_book = book,
            sv_account = a\<rparr>))))))"

end
