(* ===== verification/BaselinePolicy.thy ===== *)
theory BaselinePolicy
  imports BaselineInputs
begin

text \<open>
  The baseline strategy, \<open>apps/api/src/storage/baseline-policy.ts\<close>: the planned costs of an order, the size that fits
  the account, the decision of one quarter hour, and its check again before admission and execution. \<open>reasons\<close> is the
  list the source pushes to; a \<open>finish\<close> is the result with a state. \<open>lot_search\<close> of \<open>JevSizing\<close> is the same loop.
\<close>

datatype baseline_state = Disabled | Missed_Decision_Window | Data_Missing | Warming_Up | Position_Managed | Neutral
  | Candidate_Long | Candidate_Short | Rejected

record baseline_costs =
  bk_core :: int
  bk_fees :: int
  bk_exit_slippage :: int
  bk_funding :: int
  bk_budget :: int
  bk_cost :: int
  bk_distance_value :: int

record baseline_candidate =
  bc_candidate_id :: ident
  bc_direction :: baseline_direction
  bc_close :: int
  bc_atr :: int
  bc_distance :: int
  bc_lower :: int
  bc_upper :: int
  bc_stop :: int
  bc_quantity :: int
  bc_costs :: baseline_costs

record baseline_signal =
  bs_hash :: string
  bs_direction :: baseline_direction
  bs_close :: int
  bs_atr :: int
  bs_fast_mean :: int
  bs_slow_mean :: int
  bs_refs :: "baseline_ref list"

record baseline_decision =
  bd_period :: "baseline_period baseline_record option"
  bd_signal :: "baseline_signal option"
  bd_source_decision_id :: "ident option"
  bd_decision_id :: ident
  bd_decision_at :: time
  bd_bar_end_at :: time
  bd_registration :: baseline_registration
  bd_state :: baseline_state
  bd_reasons :: "string list"
  bd_direction :: "baseline_direction option"
  bd_candidate :: "baseline_candidate option"
  bd_intent :: "trading_intent option"
  bd_command :: "(ident \<times> reservation_order \<times> ioc_terms) option"
  bd_refs :: "baseline_ref list"

record decision_input = baseline_environment +
  di_decision_at :: time
  di_bar_end_at :: time
  di_hours :: baseline_bars_input
  di_quarters :: baseline_bars_input
  di_previous :: "baseline_decision option"
  di_source :: "baseline_decision option"

record policy_hashes = baseline_hashes +
  ph_signal :: "string list \<Rightarrow> time \<Rightarrow> baseline_signal \<Rightarrow> string"

section \<open>Costs and size\<close>

definition baselineCosts :: "reservation_order \<Rightarrow> int \<Rightarrow> int \<Rightarrow> strategy_error + baseline_costs" where
  "baselineCosts order rate distance = (case ro_risk_plan order of
     None \<Rightarrow> Inl MISSING_INPUT
   | Some plan \<Rightarrow>
       (let q = ro_quantity_btc order; s = stop_price_usd plan; u = ro_price_cap_usd order in
        bind_res (with_error From_Risk (plannedRisk order 5)) (\<lambda>core.
        let fees = riskCeil (q * u * 5) (10 ^ 12) + riskCeil (q * max s u * 5) (10 ^ 12);
            slippage = riskCeil (q * s * 10) (10 ^ 12);
            funding = 7 * riskCeil (q * max s u * rate) (10 ^ 26)
        in Inr \<lparr>bk_core = core, bk_fees = fees, bk_exit_slippage = slippage, bk_funding = funding,
             bk_budget = core + slippage + funding, bk_cost = fees + slippage + funding,
             bk_distance_value = riskCeil (q * distance) 100000000\<rparr>)))"

fun risk_reason_name :: "risk_reason \<Rightarrow> string" where
  "risk_reason_name External_Flow_Unvalued = ''external_flow_unvalued''"
| "risk_reason_name History_Unobserved = ''history_unobserved''"
| "risk_reason_name Accounting_Inconsistent = ''accounting_inconsistent''"
| "risk_reason_name Utc_Anchor_Unavailable = ''utc_anchor_unavailable''"
| "risk_reason_name Data_Unavailable = ''data_unavailable''"
| "risk_reason_name Daily_Loss = ''daily_loss''"
| "risk_reason_name Drawdown = ''drawdown''"

definition unique :: "string list \<Rightarrow> string list" where
  "unique xs = first_by id xs"

definition reason_if :: "bool \<Rightarrow> string \<Rightarrow> string list" where
  "reason_if b reason = (if b then [reason] else [])"

definition openingCauses :: "strategy_env \<Rightarrow> string list" where
  "openingCauses env = (let a = sv_account env; risk = ba_risk a in unique (
     reason_if (rc_state risk = HALTED \<or> \<not> ba_accounting_consistent a) ''accounting_halt''
     @ reason_if (rc_state risk \<noteq> NORMAL) ''risk_pause'' @ map risk_reason_name (rc_reasons risk)
     @ (case mt_equity_usd (va_maintenance (sv_finance env)) of
          None \<Rightarrow> []
        | Some e \<Rightarrow> reason_if (case rc_daily_anchor risk of None \<Rightarrow> True | Some d \<Rightarrow> breached e d daily_loss_bps) ''daily_loss''
            @ reason_if (breached e (rc_high_water risk) drawdown_bps) ''drawdown'')
     @ reason_if (\<not> rc_history_complete risk) ''history_unobserved'' @ reason_if (ba_hold a) ''hold'' @ reason_if (ba_entries_paused a) ''entries_paused''))"

definition finance_view :: "valuation \<Rightarrow> reservation_finance" where
  "finance_view v = (let m = va_maintenance v; p = va_projection v in
     \<lparr>rf_balance_usd = balance_usd p, rf_positions = fp_positions p, rf_usable_for_risk = mt_usable_for_risk m,
      rf_equity_usd = mt_equity_usd m, rf_mark_price = map_option (\<lambda>a. read_int (am_raw a)) (mt_mark_price m)\<rparr>)"

definition raise_cap :: "int \<Rightarrow> Reservations.reservation \<Rightarrow> Reservations.reservation" where
  "raise_cap mark r = r\<lparr>rv_order := (rv_order r)\<lparr>ro_price_cap_usd := max mark (ro_price_cap_usd (rv_order r))\<rparr>\<rparr>"

text \<open>The caps and the capacity with the order added, at the higher of mark and cap; any throw means that it does not fit.\<close>

definition require_fit :: "strategy_env \<Rightarrow> reservation_order \<Rightarrow> int \<Rightarrow> int \<Rightarrow> strategy_error + unit" where
  "require_fit env order rate distance = (let finance = finance_view (sv_finance env) in
     case (rf_equity_usd finance, rf_mark_price finance) of
       (Some equity, Some price) \<Rightarrow>
         (let mark = max price (ro_price_cap_usd order);
              pending = filter (\<lambda>r. ro_order_id (rv_order r) \<noteq> ro_order_id order) (ba_reservations (sv_account env));
              candidate = reservationHold order (ro_quantity_btc order);
              exposure = grossExposure (rf_positions finance) mark (map (raise_cap mark) (pending @ [candidate]))
          in bind_res (baselineCosts order rate distance) (\<lambda>costs.
             bind_res (with_error From_Risk (requireRiskCaps equity exposure (Some (bk_budget costs)))) (\<lambda>_.
             with_error From_Reservation (requireOpeningCapacity finance (pending @ [candidate])))))
     | _ \<Rightarrow> Inl MISSING_INPUT)"

definition fits :: "strategy_env \<Rightarrow> reservation_order \<Rightarrow> int \<Rightarrow> int \<Rightarrow> bool" where
  "fits env order rate distance = (require_fit env order rate distance = Inr ())"

definition step_of :: "baseline_metadata \<Rightarrow> int" where
  "step_of md = read_int (ta_raw (tn_quantity_step (vm_instrument md)))"

definition baselineSize :: "strategy_env \<Rightarrow> baseline_metadata \<Rightarrow> reservation_order \<Rightarrow> int \<Rightarrow> int \<Rightarrow> int" where
  "baselineSize env md order rate distance =
     (let finance = finance_view (sv_finance env); lot = step_of md;
          e = (case rf_equity_usd finance of None \<Rightarrow> 0 | Some e \<Rightarrow> e);
          mark = max (case rf_mark_price finance of None \<Rightarrow> 0 | Some m \<Rightarrow> m) (ro_price_cap_usd order)
      in if e \<le> 0 \<or> mark \<le> 0 \<or> lot \<le> 0 then 0
         else lot_search (\<lambda>lots. fits env (order\<lparr>ro_quantity_btc := lots * lot\<rparr>) rate distance) 0
           ((e * 2500 * 100000000) sdiv (10000 * mark * lot)) * lot)"

section \<open>Vetoes\<close>

definition baseline_parse :: "trading_unit \<Rightarrow> int \<Rightarrow> strategy_error + trading_amount" where
  "baseline_parse u n = with_error From_Amount (parseTradingAmount u (amount_json (amount_of u n)))"

definition constraints_at :: "baseline_metadata \<Rightarrow> int \<Rightarrow> int \<Rightarrow> strategy_error + unit" where
  "constraints_at md price quantity =
     bind_res (baseline_parse USD_PER_BTC price) (\<lambda>p.
     bind_res (baseline_parse BTC quantity) (\<lambda>q.
     with_error From_Amount (assertInstrumentOrderConstraints (order_metadata (venue_metadata.truncate md)) p q)))"

definition validOrder :: "baseline_metadata \<Rightarrow> reservation_order \<Rightarrow> strategy_error + unit" where
  "validOrder md order = (case ro_risk_plan order of
     None \<Rightarrow> Inl MISSING_INPUT
   | Some plan \<Rightarrow>
       bind_res (constraints_at md (ro_price_cap_usd order) (ro_quantity_btc order)) (\<lambda>_.
       bind_res (constraints_at md (entry_floor_usd plan) (ro_quantity_btc order)) (\<lambda>_.
       constraints_at md (stop_price_usd plan) (ro_quantity_btc order))))"

definition book_sides :: "strategy_env \<Rightarrow> (book_level list \<times> book_level list) option" where
  "book_sides env = (case sv_book env of
     None \<Rightarrow> None
   | Some r \<Rightarrow> (case md_payload (br_payload r) of Book _ bs as \<Rightarrow> Some (bs, as) | _ \<Rightarrow> None))"

definition priceCauses :: "strategy_env \<Rightarrow> baseline_candidate \<Rightarrow> string list" where
  "priceCauses env c = (case book_sides env of
     None \<Rightarrow> [''book_unavailable'']
   | Some (bs, as) \<Rightarrow>
       if cl_quality (va_closing (sv_finance env)) \<noteq> valuation_quality.Fresh then [''book_unavailable'']
       else (case if bc_direction c = Long_Trend then (as, bs) else (bs, as) of
           (entry # _, trigger # _) \<Rightarrow>
             reason_if (level_price entry < bc_lower c \<or> level_price entry > bc_upper c) ''price_protection''
             @ reason_if (if bc_direction c = Long_Trend then level_price trigger \<le> bc_stop c else level_price trigger \<ge> bc_stop c) ''stop_triggered''
             @ reason_if ((case rf_mark_price (finance_view (sv_finance env)) of None \<Rightarrow> 0 | Some m \<Rightarrow> m) > bc_upper c) ''price_cap_below_mark''
         | _ \<Rightarrow> [''book_unavailable'']))"

section \<open>The decision\<close>

text \<open>\<open>new Date(n).toISOString()\<close>: the proleptic Gregorian date of the days since 1970.\<close>

definition pad :: "nat \<Rightarrow> int \<Rightarrow> string" where
  "pad n k = (let s = show_int k in replicate (n - length s) CHR ''0'' @ s)"

definition civil_date :: "int \<Rightarrow> int \<times> int \<times> int" where
  "civil_date days =
     (let z = days + 719468; era = z div 146097; doe = z mod 146097;
          yoe = (doe - doe div 1460 + doe div 36524 - doe div 146096) div 365;
          doy = doe - (365 * yoe + yoe div 4 - yoe div 100); mp = (5 * doy + 2) div 153;
          d = doy - (153 * mp + 2) div 5 + 1; m = (if mp < 10 then mp + 3 else mp - 9)
      in (yoe + era * 400 + (if m \<le> 2 then 1 else 0), m, d))"

definition iso_string :: "time \<Rightarrow> string" where
  "iso_string n = (let (y, m, d) = civil_date (n div 86400000); ms = n mod 86400000 in
     (if 0 \<le> y \<and> y \<le> 9999 then pad 4 y else (if y < 0 then ''-'' else ''+'') @ pad 6 \<bar>y\<bar>) @ ''-'' @ pad 2 m @ ''-'' @ pad 2 d @ ''T''
     @ pad 2 (ms div 3600000) @ '':'' @ pad 2 (ms div 60000 mod 60) @ '':'' @ pad 2 (ms div 1000 mod 60) @ ''.'' @ pad 3 (ms mod 1000) @ ''Z'')"

definition decision_key :: "'a policy_hashes_scheme \<Rightarrow> baseline_registration \<Rightarrow> time \<Rightarrow> string" where
  "decision_key h r bar_end = bh_key h [account_id (bg_scope r), experiment_id (bg_scope r), bg_policy_version r,
     bg_manifest_fingerprint r, instrument_version (bg_scope r)] bar_end"

definition managed :: "strategy_env \<Rightarrow> time \<Rightarrow> bool" where
  "managed env bar_end = (let a = sv_account env in
     list_ex (\<lambda>p. quantity_btc p \<noteq> 0) (fp_positions (va_projection (sv_finance env)))
     \<or> list_ex (\<lambda>r. rv_status r = Active) (ba_reservations a) \<or> ba_exit_pending a
     \<or> (case ba_last_closed_bar a of None \<Rightarrow> False | Some b \<Rightarrow> bar_end \<le> b))"

text \<open>The reasons against a new position that do not depend on the signal.\<close>

definition gate_reasons ::
  "decision_input \<Rightarrow> strategy_env \<Rightarrow> baseline_bars_view \<Rightarrow> baseline_bars_view \<Rightarrow> time \<Rightarrow> time \<Rightarrow> time \<Rightarrow> string list" where
  "gate_reasons inp env hours quarters t at start =
     (let unavailable = sv_causes env
            @ reason_if (di_source inp = None \<and> bw_state hours = Bars_Unavailable) ''context_bars_unavailable''
            @ reason_if (di_source inp = None \<and> bw_state quarters = Bars_Unavailable) ''decision_bars_unavailable''
      in reason_if (\<not> be_enabled inp \<or> t < start \<or> t \<ge> start + 30 * 86400000) ''disabled''
         @ reason_if (at < t + 10000 \<or> at \<ge> t + 60000) ''missed_decision_window''
         @ (if unavailable \<noteq> [] then ''data_unavailable'' # unavailable else [])
         @ reason_if (di_source inp = None \<and> (bw_state hours = Bars_Warmup \<or> bw_state quarters = Bars_Warmup)) ''warmup''
         @ reason_if (managed env (di_bar_end_at inp)) ''position_managed'')"

definition source_ok :: "baseline_decision \<Rightarrow> baseline_registration \<Rightarrow> time \<Rightarrow> bool" where
  "source_ok s r bar_end = (let q = bd_registration s in
     bd_bar_end_at s = bar_end \<and> bg_policy_version q = bg_policy_version r \<and> bg_manifest_fingerprint q = bg_manifest_fingerprint r
     \<and> bg_metadata_hash q = bg_metadata_hash r \<and> instrument_version (bg_scope q) = instrument_version (bg_scope r)
     \<and> instrument_id (bg_scope q) = instrument_id (bg_scope r) \<and> account_id (bg_scope q) \<noteq> account_id (bg_scope r))"

definition close_of :: "closed_bar \<Rightarrow> int" where
  "close_of b = (case cb_ohlc b of Some o' \<Rightarrow> oh_close o' | None \<Rightarrow> 0)"

definition candle_of :: "closed_bar \<Rightarrow> candle" where
  "candle_of b = (case cb_ohlc b of
     Some o' \<Rightarrow> \<lparr>cd_open = oh_open o', cd_high = oh_high o', cd_low = oh_low o', cd_close = oh_close o'\<rparr>
   | None \<Rightarrow> \<lparr>cd_open = 0, cd_high = 0, cd_low = 0, cd_close = 0\<rparr>)"

definition own_signal ::
  "policy_hashes \<Rightarrow> baseline_registration \<Rightarrow> time \<Rightarrow> baseline_bars_view \<Rightarrow> baseline_bars_view \<Rightarrow> strategy_error + baseline_signal option" where
  "own_signal h r bar_end hours quarters =
     (if bw_state hours \<noteq> Bars_Ready \<or> bw_state quarters \<noteq> Bars_Ready then Inr None
      else let candles = map (candle_of \<circ> closed_bar.truncate) (bw_bars quarters); closes = map (close_of \<circ> closed_bar.truncate) (bw_bars hours) in
        bind_res (with_error From_Indicator (baselineTrend closes)) (\<lambda>trend.
        case baselineBreakout trend (candles ! 0) (candles ! 1) of
          None \<Rightarrow> Inr None
        | Some direction \<Rightarrow>
            bind_res (with_error From_Indicator (baselineAtr candles)) (\<lambda>atr.
            bind_res (baselineRefs (bw_refs hours @ bw_refs quarters)) (\<lambda>refs.
            let s = \<lparr>bs_hash = [], bs_direction = direction, bs_close = cd_close (candles ! 0), bs_atr = atr,
                  bs_fast_mean = foldl (+) 0 (take 4 closes) sdiv 4, bs_slow_mean = foldl (+) 0 closes sdiv 12, bs_refs = refs\<rparr>
            in Inr (Some (s\<lparr>bs_hash := ''sha256:'' @ ph_signal h [bg_policy_version r, bg_manifest_fingerprint r, instrument_version (bg_scope r)] bar_end s\<rparr>))))))"

text \<open>The signal, and the reasons found with it: a challenger follows its source's signal within five seconds.\<close>

definition signal_of ::
  "policy_hashes \<Rightarrow> decision_input \<Rightarrow> time \<Rightarrow> baseline_bars_view \<Rightarrow> baseline_bars_view \<Rightarrow> strategy_error + (baseline_signal option \<times> string list)" where
  "signal_of h inp at hours quarters = (case di_source inp of
     None \<Rightarrow> bind_res (own_signal h (be_registration inp) (di_bar_end_at inp) hours quarters) (\<lambda>s. Inr (s, []))
   | Some source \<Rightarrow>
       require (source_ok source (be_registration inp) (di_bar_end_at inp)) CHALLENGER_SOURCE_MISMATCH
       (bind_res (baselineTime (bd_decision_at source)) (\<lambda>decided.
        Inr (bd_signal source, reason_if (at < decided \<or> at \<ge> decided + 5000) ''missed_decision_window''
          @ (if bd_signal source = None \<and> bd_state source \<noteq> Neutral then [''data_unavailable'', ''source_signal_unavailable''] else [])))))"

definition blocking_state :: "string list \<Rightarrow> baseline_state option" where
  "blocking_state reasons = map_option snd (find (\<lambda>(name, _). name \<in> set reasons)
     [(''disabled'', Disabled), (''missed_decision_window'', Missed_Decision_Window), (''data_unavailable'', Data_Missing),
      (''warmup'', Warming_Up), (''position_managed'', Position_Managed)])"

definition finish :: "string list \<Rightarrow> string list \<Rightarrow> baseline_state \<Rightarrow> baseline_decision \<Rightarrow> baseline_decision" where
  "finish reasons pauses state d = d\<lparr>bd_state := state, bd_reasons := unique (reasons @ pauses)\<rparr>"

text \<open>The stop and the band of ten basis points around the close, on the venue grid.\<close>

definition price_frame :: "baseline_metadata \<Rightarrow> baseline_signal \<Rightarrow> (int \<times> int \<times> int) option" where
  "price_frame md s =
     (let c = bs_close s; distance = 2 * bs_atr s; long = (bs_direction s = Long_Trend);
          tick = read_int (ta_raw (tn_tick_size (vm_instrument md))); rules = vm_price_rules md
      in case (baselinePrice (c * 9990) 10000 Up tick rules, baselinePrice (c * 10010) 10000 Down tick rules,
               baselinePrice (if long then c - distance else c + distance) 1 (if long then Down else Up) tick rules) of
           (Some lower, Some upper, Some stop) \<Rightarrow>
             (if lower > upper \<or> (if long then stop \<ge> lower else stop \<le> upper) then None else Some (lower, upper, stop))
         | _ \<Rightarrow> None)"

definition proposed_order :: "string \<Rightarrow> baseline_direction \<Rightarrow> int \<times> int \<times> int \<Rightarrow> time \<Rightarrow> reservation_order" where
  "proposed_order name direction frame until = (case frame of (lower, upper, stop) \<Rightarrow>
     \<lparr>ro_order_id = name, ro_position_id = name, ro_source = order_source.Strategy, ro_intent = order_intent.Open,
      ro_side = (if direction = Long_Trend then Buy else Sell), ro_quantity_btc = 0, ro_price_cap_usd = upper, ro_fee_bps = 5,
      ro_valid_until = until, ro_risk_plan = Some \<lparr>stop_price_usd = stop, entry_floor_usd = lower\<rparr>\<rparr>)"

definition bar_data :: "policy_hashes \<Rightarrow> retained_bar \<Rightarrow> trading_data" where
  "bar_data h b = \<lparr>td_schema_version = trading_version, td_instrument_id = rb_instrument_id b, td_instrument_version = cb_instrument_version b,
     td_source_id = rb_source_id b, td_source_event_id = ''bar:'' @ show_int (cb_interval_ms b) @ '':'' @ iso_string (cb_end_at b),
     td_kind = Bar_Data, td_source_timestamp = cb_end_at b, td_received_at = cb_closed_at b, td_parser_version = cb_build_version b,
     td_payload_hash = bh_bar h b, td_quality = Unknown\<rparr>"

definition proposed_intent ::
  "policy_hashes \<Rightarrow> decision_input \<Rightarrow> baseline_metadata \<Rightarrow> retained_bar list \<Rightarrow> string \<Rightarrow> string \<Rightarrow> reservation_order \<Rightarrow> int \<Rightarrow> strategy_error + trading_intent" where
  "proposed_intent h inp md bars key name order limit = (let scope = bg_scope (be_registration inp) in
     bind_res (with_error From_Contract (tradingIdempotencyKey scope Intent_Key name)) (\<lambda>idempotency.
     bind_res (baseline_parse BTC (ro_quantity_btc order)) (\<lambda>quantity.
     bind_res (baseline_parse USD_PER_BTC limit) (\<lambda>price.
     with_error From_Contract (parse_intent
       \<lparr>mode = mode scope, account_id = account_id scope, experiment_id = experiment_id scope, instrument_id = instrument_id scope,
        instrument_version = instrument_version scope, ti_schema_version = trading_version, ti_intent_id = name,
        ti_idempotency_key = idempotency, ti_decision_id = key, ti_decided_at = di_decision_at inp,
        ti_origin = decision_origin.Strategy ''baseline'' baseline_policy, ti_inputs = tn_origin (vm_instrument md) # map (bar_data h) bars,
        ti_terms = \<lparr>ot_side = ro_side order, ot_quantity = quantity, ot_limit_price = price, ot_reduce_only = False,
          ot_time_in_force = IOC\<rparr>\<rparr>)))))"

definition order_vetoes ::
  "strategy_env \<Rightarrow> baseline_metadata \<Rightarrow> reservation_order \<Rightarrow> baseline_candidate \<Rightarrow> string list \<Rightarrow> string list" where
  "order_vetoes env md order c pauses =
     reason_if (bk_cost (bc_costs c) \<ge> bk_distance_value (bc_costs c)) ''cost_veto''
     @ reason_if (validOrder md order \<noteq> Inr ()) ''size_below_minimum'' @ priceCauses env c @ pauses"

text \<open>An order without veto becomes an intent and a command.\<close>

definition propose ::
  "policy_hashes \<Rightarrow> decision_input \<Rightarrow> baseline_metadata \<Rightarrow> retained_bar list \<Rightarrow> string list \<Rightarrow> string list \<Rightarrow> reservation_order
    \<Rightarrow> baseline_candidate \<Rightarrow> baseline_decision \<Rightarrow> strategy_error + baseline_decision" where
  "propose h inp md bars reasons pauses order c d =
     (let long = (bc_direction c = Long_Trend); limit = (if long then bc_upper c else bc_lower c) in
      bind_res (proposed_intent h inp md bars (bd_decision_id d) (bc_candidate_id c) order limit) (\<lambda>intent.
      case be_metadata inp of
        None \<Rightarrow> Inl MISSING_INPUT
      | Some row \<Rightarrow>
          (let terms = \<lparr>io_decision_at = di_decision_at inp, io_latency_ms = 1000, io_limit_price = limit, io_fee_metadata_id = br_object_id row\<rparr> in
           bind_res (with_error From_Command (validateIocCommand (Ioc_Submit (bc_candidate_id c) order terms))) (\<lambda>_.
           Inr (finish reasons pauses (if long then Candidate_Long else Candidate_Short)
             (d\<lparr>bd_intent := Some intent, bd_command := Some (bc_candidate_id c, order, terms)\<rparr>))))))"

definition size_candidate ::
  "policy_hashes \<Rightarrow> decision_input \<Rightarrow> strategy_env \<Rightarrow> baseline_metadata \<Rightarrow> int \<Rightarrow> retained_bar list \<Rightarrow> baseline_signal \<Rightarrow> string list
    \<Rightarrow> int \<times> int \<times> int \<Rightarrow> time \<Rightarrow> baseline_decision \<Rightarrow> strategy_error + baseline_decision" where
  "size_candidate h inp env md rate bars s reasons frame until d =
     (let pauses = openingCauses env; distance = 2 * bs_atr s; name = ''baseline:'' @ bd_decision_id d;
          order = proposed_order name (bs_direction s) frame until; quantity = baselineSize env md order rate distance;
          order = order\<lparr>ro_quantity_btc := quantity\<rparr>
      in bind_res (baselineCosts order rate distance) (\<lambda>costs.
         let c = \<lparr>bc_candidate_id = name, bc_direction = bs_direction s, bc_close = bs_close s, bc_atr = bs_atr s, bc_distance = distance,
                  bc_lower = fst frame, bc_upper = fst (snd frame), bc_stop = snd (snd frame), bc_quantity = quantity, bc_costs = costs\<rparr>;
             d = d\<lparr>bd_candidate := Some c\<rparr>; vetoes = order_vetoes env md order c pauses
         in if quantity = 0 then Inr (finish (reasons @ [''size_below_minimum'']) pauses Rejected d)
            else if vetoes \<noteq> [] then Inr (finish (reasons @ vetoes) pauses Rejected d)
            else propose h inp md bars reasons pauses order c d))"

definition decide_direction ::
  "policy_hashes \<Rightarrow> decision_input \<Rightarrow> strategy_env \<Rightarrow> time \<Rightarrow> retained_bar list \<Rightarrow> string list \<Rightarrow> baseline_decision \<Rightarrow> strategy_error + baseline_decision" where
  "decide_direction h inp env at bars reasons d = (let pauses = openingCauses env in
     case bd_signal d of
       None \<Rightarrow> Inr (finish (reasons @ [''neutral'']) pauses Neutral d)
     | Some s \<Rightarrow>
         (let d = d\<lparr>bd_direction := Some (bs_direction s)\<rparr>;
              reasons = reasons @ [if bs_direction s = Long_Trend then ''candidate_long'' else ''candidate_short'']
          in case (sv_metadata env, sv_rate env) of
               (Some md, Some rate) \<Rightarrow>
                 (if bs_atr s = 0 then Inr (finish (reasons @ [''zero_volatility'']) pauses Rejected d)
                  else case price_frame md s of
                    None \<Rightarrow> Inr (finish (reasons @ [''invalid_stop_or_band'']) pauses Rejected d)
                  | Some frame \<Rightarrow>
                      bind_res (case di_source inp of None \<Rightarrow> Inr at | Some source \<Rightarrow> baselineTime (bd_decision_at source)) (\<lambda>base.
                      bind_res (baselineIso (base + 5000)) (\<lambda>until.
                      size_candidate h inp env md rate bars s reasons frame until d)))
             | _ \<Rightarrow> Inl MISSING_INPUT))"

text \<open>A fresh decision, when none was persisted for the bar.\<close>

definition decide_fresh :: "policy_hashes \<Rightarrow> decision_input \<Rightarrow> time \<Rightarrow> time \<Rightarrow> strategy_error + baseline_decision" where
  "decide_fresh h inp t at = (let r = be_registration inp; b = baseline_hashes.truncate h in
     bind_res (baselineEnvironment b (baseline_environment.truncate inp) at) (\<lambda>env.
     bind_res (baselineBars b (di_hours inp) 3600000 12 ((at - 10000) div 3600000 * 3600000) at (instrument_version (bg_scope r))) (\<lambda>hours.
     bind_res (baselineBars b (di_quarters inp) 900000 15 t at (instrument_version (bg_scope r))) (\<lambda>quarters.
     bind_res (case be_period inp of
         None \<Rightarrow> baselineTime (bg_start_at r)
       | Some p \<Rightarrow>
           bind_res (validateBaselinePeriod b (br_payload p) r) (\<lambda>_.
           require (knownRecord (bh_period b) (Some p) at) PERIOD_EVIDENCE (baselineTime (bq_start_at (br_payload p))))) (\<lambda>start.
     bind_res (signal_of h inp at hours quarters) (\<lambda>(signal, more_reasons).
     bind_res (baselineRefs (map ref_of (List.map_filter id [be_period inp]) @ sv_refs env
         @ (case di_source inp of
              None \<Rightarrow> bw_refs hours @ bw_refs quarters
            | Some _ \<Rightarrow> (case signal of None \<Rightarrow> [] | Some s \<Rightarrow> bs_refs s)))) (\<lambda>refs.
     let reasons = gate_reasons inp env hours quarters t at start @ more_reasons;
         d = \<lparr>bd_period = be_period inp, bd_signal = signal, bd_source_decision_id = map_option bd_decision_id (di_source inp),
              bd_decision_id = decision_key h r (di_bar_end_at inp), bd_decision_at = di_decision_at inp, bd_bar_end_at = di_bar_end_at inp,
              bd_registration = r, bd_state = Neutral, bd_reasons = [], bd_direction = None, bd_candidate = None, bd_intent = None,
              bd_command = None, bd_refs = refs\<rparr>
     in case blocking_state reasons of
          Some state \<Rightarrow> Inr (finish reasons (openingCauses env) state d)
        | None \<Rightarrow> decide_direction h inp env at (bw_bars hours @ bw_bars quarters) reasons d)))))))"

definition decideBaseline :: "policy_hashes \<Rightarrow> decision_input \<Rightarrow> strategy_error + baseline_decision" where
  "decideBaseline h inp = (let r = be_registration inp in
     bind_res (validateBaselineRegistration r) (\<lambda>_.
     bind_res (baselineTime (di_bar_end_at inp)) (\<lambda>t.
     bind_res (baselineTime (di_decision_at inp)) (\<lambda>at.
     require (t mod 900000 = 0) BAR_BOUNDARY
     (case di_previous inp of
        Some previous \<Rightarrow>
          require (bd_decision_id previous = decision_key h r (di_bar_end_at inp) \<and> bh_registration h (bd_registration previous) = bh_registration h r)
            REPLAY_SCOPE (Inr previous)
      | None \<Rightarrow> decide_fresh h inp t at)))))"

section \<open>Before admission and execution\<close>

datatype check_phase = Admit | Execute_Phase

datatype readiness = Check_Rejected | Check_Waiting | Check_Ready

text \<open>A book whose source and receipt are more than a second after the decision.\<close>

definition post_latency :: "strategy_env \<Rightarrow> time \<Rightarrow> strategy_error + bool" where
  "post_latency env decided = (case sv_book env of
     None \<Rightarrow> Inr False
   | Some row \<Rightarrow> (case md_source_timestamp (br_payload row) of
       None \<Rightarrow> Inr False
     | Some source \<Rightarrow>
         bind_res (baselineTime source) (\<lambda>s.
         if s \<le> decided + 1000 then Inr False
         else bind_res (baselineTime (md_received_at (br_payload row))) (\<lambda>received. Inr (received > decided + 1000)))))"

definition taken_elsewhere :: "strategy_env \<Rightarrow> reservation_order \<Rightarrow> check_phase \<Rightarrow> bool" where
  "taken_elsewhere env order phase = (let a = sv_account env in
     list_ex (\<lambda>p. quantity_btc p \<noteq> 0) (fp_positions (va_projection (sv_finance env))) \<or> ba_exit_pending a
     \<or> list_ex (\<lambda>r. rv_status r = Active \<and> (phase = Admit \<or> ro_order_id (rv_order r) \<noteq> ro_order_id order)) (ba_reservations a))"

definition reserved :: "policy_hashes \<Rightarrow> strategy_env \<Rightarrow> reservation_order \<Rightarrow> bool" where
  "reserved h env order =
     list_ex (\<lambda>r. rv_status r = Active \<and> bh_order h (rv_order r) = bh_order h order) (ba_reservations (sv_account env))"

definition funding_causes :: "strategy_env \<Rightarrow> reservation_order \<Rightarrow> int \<Rightarrow> strategy_error + string list" where
  "funding_causes env order distance = (case sv_rate env of
     None \<Rightarrow> Inr [''risk_or_capacity_changed'']
   | Some rate \<Rightarrow> bind_res (baselineCosts order rate distance) (\<lambda>costs.
       Inr (reason_if (\<not> fits env order rate distance) ''risk_or_capacity_changed''
         @ reason_if (bk_cost costs \<ge> bk_distance_value costs) ''cost_veto'')))"

definition revalidateBaseline ::
  "policy_hashes \<Rightarrow> baseline_decision \<Rightarrow> baseline_environment \<Rightarrow> time \<Rightarrow> check_phase \<Rightarrow> strategy_error + (readiness \<times> string list \<times> baseline_ref list)" where
  "revalidateBaseline h d current now phase = (let b = baseline_hashes.truncate h in case (bd_candidate d, bd_command d, bd_intent d) of
     (Some c, Some (_, order, _), Some _) \<Rightarrow>
       require (bd_state d \<in> {Candidate_Long, Candidate_Short}) NOT_CANDIDATE
       (require (bh_registration h (bd_registration d) = bh_registration h (be_registration current)) REGISTRATION_CHANGED
       (bind_res (baselineTime now) (\<lambda>at.
        bind_res (baselineEnvironment b current at) (\<lambda>env.
        bind_res (case bd_period d of None \<Rightarrow> Inr () | Some p \<Rightarrow> validateBaselinePeriod b (br_payload p) (bd_registration d)) (\<lambda>_.
        bind_res (baselineTime (case bd_period d of Some p \<Rightarrow> bq_start_at (br_payload p) | None \<Rightarrow> bg_start_at (bd_registration d))) (\<lambda>start.
        bind_res (baselineTime (bd_decision_at d)) (\<lambda>decided.
        bind_res (if at < decided then Inr decided else baselineTime (ro_valid_until order)) (\<lambda>until.
        bind_res (funding_causes env order (bc_distance c)) (\<lambda>funding.
        bind_res (if phase = Execute_Phase then post_latency env decided else Inr True) (\<lambda>late.
        let reasons = sv_causes env @ openingCauses env @ priceCauses env c @ reason_if (\<not> be_enabled current) ''disabled''
              @ reason_if (bh_period_record h (bd_period d) \<noteq> bh_period_record h (be_period current) \<or> at < start \<or> at \<ge> start + 30 * 86400000) ''period_expired''
              @ reason_if (case ba_last_closed_bar (sv_account env) of None \<Rightarrow> False | Some x \<Rightarrow> bd_bar_end_at d \<le> x) ''same_bar_reentry''
              @ reason_if (at < decided \<or> at \<ge> until) ''intent_expired''
              @ reason_if (taken_elsewhere env order phase) ''position_managed''
              @ reason_if (phase = Execute_Phase \<and> \<not> reserved h env order) ''reservation_changed'' @ funding
              @ reason_if (case sv_metadata env of None \<Rightarrow> False | Some md \<Rightarrow> validOrder md order \<noteq> Inr ()) ''order_constraints_changed''
        in Inr (if reasons \<noteq> [] then (Check_Rejected, unique reasons, sv_refs env)
                else if \<not> late then (Check_Waiting, [''post_latency_book_required''], sv_refs env)
                else (Check_Ready, [], sv_refs env))))))))))))
   | _ \<Rightarrow> Inl NOT_CANDIDATE)"

section \<open>A candidate is admissible\<close>

lemma reason_if_Nil [simp]: "reason_if b r = [] \<longleftrightarrow> \<not> b"
  by (simp add: reason_if_def)

lemma set_first_by: "set (first_by id xs) = set xs"
  by (induction xs) auto

lemma unique_Nil [simp]: "unique xs = [] \<longleftrightarrow> xs = []"
  by (cases xs) (simp_all add: unique_def)

lemma finish_fields [simp]:
  "bd_state (finish rs ps st d) = st" "bd_command (finish rs ps st d) = bd_command d" "bd_candidate (finish rs ps st d) = bd_candidate d"
  "bd_intent (finish rs ps st d) = bd_intent d" "bd_reasons (finish rs ps st d) = unique (rs @ ps)"
  by (simp_all add: finish_def)

abbreviation candidate_state :: "baseline_state \<Rightarrow> bool" where
  "candidate_state st \<equiv> st = Candidate_Long \<or> st = Candidate_Short"

lemma propose_cases:
  assumes "propose h inp md bars reasons pauses order c d = Inr d'"
  obtains terms row where "be_metadata inp = Some row" and "bd_command d' = Some (bc_candidate_id c, order, terms)"
    and "bd_candidate d' = bd_candidate d" and "bd_state d' = (if bc_direction c = Long_Trend then Candidate_Long else Candidate_Short)"
    and "io_limit_price terms = (if bc_direction c = Long_Trend then bc_upper c else bc_lower c)" and "io_decision_at terms = di_decision_at inp"
    and "validateIocCommand (Ioc_Submit (bc_candidate_id c) order terms) = Inr ()" and "bd_reasons d' = unique (reasons @ pauses)"
  using assms by (auto simp: propose_def Let_def split: option.splits)

text \<open>What the sizing of a proposal guarantees.\<close>

definition order_sound :: "strategy_env \<Rightarrow> baseline_metadata \<Rightarrow> int \<Rightarrow> baseline_candidate \<Rightarrow> reservation_order \<Rightarrow> bool" where
  "order_sound env md rate c order = (0 < ro_quantity_btc order \<and> ro_quantity_btc order = bc_quantity c
     \<and> ro_quantity_btc order = baselineSize env md (order\<lparr>ro_quantity_btc := 0\<rparr>) rate (bc_distance c)
     \<and> ro_price_cap_usd order = bc_upper c \<and> ro_risk_plan order = Some \<lparr>stop_price_usd = bc_stop c, entry_floor_usd = bc_lower c\<rparr>
     \<and> ro_side order = (if bc_direction c = Long_Trend then Buy else Sell) \<and> ro_intent order = order_intent.Open
     \<and> baselineCosts order rate (bc_distance c) = Inr (bc_costs c) \<and> bk_cost (bc_costs c) < bk_distance_value (bc_costs c)
     \<and> validOrder md order = Inr () \<and> priceCauses env c = [])"

lemma lot_search_nonneg: "0 \<le> high \<Longrightarrow> 0 \<le> lot_search ok 0 high"
  using lot_search_ok [of 0 high ok] by simp

lemma baselineSize_nonneg: "0 \<le> baselineSize env md order rate distance"
proof -
  have "0 \<le> (e * 2500 * 100000000) sdiv (10000 * m * l)" if "0 < e" "0 < m" "0 < l" for e m l :: int
    using that by (simp add: sdiv_nonneg div_int_pos_iff)
  then show ?thesis by (auto simp: baselineSize_def Let_def intro!: mult_nonneg_nonneg lot_search_nonneg split: if_splits)
qed

lemma size_candidate_cases:
  assumes "size_candidate h inp env md rate bars s reasons frame until d = Inr d'" and "candidate_state (bd_state d')"
  obtains c order terms where "bd_command d' = Some (bc_candidate_id c, order, terms)" and "bd_candidate d' = Some c"
    and "order_sound env md rate c order" and "openingCauses env = []" and "frame = (bc_lower c, bc_upper c, bc_stop c)"
    and "bc_direction c = bs_direction s" and "bc_close c = bs_close s" and "bc_distance c = 2 * bs_atr s"
    and "io_limit_price terms = (if bc_direction c = Long_Trend then bc_upper c else bc_lower c)"
    and "bd_state d' = (if bc_direction c = Long_Trend then Candidate_Long else Candidate_Short)" and "ro_valid_until order = until"
proof -
  obtain lower upper stop where f: "frame = (lower, upper, stop)" by (cases frame)
  let ?o = "proposed_order (''baseline:'' @ bd_decision_id d) (bs_direction s) frame until"
  let ?q = "baselineSize env md ?o rate (2 * bs_atr s)"
  let ?order = "?o\<lparr>ro_quantity_btc := ?q\<rparr>"
  from assms obtain costs where costs: "baselineCosts ?order rate (2 * bs_atr s) = Inr costs"
    by (auto simp: size_candidate_def Let_def)
  define c where "c = \<lparr>bc_candidate_id = ''baseline:'' @ bd_decision_id d, bc_direction = bs_direction s, bc_close = bs_close s, bc_atr = bs_atr s,
    bc_distance = 2 * bs_atr s, bc_lower = lower, bc_upper = upper, bc_stop = stop, bc_quantity = ?q, bc_costs = costs\<rparr>"
  from assms costs have q: "?q \<noteq> 0" and v: "order_vetoes env md ?order c (openingCauses env) = []"
    and p: "propose h inp md bars reasons (openingCauses env) ?order c (d\<lparr>bd_candidate := Some c\<rparr>) = Inr d'"
    by (auto simp: size_candidate_def Let_def c_def f split: if_splits)
  have zero: "?o\<lparr>ro_quantity_btc := 0\<rparr> = ?o" by (simp add: proposed_order_def f)
  have sound: "order_sound env md rate c ?order"
    using v costs q baselineSize_nonneg [of env md ?o rate "2 * bs_atr s"]
    by (simp add: order_sound_def order_vetoes_def c_def f proposed_order_def)
  from p show thesis
    by (rule propose_cases) (rule that [of c ?order]; use sound v in \<open>auto simp: c_def f order_vetoes_def proposed_order_def\<close>)
qed

lemma decide_direction_cases:
  assumes "decide_direction h inp env at bars reasons d = Inr d'" and "candidate_state (bd_state d')"
  obtains s md rate frame until d0 reasons' where "bd_signal d = Some s" and "sv_metadata env = Some md" and "sv_rate env = Some rate"
    and "bs_atr s \<noteq> 0" and "price_frame md s = Some frame" and "size_candidate h inp env md rate bars s reasons' frame until d0 = Inr d'"
    and "until = (case di_source inp of None \<Rightarrow> at | Some source \<Rightarrow> bd_decision_at source) + 5000"
    and "bd_command d0 = bd_command d"
  using assms
  by (auto simp: decide_direction_def Let_def baselineTime_def baselineIso_def split: option.splits if_splits)

end
