(* ===== verification/BaselineSafety.thy ===== *)
theory BaselineSafety
  imports BaselinePolicy
begin

text \<open>
  What a decision of the baseline strategy guarantees: the grid and the band of its prices, the fit of its size, the
  gate that a fresh candidate has passed, and a worked market in which the strategy proposes a long order.
\<close>

text \<open>The strategy's grid is the venue's.\<close>

lemma baselinePrice_eq: "baselinePrice = venueGridPrice"
  by (intro ext) (simp add: baselinePrice_def venueGridPrice_def)



section \<open>The size fits\<close>






lemma bind_res_InrE: "bind_res r f = Inr y \<Longrightarrow> (\<And>x. r = Inr x \<Longrightarrow> f x = Inr y \<Longrightarrow> P) \<Longrightarrow> P"
  by (cases r) auto

section \<open>The decision\<close>



lemma blocking_not_candidate: "blocking_state reasons = Some st \<Longrightarrow> \<not> candidate_state st"
  by (auto simp: blocking_state_def split: if_splits)

lemma size_candidate_command:
  assumes "size_candidate h inp env md rate bars s reasons frame until d = Inr d'" and "bd_command d = None" and "bd_command d' \<noteq> None"
  shows "candidate_state (bd_state d')"
  using assms by (auto simp: size_candidate_def Let_def propose_def split: if_splits option.splits)

lemma decide_direction_command:
  assumes "decide_direction h inp env at bars reasons d = Inr d'" and "bd_command d = None" and "bd_command d' \<noteq> None"
  shows "candidate_state (bd_state d')"
  using assms by (auto simp: decide_direction_def Let_def split: option.splits if_splits dest: size_candidate_command)

lemma decide_fresh_steps:
  assumes "decide_fresh h inp t at = Inr d'"
  shows "\<exists>env hours quarters start more_reasons d reasons. bd_command d = None \<and>
    baselineEnvironment (baseline_hashes.truncate h) (baseline_environment.truncate inp) at = Inr env
    \<and> reasons = gate_reasons inp env hours quarters t at start @ more_reasons
    \<and> (case blocking_state reasons of Some st \<Rightarrow> Inr (finish reasons (openingCauses env) st d)
       | None \<Rightarrow> decide_direction h inp env at (bw_bars hours @ bw_bars quarters) reasons d) = Inr d'"
  using assms unfolding decide_fresh_def Let_def
  by (elim bind_res_InrE) (simp only: split_beta, (elim bind_res_InrE)?,
    (intro exI conjI; (assumption | rule refl | simp)))

lemma decide_fresh_command:
  assumes "decide_fresh h inp t at = Inr d'" and "bd_command d' \<noteq> None"
  shows "candidate_state (bd_state d')"
proof -
  from decide_fresh_steps [OF assms(1)] obtain env reasons bars d where d: "bd_command d = None"
    and rest: "(case blocking_state reasons of Some st \<Rightarrow> Inr (finish reasons (openingCauses env) st d)
      | None \<Rightarrow> decide_direction h inp env at bars reasons d) = Inr d'" by blast
  then show ?thesis
    using assms(2) by (cases "blocking_state reasons") (auto dest: decide_direction_command [OF _ d])
qed

lemma decide_fresh_cases:
  assumes "decide_fresh h inp t at = Inr d'" and "candidate_state (bd_state d')"
  obtains env hours quarters start more_reasons d reasons where
    "baselineEnvironment (baseline_hashes.truncate h) (baseline_environment.truncate inp) at = Inr env"
    and "reasons = gate_reasons inp env hours quarters t at start @ more_reasons" and "blocking_state reasons = None"
    and "decide_direction h inp env at (bw_bars hours @ bw_bars quarters) reasons d = Inr d'"
proof -
  from decide_fresh_steps [OF assms(1)] obtain env hours quarters start more_reasons d reasons where
    env: "baselineEnvironment (baseline_hashes.truncate h) (baseline_environment.truncate inp) at = Inr env"
    and reasons: "reasons = gate_reasons inp env hours quarters t at start @ more_reasons"
    and rest: "(case blocking_state reasons of Some st \<Rightarrow> Inr (finish reasons (openingCauses env) st d)
       | None \<Rightarrow> decide_direction h inp env at (bw_bars hours @ bw_bars quarters) reasons d) = Inr d'" by blast
  show thesis
  proof (cases "blocking_state reasons")
    case None
    with rest that [OF env reasons] show thesis by simp
  next
    case (Some st)
    with rest assms(2) blocking_not_candidate [OF Some] show thesis by auto
  qed
qed




section \<open>A worked decision\<close>

text \<open>Decimal strings evaluated on integers.\<close>

definition read_digits :: "string \<Rightarrow> int" where
  "read_digits s = foldl (\<lambda>n c. 10 * n + int (digit_val c)) 0 s"

function show_digits :: "int \<Rightarrow> string" where
  "show_digits n = (if n < 10 then [digit_char (nat n)] else show_digits (n div 10) @ [digit_char (nat (n mod 10))])"
  by auto
termination by (relation "measure nat") auto

declare show_digits.simps [simp del]

lemma read_digits_nat [code_unfold]: "int (read_nat s) = read_digits s"
  by (induction s rule: rev_induct) (simp_all add: read_digits_def)

lemma show_digits_nat: "0 \<le> n \<Longrightarrow> show_nat (nat n) = show_digits n"
proof (induction n rule: show_digits.induct)
  case (1 n)
  then show ?case
    by (subst show_nat.simps, subst show_digits.simps) (simp add: nat_div_distrib nat_mod_distrib nat_less_iff)
qed

lemma show_int_digits [code]: "show_int n = (if n < 0 then CHR ''-'' # show_digits (- n) else show_digits n)"
  by (simp add: show_int_def show_digits_nat)

lemma code_point: "(of_char c :: nat) \<le> numeral k \<longleftrightarrow> (of_char c :: int) \<le> numeral k"
  "numeral k \<le> (of_char c :: nat) \<longleftrightarrow> (numeral k :: int) \<le> of_char c"
proof -
  have "(of_char c :: int) = int (of_char c)" by (simp only: of_nat_of_char)
  moreover have "n \<le> numeral k \<longleftrightarrow> int n \<le> numeral k" "numeral k \<le> n \<longleftrightarrow> numeral k \<le> int n" for n :: nat by simp_all
  ultimately show "(of_char c :: nat) \<le> numeral k \<longleftrightarrow> (of_char c :: int) \<le> numeral k"
    "numeral k \<le> (of_char c :: nat) \<longleftrightarrow> (numeral k :: int) \<le> of_char c" by (simp_all only:)
qed

lemmas character_code [code] = is_digit_def [unfolded code_point] is_alnum_def [unfolded code_point] sha256_hex_def [unfolded code_point]

definition sample_baseline_hashes :: policy_hashes where
  "sample_baseline_hashes = (let h = replicate 64 CHR ''a'' in
     \<lparr>bh_registration = (\<lambda>_. h), bh_account = (\<lambda>_. h), bh_metadata = (\<lambda>_. h), bh_market = (\<lambda>_. h), bh_capture = (\<lambda>_. h),
      bh_funding = (\<lambda>_. h), bh_bar = (\<lambda>_. h), bh_period = (\<lambda>_. h), bh_period_record = (\<lambda>_. h), bh_order = (\<lambda>_. h),
      bh_key = (\<lambda>_ _. ''k''), bh_book = (\<lambda>_ _ _. h), ph_signal = (\<lambda>_ _ _. h)\<rparr>)"

definition sample_record :: "string \<Rightarrow> time \<Rightarrow> 'a \<Rightarrow> 'a baseline_record" where
  "sample_record name t x = \<lparr>br_object_id = name, br_payload_hash = replicate 64 CHR ''a'', br_recorded_at = t, br_payload = x\<rparr>"

definition sample_baseline_scope :: ledger_scope where
  "sample_baseline_scope = \<lparr>mode = Paper, account_id = ''a'', experiment_id = ''e'', instrument_id = ''hyperliquid:mainnet:BTC'',
     instrument_version = ''v''\<rparr>"

definition sample_registration :: baseline_registration where
  "sample_registration = \<lparr>bg_schema_version = None, bg_scope = sample_baseline_scope, bg_policy_version = baseline_policy,
     bg_manifest_fingerprint = baseline_fingerprint, bg_code_sha = replicate 40 CHR ''a'', bg_metadata_hash = replicate 64 CHR ''a'',
     bg_registered_at = 0, bg_start_at = 900000\<rparr>"

definition sample_venue :: baseline_metadata where
  "sample_venue = \<lparr>vm_instrument = sample_instrument\<lparr>tn_instrument_id := ''hyperliquid:mainnet:BTC'', tn_tick_size := amount_of USD_PER_BTC 100000,
       tn_quantity_step := amount_of BTC 1000, tn_origin := (sample_data Metadata_Data 5)\<lparr>td_instrument_id := ''hyperliquid:mainnet:BTC''\<rparr>\<rparr>,
     vm_asset_index = Integral 0, vm_price_rules = sample_rules, vm_minimum_order_notional = amount_of USD 10000000,
     vm_maker_fee = amount_of RATE 150000, vm_taker_fee = amount_of RATE 450000, bm_schema_version = ''trading.instrument-metadata.v1'',
     bm_fee_basis = ''public_base_tier_no_discounts'', bm_account_effective = None, bm_reference_version = ''hyperliquid-mainnet-btc.2026-09-23.1''\<rparr>"

definition sample_quote_event :: "string \<Rightarrow> string \<Rightarrow> string \<Rightarrow> time option \<Rightarrow> market_payload \<Rightarrow> market_data" where
  "sample_quote_event source parser channel at content = \<lparr>md_schema_version = ''trading.market-data.v1'', md_instrument_id = ''hyperliquid:mainnet:BTC'',
     md_instrument_version = ''v'', md_source_id = source, md_parser_version = parser, md_channel = channel,
     md_source_timestamp = at, md_received_at = 43209500, md_quality = ''fresh'', md_gap_epoch = 1, md_payload = content\<rparr>"

definition sample_book :: market_data where
  "sample_book = sample_quote_event ''hyperliquid:mainnet:ws'' ''hyperliquid.feed.v1'' ''book'' (Some 43209400) (Book ''full_snapshot_top_20''
     [sample_level ''59999000000'' ''100000000''] [sample_level ''60001000000'' ''100000000''])"

definition sample_context :: market_data where
  "sample_context = sample_quote_event ''hyperliquid:mainnet:info'' ''hyperliquid.context-snapshot.v1'' ''context'' None
     (Mark_Funding (sample_amount ''USD_PER_BTC'' 6 ''60000000000'') (sample_amount ''USD_PER_BTC'' 6 ''60000000000'')
       (Some \<lparr>cs_basis = ''http_response_date'', cs_requested_at = Exact 43209000, cs_received_at = Exact 43209500, cs_server_date = Exact 43209000,
          cs_cache_status = ''Miss from cloudfront'', cs_age = None, cs_raw_context = True\<rparr>))"

definition sample_account_state :: baseline_account where
  "sample_account_state = \<lparr>ba_projection = \<lparr>fp_ledger = \<lparr>lp_scope = sample_baseline_scope, last_sequence = 1, cash_usd = 1000000000, ledger_positions = []\<rparr>,
       fp_positions = [], realized_pnl_usd = 0, balance_usd = 1000000000, fees_usd = 0, funding_usd = 0\<rparr>,
     ba_risk = \<lparr>rc_state = NORMAL, rc_history_complete = True, rc_reasons = [], rc_day = 0, rc_daily_anchor = Some 1000000000,
       rc_high_water = 1000000000, rc_external_cash = 1000000000, rc_equity = Some 1000000000, rc_ledger_sequence = 1, rc_observed_at = 43210000\<rparr>,
     ba_reservations = [], ba_funding_usable = True, ba_recovery_ready = True, ba_accounting_consistent = True, ba_entries_paused = False,
     ba_hold = False, ba_exit_pending = False, ba_last_closed_bar = None\<rparr>"

definition sample_health :: valuation_capture where
  "sample_health = \<lparr>vc_at = 43209800, vc_connected = True, vc_alive = True,
     vc_channels = (\<lambda>_. Some \<lparr>ch_status = ''healthy'', ch_needs_revalidation = False, ch_gap_epoch = 1\<rparr>)\<rparr>"

definition sample_funding :: funding_receipt where
  "sample_funding = \<lparr>fr_model_version = Some ''btc.funding.paper-precut.v2'', fr_rate18 = Some 100000000000000, fr_period_hour = 43200000,
     fr_cutoff = Some 43200000, fr_status = Settled, fr_reason = ''final'', fr_basis = None, fr_oracle_usd = None, fr_positions = [],
     fr_evidence_id = ''ev''\<rparr>"

definition sample_environment :: baseline_environment where
  "sample_environment = \<lparr>be_period = None, be_enabled = True, be_registration = sample_registration,
     be_metadata = Some (sample_record ''metadata'' 10 sample_venue), be_account = sample_record ''account'' 43210000 sample_account_state,
     be_book = Some (sample_record ''book'' 43209500 sample_book), be_context = Some (sample_record ''context'' 43209500 sample_context),
     be_capture = Some (sample_record ''capture'' 43209900 sample_health), be_funding = [sample_record ''funding'' 43205000 sample_funding]\<rparr>"

text \<open>The account follows the decision of another account of the same policy, whose signal it takes.\<close>

definition sample_signal :: baseline_signal where
  "sample_signal = \<lparr>bs_hash = ''s'', bs_direction = Long_Trend, bs_close = 60000000000, bs_atr = 400000000, bs_fast_mean = 60000000000,
     bs_slow_mean = 60000000000, bs_refs = []\<rparr>"

definition sample_source :: baseline_decision where
  "sample_source = \<lparr>bd_period = None,
     bd_signal = Some sample_signal,
     bd_source_decision_id = None, bd_decision_id = ''d'', bd_decision_at = 43210000, bd_bar_end_at = 43200000,
     bd_registration = sample_registration\<lparr>bg_scope := sample_baseline_scope\<lparr>account_id := ''b''\<rparr>\<rparr>, bd_state = Candidate_Long,
     bd_reasons = [''candidate_long''], bd_direction = Some Long_Trend, bd_candidate = None, bd_intent = None, bd_command = None, bd_refs = []\<rparr>"

definition sample_decision_input :: decision_input where
  "sample_decision_input = baseline_environment.extend sample_environment \<lparr>di_decision_at = 43210000, di_bar_end_at = 43200000,
     di_hours = \<lparr>bi_records = [], bi_first_complete_start = None, bi_dependencies = []\<rparr>,
     di_quarters = \<lparr>bi_records = [], bi_first_complete_start = None, bi_dependencies = []\<rparr>, di_previous = None, di_source = Some sample_source\<rparr>"

lemma sample_hash_hex: "lower_hex_of 64 (replicate 64 CHR ''a'')" "lower_hex_of 40 (replicate 40 CHR ''a'')"
  by (simp_all add: lower_hex_of_def list_all_iff)

lemma sample_known: "knownRecord h (Some (sample_record name t x)) at
    \<longleftrightarrow> h x = replicate 64 CHR ''a'' \<and> name \<noteq> [] \<and> length name \<le> 512 \<and> time_ok t \<and> t \<le> at"
  by (auto simp: knownRecord_def sample_record_def sample_hash_hex)

definition sample_quotes :: valuation_market where
  "sample_quotes = \<lparr>vm_as_of = 43210000, vm_context = Some \<lparr>me_object_id = ''context'', me_payload = sample_context\<rparr>,
     vm_book = Some \<lparr>me_object_id = ''book'', me_payload = sample_book\<rparr>, vm_capture = Some sample_health\<rparr>"

definition sample_finances :: valuation where
  "sample_finances = projr (valueFinancials (ba_projection sample_account_state) sample_quotes)"

definition sample_wealth :: reservation_finance where
  "sample_wealth = \<lparr>rf_balance_usd = 1000000000, rf_positions = [], rf_usable_for_risk = True, rf_equity_usd = Some 1000000000,
     rf_mark_price = Some 60000000000\<rparr>"

lemma sample_valued_account:
  "valueFinancials (ba_projection sample_account_state) sample_quotes = Inr sample_finances"
proof -
  have "\<not> isl (valueFinancials (ba_projection sample_account_state) sample_quotes)" by code_simp
  then show ?thesis by (simp add: sample_finances_def)
qed

lemma sample_finances:
  "finance_view sample_finances = sample_wealth" "cl_quality (va_closing sample_finances) = valuation_quality.Fresh"
  "mt_equity_usd (va_maintenance sample_finances) = Some 1000000000"
  by code_simp+

lemma sample_metadata_available:
  "metadata_unavailable sample_registration (Some (sample_record ''metadata'' 10 sample_venue)) 43210000 = Inr False"
  by code_simp

lemma sample_funding_rate:
  "funding_rate sample_account_state [sample_record ''funding'' 43205000 sample_funding] 43210000 = Inr (Some 100000000000000)"
  by code_simp

abbreviation sample_rows :: "baseline_ref list" where
  "sample_rows \<equiv> [ref_of (sample_record ''account'' 43210000 sample_account_state), ref_of (sample_record ''metadata'' 10 sample_venue),
     ref_of (sample_record ''book'' 43209500 sample_book), ref_of (sample_record ''context'' 43209500 sample_context),
     ref_of (sample_record ''capture'' 43209900 sample_health), ref_of (sample_record ''funding'' 43205000 sample_funding)]"

definition sample_known_env :: strategy_env where
  "sample_known_env = \<lparr>sv_causes = [], sv_refs = projr (baselineRefs sample_rows), sv_metadata = Some sample_venue, sv_finance = sample_finances,
     sv_rate = Some 100000000000000, sv_book = Some (sample_record ''book'' 43209500 sample_book), sv_account = sample_account_state\<rparr>"

lemma sample_refs: "baselineRefs sample_rows = Inr (projr (baselineRefs sample_rows))"
  by (simp add: baselineRefs_def add_ref_def ref_of_def sample_record_def)

lemma sample_record_fields [simp]:
  "br_payload (sample_record name t x) = x" "br_object_id (sample_record name t x) = name"
  by (simp_all add: sample_record_def)

lemma sample_quotes_eq:
  "\<lparr>vm_as_of = 43210000, vm_context = evidence_of (Some (sample_record ''context'' 43209500 sample_context)),
     vm_book = evidence_of (Some (sample_record ''book'' 43209500 sample_book)), vm_capture = Some sample_health\<rparr> = sample_quotes"
  by (simp add: evidence_of_def sample_quotes_def)

lemma sample_environment_known:
  "baselineEnvironment (baseline_hashes.truncate sample_baseline_hashes) sample_environment 43210000 = Inr sample_known_env"
proof -
  have facts: "\<not> context_unavailable sample_finances (Some (sample_record ''context'' 43209500 sample_context))"
    "\<not> snapshot_unavailable sample_account_state sample_finances 43210000" by code_simp+
  have "ba_recovery_ready sample_account_state" "lp_scope (fp_ledger (ba_projection sample_account_state)) = bg_scope sample_registration"
    by (simp_all add: sample_account_state_def sample_registration_def)
  with facts sample_valued_account sample_refs show ?thesis
    by (simp add: baselineEnvironment_def Let_def sample_environment_def sample_known known_def sample_baseline_hashes_def baseline_hashes.truncate_def
      time_ok_def sample_metadata_available sample_funding_rate sample_known_env_def sample_finances sample_quotes_eq)
qed

section \<open>Its order\<close>

definition sample_frame :: "int \<times> int \<times> int" where
  "sample_frame = (59940000000, 60060000000, 59200000000)"

definition sample_proposed :: reservation_order where
  "sample_proposed = (proposed_order ''baseline:k'' Long_Trend sample_frame 43215000)\<lparr>ro_quantity_btc := 244000\<rparr>"

definition sample_costs :: baseline_costs where
  "sample_costs = \<lparr>bk_core = 2244948, bk_fees = 146548, bk_exit_slippage = 144448, bk_funding = 102585, bk_budget = 2491981,
     bk_cost = 393581, bk_distance_value = 1952000\<rparr>"

definition sample_chosen :: baseline_candidate where
  "sample_chosen = \<lparr>bc_candidate_id = ''baseline:k'', bc_direction = Long_Trend, bc_close = 60000000000, bc_atr = 400000000, bc_distance = 800000000,
     bc_lower = 59940000000, bc_upper = 60060000000, bc_stop = 59200000000, bc_quantity = 244000, bc_costs = sample_costs\<rparr>"

definition sample_slim :: strategy_env where
  "sample_slim = sample_known_env\<lparr>sv_refs := [], sv_book := Some \<lparr>br_object_id = ''book'', br_payload_hash = [], br_recorded_at = 0, br_payload = sample_book\<rparr>\<rparr>"

lemma same_market:
  assumes "sv_finance env = sv_finance env'" and "sv_account env = sv_account env'" and "book_sides env = book_sides env'"
  shows "baselineSize env = baselineSize env'" and "order_vetoes env = order_vetoes env'"
    and "openingCauses env = openingCauses env'" and "managed env = managed env'"
  by (intro ext | simp only: baselineSize_def fits_def require_fit_def order_vetoes_def priceCauses_def openingCauses_def managed_def assms)+

lemmas sample_slim = same_market [of sample_known_env sample_slim]

lemma sample_slim_parts [simp]:
  "sv_finance sample_known_env = sv_finance sample_slim" "sv_account sample_known_env = sv_account sample_slim" "book_sides sample_known_env = book_sides sample_slim"
  by (simp_all add: sample_slim_def sample_known_env_def book_sides_def sample_record_def)

lemma sample_quiet: "openingCauses sample_slim = []" "managed sample_slim 43200000 = False"
  by code_simp+

lemma sample_size_found: "baselineSize sample_slim sample_venue (proposed_order ''baseline:k'' Long_Trend sample_frame 43215000) 100000000000000 800000000 = 244000"
  by code_simp

lemma sample_unvetoed: "order_vetoes sample_slim sample_venue sample_proposed sample_chosen [] = []"
  by code_simp

lemma proposed_intent_input:
  assumes "be_registration inp = be_registration inp'" and "di_decision_at inp = di_decision_at inp'"
  shows "proposed_intent h inp = proposed_intent h inp'"
  by (intro ext) (simp only: proposed_intent_def assms)

definition sample_reduced_input :: decision_input where
  "sample_reduced_input = sample_decision_input\<lparr>be_metadata := None, be_account := sample_record [] 0 sample_account_state, be_book := None, be_context := None,
     be_capture := None, be_funding := [], di_source := None\<rparr>"

lemma sample_intent_built: "\<not> isl (proposed_intent sample_baseline_hashes sample_reduced_input sample_venue [] ''k'' ''baseline:k'' sample_proposed 60060000000)"
  by code_simp

lemma sample_command_valid: "validateIocCommand (Ioc_Submit ''baseline:k'' sample_proposed \<lparr>io_decision_at = 43210000, io_latency_ms = 1000, io_limit_price = 60060000000,
   io_fee_metadata_id = ''metadata''\<rparr>) = Inr ()"
  by code_simp

lemma price_frame_signal:
  assumes "bs_direction s = bs_direction s'" and "bs_close s = bs_close s'" and "bs_atr s = bs_atr s'"
  shows "price_frame md s = price_frame md s'"
  by (simp only: price_frame_def assms)

text \<open>A whole number of dollars is its own nearest price on either side.\<close>

lemma sample_price:
  assumes "0 < p" and "p < 10 ^ 38" and "1000000 dvd p" and "0 < den"
  shows "baselinePrice (p * den) den dir 100000 sample_rules = Some p"
proof -
  have grid: "grid_price 100000 (integer_prices_exempt sample_rules) 1 5 p"
    using assms(1-3) dvd_trans [of 100000 1000000 p] by (auto simp: grid_price_def sample_rules_def)
  have pos: "0 < p * den" "p * den < den * 10 ^ 38" using assms by simp_all
  show ?thesis
  proof (cases dir)
    case Up
    from grid_up_exact [OF pos(1) assms(4) _ sample_rule_digits, of 100000] grid show ?thesis
      using assms(4) by (auto simp: Up baselinePrice_eq mult.commute split: option.splits)
  next
    case Down
    have "\<exists>j. (100000 :: int) = 10 ^ j" by (rule exI [of _ 5]) simp
    with grid_down_exact [OF pos(1) assms(4) _ sample_rule_digits pos(2), of 100000] grid show ?thesis
      using assms(4) by (auto simp: Down baselinePrice_eq mult.commute split: option.splits)
  qed
qed

lemma sample_frame_priced: "price_frame sample_venue \<lparr>bs_hash = [], bs_direction = Long_Trend, bs_close = 60000000000, bs_atr = 400000000, bs_fast_mean = 0,
    bs_slow_mean = 0, bs_refs = []\<rparr> = Some sample_frame"
  using sample_price [of 59940000000 10000 Up] sample_price [of 60060000000 10000 Down] sample_price [of 59200000000 1 Down]
  by (simp add: price_frame_def sample_frame_def sample_venue_def amount_of_def)

lemma sample_costed: "baselineCosts sample_proposed 100000000000000 800000000 = Inr sample_costs"
  by code_simp

lemma sample_registered: "validateBaselineRegistration sample_registration = Inr ()"
  by code_simp


lemma sample_sides:
  "openingCauses sample_known_env = []" "managed sample_known_env 43200000 = False"
  "baselineSize sample_known_env sample_venue (proposed_order ''baseline:k'' Long_Trend sample_frame 43215000) 100000000000000 800000000 = 244000"
  "order_vetoes sample_known_env sample_venue sample_proposed sample_chosen [] = []"
  by (simp_all add: sample_slim sample_quiet sample_size_found sample_unvetoed)

lemma sample_intended:
  obtains intent where "proposed_intent sample_baseline_hashes sample_decision_input sample_venue [] ''k'' ''baseline:k'' sample_proposed 60060000000 = Inr intent"
proof -
  have "proposed_intent sample_baseline_hashes sample_decision_input = proposed_intent sample_baseline_hashes sample_reduced_input"
    by (rule proposed_intent_input) (simp_all add: sample_reduced_input_def)
  with sample_intent_built that show thesis
    by (cases "proposed_intent sample_baseline_hashes sample_decision_input sample_venue [] ''k'' ''baseline:k'' sample_proposed 60060000000") auto
qed

lemma sample_input_fields:
  "be_metadata sample_decision_input = Some (sample_record ''metadata'' 10 sample_venue)" "di_decision_at sample_decision_input = 43210000"
  "di_source sample_decision_input = Some sample_source" "bd_decision_at sample_source = 43210000"
  "sv_metadata sample_known_env = Some sample_venue" "sv_rate sample_known_env = Some 100000000000000" "sv_causes sample_known_env = []"
  "be_enabled sample_decision_input" "be_registration sample_decision_input = sample_registration" "be_period sample_decision_input = None"
  "di_bar_end_at sample_decision_input = 43200000" "di_previous sample_decision_input = None" "bd_bar_end_at sample_source = 43200000"
  by (simp_all add: sample_decision_input_def baseline_environment.extend_def sample_environment_def sample_source_def sample_known_env_def)

lemma sample_sized:
  assumes signal: "bs_direction s = Long_Trend" "bs_close s = 60000000000" "bs_atr s = 400000000" and draft: "bd_decision_id d = ''k''"
  shows "\<exists>d'. size_candidate sample_baseline_hashes sample_decision_input sample_known_env sample_venue 100000000000000 [] s reasons sample_frame 43215000 d = Inr d'
    \<and> bd_state d' = Candidate_Long"
proof -
  obtain intent where intent: "proposed_intent sample_baseline_hashes sample_decision_input sample_venue [] ''k'' ''baseline:k'' sample_proposed 60060000000 = Inr intent"
    by (rule sample_intended)
  have order: "(proposed_order ''baseline:k'' Long_Trend sample_frame 43215000)\<lparr>ro_quantity_btc := 244000\<rparr> = sample_proposed"
    by (simp add: sample_proposed_def)
  have chosen: "\<lparr>bc_candidate_id = ''baseline:k'', bc_direction = Long_Trend, bc_close = 60000000000, bc_atr = 400000000, bc_distance = 800000000,
      bc_lower = fst sample_frame, bc_upper = fst (snd sample_frame), bc_stop = snd (snd sample_frame), bc_quantity = 244000, bc_costs = sample_costs\<rparr>
      = sample_chosen"
    by (simp add: sample_chosen_def sample_frame_def)
  have fields: "bc_direction sample_chosen = Long_Trend" "bc_upper sample_chosen = 60060000000" "bc_candidate_id sample_chosen = ''baseline:k''"
    by (simp_all add: sample_chosen_def)
  show ?thesis
    by (simp add: size_candidate_def Let_def signal draft sample_sides order sample_costed chosen propose_def fields sample_input_fields intent sample_command_valid with_error_def)
qed

lemma sample_directed:
  assumes "bd_signal d = Some s" and "bd_decision_id d = ''k''"
    and signal: "bs_direction s = Long_Trend" "bs_close s = 60000000000" "bs_atr s = 400000000"
  shows "\<exists>d'. decide_direction sample_baseline_hashes sample_decision_input sample_known_env 43210000 [] [] d = Inr d' \<and> bd_state d' = Candidate_Long"
proof -
  have "price_frame sample_venue s = Some sample_frame"
    by (subst sample_frame_priced [symmetric], rule price_frame_signal) (simp_all add: signal)
  then show ?thesis
    using sample_sized [OF signal, of "d\<lparr>bd_direction := Some Long_Trend\<rparr>"] assms(1,2)
    by (simp add: decide_direction_def Let_def signal sample_input_fields baselineTime_def time_ok_def baselineIso_def)
qed

lemma sample_bars:
  "baselineBars h (di_hours sample_decision_input) 3600000 12 43200000 43210000 v = Inr \<lparr>bw_state = Bars_Unavailable, bw_bars = [], bw_refs = []\<rparr>"
  "baselineBars h (di_quarters sample_decision_input) 900000 15 43200000 43210000 v = Inr \<lparr>bw_state = Bars_Unavailable, bw_bars = [], bw_refs = []\<rparr>"
  by (simp_all add: sample_decision_input_def baseline_environment.extend_def baselineBars_def chosen_bars_def barWarmup_def readBars_def
      barStart_def latenessMs_def baselineRefs_def with_error_def)

lemma sample_keys:
  "decision_key sample_baseline_hashes r t = ''k''" "bd_signal sample_source = Some sample_signal"
  "bs_direction sample_signal = Long_Trend" "bs_close sample_signal = 60000000000"
  "bs_atr sample_signal = 400000000" "bs_refs sample_signal = []"
  "source_ok sample_source sample_registration 43200000"
  by (simp_all add: decision_key_def sample_baseline_hashes_def Let_def sample_signal_def sample_source_def source_ok_def sample_registration_def sample_baseline_scope_def)

lemma sample_view: "baseline_environment.truncate sample_decision_input = sample_environment"
  by (simp add: sample_decision_input_def baseline_environment.extend_def baseline_environment.truncate_def)

lemma sample_decided: "\<exists>d. decideBaseline sample_baseline_hashes sample_decision_input = Inr d \<and> bd_state d = Candidate_Long"
proof -
  have gates: "gate_reasons sample_decision_input sample_known_env h q 43200000 43210000 900000 = []" for h q
    by (simp add: gate_reasons_def sample_input_fields sample_sides reason_if_def)
  have start: "bg_start_at sample_registration = 900000" by (simp add: sample_registration_def)
  have "\<not> isl (baselineRefs (sv_refs sample_known_env))" by code_simp
  then obtain refs where refs: "baselineRefs (sv_refs sample_known_env) = Inr refs" by (cases "baselineRefs (sv_refs sample_known_env)") auto
  have signal: "signal_of sample_baseline_hashes sample_decision_input 43210000 h q = Inr (Some sample_signal, [])" for h q
    using sample_keys(2) by (simp add: signal_of_def sample_input_fields sample_keys baselineTime_def time_ok_def reason_if_def)
  show ?thesis
    using sample_directed [OF _ _ sample_keys(3-5)]
    by (simp add: decideBaseline_def Let_def sample_input_fields sample_registered decide_fresh_def baselineTime_def time_ok_def sample_view sample_environment_known sample_bars start
      sample_keys refs gates signal blocking_state_def)
qed


section \<open>Commands keep their contract\<close>

lemma proposed_intent_terms:
  assumes "proposed_intent h inp md bars key name order limit = Inr intent"
  shows "intent_shape intent" and "ot_side (ti_terms intent) = ro_side order" and "ot_quantity (ti_terms intent) = amount_of BTC (ro_quantity_btc order)"
    and "ot_limit_price (ti_terms intent) = amount_of USD_PER_BTC limit" and "ot_time_in_force (ti_terms intent) = IOC"
    and "\<not> ot_reduce_only (ti_terms intent)" and "ti_decided_at intent = di_decision_at inp"
  using assms
  by (auto simp: proposed_intent_def Let_def baseline_parse_def with_error_def parse_intent_def parse_amount_json_iff split: sum.splits)


lemma size_candidate_typed:
  assumes "size_candidate h inp env md rate bars s reasons frame until d = Inr d'" and "bd_command d = None" and "bd_command d' = Some (k, order, terms)"
  obtains intent where "validateIocCommand (Ioc_Submit k order terms) = Inr ()" and "bd_intent d' = Some intent"
    and "proposed_intent h inp md bars (bd_decision_id d) k order (io_limit_price terms) = Inr intent" and "io_decision_at terms = di_decision_at inp"
  using assms by (auto simp: size_candidate_def Let_def propose_def split: if_splits option.splits)

lemma candidate_has_command:
  assumes "decideBaseline h inp = Inr d" and "di_previous inp = None" and "candidate_state (bd_state d)"
  shows "bd_command d \<noteq> None"
proof -
  from assms have "decide_fresh h inp (di_bar_end_at inp) (di_decision_at inp) = Inr d"
    by (auto simp: decideBaseline_def Let_def baselineTime_def)
  from this assms(3) show ?thesis
  proof (rule decide_fresh_cases)
    fix env at bars reasons d0
    assume "decide_direction h inp env at bars reasons d0 = Inr d"
    then show ?thesis using assms(3)
    proof (rule decide_direction_cases)
      fix md rate s reasons' frame until d1
      assume "size_candidate h inp env md rate bars s reasons' frame until d1 = Inr d"
      then show ?thesis using assms(3) by (rule size_candidate_cases) simp
    qed
  qed
qed

text \<open>Every command a fresh decision carries passes the desk's contract, and it comes with an intent of the trading contract for the same side, quantity, limit and instant, immediate or cancel and not reduce-only.\<close>

theorem baseline_command_typed:
  assumes "decideBaseline h inp = Inr d" and "di_previous inp = None" and "bd_command d = Some (k, order, terms)"
  shows "validateIocCommand (Ioc_Submit k order terms) = Inr ()
    \<and> (\<exists>intent. bd_intent d = Some intent \<and> intent_shape intent \<and> ti_decided_at intent = io_decision_at terms
      \<and> ot_side (ti_terms intent) = ro_side order \<and> ot_quantity (ti_terms intent) = amount_of BTC (ro_quantity_btc order)
      \<and> ot_limit_price (ti_terms intent) = amount_of USD_PER_BTC (io_limit_price terms)
      \<and> ot_time_in_force (ti_terms intent) = IOC \<and> \<not> ot_reduce_only (ti_terms intent))"
proof -
  from assms have fresh: "decide_fresh h inp (di_bar_end_at inp) (di_decision_at inp) = Inr d"
    by (auto simp: decideBaseline_def Let_def baselineTime_def)
  with assms(3) have candidate: "candidate_state (bd_state d)" using decide_fresh_command by blast
  from decide_fresh_steps [OF fresh] obtain env reasons bars d0 where d0: "bd_command d0 = None"
    and rest: "(case blocking_state reasons of Some st \<Rightarrow> Inr (finish reasons (openingCauses env) st d0)
      | None \<Rightarrow> decide_direction h inp env (di_decision_at inp) bars reasons d0) = Inr d" by blast
  with assms(3) have "decide_direction h inp env (di_decision_at inp) bars reasons d0 = Inr d"
    by (cases "blocking_state reasons") auto
  from this candidate obtain s md rate frame until d1 reasons' where
    "size_candidate h inp env md rate bars s reasons' frame until d1 = Inr d" "bd_command d1 = None"
    by (rule decide_direction_cases) (use d0 in auto)
  then obtain intent where "validateIocCommand (Ioc_Submit k order terms) = Inr ()" "bd_intent d = Some intent"
    "proposed_intent h inp md bars (bd_decision_id d1) k order (io_limit_price terms) = Inr intent" "io_decision_at terms = di_decision_at inp"
    using assms(3) by (rule size_candidate_typed)
  then show ?thesis using proposed_intent_terms by simp
qed

theorem baseline_command_typed_witness:
  "\<exists>d k order terms. decideBaseline sample_baseline_hashes sample_decision_input = Inr d \<and> bd_command d = Some (k, order, terms)
    \<and> validateIocCommand (Ioc_Submit k order terms) = Inr ()"
proof -
  obtain d where d: "decideBaseline sample_baseline_hashes sample_decision_input = Inr d" "bd_state d = Candidate_Long" using sample_decided by blast
  then obtain k order terms where "bd_command d = Some (k, order, terms)" using candidate_has_command [OF d(1) sample_input_fields(12)] by auto
  with baseline_command_typed [OF d(1) sample_input_fields(12) this] d(1) show ?thesis by blast
qed

end
