(* ===== verification/Spec2Isabelle.thy ===== *)
theory Spec2Isabelle
  imports Broker Margin Funding Metrics PriceGrid Bars Reservations Risk Feed Baseline Fixed Evidence JevLedger
    JevSizing LiveProtection BaselineSafety
begin

text \<open>
  A development for ganso-market, a TypeScript desk for one BTC perpetual: a paper market with its own ledger and
  broker, a JEV account whose decisions a model proposes, and a live executor on Hyperliquid. The code under
  \<open>apps/api/src\<close> and \<open>packages/contracts/src\<close> is modelled by shallow embedding: a function that may throw returns
  \<open>'e + 'a\<close>, a class is a record and one definition per method, a SQL transaction is a function on the rows it reads
  and writes, and an asynchronous method is a function of a world in which every outside answer is arbitrary.

  \<^bold>\<open>The parts and how they interact.\<close>
  Venue messages enter through the feed quality machine and become closed bars, marks and books. Intents become
  orders, reservations and simulated fills; fills enter the ledger, and every financial view (projection, valuation,
  isolated margin, funding, metrics) is a fold over accepted ledger events. The risk policies read those views and gate
  new exposure. The JEV account adds ownership, a manifest, sizing, protection and a cadence. The live executor builds
  venue actions from the same sizing and protection, reserves them in a journal, signs them at most once, reconciles
  the venue's account and protects its positions.

  \<^bold>\<open>Theories and code.\<close>
  \<^item> \<open>Prelude\<close>: results, guards, folds that stop at the first throw, BigInt division, and the locales that several
    components share: reducers whose state is tied to the accepted history, total reducers, rounding up and down.
  \<^item> \<open>Decimals\<close>, \<open>Amounts\<close>, \<open>Fixed\<close>: decimal strings, \<open>money-amount.ts\<close>, \<open>trading/amount.ts\<close>, the venue order
    constraints of \<open>instrument-metadata.ts\<close> and \<open>trading/fixed.ts\<close>.
  \<^item> \<open>Contracts\<close>: \<open>packages/contracts/src/trading\<close> \<open>types.ts\<close>, \<open>schemas.ts\<close> and \<open>validation.ts\<close>.
  \<^item> \<open>Ledger\<close>, \<open>Financial\<close>, \<open>Valuation\<close>, \<open>Margin\<close>, \<open>Funding\<close>, \<open>Metrics\<close>: \<open>trading/ledger.ts\<close>, \<open>valuation.ts\<close>,
    \<open>margin.ts\<close>, \<open>funding.ts\<close>, \<open>metrics.ts\<close>. The state of a reducer is the record of its local variables.
  \<^item> \<open>Reservations\<close>, \<open>Risk\<close>, \<open>JevRisk\<close>, \<open>Broker\<close>, \<open>PriceGrid\<close>: \<open>trading/reservations.ts\<close>, \<open>risk.ts\<close>, \<open>jev-risk.ts\<close>,
    \<open>broker.ts\<close>, \<open>passive.ts\<close>, \<open>price-grid.ts\<close>.
  \<^item> \<open>Feed\<close>, \<open>Bars\<close>, \<open>Baseline\<close>, \<open>Evidence\<close>: \<open>trading/feed.ts\<close>, \<open>bars.ts\<close>, \<open>strategies/baseline.ts\<close>, \<open>indicators.ts\<close>,
    \<open>retention.ts\<close>, \<open>replay.ts\<close>.
  \<^item> \<open>Commands\<close>, \<open>BaselineInputs\<close>, \<open>BaselinePolicy\<close>, \<open>BaselineSafety\<close>: \<open>storage/reservation-contract.ts\<close>,
    \<open>broker-contract.ts\<close>, \<open>baseline-inputs.ts\<close> (with the check of \<open>baseline-periods.ts\<close>) and \<open>baseline-policy.ts\<close>: the
    validations of desk commands, the inputs of a baseline decision, the decision of a quarter hour with its check before
    execution, and what a decision that proposes an order guarantees.
  \<^item> \<open>JevScope\<close>, \<open>JevManifest\<close>, \<open>JevLedger\<close>, \<open>JevPolicy\<close>, \<open>JevSizing\<close>: \<open>packages/contracts/src/trading/jev.ts\<close> and
    \<open>storage/jev-manifest.ts\<close>, \<open>jev-ledger.ts\<close>, \<open>jev-protection.ts\<close>, \<open>jev-policy.ts\<close>, \<open>jev-sizing.ts\<close>, with
    \<open>quoteJevMaker\<close> of \<open>jev-execution-contract.ts\<close>.
  \<^item> \<open>LiveContract\<close>, \<open>LiveReconcile\<close>, \<open>LiveAction\<close>, \<open>LiveStore\<close>, \<open>LiveExecution\<close>, \<open>LiveProtection\<close>:
    \<open>venues/hyperliquid/live-contract.ts\<close>, \<open>live-reconcile.ts\<close>, \<open>live-execution.ts\<close>, \<open>live-auth.ts\<close>,
    \<open>live-protection.ts\<close> and \<open>storage/jev-live-store.ts\<close>. The journal is the rows of the executor's three tables; the
    relation \<open>store_run\<close> interleaves its transactions; a \<open>live_world\<close> holds the journal, the requests on the wire and a
    counter of outside calls. The answer to the \<open>n\<close>th outside call is the record \<open>moment\<close>, an arbitrary function of \<open>n\<close>:
    the clocks, the venue, the wallet, the wire encoding and the database may answer or throw, and a database call may
    also commit and lose its answer.

  \<^bold>\<open>What the lemmas show.\<close>
  Reducers refine closed forms of their history: balances are sums, positions are signed sums of fills, one fee and one
  genesis are ever charged, and the arrival order is irrelevant. Rounding is bounded and always against the account.
  Guards imply what they promise: reservations fit capital, exits never oversell, prices lie on the venue grid, sized
  entries keep the risk budget. State machines keep invariants along every run: the feed never reports health inside a
  gap, risk states latch, cadence cools down. For the executor: the journal is append-only, each operation is signed at
  most once whatever interleaves, each wire request left just after the operator's activation, the stored reservation,
  the lease, the clock window and the authorization of an entry were read and its action was rebuilt (\<open>gate_passed\<close>), the
  action is exactly the plan or the position, and protection is confirmed only when a snapshot of that very run shows an
  order that is a stop of the journal and covers the owned position (\<open>confirmed_safe\<close>). For the baseline: a decision that
  proposes an order passed every gate and its order is sized within every cap, and the command it emits is well typed.

  \<^bold>\<open>Interfaces.\<close>
  The locales of \<open>Prelude\<close> are interpreted by each reducer and each rounding function in its own theory; \<open>selection\<close>
  states the choice of a best price and is interpreted by the grid; \<open>effect_relation\<close> and \<open>send_relation\<close> state what a
  relation on worlds must satisfy to hold of every method of the executor, and are interpreted by the relations behind
  its two safety properties.

  \<^bold>\<open>Parameters, bounds and fuel.\<close>
  SHA-256 and canonical JSON are parameters (functions to strings); no property assumes that they are injective unless
  it says so. \<open>localeCompare\<close> is a collation key. Instants are integers in milliseconds, ordered as their ISO strings
  are; BigInt is \<open>int\<close> with truncating division; JavaScript integers are below \<open>2 ^ 53\<close> where the code checks it. No
  fuel is used: the binary search of sizing, \<open>gcd_loop\<close> and the parsers have termination proofs, and pagination is
  bounded by the code's own 24 pages.

  \<^bold>\<open>Not modelled.\<close>
  Everything that is input and output: the HTTP server, sessions, configuration, command line tools, the web
  interface, websocket and HTTP transport, timers, process supervision, migrations, and the SQL text of the stores. Of
  the live journal: \<open>register\<close>, \<open>operatorControl\<close>, \<open>recordIntervention\<close>, \<open>accountView\<close> and the pilot observation of
  \<open>save\<close>. Of the baseline: the management of its exits (\<open>baseline-exits.ts\<close>) and its stores. The model clients and the
  evaluation, promotion and replay stores are left out as well. Records replace the checks of exact key sets.
\<close>

end
